(* ===== verification/Go_Prelude.thy ===== *)
theory Go_Prelude
  imports Main "HOL-Library.Multiset"
begin

text \<open>
  Prelude of the development: the Go notions every component uses (errors, run-time panics,
  64-bit integer arithmetic, the clock) and the generic lemmas on lists and maps the
  component theories share.

  Go strings are byte sequences and are modelled by \<^typ>\<open>string\<close> (lists of 8-bit characters).
  A point in time is the number of nanoseconds since Go's zero time (January 1 of year 1, UTC),
  so that \<^verbatim>\<open>t.IsZero()\<close> is \<open>t = 0\<close>.
\<close>

section \<open>Collections of facts\<close>

named_theorems go_simps \<open>equations that evaluate the model's operations\<close>
named_theorems inv_intros \<open>preservation lemmas for the invariants of the stores\<close>

section \<open>Results, errors and panics\<close>

datatype go_error = ErrNotFound | ErrText string

text \<open>
  How a call ends that does not return: by a panic (\<open>Rejected\<close>: a library that refuses what it is given), or not at
  all (\<open>Diverges\<close>).
\<close>

datatype go_panic = Diverges | Rejected | SliceBounds | TypeAssertion | NilDeref | NilMap | CloseClosed | SendClosed

type_synonym 'a result = "go_error + 'a"

section \<open>Integers of the platform\<close>

text \<open>
  Go's \<^verbatim>\<open>int\<close> is a 64-bit two's complement integer on the platforms the program is built
  for. Values are kept as \<^typ>\<open>int\<close>; where an addition can leave the range the wrap-around
  is written out with \<open>wrap64\<close>.
\<close>

definition max_int :: int where
  "max_int = 2 ^ 63 - 1"

definition min_int :: int where
  "min_int = - (2 ^ 63)"

definition wrap64 :: "int \<Rightarrow> int" where
  "wrap64 x = (x + 2 ^ 63) mod 2 ^ 64 - 2 ^ 63"

lemma wrap64_id: "min_int \<le> x \<Longrightarrow> x \<le> max_int \<Longrightarrow> wrap64 x = x"
  by (simp add: wrap64_def min_int_def max_int_def)

lemma wrap64_range: "min_int \<le> wrap64 x \<and> wrap64 x \<le> max_int"
proof -
  have "0 \<le> (x + 2 ^ 63) mod 2 ^ 64" and "(x + 2 ^ 63) mod 2 ^ 64 < (2::int) ^ 64"
    by (rule pos_mod_sign, simp) (rule pos_mod_bound, simp)
  then show ?thesis by (simp add: wrap64_def min_int_def max_int_def)
qed

section \<open>Time\<close>

type_synonym time = int
type_synonym duration = int

abbreviation second :: duration where
  "second \<equiv> 1000000000"

abbreviation minute :: duration where
  "minute \<equiv> 60 * second"

abbreviation hour :: duration where
  "hour \<equiv> 60 * minute"

section \<open>Decimal numbers\<close>

text \<open>\<^verbatim>\<open>%d\<close> and \<^verbatim>\<open>strconv.Atoi\<close> (no error text: \<open>None\<close> for every error).\<close>

fun nat_text :: "nat \<Rightarrow> string" where
  "nat_text n = (if n < 10 then [char_of (48 + n)] else nat_text (n div 10) @ [char_of (48 + n mod 10)])"

declare nat_text.simps [simp del]

definition int_text :: "int \<Rightarrow> string" where
  "int_text i = (if i < 0 then CHR ''-'' # nat_text (nat (- i)) else nat_text (nat i))"

definition digit_value :: "char \<Rightarrow> nat option" where
  "digit_value c = (let n = of_char c in if 48 \<le> n \<and> n \<le> 57 then Some (n - 48) else None)"

fun digits_value :: "nat \<Rightarrow> string \<Rightarrow> nat option" where
  "digits_value acc [] = Some acc"
| "digits_value acc (c # cs) =
     (case digit_value c of None \<Rightarrow> None | Some d \<Rightarrow> digits_value (10 * acc + d) cs)"

definition atoi :: "string \<Rightarrow> int option" where
  "atoi s =
     (let (neg, ds) = (case s of [] \<Rightarrow> (False, [])
                       | c # cs \<Rightarrow> if c = CHR ''-'' then (True, cs) else if c = CHR ''+'' then (False, cs) else (False, s))
      in if ds = [] then None
         else case digits_value 0 ds of
           None \<Rightarrow> None
         | Some n \<Rightarrow> let v = (if neg then - int n else int n)
                     in if min_int \<le> v \<and> v \<le> max_int then Some v else None)"

lemma digit_value_char [simp]: "d < 10 \<Longrightarrow> digit_value (char_of (48 + d)) = Some d"
  by (simp add: digit_value_def)

lemma digits_value_append:
  "digits_value acc (xs @ ys) = (case digits_value acc xs of None \<Rightarrow> None | Some a \<Rightarrow> digits_value a ys)"
  by (induction xs arbitrary: acc) (auto split: option.splits)

lemma digits_value_nat_text [simp]: "digits_value 0 (nat_text n) = Some n"
proof (induction n rule: nat_text.induct)
  case (1 n)
  then show ?case
    by (subst nat_text.simps) (auto simp: digits_value_append)
qed

lemma nat_text_shape: "\<exists>d rest. nat_text n = char_of (48 + d) # rest \<and> d < (10::nat)"
proof (induction n rule: nat_text.induct)
  case (1 n)
  show ?case
  proof (cases "n < 10")
    case True
    then show ?thesis by (subst nat_text.simps) (rule exI [of _ n], simp)
  next
    case False
    with 1 obtain d rest where "nat_text (n div 10) = char_of (48 + d) # rest" "d < (10::nat)" by auto
    with False show ?thesis by (subst nat_text.simps) (intro exI [of _ d], simp)
  qed
qed

text \<open>Printing and parsing back is the identity in the range of the machine integers.\<close>

lemma atoi_int_text:
  assumes "min_int \<le> i" and "i \<le> max_int"
  shows "atoi (int_text i) = Some i"
proof -
  have c: "char_of (48 + d) \<noteq> CHR ''-'' \<and> char_of (48 + d) \<noteq> CHR ''+''" if "d < 10" for d :: nat
  proof -
    have "\<forall>d\<in>set [0..<10::nat]. char_of (48 + d) \<noteq> CHR ''-'' \<and> char_of (48 + d) \<noteq> CHR ''+''" by code_simp
    with that show ?thesis by simp
  qed
  obtain d :: nat and rest where t: "nat_text (nat i) = char_of (48 + d) # rest" "d < 10" using nat_text_shape by blast
  show ?thesis
  proof (cases "i < 0")
    case True
    have "nat_text (nat (- i)) \<noteq> []" using nat_text_shape [of "nat (- i)"] by auto
    with True assms show ?thesis by (simp add: atoi_def int_text_def Let_def)
  next
    case False
    have "digits_value 0 (char_of (48 + d) # rest) = Some (nat i)" using digits_value_nat_text [of "nat i"] t(1) by simp
    with False c [OF t(2)] assms t(1) show ?thesis by (simp add: atoi_def int_text_def Let_def del: digits_value.simps)
  qed
qed

section \<open>Lists\<close>

lemma distinct_snoc: "distinct (xs @ [x]) \<longleftrightarrow> distinct xs \<and> x \<notin> set xs"
  by auto

text \<open>Membership in the list a nest of loops runs over.\<close>

lemma in_set_concat_map: "x \<in> set (concat (map f xs)) \<longleftrightarrow> (\<exists>y\<in>set xs. x \<in> set (f y))"
  by auto

lemma in_set_map: "x \<in> set (map f xs) \<longleftrightarrow> (\<exists>y\<in>set xs. x = f y)"
  by auto

lemma count_list_distinct: "distinct xs \<Longrightarrow> count_list xs x \<le> 1"
  by (induction xs) (auto simp: count_list_0_iff)

lemma mset_remove_nth:
  "i < length xs \<Longrightarrow> add_mset (xs ! i) (mset (take i xs @ drop (Suc i) xs)) = mset xs"
  by (metis add_mset_add_single id_take_nth_drop mset.simps(2) mset_append union_mset_add_mset_right)

lemma mset_insert_at:
  "mset (take i xs @ x # drop i xs) = add_mset x (mset xs)"
  by (metis append_take_drop_id mset.simps(2) mset_append union_mset_add_mset_right)

text \<open>The first position at or after \<open>i\<close> where a predicate holds: Go's \<^verbatim>\<open>for ... break\<close>.\<close>

fun find_index :: "('a \<Rightarrow> bool) \<Rightarrow> 'a list \<Rightarrow> nat option" where
  "find_index P [] = None"
| "find_index P (x # xs) = (if P x then Some 0 else map_option Suc (find_index P xs))"

lemma find_index_None [simp]: "find_index P xs = None \<longleftrightarrow> (\<forall>x\<in>set xs. \<not> P x)"
  by (induction xs) auto

lemma find_index_SomeD:
  "find_index P xs = Some i \<Longrightarrow> i < length xs \<and> P (xs ! i) \<and> (\<forall>j<i. \<not> P (xs ! j))"
proof (induction xs arbitrary: i)
  case Nil
  then show ?case by simp
next
  case (Cons x xs)
  show ?case
  proof (cases "P x")
    case True
    with Cons.prems show ?thesis by simp
  next
    case False
    with Cons.prems obtain k where k: "find_index P xs = Some k" "i = Suc k" by auto
    with Cons.IH [OF k(1)] False show ?thesis by (auto simp: less_Suc_eq_0_disj)
  qed
qed

lemma find_index_append_hit:
  "(\<forall>x\<in>set xs. \<not> P x) \<Longrightarrow> P y \<Longrightarrow> find_index P (xs @ y # ys) = Some (length xs)"
  by (induction xs) auto

end
