(* ===== verification/Go_Float.thy ===== *)
theory Go_Float
  imports Complex_Main "HOL-Library.Log_Nat" Go_Prelude
begin

text \<open>
  Go's \<^verbatim>\<open>float64\<close>: IEEE 754 binary64 with round-to-nearest-even. A value is NaN, an infinity or
  a finite number, kept as the rational it denotes; every operation rounds its exact result with
  \<open>rnd\<close> (53 bits of significand, subnormals down to \<open>2\<^sup>-\<^sup>1\<^sup>0\<^sup>7\<^sup>4\<close>, overflow to infinity). The two
  zeros are one value: nothing the program computes with them tells them apart. Comparisons with
  NaN are false. The transcendental functions of package \<^verbatim>\<open>math\<close>, whose last bits Go does not
  fix, are the fields of the record \<open>gomath\<close>, a parameter of every definition that calls them.

  The lemmas are the ones the optimizer's termination and improvement proofs rest on: rounding is
  monotone and exact on representable numbers, adding a non-negative number never makes a value
  smaller, and a comparison of two rounded sums decides the order of the exact sums.
\<close>

section \<open>Rounding a rational to 53 bits\<close>

definition ilog2 :: "rat \<Rightarrow> int" where
  "ilog2 x = (case quotient_of x of (p, q) \<Rightarrow>
     let k = bitlen p - bitlen q in if 2 powi k \<le> x then k else k - 1)"

definition rexp :: "rat \<Rightarrow> int" where
  "rexp x = max (ilog2 \<bar>x\<bar> - 52) (- 1074)"

text \<open>Round to the nearest integer, ties to the even one.\<close>

definition rne :: "rat \<Rightarrow> int" where
  "rne x = (let f = \<lfloor>x\<rfloor>; d = x - of_int f in
     if d < 1 / 2 then f else if d > 1 / 2 then f + 1 else if even f then f else f + 1)"

definition rnd_val :: "rat \<Rightarrow> rat" where
  "rnd_val x = (if x = 0 then 0 else of_int (rne (x / 2 powi rexp x)) * 2 powi rexp x)"

lemma bitlen_powi:
  assumes "0 < p"
  shows "2 powi (bitlen p - 1) \<le> (of_int p :: rat)" and "(of_int p :: rat) < 2 powi (bitlen p)"
proof -
  have l: "2 ^ nat (bitlen p - 1) \<le> p" and u: "p < 2 ^ nat (bitlen p)"
    using bitlen_bounds [OF assms] by auto
  have b: "1 \<le> bitlen p"
  proof (rule ccontr)
    assume "\<not> 1 \<le> bitlen p"
    with u assms show False by simp
  qed
  have "(of_int (2 ^ nat (bitlen p - 1)) :: rat) \<le> of_int p" using l by (rule of_int_le_iff [THEN iffD2])
  then show "2 powi (bitlen p - 1) \<le> (of_int p :: rat)" using b by (simp add: power_int_def)
  have "(of_int p :: rat) < of_int (2 ^ nat (bitlen p))" using u by (rule of_int_less_iff [THEN iffD2])
  then show "(of_int p :: rat) < 2 powi (bitlen p)" using b by (simp add: power_int_def)
qed

lemma ilog2_bounds:
  assumes "0 < x"
  shows "2 powi (ilog2 x) \<le> x \<and> x < 2 powi (ilog2 x + 1)"
proof -
  obtain p q where pq: "quotient_of x = (p, q)" by fastforce
  have q: "0 < q" using quotient_of_denom_pos [OF pq] .
  have x: "x = of_int p / of_int q" using quotient_of_div [OF pq] .
  with assms q have p: "0 < p" by (simp add: zero_less_divide_iff)
  let ?k = "bitlen p - bitlen q"
  have "(2::rat) powi (?k - 1) * of_int q \<le> 2 powi (?k - 1) * 2 powi (bitlen q)"
    using bitlen_powi(2) [OF q] by (intro mult_left_mono) auto
  also have "\<dots> = 2 powi (bitlen p - 1)" by (simp add: power_int_add [symmetric])
  also have "\<dots> \<le> of_int p" using bitlen_powi(1) [OF p] .
  finally have lo: "2 powi (?k - 1) \<le> x" using q by (simp add: x field_simps)
  have "of_int p < (2 powi (bitlen p) :: rat)" using bitlen_powi(2) [OF p] .
  also have "\<dots> = 2 powi (?k + 1) * 2 powi (bitlen q - 1)" by (simp add: power_int_add [symmetric])
  also have "\<dots> \<le> 2 powi (?k + 1) * of_int q"
    using bitlen_powi(1) [OF q] by (intro mult_left_mono) auto
  finally have hi: "x < 2 powi (?k + 1)" using q by (simp add: x field_simps)
  show ?thesis using lo hi by (auto simp: ilog2_def pq Let_def)
qed

lemma powi_le_iff: "(2::rat) powi i \<le> 2 powi j \<longleftrightarrow> i \<le> j"
  by (metis linorder_not_le numeral_One numeral_less_iff order_less_le power_int_increasing power_int_strict_increasing semiring_norm(76))

lemma powi_less_iff: "(2::rat) powi i < 2 powi j \<longleftrightarrow> i < j"
  using powi_le_iff [of j i] by auto

lemma powi_int: "0 \<le> i \<Longrightarrow> (2::rat) powi i = of_int (2 ^ nat i)"
  by (simp add: power_int_def)

lemma ilog2_mono:
  assumes "0 < x" and "x \<le> y"
  shows "ilog2 x \<le> ilog2 y"
proof -
  have "2 powi (ilog2 x) \<le> x" "y < 2 powi (ilog2 y + 1)"
    using ilog2_bounds assms by auto
  with assms have "(2::rat) powi (ilog2 x) < 2 powi (ilog2 y + 1)" by linarith
  then show ?thesis by (simp add: powi_less_iff)
qed

lemma ilog2_less:
  assumes "0 < x" and "x < 2 powi k"
  shows "ilog2 x < k"
proof -
  have "2 powi (ilog2 x) \<le> x" using ilog2_bounds [OF assms(1)] by simp
  with assms(2) have "(2::rat) powi (ilog2 x) < 2 powi k" by linarith
  then show ?thesis by (simp add: powi_less_iff)
qed

lemma rne_of_int [simp]: "rne (of_int n) = n"
  by (simp add: rne_def)

lemma rne_cases: "rne x = \<lfloor>x\<rfloor> \<or> rne x = \<lfloor>x\<rfloor> + 1"
  by (simp add: rne_def Let_def)

lemma rne_mono:
  assumes "x \<le> y"
  shows "rne x \<le> rne y"
proof -
  have f: "\<lfloor>x\<rfloor> \<le> \<lfloor>y\<rfloor>" using assms by (rule floor_mono)
  show ?thesis
  proof (cases "\<lfloor>x\<rfloor> = \<lfloor>y\<rfloor>")
    case True
    with assms show ?thesis by (auto simp: rne_def Let_def)
  next
    case False
    with f have "\<lfloor>x\<rfloor> + 1 \<le> \<lfloor>y\<rfloor>" by simp
    with rne_cases [of x] rne_cases [of y] show ?thesis by auto
  qed
qed

lemma rne_minus: "rne (- x) = - rne x"
proof (cases "x = of_int \<lfloor>x\<rfloor>")
  case True
  then have "rne (- x) = rne (of_int (- \<lfloor>x\<rfloor>))" by simp
  also have "\<dots> = - \<lfloor>x\<rfloor>" by (rule rne_of_int)
  also have "\<dots> = - rne x" by (subst (2) True) simp
  finally show ?thesis .
next
  case False
  have "\<lceil>x\<rceil> = \<lfloor>x\<rfloor> + 1" using False by (metis ceiling_altdef)
  then have "\<lfloor>- x\<rfloor> = - \<lfloor>x\<rfloor> - 1" by (simp add: floor_minus)
  then show ?thesis by (auto simp: rne_def Let_def)
qed

lemma rexp_minus: "rexp (- x) = rexp x"
  by (simp add: rexp_def)

lemma rnd_val_minus: "rnd_val (- x) = - rnd_val x"
  by (simp add: rnd_val_def rexp_minus rne_minus)

lemma rnd_val_0 [simp]: "rnd_val 0 = 0"
  by (simp add: rnd_val_def)

lemma rnd_val_nonneg: "0 \<le> x \<Longrightarrow> 0 \<le> rnd_val x"
  using rne_mono [of 0 "x / 2 powi rexp x"] rne_of_int [of 0]
  by (auto simp: rnd_val_def)

text \<open>A multiple of the unit in the last place of \<open>x\<close> bounds \<open>rnd_val x\<close> when it bounds \<open>x\<close>.\<close>

lemma rnd_val_le_grid:
  assumes "x \<le> of_int n * 2 powi rexp x" and "x \<noteq> 0"
  shows "rnd_val x \<le> of_int n * 2 powi rexp x"
proof -
  have "x / 2 powi rexp x \<le> of_int n" using assms by (simp add: divide_le_eq)
  then have "rne (x / 2 powi rexp x) \<le> n" using rne_mono rne_of_int by metis
  then show ?thesis using assms by (simp add: rnd_val_def)
qed

lemma rnd_val_ge_grid:
  assumes "of_int n * 2 powi rexp x \<le> x" and "x \<noteq> 0"
  shows "of_int n * 2 powi rexp x \<le> rnd_val x"
proof -
  have "of_int n \<le> x / 2 powi rexp x" using assms by (simp add: le_divide_eq)
  then have "n \<le> rne (x / 2 powi rexp x)" using rne_mono rne_of_int by metis
  then show ?thesis using assms by (simp add: rnd_val_def)
qed

lemma powi_grid: "e \<le> k \<Longrightarrow> \<exists>n. (2::rat) powi k = of_int n * 2 powi e"
proof -
  assume "e \<le> k"
  then have "(2::rat) powi (k - e) = of_int (2 ^ nat (k - e))" by (intro powi_int) simp
  moreover have "(2::rat) powi k = 2 powi (k - e) * 2 powi e" by (simp flip: power_int_add)
  ultimately show ?thesis by metis
qed

lemma rnd_val_mono_pos:
  assumes "0 < x" and "x \<le> y"
  shows "rnd_val x \<le> rnd_val y"
proof (cases "rexp x = rexp y")
  case True
  have "x / 2 powi rexp x \<le> y / 2 powi rexp x" using assms by (simp add: divide_right_mono)
  then have "rne (x / 2 powi rexp x) \<le> rne (y / 2 powi rexp x)" by (rule rne_mono)
  with True assms show ?thesis by (simp add: rnd_val_def)
next
  case False
  have lm: "ilog2 x \<le> ilog2 y" using ilog2_mono [OF assms] .
  with False assms have e: "rexp x < rexp y" "rexp y = ilog2 y - 52" "ilog2 x < ilog2 y"
    by (auto simp: rexp_def max_def split: if_splits)
  let ?B = "(2::rat) powi (ilog2 y)"
  obtain m where m: "?B = of_int m * 2 powi rexp x" using powi_grid [of "rexp x" "ilog2 y"] e by auto
  obtain n where n: "?B = of_int n * 2 powi rexp y" using powi_grid [of "rexp y" "ilog2 y"] e by auto
  have "x < 2 powi (ilog2 x + 1)" using ilog2_bounds [OF assms(1)] by simp
  also have "\<dots> \<le> ?B" using e by (simp add: powi_le_iff)
  finally have "rnd_val x \<le> ?B" using rnd_val_le_grid [of x m] assms m by simp
  also have "\<dots> \<le> rnd_val y"
    using rnd_val_ge_grid [of n y] ilog2_bounds [of y] assms n by simp
  finally show ?thesis .
qed

lemma rnd_val_mono: "x \<le> y \<Longrightarrow> rnd_val x \<le> rnd_val y"
proof -
  assume xy: "x \<le> y"
  consider "0 < x" | "y < 0" | "x \<le> 0" "0 \<le> y" by linarith
  then show ?thesis
  proof cases
    case 1
    then show ?thesis using xy by (rule rnd_val_mono_pos)
  next
    case 2
    with xy have "rnd_val (- y) \<le> rnd_val (- x)" by (intro rnd_val_mono_pos) auto
    then show ?thesis by (simp add: rnd_val_minus)
  next
    case 3
    have "rnd_val x \<le> 0" using rnd_val_nonneg [of "- x"] 3 by (simp add: rnd_val_minus)
    moreover have "0 \<le> rnd_val y" using rnd_val_nonneg 3 by simp
    ultimately show ?thesis by simp
  qed
qed

section \<open>Representable numbers\<close>

definition repr :: "rat \<Rightarrow> bool" where
  "repr x \<longleftrightarrow> rnd_val x = x"

lemma rnd_val_exact:
  assumes x: "x = of_int m * 2 powi e" and m: "\<bar>m\<bar> < 2 ^ 53" and e: "- 1074 \<le> e"
  shows "rnd_val x = x"
proof (cases "x = 0")
  case True
  then show ?thesis by simp
next
  case False
  have "\<bar>x\<bar> = of_int \<bar>m\<bar> * 2 powi e" by (simp add: x abs_mult)
  also have "\<dots> < of_int (2 ^ 53) * 2 powi e" using m by (intro mult_strict_right_mono) (auto simp only: of_int_less_iff, simp)
  also have "\<dots> = 2 powi (53 + e)" by (simp add: power_int_add)
  finally have "ilog2 \<bar>x\<bar> < 53 + e" using ilog2_less [of "\<bar>x\<bar>" "53 + e"] False by simp
  then have "rexp x \<le> e" using e by (simp add: rexp_def)
  then obtain n where "(2::rat) powi e = of_int n * 2 powi rexp x" using powi_grid by blast
  then have xn: "x = of_int (m * n) * 2 powi rexp x" by (simp add: x)
  then have "x / 2 powi rexp x = of_int (m * n)" using False by (metis nonzero_mult_div_cancel_right power_int_not_zero zero_neq_numeral)
  then show ?thesis using False xn by (metis rnd_val_def rne_of_int)
qed

lemma rnd_val_of_int: "\<bar>n\<bar> < 2 ^ 53 \<Longrightarrow> rnd_val (of_int n) = of_int n"
  by (rule rnd_val_exact [of _ n 0]) auto

lemma repr_rnd_val: "repr (rnd_val x)"
proof (cases "x = 0")
  case True
  then show ?thesis by (simp add: repr_def)
next
  case False
  let ?q = "rne (x / 2 powi rexp x)" and ?e = "rexp x"
  have v: "rnd_val x = of_int ?q * 2 powi ?e" using False by (simp add: rnd_val_def)
  have e: "- 1074 \<le> ?e" by (simp add: rexp_def)
  have "\<bar>x\<bar> < 2 powi (ilog2 \<bar>x\<bar> + 1)" using ilog2_bounds [of "\<bar>x\<bar>"] False by simp
  also have "\<dots> \<le> 2 powi (53 + ?e)" by (simp add: powi_le_iff rexp_def)
  also have "\<dots> = of_int (2 ^ 53) * 2 powi ?e" by (simp add: power_int_add)
  finally have "\<bar>x / 2 powi ?e\<bar> \<le> of_int (2 ^ 53)" by (simp add: divide_le_eq)
  then have "x / 2 powi ?e \<le> of_int (2 ^ 53)" "of_int (- (2 ^ 53)) \<le> x / 2 powi ?e"
    by (simp_all only: abs_le_iff of_int_minus) linarith
  then have q: "?q \<le> 2 ^ 53" "- (2 ^ 53) \<le> ?q" by (metis rne_mono rne_of_int)+
  show ?thesis
  proof (cases "\<bar>?q\<bar> < 2 ^ 53")
    case True
    from rnd_val_exact [OF v True e] show ?thesis by (simp add: repr_def)
  next
    case False
    with q have "\<bar>?q\<bar> = 2 * 2 ^ 52" by auto
    then obtain s where s: "?q = s * 2" "\<bar>s\<bar> = 2 ^ 52" by (metis abs_eq_iff' minus_mult_left mult.commute power_abs abs_numeral abs_minus_cancel)
    have "rnd_val x = of_int s * 2 powi (?e + 1)" by (simp add: v s(1) power_int_add)
    then show ?thesis unfolding repr_def using rnd_val_exact [of "rnd_val x" s "?e + 1"] s e by simp
  qed
qed

lemma repr_0 [simp]: "repr 0"
  by (simp add: repr_def)

lemma repr_le_rnd_val: "repr x \<Longrightarrow> x \<le> y \<Longrightarrow> x \<le> rnd_val y"
  using rnd_val_mono [of x y] by (simp add: repr_def)

section \<open>The type of floating-point values\<close>

datatype f64 = NaN | PInf | NInf | Fin rat

definition rnd :: "rat \<Rightarrow> f64" where
  "rnd x = (let y = rnd_val x in
     if 2 powi 1024 \<le> y then PInf else if y \<le> - (2 powi 1024) then NInf else Fin y)"

fun f_add :: "f64 \<Rightarrow> f64 \<Rightarrow> f64" where
  "f_add (Fin a) (Fin b) = rnd (a + b)"
| "f_add NaN _ = NaN"
| "f_add _ NaN = NaN"
| "f_add PInf NInf = NaN"
| "f_add NInf PInf = NaN"
| "f_add PInf _ = PInf"
| "f_add _ PInf = PInf"
| "f_add NInf _ = NInf"
| "f_add _ NInf = NInf"

fun f_neg :: "f64 \<Rightarrow> f64" where
  "f_neg (Fin a) = Fin (- a)"
| "f_neg NaN = NaN"
| "f_neg PInf = NInf"
| "f_neg NInf = PInf"

definition f_inf :: "rat \<Rightarrow> f64" where
  "f_inf s = (if s = 0 then NaN else if 0 < s then PInf else NInf)"

fun f_sgn :: "f64 \<Rightarrow> rat" where
  "f_sgn (Fin a) = sgn a"
| "f_sgn PInf = 1"
| "f_sgn NInf = - 1"
| "f_sgn NaN = 0"

fun f_mul :: "f64 \<Rightarrow> f64 \<Rightarrow> f64" where
  "f_mul (Fin a) (Fin b) = rnd (a * b)"
| "f_mul NaN _ = NaN"
| "f_mul _ NaN = NaN"
| "f_mul a b = f_inf (f_sgn a * f_sgn b)"

fun f_div :: "f64 \<Rightarrow> f64 \<Rightarrow> f64" where
  "f_div (Fin a) (Fin b) = (if b = 0 then f_inf (sgn a) else rnd (a / b))"
| "f_div NaN _ = NaN"
| "f_div _ NaN = NaN"
| "f_div (Fin a) _ = Fin 0"
| "f_div a (Fin b) = f_inf (f_sgn a * (if b < 0 then - 1 else 1))"
| "f_div _ _ = NaN"

fun f_less :: "f64 \<Rightarrow> f64 \<Rightarrow> bool" where
  "f_less (Fin a) (Fin b) = (a < b)"
| "f_less NaN _ = False"
| "f_less _ NaN = False"
| "f_less _ NInf = False"
| "f_less PInf _ = False"
| "f_less _ _ = True"

instantiation f64 :: "{zero, one, plus, minus, uminus, times, inverse, ord}"
begin

definition zero_f64 :: f64 where "0 = Fin 0"
definition one_f64 :: f64 where "1 = Fin 1"
definition plus_f64 :: "f64 \<Rightarrow> f64 \<Rightarrow> f64" where "a + b = f_add a b"
definition uminus_f64 :: "f64 \<Rightarrow> f64" where "- a = f_neg a"
definition minus_f64 :: "f64 \<Rightarrow> f64 \<Rightarrow> f64" where "a - b = f_add a (f_neg b)"
definition times_f64 :: "f64 \<Rightarrow> f64 \<Rightarrow> f64" where "a * b = f_mul a b"
definition divide_f64 :: "f64 \<Rightarrow> f64 \<Rightarrow> f64" where "a div b = f_div a b"
definition inverse_f64 :: "f64 \<Rightarrow> f64" where "inverse a = f_div (Fin 1) a"
definition less_f64 :: "f64 \<Rightarrow> f64 \<Rightarrow> bool" where "a < b \<longleftrightarrow> f_less a b"
definition less_eq_f64 :: "f64 \<Rightarrow> f64 \<Rightarrow> bool" where "a \<le> b \<longleftrightarrow> f_less a b \<or> (a = b \<and> a \<noteq> NaN)"

instance ..

end

text \<open>Conversions, constants and the exactly defined functions of package \<^verbatim>\<open>math\<close>.\<close>

definition f_of_int :: "int \<Rightarrow> f64" where
  "f_of_int n = rnd (of_int n)"

text \<open>\<^verbatim>\<open>int(x)\<close> truncates; out of range (and for NaN) amd64 yields the least integer.\<close>

definition f_to_int :: "f64 \<Rightarrow> int" where
  "f_to_int x = (case x of
     Fin r \<Rightarrow> let t = (if 0 \<le> r then \<lfloor>r\<rfloor> else \<lceil>r\<rceil>) in
       if min_int \<le> t \<and> t \<le> max_int then t else min_int
   | _ \<Rightarrow> min_int)"

definition max_float :: f64 where
  "max_float = Fin ((2 ^ 53 - 1) * 2 ^ 971)"

definition f_max :: "f64 \<Rightarrow> f64 \<Rightarrow> f64" where
  "f_max a b = (if a = PInf \<or> b = PInf then PInf else if a = NaN \<or> b = NaN then NaN
     else if b < a then a else b)"

record gomath =
  m_sin :: "f64 \<Rightarrow> f64"
  m_cos :: "f64 \<Rightarrow> f64"
  m_sqrt :: "f64 \<Rightarrow> f64"
  m_atan2 :: "f64 \<Rightarrow> f64 \<Rightarrow> f64"
  m_exp :: "f64 \<Rightarrow> f64"

text \<open>\<^verbatim>\<open>math.Pi\<close>, an untyped constant, rounded where it meets a \<^verbatim>\<open>float64\<close>.\<close>

definition f_pi :: f64 where
  "f_pi = Fin (884279719003555 / 281474976710656)"

lemmas f64_defs = plus_f64_def minus_f64_def times_f64_def divide_f64_def uminus_f64_def
  less_f64_def less_eq_f64_def zero_f64_def one_f64_def

section \<open>Order\<close>

lemma f_irrefl [simp]: "\<not> (a::f64) < a"
  by (cases a) (auto simp: less_f64_def)

lemma f_trans: "(a::f64) < b \<Longrightarrow> b < c \<Longrightarrow> a < c"
  by (cases a; cases b; cases c) (auto simp: less_f64_def)

lemma f_asym: "(a::f64) < b \<Longrightarrow> \<not> b < a"
  by (cases a; cases b) (auto simp: less_f64_def)

lemma f_less_Fin [simp]: "Fin a < Fin b \<longleftrightarrow> a < b"
  by (simp add: less_f64_def)

lemma f_less_NaN [simp]: "\<not> NaN < a" "\<not> a < NaN"
  by (cases a; simp add: less_f64_def)+

section \<open>Values of computations\<close>

text \<open>A value is well-formed when it is a binary64 number: every result of an operation is.\<close>

fun f_wf :: "f64 \<Rightarrow> bool" where
  "f_wf (Fin a) = (repr a \<and> \<bar>a\<bar> < 2 powi 1024)"
| "f_wf _ = True"

lemma f_wf_rnd [simp]: "f_wf (rnd x)"
  using repr_rnd_val [of x] by (auto simp: rnd_def Let_def)

lemma f_wf_add [simp]: "f_wf (a + b)"
  by (cases a; cases b) (auto simp: plus_f64_def)

lemma f_wf_zero [simp]: "f_wf 0" "f_wf (Fin 0)"
  by (simp_all add: zero_f64_def)

text \<open>
  Infinities read as numbers beyond every finite sum, so that a sum that is not NaN is the
  rounding of the sum of the readings.
\<close>

fun f_val :: "f64 \<Rightarrow> rat" where
  "f_val (Fin a) = a"
| "f_val PInf = 2 powi 1027"
| "f_val NInf = - (2 powi 1027)"
| "f_val NaN = 0"

lemma rnd_val_big: "2 powi 1024 \<le> x \<Longrightarrow> 2 powi 1024 \<le> rnd_val x"
  by (rule repr_le_rnd_val) (auto simp: repr_def intro: rnd_val_exact [of _ 1 1024])

lemma rnd_PInf: "2 powi 1024 \<le> x \<Longrightarrow> rnd x = PInf"
  using rnd_val_big [of x] by (simp add: rnd_def)

lemma rnd_NInf: "x \<le> - (2 powi 1024) \<Longrightarrow> rnd x = NInf"
  using rnd_val_big [of "- x"]
  by (simp add: rnd_def rnd_val_minus Let_def)

lemma rnd_wf_val: "f_wf a \<Longrightarrow> a \<noteq> NaN \<Longrightarrow> rnd (f_val a) = a"
proof (cases a)
  case (Fin r)
  assume "f_wf a"
  then show ?thesis using Fin by (auto simp: rnd_def repr_def)
qed (auto intro: rnd_PInf rnd_NInf)

lemma rnd_less_imp: "rnd x < rnd y \<Longrightarrow> x < y"
proof (rule ccontr)
  assume l: "rnd x < rnd y" and "\<not> x < y"
  then have "rnd_val y \<le> rnd_val x" by (intro rnd_val_mono) simp
  with l show False by (auto simp: rnd_def less_f64_def Let_def split: if_splits)
qed

lemma add_rnd_val:
  assumes "f_wf a" "f_wf b" "a + b \<noteq> NaN"
  shows "a + b = rnd (f_val a + f_val b)"
proof -
  have K: "(2::rat) powi 1027 = 8 * 2 powi 1024" by simp
  show ?thesis
    using assms by (cases a; cases b)
      (auto simp: plus_f64_def K abs_less_iff simp del: power_int_numeral intro!: rnd_PInf [symmetric] rnd_NInf [symmetric])
qed

lemma sum_less_imp_val_less:
  assumes "f_wf a" "f_wf b" "f_wf a'" "f_wf b'" and "a' + b' < a + b"
  shows "f_val a' + f_val b' < f_val a + f_val b"
proof -
  have "a' + b' \<noteq> NaN" "a + b \<noteq> NaN" using assms(5) by (metis f_less_NaN)+
  with assms have "rnd (f_val a' + f_val b') < rnd (f_val a + f_val b)"
    using add_rnd_val by metis
  then show ?thesis by (rule rnd_less_imp)
qed

text \<open>Float constants of the source, rounded as the compiler rounds them.\<close>

definition lit :: "rat \<Rightarrow> f64" where
  "lit r = Fin (rnd_val r)"

lemma add_lit_less_imp:
  assumes "f_wf a" "0 \<le> e" "a + lit e < b"
  shows "a < b"
proof -
  have e: "0 \<le> rnd_val e" using assms(2) by (rule rnd_val_nonneg)
  show ?thesis
  proof (cases a)
    case (Fin r)
    with assms have r: "repr r" "\<bar>r\<bar> < 2 powi 1024" by auto
    have le: "r \<le> rnd_val (r + rnd_val e)" using e by (intro repr_le_rnd_val r) simp
    show ?thesis using assms(3) r le
      by (cases b) (auto simp: Fin lit_def plus_f64_def rnd_def less_f64_def Let_def split: if_splits)
  qed (use assms(3) in \<open>auto simp: lit_def plus_f64_def less_f64_def\<close>)
qed

lemma add_lit_sum_less_imp:
  assumes "f_wf a" "f_wf b" "f_wf a'" "f_wf b'" "0 \<le> e" and "(a' + b') + lit e < a + b"
  shows "f_val a' + f_val b' < f_val a + f_val b"
  using add_lit_less_imp [OF f_wf_add assms(5,6)] sum_less_imp_val_less assms by blast

section \<open>Finite values\<close>

text \<open>Finite values within the range of the type.\<close>

definition max_val :: rat where
  "max_val = of_int (2 ^ 53 - 1) * 2 powi 971"

fun f_finite :: "f64 \<Rightarrow> bool" where
  "f_finite (Fin r) = (repr r \<and> \<bar>r\<bar> \<le> max_val)"
| "f_finite _ = False"

lemma rne_near: "0 \<le> d \<Longrightarrow> d < 1 / 2 \<Longrightarrow> rne (of_int n + d) = n"
proof -
  assume d: "0 \<le> d" "d < 1 / 2"
  then have "\<lfloor>of_int n + d\<rfloor> = n" by linarith
  with d show ?thesis by (simp add: rne_def Let_def)
qed

lemma max_val_less: "max_val + 1 < 2 powi 1024"
proof -
  have "(1::rat) < 2 powi 971" using powi_less_iff [of 0 971] by simp
  moreover have "(2::rat) powi 1024 = of_int (2 ^ 53) * 2 powi 971" by (simp add: power_int_add [of 2 53 971, simplified] flip: power_int_add)
  ultimately show ?thesis by (simp add: max_val_def algebra_simps del: power_int_numeral)
qed

lemma max_val_ge: "2 powi 1023 \<le> max_val"
proof -
  have "(2::rat) powi 1023 = of_int (2 ^ 52) * 2 powi 971" using power_int_add [of "2::rat" 52 971] by simp
  then show ?thesis by (simp add: max_val_def del: power_int_numeral)
qed

lemma max_val_pos: "0 < max_val"
proof -
  have "(0::rat) < 2 powi 1023" by (rule zero_less_power_int) simp
  with max_val_ge show ?thesis by linarith
qed

lemma rexp_max_val:
  assumes "0 \<le> d" and "d \<le> 1"
  shows "rexp (max_val + d) = 971"
proof -
  have p: "0 < max_val + d" using assms max_val_pos by linarith
  have "ilog2 (max_val + d) < 1024" using p max_val_less assms by (intro ilog2_less) auto
  moreover have "1023 < ilog2 (max_val + d) + 1"
  proof -
    have "(2::rat) powi 1023 < 2 powi (ilog2 (max_val + d) + 1)" using ilog2_bounds [OF p] max_val_ge assms by linarith
    then show ?thesis by (simp only: powi_less_iff)
  qed
  ultimately show ?thesis using p by (simp add: rexp_def)
qed

lemma rnd_val_max_val: "0 \<le> d \<Longrightarrow> d \<le> 1 \<Longrightarrow> rnd_val (max_val + d) = max_val"
proof -
  assume d: "0 \<le> d" "d \<le> 1"
  have p: "max_val + d \<noteq> 0" using d max_val_pos by linarith
  have big: "(2::rat) < 2 powi 971" using powi_less_iff [of 1 971] by simp
  have "(max_val + d) / 2 powi 971 = of_int (2 ^ 53 - 1) + d / 2 powi 971" by (simp add: max_val_def add_divide_distrib del: power_int_numeral)
  moreover have "d / 2 powi 971 < 1 / 2" using d big by (simp add: divide_less_eq del: power_int_numeral)
  moreover have "0 \<le> d / 2 powi 971" using d by simp
  ultimately have r: "rne ((max_val + d) / 2 powi 971) = 2 ^ 53 - 1" by (metis rne_near)
  have "rnd_val (max_val + d) = of_int (rne ((max_val + d) / 2 powi 971)) * 2 powi 971"
    using p rexp_max_val [OF d] by (metis rnd_val_def)
  also have "\<dots> = max_val" by (simp only: r max_val_def [symmetric])
  finally show ?thesis .
qed

lemma f_finite_rnd:
  assumes "- max_val \<le> x" and "x \<le> max_val + 1"
  shows "f_finite (rnd x)"
proof -
  have hi: "rnd_val (max_val + 1) = max_val" "rnd_val max_val = max_val"
    using rnd_val_max_val [of 1] rnd_val_max_val [of 0] by simp_all
  have "rnd_val x \<le> max_val" using rnd_val_mono [OF assms(2)] hi by simp
  moreover have "- max_val \<le> rnd_val x" using rnd_val_mono [OF assms(1)] hi by (simp add: rnd_val_minus)
  moreover have "max_val < 2 powi 1024" using max_val_less by linarith
  ultimately show ?thesis using repr_rnd_val [of x] by (simp add: rnd_def Let_def abs_le_iff del: power_int_numeral)
qed

lemma f_finite_bounded: "f_finite (Fin r) \<Longrightarrow> rnd r = Fin r"
  using max_val_less by (auto simp: rnd_def repr_def Let_def abs_le_iff simp del: power_int_numeral)

text \<open>Adding a constant between 0 and 1, and scaling by one, stay finite.\<close>

lemma rnd_val_unit: "0 \<le> c \<Longrightarrow> c \<le> 1 \<Longrightarrow> 0 \<le> rnd_val c \<and> rnd_val c \<le> 1"
  using rnd_val_mono [of 0 c] rnd_val_mono [of c 1] rnd_val_of_int [of 1] by simp

lemma f_finite_add_lit:
  assumes "f_finite a" and "0 \<le> c" and "c \<le> 1"
  shows "f_finite (a + lit c)"
  using assms rnd_val_unit [OF assms(2,3)]
  by (cases a) (auto simp: plus_f64_def lit_def abs_le_iff intro!: f_finite_rnd)

lemma f_finite_mult_unit:
  assumes "f_finite (Fin r)" and "0 \<le> c" and "c \<le> 1"
  shows "f_finite (Fin r * Fin c)"
proof -
  have "\<bar>r * c\<bar> \<le> \<bar>r\<bar> * 1" unfolding abs_mult using assms by (intro mult_left_mono) auto
  with assms(1) have "\<bar>r * c\<bar> \<le> max_val" by simp
  then show ?thesis by (simp add: times_f64_def abs_le_iff f_finite_rnd)
qed

lemma f_mult_unit_le:
  assumes "f_finite (Fin r)" and "0 \<le> r" and "0 \<le> c" and "c \<le> 1"
  shows "Fin c * Fin r \<le> Fin r"
proof -
  have "c * r \<le> r" using mult_right_mono [OF assms(4,2)] by simp
  then have "rnd_val (c * r) \<le> r" using rnd_val_mono [of "c * r" r] assms(1) by (simp add: repr_def)
  moreover have "0 \<le> rnd_val (c * r)" using assms by (intro rnd_val_nonneg) simp
  moreover have "r < 2 powi 1024" using assms(1) max_val_less by (simp add: abs_le_iff del: power_int_numeral)
  ultimately show ?thesis
    by (auto simp: times_f64_def less_eq_f64_def rnd_def Let_def less_f64_def simp del: power_int_numeral)
qed

end
