(* ===== verification/Model_Types.thy ===== *)
theory Model_Types
  imports Go_Float
begin

text \<open>
  The domain types of \<^verbatim>\<open>internal/model/types.go\<close> and \<^verbatim>\<open>internal/store/delivery.go\<close>, one record
  per struct with the struct's fields in order. A pointer field is an \<open>option\<close> (\<^verbatim>\<open>nil\<close> is
  \<open>None\<close>); a \<^verbatim>\<open>map[string]any\<close> field that the code tests against \<^verbatim>\<open>nil\<close> is an \<open>option\<close> of
  a map; slices are lists (the code never tells a nil slice from an empty one). JSON tags are
  the encoder's concern and are not modelled.
\<close>

text \<open>The dynamic values an \<^verbatim>\<open>any\<close> holds in this program.\<close>

datatype any =
    ANil
  | ABool bool
  | AInt int
  | AFloat f64
  | AStr string
  | AInts "int list"
  | AFloats "f64 list"
  | AList "any list"
  | AObj "string \<Rightarrow> any option"

type_synonym obj = "string \<Rightarrow> any option"

record geo_point =
  gp_Lat :: f64
  gp_Lng :: f64

record time_window =
  tw_Start :: string
  tw_End :: string

record stop_in =
  si_Type :: string
  si_Address :: string
  si_Location :: "geo_point option"
  si_TimeWindow :: "time_window option"
  si_ServiceTimeSec :: int
  si_RequiredSkills :: "string list"

record order_in =
  oi_ExternalRef :: string
  oi_Priority :: int
  oi_Attributes :: "obj option"
  oi_Stops :: "stop_in list"

record freeze_spec =
  fz_Routes :: "string list"
  fz_UpToLegID :: string

record optimize_request =
  or_TenantID :: string
  or_PlanDate :: string
  or_Algorithm :: string
  or_TimeBudgetMs :: int
  or_MaxIterations :: int
  or_InitTemp :: f64
  or_Cooling :: f64
  or_RemovalWeights :: "f64 list"
  or_InsertionWeights :: "f64 list"
  or_VehiclePool :: "string list"
  or_Depots :: "string list"
  or_IncludeOrders :: "string list"
  or_Constraints :: "obj option"
  or_Objectives :: "(string \<rightharpoonup> f64) option"
  or_Reoptimize :: bool
  or_Freeze :: "freeze_spec option"

record auto_advance_policy =
  aa_Enabled :: bool
  aa_Trigger :: string
  aa_MinDwellSec :: int
  aa_RequirePoD :: bool
  aa_GracePeriodSec :: int
  aa_MovingLock :: bool
  aa_HosMaxDriveSec :: int

record leg =
  leg_ID :: string
  leg_Seq :: int
  leg_Kind :: string
  leg_BreakSec :: int
  leg_FromStopID :: string
  leg_ToStopID :: string
  leg_DistM :: int
  leg_DriveSec :: int
  leg_ETAArrival :: string
  leg_ETADeparture :: string
  leg_Status :: string

record route =
  rt_ID :: string
  rt_Version :: int
  rt_PlanDate :: string
  rt_Status :: string
  rt_DriverID :: string
  rt_VehicleID :: string
  rt_Legs :: "leg list"
  rt_CostBreakdown :: "string \<rightharpoonup> f64"
  rt_AutoAdvance :: "auto_advance_policy option"
  rt_BreaksCount :: int
  rt_TotalBreakSec :: int

text \<open>Go's zero values of the structs the store builds from parts.\<close>

definition zero_leg :: leg where
  "zero_leg = \<lparr>leg_ID = '''', leg_Seq = 0, leg_Kind = '''', leg_BreakSec = 0, leg_FromStopID = '''',
     leg_ToStopID = '''', leg_DistM = 0, leg_DriveSec = 0, leg_ETAArrival = '''',
     leg_ETADeparture = '''', leg_Status = ''''\<rparr>"

definition zero_route :: route where
  "zero_route = \<lparr>rt_ID = '''', rt_Version = 0, rt_PlanDate = '''', rt_Status = '''', rt_DriverID = '''',
     rt_VehicleID = '''', rt_Legs = [], rt_CostBreakdown = Map.empty, rt_AutoAdvance = None,
     rt_BreaksCount = 0, rt_TotalBreakSec = 0\<rparr>"

record assignment_request =
  ar_DriverID :: string
  ar_VehicleID :: string
  ar_StartAt :: string

record driver_event =
  de_Type :: string
  de_DriverID :: string
  de_RouteID :: string
  de_LegID :: string
  de_StopID :: string
  de_TS :: string
  de_Payload :: obj

record pod_media =
  pm_UploadURL :: string
  pm_SHA256 :: string

record pod_request =
  pr_TenantID :: string
  pr_OrderID :: string
  pr_StopID :: string
  pr_Type :: string
  pr_Media :: "pod_media option"
  pr_Metadata :: "obj option"

record subscription_request =
  sr_TenantID :: string
  sr_URL :: string
  sr_Events :: "string list"
  sr_Secret :: string

record subscription =
  sub_ID :: string
  sub_TenantID :: string
  sub_URL :: string
  sub_Events :: "string list"
  sub_Secret :: string

record order_out =
  oo_ID :: string
  oo_TenantID :: string
  oo_ExternalRef :: string
  oo_Priority :: int
  oo_Status :: string

definition zero_order_out :: order_out where
  "zero_order_out = \<lparr>oo_ID = '''', oo_TenantID = '''', oo_ExternalRef = '''', oo_Priority = 0,
     oo_Status = ''''\<rparr>"

record route_patch =
  rp_Status :: string
  rp_LockedUntil :: string
  rp_AutoAdvance :: "auto_advance_policy option"

record advance_request =
  av_Reason :: string
  av_Force :: bool

record advance_result =
  ad_RouteID :: string
  ad_FromLegID :: string
  ad_FromStopID :: string
  ad_ToLegID :: string
  ad_ToStopID :: string
  ad_TS :: string
  ad_Changed :: bool

record policy_alert =
  pa_Reason :: string
  pa_TS :: string

record advance_response =
  resp_Result :: advance_result
  resp_Route :: route
  resp_Alerts :: "policy_alert list"

record hos_update =
  hu_Action :: string
  hu_TS :: string
  hu_Type :: string
  hu_Note :: string

record geofence_input =
  gi_Name :: string
  gi_Type :: string
  gi_RadiusM :: int
  gi_Center :: "geo_point option"
  gi_Rules :: "obj option"

record geofence =
  gf_ID :: string
  gf_TenantID :: string
  gf_Name :: string
  gf_Type :: string
  gf_RadiusM :: int
  gf_Center :: "geo_point option"
  gf_Rules :: "obj option"

definition zero_geofence :: geofence where
  "zero_geofence = \<lparr>gf_ID = '''', gf_TenantID = '''', gf_Name = '''', gf_Type = '''', gf_RadiusM = 0,
     gf_Center = None, gf_Rules = None\<rparr>"

record presign_request =
  ps_TenantID :: string
  ps_FileName :: string
  ps_ContentType :: string
  ps_Bytes :: int
  ps_SHA256 :: string

text \<open>\<^verbatim>\<open>store.WebhookDelivery\<close>: what the webhook worker sees of a queued delivery.\<close>

record webhook_delivery =
  wd_ID :: string
  wd_TenantID :: string
  wd_SubscriptionID :: string
  wd_EventType :: string
  wd_URL :: string
  wd_Secret :: string
  wd_Payload :: string
  wd_Status :: string
  wd_Attempts :: int

end
