(* ===== verification/Tenant_Index.thy ===== *)
theory Tenant_Index
  imports Go_Prelude
begin

text \<open>
  The store keeps its orders, geofences and deliveries twice: a table by id, and for each tenant
  the list of the tenant's ids in creation order. \<open>indexed\<close> says that the two agree; the lemmas
  say which updates of the pair keep it. Every create, patch and delete of the store is one of
  them.
\<close>

definition indexed :: "('v \<Rightarrow> string) \<Rightarrow> ('v \<Rightarrow> string) \<Rightarrow> (string \<Rightarrow> 'v option) \<Rightarrow> (string \<Rightarrow> string list) \<Rightarrow> bool" where
  "indexed ident owner tab idx \<longleftrightarrow>
     (\<forall>t. distinct (idx t)) \<and>
     (\<forall>t k. k \<in> set (idx t) \<longleftrightarrow> (\<exists>v. tab k = Some v \<and> owner v = t)) \<and>
     (\<forall>k v. tab k = Some v \<longrightarrow> ident v = k \<and> k \<noteq> '''')"

lemma indexed_empty: "indexed ident owner Map.empty (\<lambda>_. [])"
  by (simp add: indexed_def)

lemma indexed_insert:
  assumes "indexed ident owner tab idx" and "tab k = None" and "k \<noteq> ''''"
    and "ident v = k" and "owner v = t"
  shows "indexed ident owner (tab(k \<mapsto> v)) (idx(t := idx t @ [k]))"
proof -
  have "k \<notin> set (idx t')" for t' using assms(1,2) by (simp add: indexed_def)
  with assms show ?thesis by (auto simp: indexed_def)
qed

lemma indexed_update:
  assumes "indexed ident owner tab idx" and "tab k = Some v"
    and "ident v' = ident v" and "owner v' = owner v"
  shows "indexed ident owner (tab(k \<mapsto> v')) idx"
  using assms by (auto simp: indexed_def)

lemma indexed_delete:
  assumes "indexed ident owner tab idx" and "tab k = Some v" and "owner v = t"
  shows "indexed ident owner (tab(k := None)) (idx(t := filter (\<lambda>x. x \<noteq> k) (idx t)))"
proof -
  have "k \<in> set (idx t') \<longleftrightarrow> t' = t" for t' using assms by (auto simp: indexed_def)
  with assms show ?thesis by (auto simp: indexed_def)
qed

lemma indexed_distinct: "indexed ident owner tab idx \<Longrightarrow> distinct (idx t)"
  by (simp add: indexed_def)

lemma indexed_nonempty: "indexed ident owner tab idx \<Longrightarrow> '''' \<notin> set (idx t)"
  by (auto simp: indexed_def)

lemma indexed_lookup:
  "indexed ident owner tab idx \<Longrightarrow> k \<in> set (idx t) \<Longrightarrow> \<exists>v. tab k = Some v \<and> ident v = k \<and> owner v = t"
  by (auto simp: indexed_def)

text \<open>Reading the table along a tenant's index shows values with the ids of the index.\<close>

lemma indexed_idents:
  assumes "indexed ident owner tab idx"
  shows "map (\<lambda>k. ident (case tab k of None \<Rightarrow> z | Some v \<Rightarrow> v)) (idx t) = idx t"
proof (rule map_idI)
  fix k
  assume "k \<in> set (idx t)"
  from indexed_lookup [OF assms this] obtain v where "tab k = Some v" "ident v = k" by blast
  then show "ident (case tab k of None \<Rightarrow> z | Some v \<Rightarrow> v) = k" by simp
qed

lemma indexed_member:
  "indexed ident owner tab idx \<Longrightarrow> tab k = Some v \<Longrightarrow> k \<in> set (idx (owner v)) \<and> ident v = k \<and> k \<noteq> ''''"
  by (auto simp: indexed_def)

lemma indexed_values:
  assumes "indexed ident owner tab idx"
  shows "(\<lambda>k. case tab k of None \<Rightarrow> z | Some v \<Rightarrow> v) ` set (idx t) = {v. \<exists>k. tab k = Some v \<and> owner v = t}"
proof (intro set_eqI iffI)
  fix v
  assume "v \<in> (\<lambda>k. case tab k of None \<Rightarrow> z | Some v \<Rightarrow> v) ` set (idx t)"
  then obtain k where "k \<in> set (idx t)" "v = (case tab k of None \<Rightarrow> z | Some v \<Rightarrow> v)" by blast
  with indexed_lookup [OF assms this(1)] show "v \<in> {v. \<exists>k. tab k = Some v \<and> owner v = t}" by auto
next
  fix v
  assume "v \<in> {v. \<exists>k. tab k = Some v \<and> owner v = t}"
  then obtain k where k: "tab k = Some v" "owner v = t" by blast
  with indexed_member [OF assms k(1)] show "v \<in> (\<lambda>k. case tab k of None \<Rightarrow> z | Some v \<Rightarrow> v) ` set (idx t)"
    by (intro image_eqI [of _ _ k]) auto
qed

end
