(* ===== verification/Memory_State.thy ===== *)
theory Memory_State
  imports Model_Types Tenant_Index
begin

text \<open>
  The state of the in-memory store (\<^verbatim>\<open>store.Memory\<close> of \<^verbatim>\<open>internal/store/memory.go\<close>). Every
  method locks the mutex for its whole body, so a call is one step on the state; each operation is a
  function from the state (and the values it draws from the clock, from \<^verbatim>\<open>uuid.New\<close> and from the
  iteration order of a Go map) to the new state and its results.

  Reading a missing key of a map of slices yields the empty slice, so those maps are total
  functions; maps whose misses matter are partial ones. Deliveries are reached through pointers that
  only the table holds, so the table maps ids to values.
\<close>

record mem_delivery =
  md_Delivery :: webhook_delivery
  md_NextAttemptAt :: time
  md_LastError :: string
  md_ResponseCode :: int
  md_LatencyMs :: int
  md_DeliveredAt :: "time option"

record memory =
  orders :: "string \<Rightarrow> order_out option"
  byTen :: "string \<Rightarrow> string list"
  routes :: "string \<Rightarrow> route option"
  routesTen :: "string \<Rightarrow> string list"
  hos :: "string \<Rightarrow> obj option"
  gfs :: "string \<Rightarrow> geofence option"
  gfsTen :: "string \<Rightarrow> string list"
  subs :: "string \<Rightarrow> subscription list"
  deliveries :: "string \<Rightarrow> mem_delivery option"
  deliveriesByTenant :: "string \<Rightarrow> string list"
  dlq :: "obj list"
  planMx :: "string \<Rightarrow> string \<Rightarrow> obj list"
  optCfg :: "string \<Rightarrow> obj option"

definition NewMemory :: memory where
  "NewMemory = \<lparr>orders = Map.empty, byTen = (\<lambda>_. []), routes = Map.empty, routesTen = (\<lambda>_. []),
     hos = Map.empty, gfs = Map.empty, gfsTen = (\<lambda>_. []), subs = (\<lambda>_. []), deliveries = Map.empty,
     deliveriesByTenant = (\<lambda>_. []), dlq = [], planMx = (\<lambda>_ _. []), optCfg = Map.empty\<rparr>"

end
