(* ===== verification/Paging.thy ===== *)
theory Paging
  imports Go_Prelude
begin

text \<open>
  Cursor paging, as every list operation of the in-memory store does it: the cursor is the key of
  the last item of the page before, an unknown cursor starts over, a limit that is not positive
  counts as 100. \<open>list_page\<close> is the loop of \<^verbatim>\<open>ListOrders\<close>, \<^verbatim>\<open>ListRoutes\<close> and
  \<^verbatim>\<open>ListGeofences\<close>; \<open>slice_page\<close> is the slicing of \<^verbatim>\<open>ListSubscriptions\<close>.

  The locale \<open>pager\<close> is what a client that walks the pages relies on. Its lemma \<open>walk_complete\<close>:
  the pages, concatenated, are all the items, each once and in order.
\<close>

definition page_limit :: "int \<Rightarrow> int" where
  "page_limit limit = (if limit \<le> 0 then 100 else limit)"

definition cursor_start :: "('i \<Rightarrow> string) \<Rightarrow> 'i list \<Rightarrow> string \<Rightarrow> nat" where
  "cursor_start key xs cursor =
     (if cursor \<noteq> '''' then
        (case find_index (\<lambda>x. key x = cursor) xs of Some i \<Rightarrow> i + 1 | None \<Rightarrow> 0)
      else 0)"

fun page_loop :: "(string \<Rightarrow> 'v) \<Rightarrow> ('v \<Rightarrow> bool) \<Rightarrow> int \<Rightarrow> string list \<Rightarrow> 'v list \<Rightarrow> string
    \<Rightarrow> 'v list \<times> string" where
  "page_loop get keep limit [] out next = (out, next)"
| "page_loop get keep limit (k # ks) out next =
     (if int (length out) < limit
      then page_loop get keep limit ks (if keep (get k) then out @ [get k] else out) k
      else (out, next))"

definition list_page :: "(string \<Rightarrow> 'v) \<Rightarrow> ('v \<Rightarrow> bool) \<Rightarrow> string list \<Rightarrow> string \<Rightarrow> int
    \<Rightarrow> 'v list \<times> string" where
  "list_page get keep ids cursor limit0 =
     (let start = cursor_start (\<lambda>x. x) ids cursor;
          limit = page_limit limit0;
          (out, next) = page_loop get keep limit (drop start ids) [] ''''
      in (out, if int (length out) < limit then '''' else next))"

definition slice_page :: "('i \<Rightarrow> string) \<Rightarrow> 'i list \<Rightarrow> string \<Rightarrow> int \<Rightarrow> go_panic + 'i list \<times> string" where
  "slice_page key xs cursor limit0 =
     (let start = cursor_start key xs cursor;
          limit = page_limit limit0;
          n = int (length xs);
          end0 = wrap64 (int start + limit);
          end = (if end0 > n then n else end0)
      in if end < int start then Inl SliceBounds
         else Inr (take (nat end - start) (drop start xs),
                   if end < n then key (xs ! (nat end - 1)) else ''''))"

section \<open>The contract of a paged list\<close>

text \<open>
  \<open>walk_pages\<close> is the client: it follows the cursors until the empty one. \<open>None\<close> when a page
  panics or the fuel runs out; \<open>walk_complete\<close> says one more page than there are items is enough.
\<close>

fun walk_pages :: "(string \<Rightarrow> go_panic + 'v list \<times> string) \<Rightarrow> nat \<Rightarrow> string \<Rightarrow> 'v list option" where
  "walk_pages page 0 c = None"
| "walk_pages page (Suc n) c =
     (case page c of
        Inl _ \<Rightarrow> None
      | Inr (vs, c') \<Rightarrow> if c' = '''' then Some vs else map_option ((@) vs) (walk_pages page n c'))"

locale pager =
  fixes items :: "'s \<Rightarrow> 'q \<Rightarrow> 'i list"
    and key :: "'i \<Rightarrow> string"
    and view :: "'s \<Rightarrow> 'q \<Rightarrow> 'i list \<Rightarrow> 'v list"
    and size_bound :: "'q \<Rightarrow> int"
    and page :: "'s \<Rightarrow> 'q \<Rightarrow> string \<Rightarrow> go_panic + 'v list \<times> string"
    and ok :: "'s \<Rightarrow> 'q \<Rightarrow> bool"
  assumes view_append: "view s q (xs @ ys) = view s q xs @ view s q ys"
    and page_step:
      "ok s q \<Longrightarrow> items s q = pre @ post \<Longrightarrow> (if pre = [] then c = '''' else c = key (last pre)) \<Longrightarrow>
       \<exists>now rest c'. post = now @ rest \<and> page s q c = Inr (view s q now, c') \<and>
         int (length (view s q now)) \<le> size_bound q \<and>
         (if c' = '''' then rest = [] else now \<noteq> [] \<and> c' = key (last now))"
begin

lemma walk_from:
  assumes "ok s q" and "items s q = pre @ post"
    and "if pre = [] then c = '''' else c = key (last pre)" and "length post < n"
  shows "walk_pages (page s q) n c = Some (view s q post)"
  using assms(2-4)
proof (induction n arbitrary: pre post c)
  case 0
  then show ?case by simp
next
  case (Suc n)
  from page_step [OF assms(1) Suc.prems(1,2)] obtain now rest c' where
    post: "post = now @ rest" and pg: "page s q c = Inr (view s q now, c')"
    and c': "if c' = '''' then rest = [] else now \<noteq> [] \<and> c' = key (last now)" by blast
  show ?case
  proof (cases "c' = ''''")
    case True
    with c' post pg show ?thesis by simp
  next
    case False
    with c' have now: "now \<noteq> []" "c' = key (last now)" by auto
    have "walk_pages (page s q) n c' = Some (view s q rest)"
    proof (rule Suc.IH [of "pre @ now"])
      show "length rest < n" using Suc.prems(3) post now by (cases now) auto
    qed (use Suc.prems(1) post now in simp_all)
    with False pg post show ?thesis by (simp add: view_append)
  qed
qed

lemma walk_complete:
  "ok s q \<Longrightarrow> walk_pages (page s q) (Suc (length (items s q))) '''' = Some (view s q (items s q))"
  by (rule walk_from [where pre = "[]"]) auto

lemma first_page_bound:
  assumes "ok s q" shows "\<exists>vs c. page s q '''' = Inr (vs, c) \<and> int (length vs) \<le> size_bound q"
  using page_step [OF assms, of "[]" "items s q" "''''"] by auto

end

section \<open>The loops meet the contract\<close>

lemma cursor_start_prefix:
  assumes "distinct (map key (pre @ post))" and "'''' \<notin> key ` set (pre @ post)"
    and "if pre = [] then c = '''' else c = key (last pre)"
  shows "cursor_start key (pre @ post) c = length pre"
proof (cases pre rule: rev_cases)
  case Nil
  with assms show ?thesis by (simp add: cursor_start_def)
next
  case (snoc ys y)
  from assms(3) snoc have ck: "c = key y" by simp
  have "c \<noteq> ''''" using assms(2) by (auto simp: snoc ck image_Un)
  note c = ck this
  have "key y \<notin> key ` set ys" using assms(1) by (simp add: snoc)
  then have "\<forall>x\<in>set ys. key x \<noteq> c" by (metis ck image_eqI)
  then have "find_index (\<lambda>x. key x = c) (ys @ y # post) = Some (length ys)"
    by (rule find_index_append_hit) (simp add: c)
  with c snoc show ?thesis by (simp add: cursor_start_def)
qed

text \<open>What the loop consumed, and why it stopped.\<close>

lemma page_loop_spec:
  assumes "int (length out) \<le> limit"
  shows "\<exists>now rest. ks = now @ rest \<and>
     page_loop get keep limit ks out next =
       (out @ filter keep (map get now), if now = [] then next else last now) \<and>
     int (length (out @ filter keep (map get now))) \<le> limit \<and>
     (int (length (out @ filter keep (map get now))) < limit \<longrightarrow> rest = [])"
  using assms
proof (induction ks arbitrary: out "next")
  case Nil
  then show ?case by simp
next
  case (Cons k ks)
  show ?case
  proof (cases "int (length out) < limit")
    case False
    with Cons.prems show ?thesis by (intro exI [of _ "[]"] exI [of _ "k # ks"]) simp
  next
    case True
    let ?out = "if keep (get k) then out @ [get k] else out"
    have "int (length ?out) \<le> limit" using True by simp
    from Cons.IH [OF this, of k] obtain now rest where h: "ks = now @ rest"
      "page_loop get keep limit ks ?out k =
         (?out @ filter keep (map get now), if now = [] then k else last now)"
      "int (length (?out @ filter keep (map get now))) \<le> limit"
      "int (length (?out @ filter keep (map get now))) < limit \<longrightarrow> rest = []" by blast
    have v: "?out @ filter keep (map get now) = out @ filter keep (map get (k # now))" by simp
    show ?thesis using True h unfolding v
      by (intro exI [of _ "k # now"] exI [of _ rest]) simp
  qed
qed

lemma page_limit_pos: "0 < page_limit limit"
  by (simp add: page_limit_def)

lemma list_page_step:
  assumes d: "distinct (pre @ post)" and e: "'''' \<notin> set (pre @ post)"
    and c: "if pre = [] then c = '''' else c = last pre"
  shows "\<exists>now rest c'. post = now @ rest \<and>
     list_page get keep (pre @ post) c limit = (filter keep (map get now), c') \<and>
     int (length (filter keep (map get now))) \<le> page_limit limit \<and>
     (if c' = '''' then rest = [] else now \<noteq> [] \<and> c' = last now)"
proof -
  have s: "cursor_start (\<lambda>x. x) (pre @ post) c = length pre"
    by (rule cursor_start_prefix) (use assms in auto)
  obtain now rest where h: "post = now @ rest"
    "page_loop get keep (page_limit limit) post [] '''' =
       (filter keep (map get now), if now = [] then '''' else last now)"
    "int (length (filter keep (map get now))) \<le> page_limit limit"
    "int (length (filter keep (map get now))) < page_limit limit \<longrightarrow> rest = []"
    using page_loop_spec [of "[]" "page_limit limit" post get keep "''''"] page_limit_pos [of limit]
    by (auto simp: less_imp_le)
  have l: "now \<noteq> [] \<Longrightarrow> last now \<noteq> ''''"
    using e h(1) by (metis UnCI in_set_conv_decomp last_in_set set_append)
  have n: "now = [] \<Longrightarrow> int (length (filter keep (map get now))) < page_limit limit"
    using page_limit_pos [of limit] by simp
  show ?thesis
    by (rule exI [of _ now], rule exI [of _ rest]) (use h s l n in \<open>auto simp: list_page_def Let_def\<close>)
qed

lemma slice_page_step:
  assumes d: "distinct (map key (pre @ post))" and e: "'''' \<notin> key ` set (pre @ post)"
    and c: "if pre = [] then c = '''' else c = key (last pre)"
    and small: "int (length (pre @ post)) + page_limit limit \<le> max_int"
  shows "\<exists>now rest c'. post = now @ rest \<and> slice_page key (pre @ post) c limit = Inr (now, c') \<and>
     int (length now) \<le> page_limit limit \<and>
     (if c' = '''' then rest = [] else now \<noteq> [] \<and> c' = key (last now))"
proof -
  let ?L = "page_limit limit" and ?k = "nat (page_limit limit)"
  have s: "cursor_start key (pre @ post) c = length pre"
    by (rule cursor_start_prefix [OF d e c])
  have L: "0 < ?L" by (rule page_limit_pos)
  have w: "wrap64 (int (length pre) + ?L) = int (length pre) + ?L"
    using small L by (intro wrap64_id) (auto simp: min_int_def)
  show ?thesis
  proof (cases "?k < length post")
    case False
    then have "slice_page key (pre @ post) c limit = Inr (post, '''')"
      using L by (auto simp: slice_page_def s w Let_def nat_add_distrib)
    with False L show ?thesis by (intro exI [of _ post] exI [of _ "[]"]) auto
  next
    case True
    have k: "?k - 1 < length post" "0 < ?k" using True L by auto
    have lst: "key ((pre @ post) ! (length pre + ?k - 1)) = key (last (take ?k post))"
    proof -
      have "take ?k post \<noteq> []" "length (take ?k post) = ?k" using True k by auto
      then have "last (take ?k post) = post ! (?k - 1)" using k by (simp add: last_conv_nth)
      moreover have "length pre + ?k - 1 = length pre + (?k - 1)" using k by simp
      ultimately show ?thesis by (simp only: nth_append_length_plus)
    qed
    have "slice_page key (pre @ post) c limit = Inr (take ?k post, key (last (take ?k post)))"
    proof -
      have "?L < int (length post)" using True L by linarith
      then show ?thesis using L lst by (simp add: slice_page_def s w Let_def nat_add_distrib nat_int_add)
    qed
    moreover have "key (last (take ?k post)) \<noteq> ''''"
    proof -
      have "take ?k post \<noteq> []" using k by auto
      then have "last (take ?k post) \<in> set post" by (meson in_set_takeD last_in_set)
      with e show ?thesis by force
    qed
    ultimately show ?thesis using True L k
      by (intro exI [of _ "take ?k post"] exI [of _ "drop ?k post"]) auto
  qed
qed

end
