(* ===== verification/Memory_Orders.thy ===== *)
theory Memory_Orders
  imports Memory_State Paging
begin

text \<open>
  Orders of the in-memory store: \<^verbatim>\<open>CreateOrders\<close> and the paged \<^verbatim>\<open>ListOrders\<close>. The ids
  \<^verbatim>\<open>uuid.New\<close> yields during one call are the argument \<open>uuids\<close>, one for each order;
  \<open>fresh_ids\<close> is what the store relies on: they are new, distinct and not empty.
\<close>

definition new_order :: "string \<Rightarrow> string \<Rightarrow> order_in \<Rightarrow> order_out" where
  "new_order t k inp = \<lparr>oo_ID = k, oo_TenantID = t, oo_ExternalRef = oi_ExternalRef inp,
     oo_Priority = oi_Priority inp, oo_Status = ''pending''\<rparr>"

lemma new_order_simps [simp]:
  "oo_ID (new_order t k inp) = k" "oo_TenantID (new_order t k inp) = t"
  "oo_ExternalRef (new_order t k inp) = oi_ExternalRef inp"
  "oo_Priority (new_order t k inp) = oi_Priority inp" "oo_Status (new_order t k inp) = ''pending''"
  by (simp_all add: new_order_def)

fun create_orders_loop :: "(nat \<Rightarrow> string) \<Rightarrow> string \<Rightarrow> order_in list \<Rightarrow> nat \<Rightarrow> memory \<Rightarrow> memory \<times> nat" where
  "create_orders_loop uuids tenantID [] created m = (m, created)"
| "create_orders_loop uuids tenantID (inp # rest) created m =
     (let id = uuids created;
          m1 = m\<lparr>orders := (orders m)(id \<mapsto> new_order tenantID id inp),
                 byTen := (byTen m)(tenantID := byTen m tenantID @ [id])\<rparr>
      in create_orders_loop uuids tenantID rest (Suc created) m1)"

definition mem_CreateOrders :: "(nat \<Rightarrow> string) \<Rightarrow> memory \<Rightarrow> string \<Rightarrow> order_in list
    \<Rightarrow> memory \<times> string \<times> int \<times> int" where
  "mem_CreateOrders uuids m tenantID ords =
     (let (m', created) = create_orders_loop uuids tenantID ords 0 m
      in (m', ''imp_mem'', int created, 0))"

text \<open>A read of a missing id yields the zero order, as a Go map does.\<close>

definition mem_order :: "memory \<Rightarrow> string \<Rightarrow> order_out" where
  "mem_order m k = (case orders m k of Some o1 \<Rightarrow> o1 | None \<Rightarrow> zero_order_out)"

definition mem_ListOrders :: "memory \<Rightarrow> string \<Rightarrow> string \<Rightarrow> string \<Rightarrow> int \<Rightarrow> order_out list \<times> string" where
  "mem_ListOrders m tenantID status cursor limit =
     list_page (mem_order m) (\<lambda>o1. status = '''' \<or> oo_Status o1 = status) (byTen m tenantID) cursor limit"

section \<open>Invariant\<close>

definition orders_inv :: "memory \<Rightarrow> bool" where
  "orders_inv m \<longleftrightarrow> indexed oo_ID oo_TenantID (orders m) (byTen m)"

definition fresh_ids :: "(nat \<Rightarrow> string) \<Rightarrow> (string \<Rightarrow> 'v option) \<Rightarrow> nat \<Rightarrow> bool" where
  "fresh_ids uuids tab n \<longleftrightarrow> inj_on uuids {..<n} \<and> (\<forall>i<n. tab (uuids i) = None \<and> uuids i \<noteq> '''')"

lemma orders_inv_new [inv_intros]: "orders_inv NewMemory"
  by (simp add: orders_inv_def NewMemory_def indexed_empty)

text \<open>One order after the other, the loop extends the table and the tenant's index.\<close>

lemma create_orders_loop_eq:
  "create_orders_loop uuids t ords c m =
     (m\<lparr>orders := (orders m)(map uuids [c..<c + length ords] [\<mapsto>] map2 (new_order t) (map uuids [c..<c + length ords]) ords),
        byTen := (byTen m)(t := byTen m t @ map uuids [c..<c + length ords])\<rparr>, c + length ords)"
proof (induction ords arbitrary: c m)
  case Nil
  then show ?case by simp
next
  case (Cons inp rest)
  have u: "[c..<c + length (inp # rest)] = c # [Suc c..<Suc c + length rest]"
    by (simp add: upt_conv_Cons del: upt_Suc)
  show ?case unfolding create_orders_loop.simps Let_def Cons.IH u
    by (simp add: fun_upd_def cong: if_cong del: upt_Suc)
qed

lemma indexed_inserts:
  assumes "indexed ident owner tab idx" and "length ks = length vs" and "distinct ks"
    and "\<forall>k\<in>set ks. tab k = None \<and> k \<noteq> ''''"
    and "\<forall>(k, v)\<in>set (zip ks vs). ident v = k \<and> owner v = t"
  shows "indexed ident owner (tab(ks [\<mapsto>] vs)) (idx(t := idx t @ ks))"
  using assms
proof (induction ks vs arbitrary: tab idx rule: list_induct2')
  case 1
  then show ?case by simp
next
  case (4 k ks v vs)
  have i: "indexed ident owner (tab(k \<mapsto> v)) (idx(t := idx t @ [k]))"
    by (rule indexed_insert) (use "4.prems" in auto)
  have "indexed ident owner ((tab(k \<mapsto> v))(ks [\<mapsto>] vs))
      ((idx(t := idx t @ [k]))(t := (idx(t := idx t @ [k])) t @ ks))"
    by (rule "4.IH", rule i) (use "4.prems" in auto)
  then show ?case by (simp add: fun_upd_def cong: if_cong)
qed auto

lemma fresh_ids_distinct: "fresh_ids uuids tab n \<Longrightarrow> distinct (map uuids [0..<n])"
  by (auto simp: fresh_ids_def distinct_map atLeast0LessThan)

lemma orders_inv_CreateOrders [inv_intros]:
  assumes "orders_inv m" and "fresh_ids uuids (orders m) (length ords)"
  shows "orders_inv (fst (mem_CreateOrders uuids m t ords))"
proof -
  have "indexed oo_ID oo_TenantID
     ((orders m)(map uuids [0..<length ords] [\<mapsto>] map2 (new_order t) (map uuids [0..<length ords]) ords))
     ((byTen m)(t := byTen m t @ map uuids [0..<length ords]))"
    using assms fresh_ids_distinct [OF assms(2)] by (intro indexed_inserts)
      (auto simp: orders_inv_def fresh_ids_def set_zip)
  then show ?thesis
    by (simp add: mem_CreateOrders_def create_orders_loop_eq orders_inv_def)
qed

section \<open>Listing\<close>

text \<open>What a run of ids shows under a status filter.\<close>

definition orders_view :: "memory \<Rightarrow> string \<Rightarrow> string list \<Rightarrow> order_out list" where
  "orders_view m status ks = filter (\<lambda>o1. status = '''' \<or> oo_Status o1 = status) (map (mem_order m) ks)"

lemma mem_ListOrders_step:
  assumes "orders_inv m" and "byTen m t = pre @ post" and "if pre = [] then c = '''' else c = last pre"
  shows "\<exists>now rest c'. post = now @ rest \<and>
     (Inr (mem_ListOrders m t status c limit) :: go_panic + order_out list \<times> string) =
       Inr (orders_view m status now, c') \<and>
     int (length (orders_view m status now)) \<le> page_limit limit \<and>
     (if c' = '''' then rest = [] else now \<noteq> [] \<and> c' = last now)"
proof -
  have "distinct (pre @ post)" "'''' \<notin> set (pre @ post)"
    using assms(1,2) indexed_distinct indexed_nonempty by (metis orders_inv_def)+
  then show ?thesis
    unfolding mem_ListOrders_def assms(2) orders_view_def sum.inject
    by (rule list_page_step [OF _ _ assms(3)])
qed

text \<open>A query is a tenant, a status filter and a limit.\<close>

interpretation order_pages: pager
  "\<lambda>m q. byTen m (fst q)" "\<lambda>k. k" "\<lambda>m q. orders_view m (fst (snd q))" "\<lambda>q. page_limit (snd (snd q))"
  "\<lambda>m q c. Inr (mem_ListOrders m (fst q) (fst (snd q)) c (snd (snd q)))" "\<lambda>m q. orders_inv m"
  by unfold_locales (simp add: orders_view_def, rule mem_ListOrders_step)

end
