(* ===== verification/Memory_Subscriptions.thy ===== *)
theory Memory_Subscriptions
  imports Memory_State Paging
begin

text \<open>
  Webhook subscriptions of the in-memory store: \<^verbatim>\<open>CreateSubscription\<close>,
  \<^verbatim>\<open>GetSubscriptionsForEvent\<close>, \<^verbatim>\<open>ListSubscriptions\<close> and \<^verbatim>\<open>DeleteSubscription\<close>.
  Listing slices the tenant's list and can panic: \<open>slice_page\<close> writes the wrap-around of
  \<^verbatim>\<open>start + limit\<close> out.
\<close>

definition mem_CreateSubscription :: "string \<Rightarrow> memory \<Rightarrow> subscription_request \<Rightarrow> memory \<times> subscription" where
  "mem_CreateSubscription uuid m req =
     (let s = \<lparr>sub_ID = uuid, sub_TenantID = sr_TenantID req, sub_URL = sr_URL req,
               sub_Events = sr_Events req, sub_Secret = sr_Secret req\<rparr>
      in (m\<lparr>subs := (subs m)(sr_TenantID req := subs m (sr_TenantID req) @ [s])\<rparr>, s))"

text \<open>The inner loop over a subscription's events stops at the first match.\<close>

definition subscribes :: "string \<Rightarrow> subscription \<Rightarrow> bool" where
  "subscribes eventType s = list_ex (\<lambda>e. e = eventType) (sub_Events s)"

definition mem_GetSubscriptionsForEvent :: "memory \<Rightarrow> string \<Rightarrow> string \<Rightarrow> subscription list" where
  "mem_GetSubscriptionsForEvent m tenantID eventType = filter (subscribes eventType) (subs m tenantID)"

definition mem_ListSubscriptions :: "memory \<Rightarrow> string \<Rightarrow> string \<Rightarrow> int \<Rightarrow> go_panic + subscription list \<times> string" where
  "mem_ListSubscriptions m tenantID cursor limit = slice_page sub_ID (subs m tenantID) cursor limit"

definition mem_DeleteSubscription :: "memory \<Rightarrow> string \<Rightarrow> string \<Rightarrow> memory" where
  "mem_DeleteSubscription m tenantID sid =
     m\<lparr>subs := (subs m)(tenantID := filter (\<lambda>s. sub_ID s \<noteq> sid) (subs m tenantID))\<rparr>"

section \<open>Invariant\<close>

definition subs_inv :: "memory \<Rightarrow> bool" where
  "subs_inv m \<longleftrightarrow> (\<forall>t. distinct (map sub_ID (subs m t)) \<and>
     (\<forall>s\<in>set (subs m t). sub_ID s \<noteq> '''' \<and> sub_TenantID s = t))"

lemma subs_inv_new [inv_intros]: "subs_inv NewMemory"
  by (simp add: subs_inv_def NewMemory_def)

lemma subs_inv_CreateSubscription [inv_intros]:
  assumes "subs_inv m" and "uuid \<noteq> ''''" and "uuid \<notin> sub_ID ` set (subs m (sr_TenantID req))"
  shows "subs_inv (fst (mem_CreateSubscription uuid m req))"
  using assms by (auto simp: subs_inv_def mem_CreateSubscription_def Let_def)

lemma subs_inv_DeleteSubscription [inv_intros]:
  "subs_inv m \<Longrightarrow> subs_inv (mem_DeleteSubscription m t sid)"
  by (auto simp: subs_inv_def mem_DeleteSubscription_def distinct_map_filter)

section \<open>Which subscriptions an event reaches\<close>

lemma subscribes_iff: "subscribes ev s \<longleftrightarrow> ev \<in> set (sub_Events s)"
  by (auto simp: subscribes_def list_ex_iff)

lemma GetSubscriptionsForEvent_set:
  "set (mem_GetSubscriptionsForEvent m t ev) = {s \<in> set (subs m t). ev \<in> set (sub_Events s)}"
  by (auto simp: mem_GetSubscriptionsForEvent_def subscribes_iff)

lemma GetSubscriptionsForEvent_distinct:
  "subs_inv m \<Longrightarrow> distinct (map sub_ID (mem_GetSubscriptionsForEvent m t ev))"
  by (simp add: subs_inv_def mem_GetSubscriptionsForEvent_def distinct_map_filter)

lemma GetSubscriptionsForEvent_deleted:
  "sid \<notin> sub_ID ` set (mem_GetSubscriptionsForEvent (mem_DeleteSubscription m t sid) t ev)"
  by (auto simp: GetSubscriptionsForEvent_set mem_DeleteSubscription_def)

section \<open>Listing\<close>

text \<open>A query is a tenant and a limit small enough for \<^verbatim>\<open>start + limit\<close> to stay in range.\<close>

definition subs_query_ok :: "memory \<Rightarrow> string \<times> int \<Rightarrow> bool" where
  "subs_query_ok m q \<longleftrightarrow> subs_inv m \<and> int (length (subs m (fst q))) + page_limit (snd q) \<le> max_int"

lemma mem_ListSubscriptions_step:
  assumes "subs_query_ok m q" and "subs m (fst q) = pre @ post"
    and "if pre = [] then c = '''' else c = sub_ID (last pre)"
  shows "\<exists>now rest c'. post = now @ rest \<and> mem_ListSubscriptions m (fst q) c (snd q) = Inr (now, c') \<and>
     int (length now) \<le> page_limit (snd q) \<and>
     (if c' = '''' then rest = [] else now \<noteq> [] \<and> c' = sub_ID (last now))"
  unfolding mem_ListSubscriptions_def assms(2)
proof (rule slice_page_step)
  show "distinct (map sub_ID (pre @ post))" using assms(1,2) by (metis subs_inv_def subs_query_ok_def)
  show "'''' \<notin> sub_ID ` set (pre @ post)" using assms(1,2) by (metis imageE subs_inv_def subs_query_ok_def)
  show "if pre = [] then c = '''' else c = sub_ID (last pre)" by (rule assms(3))
  show "int (length (pre @ post)) + page_limit (snd q) \<le> max_int"
    using assms(1,2) by (simp add: subs_query_ok_def)
qed

interpretation subscription_pages: pager
  "\<lambda>m q. subs m (fst q)" sub_ID "\<lambda>m q xs. xs" "\<lambda>q. page_limit (snd q)"
  "\<lambda>m q c. mem_ListSubscriptions m (fst q) c (snd q)" subs_query_ok
  by unfold_locales (simp, rule mem_ListSubscriptions_step)

text \<open>
  Beyond that bound the addition wraps and the slice expression panics: a client that passes the
  largest limit with a valid cursor crashes the request.
\<close>

lemma mem_ListSubscriptions_overflow:
  assumes "subs_inv m" and "subs m t = pre @ s # post" and "int (length pre) < max_int"
  shows "mem_ListSubscriptions m t (sub_ID s) max_int = Inl SliceBounds"
proof -
  have d: "distinct (map sub_ID ((pre @ [s]) @ post))" using assms(1,2) by (metis append_Cons append_Nil append_assoc subs_inv_def)
  have e: "'''' \<notin> sub_ID ` set ((pre @ [s]) @ post)"
    using assms(1,2) by (metis append_Cons append_Nil append_assoc imageE subs_inv_def)
  have st: "cursor_start sub_ID (subs m t) (sub_ID s) = Suc (length pre)"
    using cursor_start_prefix [OF d e, of "sub_ID s"] assms(2) by simp
  have w: "wrap64 (int (Suc (length pre)) + max_int) = int (length pre) + min_int"
  proof -
    have "(int (length pre) + 2 ^ 64) mod 2 ^ 64 = int (length pre)"
      using assms(3) by (simp add: max_int_def)
    then show ?thesis by (simp add: wrap64_def max_int_def min_int_def)
  qed
  have "int (length pre) + min_int < 0" using assms(3) by (simp add: max_int_def min_int_def)
  moreover have "page_limit max_int = max_int" by (simp add: page_limit_def max_int_def)
  ultimately show ?thesis
    using w by (simp add: mem_ListSubscriptions_def slice_page_def st Let_def del: of_nat_Suc)
qed

end
