(* ===== verification/Memory_Geofences.thy ===== *)
theory Memory_Geofences
  imports Memory_State Paging
begin

text \<open>
  Geofences of the in-memory store: \<^verbatim>\<open>CreateGeofence\<close>, \<^verbatim>\<open>ListGeofences\<close>,
  \<^verbatim>\<open>GetGeofence\<close>, \<^verbatim>\<open>PatchGeofence\<close> and \<^verbatim>\<open>DeleteGeofence\<close>, and the contract a
  client of any geofence store relies on (locale \<open>geofence_store\<close>): the operations of a tenant
  are those of a private map from ids to geofences, invisible to every other tenant.
\<close>

definition mem_CreateGeofence :: "string \<Rightarrow> memory \<Rightarrow> string \<Rightarrow> geofence_input \<Rightarrow> memory \<times> geofence" where
  "mem_CreateGeofence uuid m tenantID inp =
     (let gf = \<lparr>gf_ID = uuid, gf_TenantID = tenantID, gf_Name = gi_Name inp, gf_Type = gi_Type inp,
                gf_RadiusM = gi_RadiusM inp, gf_Center = gi_Center inp, gf_Rules = gi_Rules inp\<rparr>
      in (m\<lparr>gfs := (gfs m)(uuid \<mapsto> gf), gfsTen := (gfsTen m)(tenantID := gfsTen m tenantID @ [uuid])\<rparr>, gf))"

definition mem_geofence :: "memory \<Rightarrow> string \<Rightarrow> geofence" where
  "mem_geofence m k = (case gfs m k of Some gf \<Rightarrow> gf | None \<Rightarrow> zero_geofence)"

definition mem_ListGeofences :: "memory \<Rightarrow> string \<Rightarrow> string \<Rightarrow> int \<Rightarrow> geofence list \<times> string" where
  "mem_ListGeofences m tenantID cursor limit =
     list_page (mem_geofence m) (\<lambda>_. True) (gfsTen m tenantID) cursor limit"

definition mem_GetGeofence :: "memory \<Rightarrow> string \<Rightarrow> string \<Rightarrow> geofence result" where
  "mem_GetGeofence m tenantID k =
     (case gfs m k of
        None \<Rightarrow> Inl ErrNotFound
      | Some gf \<Rightarrow> if gf_TenantID gf \<noteq> tenantID then Inl ErrNotFound else Inr gf)"

definition patch_geofence :: "geofence_input \<Rightarrow> geofence \<Rightarrow> geofence" where
  "patch_geofence inp gf0 =
     (let gf1 = (if gi_Name inp \<noteq> '''' then gf0\<lparr>gf_Name := gi_Name inp\<rparr> else gf0);
          gf2 = (if gi_Type inp \<noteq> '''' then gf1\<lparr>gf_Type := gi_Type inp\<rparr> else gf1);
          gf3 = (if gi_RadiusM inp \<noteq> 0 then gf2\<lparr>gf_RadiusM := gi_RadiusM inp\<rparr> else gf2);
          gf4 = (case gi_Center inp of Some c \<Rightarrow> gf3\<lparr>gf_Center := Some c\<rparr> | None \<Rightarrow> gf3)
      in (case gi_Rules inp of Some r \<Rightarrow> gf4\<lparr>gf_Rules := Some r\<rparr> | None \<Rightarrow> gf4))"

definition mem_PatchGeofence :: "memory \<Rightarrow> string \<Rightarrow> string \<Rightarrow> geofence_input \<Rightarrow> memory \<times> geofence result" where
  "mem_PatchGeofence m tenantID k inp =
     (case gfs m k of
        None \<Rightarrow> (m, Inl ErrNotFound)
      | Some gf \<Rightarrow>
          if gf_TenantID gf \<noteq> tenantID then (m, Inl ErrNotFound)
          else let gf' = patch_geofence inp gf in (m\<lparr>gfs := (gfs m)(k \<mapsto> gf')\<rparr>, Inr gf'))"

definition mem_DeleteGeofence :: "memory \<Rightarrow> string \<Rightarrow> string \<Rightarrow> memory \<times> unit result" where
  "mem_DeleteGeofence m tenantID k =
     (case gfs m k of
        None \<Rightarrow> (m, Inl ErrNotFound)
      | Some gf \<Rightarrow>
          if gf_TenantID gf \<noteq> tenantID then (m, Inl ErrNotFound)
          else (m\<lparr>gfs := (gfs m)(k := None),
                  gfsTen := (gfsTen m)(tenantID := filter (\<lambda>v. v \<noteq> k) (gfsTen m tenantID))\<rparr>, Inr ()))"

section \<open>Invariant\<close>

definition gfs_inv :: "memory \<Rightarrow> bool" where
  "gfs_inv m \<longleftrightarrow> indexed gf_ID gf_TenantID (gfs m) (gfsTen m)"

lemma patch_geofence_frame [simp]:
  "gf_ID (patch_geofence inp gf) = gf_ID gf" "gf_TenantID (patch_geofence inp gf) = gf_TenantID gf"
  by (simp_all add: patch_geofence_def Let_def split: option.split)

lemma gfs_inv_new [inv_intros]: "gfs_inv NewMemory"
  by (simp add: gfs_inv_def NewMemory_def indexed_empty)

lemma gfs_inv_CreateGeofence [inv_intros]:
  "gfs_inv m \<Longrightarrow> gfs m uuid = None \<Longrightarrow> uuid \<noteq> '''' \<Longrightarrow> gfs_inv (fst (mem_CreateGeofence uuid m t inp))"
  by (simp add: gfs_inv_def mem_CreateGeofence_def indexed_insert Let_def)

lemma gfs_inv_PatchGeofence [inv_intros]: "gfs_inv m \<Longrightarrow> gfs_inv (fst (mem_PatchGeofence m t k inp))"
  by (auto simp: gfs_inv_def mem_PatchGeofence_def Let_def indexed_update split: option.split)

lemma gfs_inv_DeleteGeofence [inv_intros]: "gfs_inv m \<Longrightarrow> gfs_inv (fst (mem_DeleteGeofence m t k))"
  by (auto simp: gfs_inv_def mem_DeleteGeofence_def indexed_delete split: option.split)

section \<open>The contract of a geofence store\<close>

text \<open>\<open>table s t\<close> is what tenant \<open>t\<close> has stored: the abstract state, one map for each tenant.\<close>

locale geofence_store =
  fixes create :: "string \<Rightarrow> 's \<Rightarrow> string \<Rightarrow> geofence_input \<Rightarrow> 's \<times> geofence"
    and get :: "'s \<Rightarrow> string \<Rightarrow> string \<Rightarrow> geofence result"
    and patch :: "'s \<Rightarrow> string \<Rightarrow> string \<Rightarrow> geofence_input \<Rightarrow> 's \<times> geofence result"
    and del :: "'s \<Rightarrow> string \<Rightarrow> string \<Rightarrow> 's \<times> unit result"
    and table :: "'s \<Rightarrow> string \<Rightarrow> string \<Rightarrow> geofence option"
    and inv :: "'s \<Rightarrow> bool"
    and fresh :: "'s \<Rightarrow> string \<Rightarrow> bool"
  assumes get_table: "get s t k = (case table s t k of None \<Rightarrow> Inl ErrNotFound | Some gf \<Rightarrow> Inr gf)"
    and create_table: "inv s \<Longrightarrow> fresh s k \<Longrightarrow>
      table (fst (create k s t inp)) = (table s)(t := (table s t)(k \<mapsto> snd (create k s t inp)))"
    and patch_table: "inv s \<Longrightarrow>
      patch s t k inp = (fst (patch s t k inp), case table s t k of None \<Rightarrow> Inl ErrNotFound | Some gf \<Rightarrow> Inr (patch_geofence inp gf)) \<and>
      table (fst (patch s t k inp)) = (table s)(t := (table s t)(k := map_option (patch_geofence inp) (table s t k)))"
    and del_table: "inv s \<Longrightarrow>
      (snd (del s t k) = Inl ErrNotFound \<longleftrightarrow> table s t k = None) \<and>
      table (fst (del s t k)) = (table s)(t := (table s t)(k := None))"
    and inv_create: "inv s \<Longrightarrow> fresh s k \<Longrightarrow> inv (fst (create k s t inp))"
    and inv_patch: "inv s \<Longrightarrow> inv (fst (patch s t k inp))"
    and inv_del: "inv s \<Longrightarrow> inv (fst (del s t k))"
begin

lemma get_create: "inv s \<Longrightarrow> fresh s k \<Longrightarrow> get (fst (create k s t inp)) t k = Inr (snd (create k s t inp))"
  by (simp add: get_table create_table)

lemma get_patch:
  "inv s \<Longrightarrow> get s t k = Inr gf \<Longrightarrow> get (fst (patch s t k inp)) t k = Inr (patch_geofence inp gf)"
  using patch_table [of s t k inp] by (auto simp: get_table split: option.splits)

lemma get_del: "inv s \<Longrightarrow> get (fst (del s t k)) t k = Inl ErrNotFound"
  using del_table [of s t k] by (simp add: get_table)

lemma other_tenant:
  assumes "inv s" and "t' \<noteq> t"
  shows "fresh s k \<Longrightarrow> get (fst (create k s t inp)) t' k' = get s t' k'"
    and "get (fst (patch s t k inp)) t' k' = get s t' k'"
    and "get (fst (del s t k)) t' k' = get s t' k'"
  using assms create_table [of s k t inp] patch_table [of s t k inp] del_table [of s t k]
  by (simp_all add: get_table)

end

definition gf_table :: "memory \<Rightarrow> string \<Rightarrow> string \<Rightarrow> geofence option" where
  "gf_table m t k = (case gfs m k of Some gf \<Rightarrow> if gf_TenantID gf = t then Some gf else None | None \<Rightarrow> None)"

interpretation mem_geofences: geofence_store
  mem_CreateGeofence mem_GetGeofence mem_PatchGeofence mem_DeleteGeofence gf_table gfs_inv
  "\<lambda>m k. gfs m k = None \<and> k \<noteq> ''''"
proof unfold_locales
  fix s t k inp
  show "mem_GetGeofence s t k = (case gf_table s t k of None \<Rightarrow> Inl ErrNotFound | Some gf \<Rightarrow> Inr gf)"
    by (auto simp: mem_GetGeofence_def gf_table_def split: option.splits)
  assume "gfs_inv s"
  show "mem_PatchGeofence s t k inp =
      (fst (mem_PatchGeofence s t k inp), case gf_table s t k of None \<Rightarrow> Inl ErrNotFound | Some gf \<Rightarrow> Inr (patch_geofence inp gf)) \<and>
    gf_table (fst (mem_PatchGeofence s t k inp)) =
      (gf_table s)(t := (gf_table s t)(k := map_option (patch_geofence inp) (gf_table s t k)))"
    by (auto simp: mem_PatchGeofence_def gf_table_def Let_def fun_eq_iff split: option.splits)
  show "(snd (mem_DeleteGeofence s t k) = Inl ErrNotFound \<longleftrightarrow> gf_table s t k = None) \<and>
    gf_table (fst (mem_DeleteGeofence s t k)) = (gf_table s)(t := (gf_table s t)(k := None))"
    by (auto simp: mem_DeleteGeofence_def gf_table_def fun_eq_iff split: option.splits)
  show "gfs_inv (fst (mem_PatchGeofence s t k inp))" "gfs_inv (fst (mem_DeleteGeofence s t k))"
    by (rule inv_intros, fact)+
  assume f: "gfs s k = None \<and> k \<noteq> ''''"
  then show "gf_table (fst (mem_CreateGeofence k s t inp)) =
      (gf_table s)(t := (gf_table s t)(k \<mapsto> snd (mem_CreateGeofence k s t inp)))"
    by (auto simp: mem_CreateGeofence_def gf_table_def Let_def fun_eq_iff)
  show "gfs_inv (fst (mem_CreateGeofence k s t inp))" using \<open>gfs_inv s\<close> f by (simp add: gfs_inv_CreateGeofence)
qed

lemma mem_GetGeofence_Inr: "mem_GetGeofence m t k = Inr gf \<longleftrightarrow> gfs m k = Some gf \<and> gf_TenantID gf = t"
  by (auto simp: mem_GetGeofence_def split: option.splits)

section \<open>Listing\<close>

lemma mem_ListGeofences_step:
  assumes "gfs_inv m" and "gfsTen m t = pre @ post" and "if pre = [] then c = '''' else c = last pre"
  shows "\<exists>now rest c'. post = now @ rest \<and>
     (Inr (mem_ListGeofences m t c limit) :: go_panic + geofence list \<times> string) = Inr (map (mem_geofence m) now, c') \<and>
     int (length (map (mem_geofence m) now)) \<le> page_limit limit \<and>
     (if c' = '''' then rest = [] else now \<noteq> [] \<and> c' = last now)"
proof -
  have "distinct (pre @ post)" "'''' \<notin> set (pre @ post)"
    using assms(1,2) indexed_distinct indexed_nonempty by (metis gfs_inv_def)+
  from list_page_step [OF this assms(3), of "mem_geofence m" "\<lambda>_. True" limit] show ?thesis
    by (simp add: mem_ListGeofences_def assms(2))
qed

interpretation geofence_pages: pager
  "\<lambda>m q. gfsTen m (fst q)" "\<lambda>k. k" "\<lambda>m q. map (mem_geofence m)" "\<lambda>q. page_limit (snd q)"
  "\<lambda>m q c. Inr (mem_ListGeofences m (fst q) c (snd q))" "\<lambda>m q. gfs_inv m"
  by unfold_locales (simp, rule mem_ListGeofences_step)

text \<open>The ids a tenant's listing walks are the domain of its table.\<close>

lemma gfsTen_table: "gfs_inv m \<Longrightarrow> set (gfsTen m t) = dom (gf_table m t)"
  by (auto simp: gfs_inv_def indexed_def gf_table_def split: option.splits if_splits)

end
