(* ===== verification/Memory_Routes.thy ===== *)
theory Memory_Routes
  imports Memory_State Paging
begin

text \<open>
  Routes of the in-memory store: \<^verbatim>\<open>GetRoute\<close>, \<^verbatim>\<open>AssignRoute\<close>, \<^verbatim>\<open>PatchRoute\<close>,
  \<^verbatim>\<open>PlanRoutes\<close>, \<^verbatim>\<open>AdvanceRoute\<close>, \<^verbatim>\<open>ListRoutes\<close>,
  \<^verbatim>\<open>ListActiveRoutesForDriver\<close>, \<^verbatim>\<open>FindRoutesByStop\<close>, \<^verbatim>\<open>RouteStats\<close>,
  \<^verbatim>\<open>InsertDriverEvents\<close> and \<^verbatim>\<open>CreatePoD\<close>.

  A route's legs are a state machine: visited legs first, then the one in progress, then the
  pending ones (\<open>legs_at\<close>); \<^verbatim>\<open>AdvanceRoute\<close> is its step. The locale \<open>route_progress\<close> is the
  contract a driver application relies on.

  The tenant argument of \<^verbatim>\<open>GetRoute\<close>, \<^verbatim>\<open>AssignRoute\<close>, \<^verbatim>\<open>PatchRoute\<close> and
  \<^verbatim>\<open>AdvanceRoute\<close> is not used by the source, and is kept here as an argument that is not used.
\<close>

definition mem_route :: "memory \<Rightarrow> string \<Rightarrow> route" where
  "mem_route m k = (case routes m k of Some r \<Rightarrow> r | None \<Rightarrow> zero_route)"

definition mem_GetRoute :: "memory \<Rightarrow> string \<Rightarrow> string \<Rightarrow> route result" where
  "mem_GetRoute m tenantID routeID =
     (case routes m routeID of None \<Rightarrow> Inl ErrNotFound | Some r \<Rightarrow> Inr r)"

definition mem_AssignRoute :: "memory \<Rightarrow> string \<Rightarrow> string \<Rightarrow> string \<Rightarrow> string \<Rightarrow> memory \<times> route" where
  "mem_AssignRoute m tenantID routeID driverID vehicleID =
     (let r0 = mem_route m routeID;
          r1 = r0\<lparr>rt_DriverID := driverID, rt_VehicleID := vehicleID\<rparr>;
          r2 = (if rt_Version r1 = 0 then r1\<lparr>rt_Version := 1\<rparr> else r1);
          r3 = r2\<lparr>rt_Status := ''assigned''\<rparr>
      in (m\<lparr>routes := (routes m)(routeID \<mapsto> r3)\<rparr>, r3))"

definition mem_PatchRoute :: "memory \<Rightarrow> string \<Rightarrow> string \<Rightarrow> route_patch \<Rightarrow> memory \<times> route" where
  "mem_PatchRoute m tenantID routeID patch =
     (let r0 = mem_route m routeID;
          r1 = (if rp_Status patch \<noteq> '''' then r0\<lparr>rt_Status := rp_Status patch\<rparr> else r0);
          r2 = (if rt_Version r1 = 0 then r1\<lparr>rt_Version := 1\<rparr>
                else r1\<lparr>rt_Version := wrap64 (rt_Version r1 + 1)\<rparr>)
      in (m\<lparr>routes := (routes m)(routeID \<mapsto> r2)\<rparr>, r2))"

section \<open>Planning\<close>

text \<open>Replace the first entry that satisfies \<open>P\<close>, or append: the loop with \<^verbatim>\<open>replaced\<close>.\<close>

fun upsert :: "('a \<Rightarrow> bool) \<Rightarrow> 'a \<Rightarrow> 'a list \<Rightarrow> 'a list" where
  "upsert P x [] = [x]"
| "upsert P x (y # ys) = (if P y then x # ys else y # upsert P x ys)"

definition has_algo :: "string \<Rightarrow> obj \<Rightarrow> bool" where
  "has_algo algo item \<longleftrightarrow> item ''algo'' = Some (AStr algo)"

definition demo_metrics :: "string \<Rightarrow> obj" where
  "demo_metrics algo = [''algo'' \<mapsto> AStr algo, ''iterations'' \<mapsto> AInt 1, ''improvements'' \<mapsto> AInt 0,
     ''acceptedWorse'' \<mapsto> AInt 0, ''bestCost'' \<mapsto> AFloat 0, ''finalCost'' \<mapsto> AFloat 0,
     ''removalSelects'' \<mapsto> AInts [1, 0], ''insertSelects'' \<mapsto> AInts [1, 0]]"

definition demo_route :: "(nat \<Rightarrow> string) \<Rightarrow> string \<Rightarrow> route" where
  "demo_route uuids planDate =
     zero_route\<lparr>rt_ID := uuids 0, rt_Version := 1, rt_PlanDate := planDate, rt_Status := ''planned'',
       rt_Legs := [zero_leg\<lparr>leg_ID := uuids 1, leg_Seq := 1, leg_FromStopID := ''s1'',
                             leg_ToStopID := ''s2'', leg_Status := ''in_progress''\<rparr>,
                   zero_leg\<lparr>leg_ID := uuids 2, leg_Seq := 2, leg_FromStopID := ''s2'',
                             leg_ToStopID := ''s3'', leg_Status := ''pending''\<rparr>]\<rparr>"

definition mem_PlanRoutes :: "(nat \<Rightarrow> string) \<Rightarrow> memory \<Rightarrow> optimize_request \<Rightarrow> memory \<times> route list \<times> string" where
  "mem_PlanRoutes uuids m req =
     (let t = or_TenantID req; d = or_PlanDate req;
          r = demo_route uuids d;
          algo = (if or_Algorithm req = '''' then ''greedy'' else or_Algorithm req);
          items = upsert (has_algo algo) (demo_metrics algo) (planMx m t d)
      in (m\<lparr>routes := (routes m)(uuids 0 \<mapsto> r),
            routesTen := (routesTen m)(t := routesTen m t @ [uuids 0]),
            planMx := (planMx m)(t := (planMx m t)(d := items))\<rparr>, [r], ''opt_mem''))"

section \<open>Advancing\<close>

definition advance_reason :: "string \<Rightarrow> string" where
  "advance_reason reason =
     (let r1 = (if reason = ''arrive'' then ''geofence_arrive'' else reason)
      in if r1 = ''pod'' then ''pod_ack'' else r1)"

text \<open>The policy checks: true when the request must leave the route as it is.\<close>

definition advance_blocked :: "advance_request \<Rightarrow> auto_advance_policy option \<Rightarrow> bool" where
  "advance_blocked req aa =
     (case aa of
        None \<Rightarrow> False
      | Some pol \<Rightarrow>
          if av_Force req then False
          else let reason = advance_reason (av_Reason req)
            in if \<not> aa_Enabled pol then True
               else if aa_RequirePoD pol \<and> reason \<noteq> ''pod_ack'' then True
               else aa_Trigger pol \<noteq> '''' \<and> reason \<noteq> '''' \<and> aa_Trigger pol \<noteq> reason)"

definition no_advance :: "string \<Rightarrow> time \<Rightarrow> (time \<Rightarrow> string) \<Rightarrow> advance_result" where
  "no_advance routeID now fmt = \<lparr>ad_RouteID = routeID, ad_FromLegID = '''', ad_FromStopID = '''',
     ad_ToLegID = '''', ad_ToStopID = '''', ad_TS = fmt now, ad_Changed = False\<rparr>"

definition advance_legs :: "nat \<Rightarrow> leg list \<Rightarrow> leg list" where
  "advance_legs idx legs =
     (let legs1 = legs[idx := (legs ! idx)\<lparr>leg_Status := ''visited''\<rparr>]
      in if idx + 1 < length legs1 then legs1[idx + 1 := (legs1 ! (idx + 1))\<lparr>leg_Status := ''in_progress''\<rparr>]
         else legs1)"

text \<open>
  \<open>fmt\<close> is \<^verbatim>\<open>Format(time.RFC3339)\<close> of the UTC time. The index of the current leg and of the
  one after it are in range (\<open>find_index\<close> and the test), so the list reads are those of the code.
\<close>

definition mem_AdvanceRoute :: "(time \<Rightarrow> string) \<Rightarrow> time \<Rightarrow> memory \<Rightarrow> string \<Rightarrow> string \<Rightarrow> advance_request
    \<Rightarrow> memory \<times> advance_response result" where
  "mem_AdvanceRoute fmt now m tenantID routeID req =
     (case routes m routeID of
        None \<Rightarrow> (m, Inl ErrNotFound)
      | Some r \<Rightarrow>
          let res = no_advance routeID now fmt in
          if advance_blocked req (rt_AutoAdvance r)
          then (m, Inr \<lparr>resp_Result = res, resp_Route = r, resp_Alerts = []\<rparr>)
          else
            (case find_index (\<lambda>l. leg_Status l \<noteq> ''visited'') (rt_Legs r) of
               None \<Rightarrow> (m, Inr \<lparr>resp_Result = res, resp_Route = r, resp_Alerts = []\<rparr>)
             | Some idx \<Rightarrow>
                 let legs = advance_legs idx (rt_Legs r);
                     res1 = res\<lparr>ad_FromLegID := leg_ID (legs ! idx), ad_FromStopID := leg_ToStopID (legs ! idx)\<rparr>;
                     res2 = (if idx + 1 < length legs
                             then res1\<lparr>ad_ToLegID := leg_ID (legs ! (idx + 1)),
                                       ad_ToStopID := leg_ToStopID (legs ! (idx + 1))\<rparr>
                             else res1);
                     r' = r\<lparr>rt_Legs := legs, rt_Version := wrap64 (rt_Version r + 1)\<rparr>
                 in (m\<lparr>routes := (routes m)(routeID \<mapsto> r')\<rparr>,
                     Inr \<lparr>resp_Result = res2\<lparr>ad_Changed := True\<rparr>, resp_Route = r', resp_Alerts = []\<rparr>)))"

section \<open>Listing\<close>

definition mem_ListRoutes :: "memory \<Rightarrow> string \<Rightarrow> string \<Rightarrow> int \<Rightarrow> route list \<times> string" where
  "mem_ListRoutes m tenantID cursor limit =
     list_page (mem_route m) (\<lambda>_. True) (routesTen m tenantID) cursor limit"

text \<open>
  The loop ranges over the whole table in Go's map order, given as \<open>keys\<close>; the source compares the
  driver only, so \<open>tenantID\<close> is not used.
\<close>

definition mem_ListActiveRoutesForDriver :: "string list \<Rightarrow> memory \<Rightarrow> string \<Rightarrow> string \<Rightarrow> string list" where
  "mem_ListActiveRoutesForDriver keys m tenantID driverID =
     filter (\<lambda>k. case routes m k of
        Some r \<Rightarrow> rt_DriverID r = driverID \<and> rt_Status r \<noteq> ''completed'' | None \<Rightarrow> False) keys"

definition mem_FindRoutesByStop :: "memory \<Rightarrow> string \<Rightarrow> string \<Rightarrow> string list" where
  "mem_FindRoutesByStop m tenantID stopID = []"

definition mem_RouteStats :: "memory \<Rightarrow> string \<Rightarrow> string \<Rightarrow> obj" where
  "mem_RouteStats m tenantID planDate = [''routes'' \<mapsto> AInt 0, ''legs'' \<mapsto> AInt 0,
     ''totalDistM'' \<mapsto> AInt 0, ''totalDriveSec'' \<mapsto> AInt 0, ''avgLegsPerRoute'' \<mapsto> AFloat 0]"

text \<open>Driver events and proofs of delivery are accepted and not stored.\<close>

definition mem_InsertDriverEvents :: "memory \<Rightarrow> string \<Rightarrow> driver_event list \<Rightarrow> int" where
  "mem_InsertDriverEvents m tenantID events = int (length events)"

definition mem_CreatePoD :: "string \<Rightarrow> memory \<Rightarrow> pod_request \<Rightarrow> string \<times> string" where
  "mem_CreatePoD uuid m req = (uuid, ''processing'')"

section \<open>The leg state machine\<close>

definition leg_status_at :: "nat \<Rightarrow> nat \<Rightarrow> string" where
  "leg_status_at k i = (if i < k then ''visited'' else if i = k then ''in_progress'' else ''pending'')"

definition legs_at :: "nat \<Rightarrow> leg list \<Rightarrow> bool" where
  "legs_at k legs \<longleftrightarrow> k \<le> length legs \<and> map leg_Status legs = map (leg_status_at k) [0..<length legs]"

lemma legs_at_nth: "legs_at k legs \<Longrightarrow> i < length legs \<Longrightarrow> leg_Status (legs ! i) = leg_status_at k i"
  by (metis (no_types, lifting) add.left_neutral diff_zero legs_at_def length_upt nth_map nth_upt)

lemma legs_atI:
  "k \<le> length legs \<Longrightarrow> (\<And>i. i < length legs \<Longrightarrow> leg_Status (legs ! i) = leg_status_at k i) \<Longrightarrow> legs_at k legs"
  by (auto simp: legs_at_def intro: nth_equalityI)

lemma find_current_leg:
  assumes "legs_at k legs"
  shows "find_index (\<lambda>l. leg_Status l \<noteq> ''visited'') legs = (if k < length legs then Some k else None)"
proof -
  have v: "\<forall>x\<in>set (take k legs). \<not> leg_Status x \<noteq> ''visited''"
    using legs_at_nth [OF assms] by (auto simp: in_set_conv_nth leg_status_at_def)
  have k: "k \<le> length legs" using assms by (simp add: legs_at_def)
  show ?thesis
  proof (cases "k < length legs")
    case True
    have "leg_Status (legs ! k) \<noteq> ''visited''" using legs_at_nth [OF assms True] by (simp add: leg_status_at_def)
    then have "find_index (\<lambda>l. leg_Status l \<noteq> ''visited'') (take k legs @ legs ! k # drop (Suc k) legs) = Some (length (take k legs))"
      by (rule find_index_append_hit [OF v])
    with True show ?thesis by (simp add: id_take_nth_drop [symmetric])
  next
    case False
    with v k show ?thesis by simp
  qed
qed

lemma length_advance_legs [simp]: "length (advance_legs idx legs) = length legs"
  by (simp add: advance_legs_def Let_def)

lemma advance_legs_nth:
  "idx < length legs \<Longrightarrow> i < length legs \<Longrightarrow> advance_legs idx legs ! i =
     (if i = idx then (legs ! i)\<lparr>leg_Status := ''visited''\<rparr>
      else if i = Suc idx then (legs ! i)\<lparr>leg_Status := ''in_progress''\<rparr> else legs ! i)"
  by (auto simp: advance_legs_def Let_def nth_list_update)

lemma legs_at_advance:
  assumes "legs_at k legs" and "k < length legs"
  shows "legs_at (Suc k) (advance_legs k legs)"
  by (rule legs_atI) (use assms legs_at_nth [OF assms(1)] in \<open>auto simp: advance_legs_nth leg_status_at_def\<close>)

section \<open>Invariant\<close>

definition routes_inv :: "memory \<Rightarrow> bool" where
  "routes_inv m \<longleftrightarrow>
     (\<forall>t. distinct (routesTen m t) \<and> '''' \<notin> set (routesTen m t)) \<and>
     (\<forall>t t' k. k \<in> set (routesTen m t) \<longrightarrow> k \<in> set (routesTen m t') \<longrightarrow> t = t') \<and>
     (\<forall>t k. k \<in> set (routesTen m t) \<longrightarrow> (\<exists>r. routes m k = Some r \<and> rt_ID r = k)) \<and>
     (\<forall>k r. routes m k = Some r \<longrightarrow> (\<exists>j. legs_at j (rt_Legs r)))"

lemma routes_inv_index: "routes_inv m \<Longrightarrow> k \<in> set (routesTen m t) \<Longrightarrow> \<exists>r. routes m k = Some r \<and> rt_ID r = k"
  unfolding routes_inv_def by blast

lemma routes_inv_legs_at: "routes_inv m \<Longrightarrow> routes m k = Some r \<Longrightarrow> \<exists>j. legs_at j (rt_Legs r)"
  unfolding routes_inv_def by blast

lemma legs_at_Nil [simp]: "legs_at 0 []"
  by (simp add: legs_at_def)

lemma legs_at_zero_route [simp]: "legs_at 0 (rt_Legs zero_route)"
  by (simp add: zero_route_def)

lemma demo_route_legs: "legs_at 0 (rt_Legs (demo_route uuids d))" "rt_ID (demo_route uuids d) = uuids 0"
  by (simp_all add: demo_route_def legs_at_def leg_status_at_def)

lemma routes_inv_new [inv_intros]: "routes_inv NewMemory"
  by (simp add: routes_inv_def NewMemory_def)

text \<open>Every write of one route that keeps its id and the shape of its legs keeps the invariant.\<close>

lemma routes_inv_update:
  assumes "routes_inv m" and "rt_ID r = rt_ID (mem_route m k)" and "\<exists>j. legs_at j (rt_Legs r)"
  shows "routes_inv (m\<lparr>routes := (routes m)(k \<mapsto> r)\<rparr>)"
proof -
  have "k \<in> set (routesTen m t) \<Longrightarrow> rt_ID r = k" for t
    using assms(1,2) by (fastforce simp: routes_inv_def mem_route_def)
  with assms show ?thesis by (auto simp: routes_inv_def)
qed

lemma routes_inv_legs: "routes_inv m \<Longrightarrow> \<exists>j. legs_at j (rt_Legs (mem_route m k))"
  by (cases "routes m k") (auto simp: routes_inv_def mem_route_def intro: legs_at_zero_route)

lemma routes_inv_AssignRoute [inv_intros]:
  "routes_inv m \<Longrightarrow> routes_inv (fst (mem_AssignRoute m t k d v))"
  using routes_inv_legs [of m k] by (auto simp: mem_AssignRoute_def Let_def intro!: routes_inv_update)

lemma routes_inv_PatchRoute [inv_intros]:
  "routes_inv m \<Longrightarrow> routes_inv (fst (mem_PatchRoute m t k p))"
  using routes_inv_legs [of m k] by (auto simp: mem_PatchRoute_def Let_def intro!: routes_inv_update)

lemma routes_inv_PlanRoutes [inv_intros]:
  assumes "routes_inv m" and "routes m (uuids 0) = None" and "uuids 0 \<noteq> ''''"
  shows "routes_inv (fst (mem_PlanRoutes uuids m req))"
proof -
  have "uuids 0 \<notin> set (routesTen m t)" for t using routes_inv_index [OF assms(1)] assms(2) by fastforce
  with assms show ?thesis
    by (auto simp: routes_inv_def mem_PlanRoutes_def Let_def demo_route_legs intro: demo_route_legs)
qed

section \<open>Listing the pages\<close>

lemma mem_ListRoutes_step:
  assumes "routes_inv m" and "routesTen m t = pre @ post" and "if pre = [] then c = '''' else c = last pre"
  shows "\<exists>now rest c'. post = now @ rest \<and>
     (Inr (mem_ListRoutes m t c limit) :: go_panic + route list \<times> string) = Inr (map (mem_route m) now, c') \<and>
     int (length (map (mem_route m) now)) \<le> page_limit limit \<and>
     (if c' = '''' then rest = [] else now \<noteq> [] \<and> c' = last now)"
proof -
  have "distinct (pre @ post)" "'''' \<notin> set (pre @ post)" using assms(1,2) by (metis routes_inv_def)+
  from list_page_step [OF this assms(3), of "mem_route m" "\<lambda>_. True" limit] show ?thesis
    by (simp add: mem_ListRoutes_def assms(2))
qed

interpretation route_pages: pager
  "\<lambda>m q. routesTen m (fst q)" "\<lambda>k. k" "\<lambda>m q. map (mem_route m)" "\<lambda>q. page_limit (snd q)"
  "\<lambda>m q c. Inr (mem_ListRoutes m (fst q) c (snd q))" "\<lambda>m q. routes_inv m"
  by unfold_locales (simp, rule mem_ListRoutes_step)

section \<open>What one advance does\<close>

text \<open>The three outcomes, for a route whose legs are at position \<open>k\<close>.\<close>

lemma mem_AdvanceRoute_cases:
  assumes "routes m rid = Some r" and "legs_at k (rt_Legs r)"
  shows "mem_AdvanceRoute fmt now m t rid req =
    (if advance_blocked req (rt_AutoAdvance r) \<or> k = length (rt_Legs r)
     then (m, Inr \<lparr>resp_Result = no_advance rid now fmt, resp_Route = r, resp_Alerts = []\<rparr>)
     else let r' = r\<lparr>rt_Legs := advance_legs k (rt_Legs r), rt_Version := wrap64 (rt_Version r + 1)\<rparr>
       in (m\<lparr>routes := (routes m)(rid \<mapsto> r')\<rparr>,
           Inr \<lparr>resp_Result = \<lparr>ad_RouteID = rid, ad_FromLegID = leg_ID (rt_Legs r ! k),
                  ad_FromStopID = leg_ToStopID (rt_Legs r ! k),
                  ad_ToLegID = (if Suc k < length (rt_Legs r) then leg_ID (rt_Legs r ! Suc k) else ''''),
                  ad_ToStopID = (if Suc k < length (rt_Legs r) then leg_ToStopID (rt_Legs r ! Suc k) else ''''),
                  ad_TS = fmt now, ad_Changed = True\<rparr>,
                resp_Route = r', resp_Alerts = []\<rparr>))"
proof -
  have k: "k \<le> length (rt_Legs r)" using assms(2) by (simp add: legs_at_def)
  show ?thesis
    using k by (auto simp: mem_AdvanceRoute_def assms(1) find_current_leg [OF assms(2)] Let_def
        no_advance_def advance_legs_nth)
qed

lemma routes_inv_AdvanceRoute [inv_intros]:
  assumes "routes_inv m"
  shows "routes_inv (fst (mem_AdvanceRoute fmt now m t rid req))"
proof (cases "routes m rid")
  case None
  with assms show ?thesis by (simp add: mem_AdvanceRoute_def)
next
  case (Some r)
  obtain k where k: "legs_at k (rt_Legs r)" using routes_inv_legs_at [OF assms Some] by blast
  have "k < length (rt_Legs r) \<Longrightarrow> \<exists>j. legs_at j (advance_legs k (rt_Legs r))"
    using legs_at_advance [OF k] by blast
  moreover have "k \<le> length (rt_Legs r)" using k by (simp add: legs_at_def)
  ultimately show ?thesis using assms
    by (auto simp: mem_AdvanceRoute_cases [OF Some k] Let_def mem_route_def Some intro!: routes_inv_update)
qed

section \<open>The contract of a route's progress\<close>

text \<open>
  \<open>position s rid\<close> is the number of visited legs and the number of legs. A request the policy lets
  through moves the position by one until all legs are visited, and reports whether it did.
\<close>

locale route_progress =
  fixes advance :: "'s \<Rightarrow> string \<Rightarrow> 'r \<Rightarrow> 's \<times> bool"
    and position :: "'s \<Rightarrow> string \<Rightarrow> (nat \<times> nat) option"
    and passes :: "'s \<Rightarrow> string \<Rightarrow> 'r \<Rightarrow> bool"
    and inv :: "'s \<Rightarrow> bool"
  assumes inv_advance: "inv s \<Longrightarrow> inv (fst (advance s rid r))"
    and position_le: "inv s \<Longrightarrow> position s rid = Some (k, n) \<Longrightarrow> k \<le> n"
    and advance_position: "inv s \<Longrightarrow> position s rid = Some (k, n) \<Longrightarrow> passes s rid r \<Longrightarrow>
      snd (advance s rid r) = (k < n) \<and>
      position (fst (advance s rid r)) rid = Some (min (Suc k) n, n)"
    and advance_blocked: "inv s \<Longrightarrow> position s rid = Some (k, n) \<Longrightarrow> \<not> passes s rid r \<Longrightarrow>
      advance s rid r = (s, False)"
    and advance_other: "inv s \<Longrightarrow> rid' \<noteq> rid \<Longrightarrow> position (fst (advance s rid r)) rid' = position s rid'"
    and passes_stable: "passes (fst (advance s rid r)) rid r' = passes s rid r'"
begin

lemma advances_position:
  assumes "inv s" and "position s rid = Some (k, n)" and "passes s rid r"
  shows "inv (((\<lambda>s. fst (advance s rid r)) ^^ j) s) \<and> passes (((\<lambda>s. fst (advance s rid r)) ^^ j) s) rid r \<and>
    position (((\<lambda>s. fst (advance s rid r)) ^^ j) s) rid = Some (min (k + j) n, n)"
proof (induction j)
  case 0
  then show ?case using assms position_le [OF assms(1,2)] by simp
next
  case (Suc j)
  then show ?case using inv_advance passes_stable
      advance_position [of "((\<lambda>s. fst (advance s rid r)) ^^ j) s" rid "min (k + j) n" n r] by auto
qed

lemma completes:
  assumes "inv s" and "position s rid = Some (k, n)" and "passes s rid r"
  shows "position (((\<lambda>s. fst (advance s rid r)) ^^ (n - k)) s) rid = Some (n, n)"
    and "snd (advance (((\<lambda>s. fst (advance s rid r)) ^^ j) s) rid r) = (k + j < n)"
  using advances_position [OF assms, of "n - k"] advances_position [OF assms, of j]
    position_le [OF assms(1,2)] advance_position [of "((\<lambda>s. fst (advance s rid r)) ^^ j) s" rid "min (k + j) n" n r]
  by auto

end

definition mem_position :: "memory \<Rightarrow> string \<Rightarrow> (nat \<times> nat) option" where
  "mem_position m rid = (case routes m rid of None \<Rightarrow> None
     | Some r \<Rightarrow> Some (length (filter (\<lambda>l. leg_Status l = ''visited'') (rt_Legs r)), length (rt_Legs r)))"

definition mem_passes :: "memory \<Rightarrow> string \<Rightarrow> advance_request \<Rightarrow> bool" where
  "mem_passes m rid req \<longleftrightarrow> \<not> advance_blocked req (rt_AutoAdvance (mem_route m rid))"

definition mem_advance_step :: "(time \<Rightarrow> string) \<Rightarrow> time \<Rightarrow> string \<Rightarrow> memory \<Rightarrow> string \<Rightarrow> advance_request \<Rightarrow> memory \<times> bool" where
  "mem_advance_step fmt now t m rid req =
     (case mem_AdvanceRoute fmt now m t rid req of
        (m', Inl _) \<Rightarrow> (m', False) | (m', Inr resp) \<Rightarrow> (m', ad_Changed (resp_Result resp)))"

lemma visited_count:
  assumes "legs_at k legs"
  shows "length (filter (\<lambda>l. leg_Status l = ''visited'') legs) = k"
proof -
  have k: "k \<le> length legs" using assms by (simp add: legs_at_def)
  let ?v = "\<lambda>l. leg_Status l = ''visited''"
  have "filter ?v (take k legs) = take k legs" "filter ?v (drop k legs) = []"
    using legs_at_nth [OF assms] k
    by (auto simp: filter_id_conv filter_empty_conv in_set_conv_nth leg_status_at_def split: if_splits)
  then have "filter ?v legs = take k legs" by (metis append_Nil2 append_take_drop_id filter_append)
  then show ?thesis using k by simp
qed

lemma mem_position_legs:
  "routes m rid = Some r \<Longrightarrow> legs_at k (rt_Legs r) \<Longrightarrow> mem_position m rid = Some (k, length (rt_Legs r))"
  by (simp add: mem_position_def visited_count)

interpretation mem_progress: route_progress "mem_advance_step fmt now t" mem_position mem_passes routes_inv
  for fmt now t
proof unfold_locales
  fix s rid rid' :: _ and req req' :: advance_request and k n
  show "mem_passes (fst (mem_advance_step fmt now t s rid req)) rid req' = mem_passes s rid req'"
    by (auto simp: mem_advance_step_def mem_AdvanceRoute_def mem_passes_def mem_route_def Let_def split: option.splits)
  assume inv: "routes_inv s"
  have "fst (mem_advance_step fmt now t s rid req) = fst (mem_AdvanceRoute fmt now s t rid req)"
    by (simp add: mem_advance_step_def split: prod.splits sum.splits)
  then show "routes_inv (fst (mem_advance_step fmt now t s rid req))"
    using routes_inv_AdvanceRoute [OF inv] by simp
  show "rid' \<noteq> rid \<Longrightarrow> mem_position (fst (mem_advance_step fmt now t s rid req)) rid' = mem_position s rid'"
    by (auto simp: mem_advance_step_def mem_AdvanceRoute_def mem_position_def Let_def split: option.splits)
  assume pos: "mem_position s rid = Some (k, n)"
  then obtain r where r: "routes s rid = Some r" by (auto simp: mem_position_def split: option.splits)
  obtain j where "legs_at j (rt_Legs r)" using routes_inv_legs_at [OF inv r] by blast
  with pos r have at: "legs_at k (rt_Legs r)" "n = length (rt_Legs r)" by (auto simp: mem_position_legs)
  then show kn: "k \<le> n" by (simp add: legs_at_def)
  show "\<not> mem_passes s rid req \<Longrightarrow> mem_advance_step fmt now t s rid req = (s, False)"
    by (simp add: mem_advance_step_def mem_AdvanceRoute_cases [OF r at(1)] mem_passes_def mem_route_def r no_advance_def)
  have adv: "k < n \<Longrightarrow> legs_at (Suc k) (advance_legs k (rt_Legs r))" using legs_at_advance at by simp
  show "mem_passes s rid req \<Longrightarrow> snd (mem_advance_step fmt now t s rid req) = (k < n) \<and>
      mem_position (fst (mem_advance_step fmt now t s rid req)) rid = Some (min (Suc k) n, n)"
    using kn at adv pos by (auto simp: mem_advance_step_def mem_AdvanceRoute_cases [OF r at(1)] mem_passes_def
        mem_route_def r no_advance_def Let_def mem_position_legs)
qed

end
