(* ===== verification/Memory_Hos.thy ===== *)
theory Memory_Hos
  imports Memory_State
begin

text \<open>
  Hours of service in the in-memory store: \<^verbatim>\<open>UpdateHOS\<close>. A driver's state is a
  \<^verbatim>\<open>map[string]any\<close>; the type assertion \<^verbatim>\<open>st["status"].(string)\<close> panics when the entry is
  missing or not a string. \<open>hos_inv\<close> rules that out; \<open>hos_view\<close> reads the object as the abstract
  state machine of shifts and breaks that \<open>hos_step\<close> defines. The state is kept per driver:
  \<open>tenantID\<close> is not used by the source.
\<close>

definition mem_UpdateHOS :: "memory \<Rightarrow> string \<Rightarrow> string \<Rightarrow> hos_update \<Rightarrow> go_panic + memory \<times> string \<times> obj" where
  "mem_UpdateHOS m tenantID driverID upd =
     (let st0 = (case hos m driverID of Some st \<Rightarrow> st
                 | None \<Rightarrow> [''status'' \<mapsto> AStr ''off'', ''break'' \<mapsto> ABool False])
      in case st0 ''status'' of
           Some (AStr status0) \<Rightarrow>
             let (status, st1) =
                   (if hu_Action upd = ''shift_start'' then (''on'', st0(''shiftStart'' \<mapsto> AStr (hu_TS upd)))
                    else if hu_Action upd = ''shift_end'' then (''off'', st0(''shiftEnd'' \<mapsto> AStr (hu_TS upd)))
                    else if hu_Action upd = ''break_start'' then
                      (status0, st0(''break'' \<mapsto> ABool True, ''breakType'' \<mapsto> AStr (hu_Type upd),
                                    ''breakStart'' \<mapsto> AStr (hu_TS upd)))
                    else if hu_Action upd = ''break_end'' then
                      (status0, st0(''break'' \<mapsto> ABool False, ''breakEnd'' \<mapsto> AStr (hu_TS upd)))
                    else (status0, st0));
                 st2 = st1(''status'' \<mapsto> AStr status);
                 st3 = (if hu_Note upd \<noteq> '''' then st2(''note'' \<mapsto> AStr (hu_Note upd)) else st2)
             in Inr (m\<lparr>hos := (hos m)(driverID \<mapsto> st3)\<rparr>, status, st3)
         | _ \<Rightarrow> Inl TypeAssertion)"

section \<open>Shifts and breaks\<close>

datatype shift = On | Off

record hos_state =
  h_shift :: shift
  h_break :: bool

text \<open>The machine the endpoints describe: unknown actions change nothing.\<close>

definition hos_step :: "string \<Rightarrow> hos_state \<Rightarrow> hos_state" where
  "hos_step action h =
     (if action = ''shift_start'' then h\<lparr>h_shift := On\<rparr>
      else if action = ''shift_end'' then h\<lparr>h_shift := Off\<rparr>
      else if action = ''break_start'' then h\<lparr>h_break := True\<rparr>
      else if action = ''break_end'' then h\<lparr>h_break := False\<rparr> else h)"

definition shift_text :: "shift \<Rightarrow> string" where
  "shift_text sh = (case sh of On \<Rightarrow> ''on'' | Off \<Rightarrow> ''off'')"

definition hos_repr :: "obj \<Rightarrow> hos_state \<Rightarrow> bool" where
  "hos_repr st h \<longleftrightarrow> st ''status'' = Some (AStr (shift_text (h_shift h))) \<and> st ''break'' = Some (ABool (h_break h))"

definition hos_inv :: "memory \<Rightarrow> bool" where
  "hos_inv m \<longleftrightarrow> (\<forall>d st. hos m d = Some st \<longrightarrow> (\<exists>h. hos_repr st h))"

definition hos_view :: "memory \<Rightarrow> string \<Rightarrow> hos_state" where
  "hos_view m d = (case hos m d of
      None \<Rightarrow> \<lparr>h_shift = Off, h_break = False\<rparr>
    | Some st \<Rightarrow> \<lparr>h_shift = (if st ''status'' = Some (AStr ''on'') then On else Off),
                h_break = (st ''break'' = Some (ABool True))\<rparr>)"

lemma hos_inv_new [inv_intros]: "hos_inv NewMemory"
  by (simp add: hos_inv_def NewMemory_def)

lemma hos_repr_view: "hos m d = Some st \<Longrightarrow> hos_repr st h \<Longrightarrow> hos_view m d = h"
  by (cases "h_shift h"; cases "h_break h"; cases h) (auto simp: hos_view_def hos_repr_def shift_text_def)

text \<open>The object an update starts from represents the driver's abstract state.\<close>

lemma hos_start:
  assumes "hos_inv m"
  shows "hos_repr (case hos m d of Some st \<Rightarrow> st | None \<Rightarrow> [''status'' \<mapsto> AStr ''off'', ''break'' \<mapsto> ABool False]) (hos_view m d)"
proof (cases "hos m d")
  case None
  then show ?thesis by (simp add: hos_repr_def hos_view_def shift_text_def)
next
  case (Some st)
  then obtain h where "hos_repr st h" using assms unfolding hos_inv_def by blast
  with Some hos_repr_view [OF Some this] show ?thesis by simp
qed

text \<open>An update never panics, returns the new shift, and steps the abstract machine.\<close>

lemma mem_UpdateHOS_spec:
  assumes "hos_inv m"
  shows "\<exists>m' st. mem_UpdateHOS m t d upd = Inr (m', shift_text (h_shift (hos_step (hu_Action upd) (hos_view m d))), st) \<and>
    m' = m\<lparr>hos := (hos m)(d \<mapsto> st)\<rparr> \<and> hos_repr st (hos_step (hu_Action upd) (hos_view m d))"
proof -
  define st0 where "st0 = (case hos m d of Some st \<Rightarrow> st | None \<Rightarrow> [''status'' \<mapsto> AStr ''off'', ''break'' \<mapsto> ABool False])"
  have r: "hos_repr st0 (hos_view m d)" using hos_start [OF assms] by (simp add: st0_def)
  then have s: "st0 ''status'' = Some (AStr (shift_text (h_shift (hos_view m d))))" by (simp add: hos_repr_def)
  have e: "mem_UpdateHOS m t d upd = Inr (m', x, st) \<longleftrightarrow> Inr (m', x, st) = mem_UpdateHOS m t d upd" for m' x st
    by auto
  show ?thesis
    using r unfolding mem_UpdateHOS_def Let_def st0_def [symmetric] s
    by (auto simp: hos_step_def hos_repr_def shift_text_def)
qed

lemma hos_inv_UpdateHOS [inv_intros]:
  assumes "hos_inv m" and "mem_UpdateHOS m t d upd = Inr (m', status, st)"
  shows "hos_inv m'"
proof -
  obtain m1 st1 where h: "mem_UpdateHOS m t d upd = Inr (m1, shift_text (h_shift (hos_step (hu_Action upd) (hos_view m d))), st1)"
    "m1 = m\<lparr>hos := (hos m)(d \<mapsto> st1)\<rparr>" "hos_repr st1 (hos_step (hu_Action upd) (hos_view m d))"
    using mem_UpdateHOS_spec [OF assms(1)] by blast
  then have e: "m' = m\<lparr>hos := (hos m)(d \<mapsto> st1)\<rparr>" using assms(2) by simp
  show ?thesis unfolding hos_inv_def
  proof (intro allI impI)
    fix d' s
    assume "hos m' d' = Some s"
    then show "\<exists>h. hos_repr s h" using assms(1) h(3) by (cases "d' = d") (auto simp: e hos_inv_def)
  qed
qed

lemma hos_view_UpdateHOS:
  assumes "hos_inv m" and "mem_UpdateHOS m t d upd = Inr (m', status, st)"
  shows "hos_view m' d' = (if d' = d then hos_step (hu_Action upd) (hos_view m d) else hos_view m d')"
    and "status = shift_text (h_shift (hos_view m' d))"
proof -
  obtain m1 st1 where h: "mem_UpdateHOS m t d upd = Inr (m1, shift_text (h_shift (hos_step (hu_Action upd) (hos_view m d))), st1)"
    "m1 = m\<lparr>hos := (hos m)(d \<mapsto> st1)\<rparr>" "hos_repr st1 (hos_step (hu_Action upd) (hos_view m d))"
    using mem_UpdateHOS_spec [OF assms(1)] by blast
  have e: "m' = m1" "status = shift_text (h_shift (hos_step (hu_Action upd) (hos_view m d)))"
    using h(1) assms(2) by auto
  have v: "hos_view m' d = hos_step (hu_Action upd) (hos_view m d)"
    by (rule hos_repr_view [OF _ h(3)]) (simp add: e h(2))
  moreover have "d' \<noteq> d \<Longrightarrow> hos_view m' d' = hos_view m d'" by (simp add: e h(2) hos_view_def)
  ultimately show "hos_view m' d' = (if d' = d then hos_step (hu_Action upd) (hos_view m d) else hos_view m d')" by auto
  show "status = shift_text (h_shift (hos_view m' d))" using v e(2) by simp
qed

text \<open>A run of updates of one driver, as the handler issues them.\<close>

fun hos_run :: "memory \<Rightarrow> string \<Rightarrow> string \<Rightarrow> hos_update list \<Rightarrow> go_panic + memory" where
  "hos_run m t d [] = Inr m"
| "hos_run m t d (u # us) = (case mem_UpdateHOS m t d u of Inl p \<Rightarrow> Inl p | Inr (m', _, _) \<Rightarrow> hos_run m' t d us)"

lemma hos_run_refines:
  assumes "hos_inv m"
  shows "\<exists>m'. hos_run m t d us = Inr m' \<and> hos_inv m' \<and>
    hos_view m' d = fold (\<lambda>u. hos_step (hu_Action u)) us (hos_view m d)"
  using assms
proof (induction us arbitrary: m)
  case Nil
  then show ?case by simp
next
  case (Cons u us)
  obtain m1 status st where u: "mem_UpdateHOS m t d u = Inr (m1, status, st)"
    using mem_UpdateHOS_spec [OF Cons.prems] by blast
  from Cons.IH [OF hos_inv_UpdateHOS [OF Cons.prems u]] u hos_view_UpdateHOS(1) [OF Cons.prems u, of d]
  show ?case by auto
qed

end
