(* ===== verification/Memory_Plans.thy ===== *)
theory Memory_Plans
  imports Memory_Routes
begin

text \<open>
  Planner metrics and the optimizer configuration in the in-memory store: \<^verbatim>\<open>SavePlanMetrics\<close>,
  \<^verbatim>\<open>ListPlanMetrics\<close>, \<^verbatim>\<open>SavePlanMetricsWeights\<close>, \<^verbatim>\<open>ListPlanMetricsWeights\<close>,
  \<^verbatim>\<open>GetOptimizerConfig\<close> and \<^verbatim>\<open>SaveOptimizerConfig\<close>. The metrics of a tenant and plan date hold at
  most one entry for each algorithm.
\<close>

definition mem_SavePlanMetrics :: "memory \<Rightarrow> string \<Rightarrow> string \<Rightarrow> string \<Rightarrow> obj \<Rightarrow> memory" where
  "mem_SavePlanMetrics m tenantID planDate algo metrics =
     (let items = upsert (has_algo algo) (metrics(''algo'' \<mapsto> AStr algo)) (planMx m tenantID planDate)
      in m\<lparr>planMx := (planMx m)(tenantID := (planMx m tenantID)(planDate := items))\<rparr>)"

definition mem_ListPlanMetrics :: "memory \<Rightarrow> string \<Rightarrow> string \<Rightarrow> string \<Rightarrow> obj list" where
  "mem_ListPlanMetrics m tenantID planDate algo =
     (let items = planMx m tenantID planDate
      in if algo = '''' then items else filter (has_algo algo) items)"

definition mem_SavePlanMetricsWeights :: "memory \<Rightarrow> string \<Rightarrow> string \<Rightarrow> string \<Rightarrow> obj list \<Rightarrow> memory" where
  "mem_SavePlanMetricsWeights m tenantID planDate algo snaps = m"

definition mem_ListPlanMetricsWeights :: "memory \<Rightarrow> string \<Rightarrow> string \<Rightarrow> string \<Rightarrow> obj list" where
  "mem_ListPlanMetricsWeights m tenantID planDate algo = []"

definition mem_GetOptimizerConfig :: "memory \<Rightarrow> string \<Rightarrow> obj option" where
  "mem_GetOptimizerConfig m tenantID = optCfg m tenantID"

definition mem_SaveOptimizerConfig :: "memory \<Rightarrow> string \<Rightarrow> obj \<Rightarrow> memory" where
  "mem_SaveOptimizerConfig m tenantID cfg = m\<lparr>optCfg := (optCfg m)(tenantID \<mapsto> cfg)\<rparr>"

section \<open>At most one entry for each algorithm\<close>

definition algo_unique :: "obj list \<Rightarrow> bool" where
  "algo_unique items \<longleftrightarrow> (\<forall>a. length (filter (has_algo a) items) \<le> 1)"

definition plans_inv :: "memory \<Rightarrow> bool" where
  "plans_inv m \<longleftrightarrow> (\<forall>t d. algo_unique (planMx m t d))"

lemma has_algo_unique: "has_algo a x \<Longrightarrow> has_algo b x \<Longrightarrow> a = b"
  by (simp add: has_algo_def)

lemma upsert_filter_hit:
  assumes "has_algo a x" and "length (filter (has_algo a) items) \<le> 1"
  shows "filter (has_algo a) (upsert (has_algo a) x items) = [x]"
  using assms(2)
proof (induction items)
  case Nil
  then show ?case using assms(1) by simp
next
  case (Cons y ys)
  then show ?case using assms(1) by (cases "has_algo a y") auto
qed

lemma upsert_filter_other:
  "has_algo a x \<Longrightarrow> b \<noteq> a \<Longrightarrow> filter (has_algo b) (upsert (has_algo a) x items) = filter (has_algo b) items"
  by (induction items) (auto dest: has_algo_unique)

lemma algo_unique_upsert: "has_algo a x \<Longrightarrow> algo_unique items \<Longrightarrow> algo_unique (upsert (has_algo a) x items)"
  by (auto simp: algo_unique_def) (metis One_nat_def le_refl length_Cons list.size(3) upsert_filter_hit upsert_filter_other)

lemma has_algo_demo [simp]: "has_algo a (demo_metrics a)"
  by (simp add: has_algo_def demo_metrics_def)

lemma plans_inv_new [inv_intros]: "plans_inv NewMemory"
  by (simp add: plans_inv_def NewMemory_def algo_unique_def)

lemma plans_inv_SavePlanMetrics [inv_intros]: "plans_inv m \<Longrightarrow> plans_inv (mem_SavePlanMetrics m t d a mx)"
  by (auto simp: plans_inv_def mem_SavePlanMetrics_def has_algo_def intro!: algo_unique_upsert)

lemma plans_inv_PlanRoutes [inv_intros]: "plans_inv m \<Longrightarrow> plans_inv (fst (mem_PlanRoutes uuids m req))"
  by (auto simp: plans_inv_def mem_PlanRoutes_def Let_def intro!: algo_unique_upsert)

lemma ListPlanMetrics_Save:
  assumes "plans_inv m" and "a \<noteq> ''''"
  shows "mem_ListPlanMetrics (mem_SavePlanMetrics m t d a mx) t' d' b =
    (if t' = t \<and> d' = d \<and> b = a then [mx(''algo'' \<mapsto> AStr a)]
     else if t' = t \<and> d' = d \<and> b = '''' then upsert (has_algo a) (mx(''algo'' \<mapsto> AStr a)) (planMx m t d)
     else mem_ListPlanMetrics m t' d' b)"
proof -
  have h: "has_algo a (mx(''algo'' \<mapsto> AStr a))" by (simp add: has_algo_def)
  have "length (filter (has_algo a) (planMx m t d)) \<le> 1" using assms(1) by (simp add: plans_inv_def algo_unique_def)
  note hit = upsert_filter_hit [OF h this]
  show ?thesis using assms(2)
    by (simp add: mem_ListPlanMetrics_def mem_SavePlanMetrics_def hit upsert_filter_other [OF h])
qed

end
