(* ===== verification/Memory_Deliveries.thy ===== *)
theory Memory_Deliveries
  imports Memory_State
begin

text \<open>
  The webhook queue of the in-memory store: \<^verbatim>\<open>EnqueueWebhook\<close>,
  \<^verbatim>\<open>FetchDueWebhookDeliveries\<close>, \<^verbatim>\<open>MarkWebhookDelivery\<close>, \<^verbatim>\<open>FailWebhookDelivery\<close>,
  \<^verbatim>\<open>RetryWebhookDelivery\<close>, \<^verbatim>\<open>ListWebhookDeliveries\<close>, the dead-letter queue and
  \<^verbatim>\<open>WebhookMetrics\<close>.

  Where the source ranges over the map of tenants, the order Go picks is the argument \<open>tenants\<close>;
  \<open>now\<close> is what \<^verbatim>\<open>time.Now()\<close> returns during the call.
\<close>

definition mem_EnqueueWebhook :: "time \<Rightarrow> string \<Rightarrow> memory \<Rightarrow> string \<Rightarrow> string \<Rightarrow> string \<Rightarrow> string \<Rightarrow> string \<Rightarrow> string
    \<Rightarrow> memory \<times> string" where
  "mem_EnqueueWebhook now uuid m tenantID subscriptionID eventType url secret payload =
     (let wd = \<lparr>wd_ID = uuid, wd_TenantID = tenantID, wd_SubscriptionID = subscriptionID,
                wd_EventType = eventType, wd_URL = url, wd_Secret = secret, wd_Payload = payload,
                wd_Status = ''pending'', wd_Attempts = 0\<rparr>;
          d = \<lparr>md_Delivery = wd, md_NextAttemptAt = now, md_LastError = '''', md_ResponseCode = 0,
               md_LatencyMs = 0, md_DeliveredAt = None\<rparr>
      in (m\<lparr>deliveries := (deliveries m)(uuid \<mapsto> d),
            deliveriesByTenant := (deliveriesByTenant m)(tenantID := deliveriesByTenant m tenantID @ [uuid])\<rparr>, uuid))"

definition iter_delivery_ids :: "string list \<Rightarrow> memory \<Rightarrow> string list" where
  "iter_delivery_ids tenants m = concat (map (deliveriesByTenant m) tenants)"

definition is_due :: "time \<Rightarrow> mem_delivery \<Rightarrow> bool" where
  "is_due now d \<longleftrightarrow> (wd_Status (md_Delivery d) = ''pending'' \<or> wd_Status (md_Delivery d) = ''retry'') \<and>
     \<not> now < md_NextAttemptAt d"

fun fetch_loop :: "time \<Rightarrow> memory \<Rightarrow> int \<Rightarrow> string list \<Rightarrow> webhook_delivery list \<Rightarrow> webhook_delivery list" where
  "fetch_loop now m limit [] out = out"
| "fetch_loop now m limit (k # ks) out =
     (case deliveries m k of
        None \<Rightarrow> fetch_loop now m limit ks out
      | Some d \<Rightarrow>
          if is_due now d then
            let out' = out @ [md_Delivery d]
            in if 0 < limit \<and> limit \<le> int (length out') then out' else fetch_loop now m limit ks out'
          else fetch_loop now m limit ks out)"

definition mem_FetchDueWebhookDeliveries :: "string list \<Rightarrow> time \<Rightarrow> memory \<Rightarrow> int \<Rightarrow> webhook_delivery list" where
  "mem_FetchDueWebhookDeliveries tenants now m limit =
     fetch_loop now m limit (iter_delivery_ids tenants m) []"

definition mem_MarkWebhookDelivery :: "time \<Rightarrow> memory \<Rightarrow> string \<Rightarrow> bool \<Rightarrow> time option \<Rightarrow> string \<Rightarrow> int \<Rightarrow> int \<Rightarrow> memory" where
  "mem_MarkWebhookDelivery now m k success nextAttemptAt lastError responseCode latencyMs =
     (case deliveries m k of
        None \<Rightarrow> m
      | Some d0 \<Rightarrow>
          let wd = (md_Delivery d0)\<lparr>wd_Attempts := wd_Attempts (md_Delivery d0) + 1\<rparr>;
              d1 = d0\<lparr>md_ResponseCode := responseCode, md_LatencyMs := latencyMs\<rparr>;
              d2 = (if success
                    then d1\<lparr>md_Delivery := wd\<lparr>wd_Status := ''delivered''\<rparr>, md_DeliveredAt := Some now\<rparr>
                    else d1\<lparr>md_Delivery := wd\<lparr>wd_Status := ''retry''\<rparr>, md_LastError := lastError,
                            md_NextAttemptAt := (case nextAttemptAt of Some t \<Rightarrow> t | None \<Rightarrow> now + minute)\<rparr>)
          in m\<lparr>deliveries := (deliveries m)(k \<mapsto> d2)\<rparr>)"

definition dlq_entry :: "string \<Rightarrow> string \<Rightarrow> int \<Rightarrow> int \<Rightarrow> obj" where
  "dlq_entry k lastError responseCode latencyMs = [''id'' \<mapsto> AStr k, ''lastError'' \<mapsto> AStr lastError,
     ''responseCode'' \<mapsto> AInt responseCode, ''latencyMs'' \<mapsto> AInt latencyMs]"

definition mem_FailWebhookDelivery :: "memory \<Rightarrow> string \<Rightarrow> string \<Rightarrow> int \<Rightarrow> int \<Rightarrow> memory" where
  "mem_FailWebhookDelivery m k lastError responseCode latencyMs =
     (let m1 = (case deliveries m k of
                  None \<Rightarrow> m
                | Some d \<Rightarrow> m\<lparr>deliveries := (deliveries m)(k \<mapsto>
                    d\<lparr>md_Delivery := (md_Delivery d)\<lparr>wd_Status := ''failed''\<rparr>\<rparr>)\<rparr>)
      in m1\<lparr>dlq := dlq m1 @ [dlq_entry k lastError responseCode latencyMs]\<rparr>)"

definition mem_RetryWebhookDelivery :: "time \<Rightarrow> memory \<Rightarrow> string \<Rightarrow> string \<Rightarrow> memory" where
  "mem_RetryWebhookDelivery now m tenantID k =
     (case deliveries m k of
        None \<Rightarrow> m
      | Some d \<Rightarrow>
          if wd_TenantID (md_Delivery d) = tenantID
          then m\<lparr>deliveries := (deliveries m)(k \<mapsto>
                 d\<lparr>md_Delivery := (md_Delivery d)\<lparr>wd_Status := ''pending''\<rparr>, md_NextAttemptAt := now\<rparr>)\<rparr>
          else m)"

definition delivery_item :: "mem_delivery \<Rightarrow> obj" where
  "delivery_item d =
     (let wd = md_Delivery d;
          item0 = [''id'' \<mapsto> AStr (wd_ID wd), ''eventType'' \<mapsto> AStr (wd_EventType wd),
                   ''status'' \<mapsto> AStr (wd_Status wd), ''attempts'' \<mapsto> AInt (wd_Attempts wd), ''url'' \<mapsto> AStr (wd_URL wd)];
          item1 = (if md_NextAttemptAt d \<noteq> 0 then item0(''nextAttemptAt'' \<mapsto> AInt (md_NextAttemptAt d)) else item0)
      in if md_LastError d \<noteq> '''' then item1(''lastError'' \<mapsto> AStr (md_LastError d)) else item1)"

text \<open>The cursor and the limit are not used by the source: every matching delivery is listed.\<close>

definition mem_ListWebhookDeliveries :: "memory \<Rightarrow> string \<Rightarrow> string \<Rightarrow> string \<Rightarrow> int \<Rightarrow> obj list \<times> string" where
  "mem_ListWebhookDeliveries m tenantID status cursor limit =
     (List.map_filter (\<lambda>k. case deliveries m k of
         None \<Rightarrow> None
       | Some d \<Rightarrow> if status = '''' \<or> wd_Status (md_Delivery d) = status then Some (delivery_item d) else None)
       (deliveriesByTenant m tenantID), '''')"

definition mem_ListWebhookDLQ :: "memory \<Rightarrow> obj list \<times> string" where
  "mem_ListWebhookDLQ m = (dlq m, '''')"

definition mem_RequeueWebhookDLQ :: "memory \<Rightarrow> string \<Rightarrow> string \<Rightarrow> memory" where
  "mem_RequeueWebhookDLQ m tenantID k = m"

definition mem_RequeueWebhookDLQBulk :: "memory \<Rightarrow> string \<Rightarrow> string list \<Rightarrow> memory" where
  "mem_RequeueWebhookDLQBulk m tenantID ids = m"

definition mem_DeleteWebhookDLQBulk :: "memory \<Rightarrow> string \<Rightarrow> string list \<Rightarrow> time \<Rightarrow> memory" where
  "mem_DeleteWebhookDLQBulk m tenantID ids olderThan = m"

section \<open>Latency metrics\<close>

record agg =
  agg_cnt :: int
  agg_sum :: int
  agg_b :: "int list"

definition bucket_index :: "int list \<Rightarrow> int \<Rightarrow> nat" where
  "bucket_index buckets latency =
     (case find_index (\<lambda>edge. latency < edge) buckets of Some i \<Rightarrow> i | None \<Rightarrow> length buckets)"

definition agg_add :: "int list \<Rightarrow> int \<Rightarrow> agg \<Rightarrow> agg" where
  "agg_add buckets latency a =
     (let bi = bucket_index buckets latency
      in a\<lparr>agg_cnt := agg_cnt a + 1,
           agg_sum := (if 0 < latency then agg_sum a + latency else agg_sum a),
           agg_b := (agg_b a)[bi := agg_b a ! bi + 1]\<rparr>)"

definition agg_new :: "int list \<Rightarrow> agg" where
  "agg_new buckets = \<lparr>agg_cnt = 0, agg_sum = 0, agg_b = replicate (length buckets + 1) 0\<rparr>"

text \<open>
  The aggregates by key, in the order the keys first appear (the source keeps them in a map, whose
  iteration order is not determined; the rows are compared as a set below).
\<close>

fun metrics_add :: "int list \<Rightarrow> string \<Rightarrow> int \<Rightarrow> (string \<times> agg) list \<Rightarrow> (string \<times> agg) list" where
  "metrics_add buckets key latency [] = [(key, agg_add buckets latency (agg_new buckets))]"
| "metrics_add buckets key latency ((k, a) # rest) =
     (if k = key then (k, agg_add buckets latency a) # rest
      else (k, a) # metrics_add buckets key latency rest)"

record metrics_query =
  mq_tenant :: string
  mq_since :: time
  mq_eventType :: string
  mq_status :: string
  mq_codeMin :: int
  mq_codeMax :: int

definition metrics_selects :: "metrics_query \<Rightarrow> mem_delivery \<Rightarrow> bool" where
  "metrics_selects q d =
     (let wd = md_Delivery d in
      if wd_TenantID wd \<noteq> mq_tenant q then False
      else if mq_since q \<noteq> 0 \<and> (case md_DeliveredAt d of Some t \<Rightarrow> t < mq_since q | None \<Rightarrow> False) then False
      else if mq_eventType q \<noteq> '''' \<and> wd_EventType wd \<noteq> mq_eventType q then False
      else if mq_status q \<noteq> '''' \<and> wd_Status wd \<noteq> mq_status q then False
      else if 0 < mq_codeMin q \<and> md_ResponseCode d < mq_codeMin q then False
      else if 0 < mq_codeMax q \<and> mq_codeMax q < md_ResponseCode d then False
      else True)"

definition metrics_key :: "mem_delivery \<Rightarrow> string" where
  "metrics_key d = wd_EventType (md_Delivery d) @ ''|'' @ wd_Status (md_Delivery d)"

fun metrics_loop :: "metrics_query \<Rightarrow> int list \<Rightarrow> memory \<Rightarrow> string list \<Rightarrow> (string \<times> agg) list \<Rightarrow> (string \<times> agg) list" where
  "metrics_loop q buckets m [] by = by"
| "metrics_loop q buckets m (k # ks) by =
     (case deliveries m k of
        None \<Rightarrow> metrics_loop q buckets m ks by
      | Some d \<Rightarrow>
          if metrics_selects q d
          then metrics_loop q buckets m ks (metrics_add buckets (metrics_key d) (md_LatencyMs d) by)
          else metrics_loop q buckets m ks by)"

record metrics_row =
  mr_event_type :: string
  mr_status :: string
  mr_cnt :: int
  mr_avg_latency_ms :: int
  mr_b :: "int list"

text \<open>
  The key is cut at its first bar (every key has one); the sum of latencies is not negative, so
  Go's truncating division is \<open>div\<close>.
\<close>

definition metrics_row_of :: "string \<times> agg \<Rightarrow> metrics_row" where
  "metrics_row_of ka =
     (case ka of (k, a) \<Rightarrow>
        let sep = (case find_index (\<lambda>c. c = CHR ''|'') k of Some i \<Rightarrow> i | None \<Rightarrow> length k)
        in \<lparr>mr_event_type = take sep k, mr_status = drop (sep + 1) k, mr_cnt = agg_cnt a,
            mr_avg_latency_ms = (if 0 < agg_cnt a then agg_sum a div agg_cnt a else 0),
            mr_b = agg_b a\<rparr>)"

text \<open>A row as the map the store returns: the buckets are the keys \<open>b0\<close>, \<open>b1\<close>, \<dots>\<close>

definition metrics_obj :: "metrics_row \<Rightarrow> obj" where
  "metrics_obj r =
     foldl (\<lambda>row i. row(''b'' @ nat_text i \<mapsto> AInt (mr_b r ! i)))
       [''event_type'' \<mapsto> AStr (mr_event_type r), ''status'' \<mapsto> AStr (mr_status r), ''cnt'' \<mapsto> AInt (mr_cnt r),
        ''avg_latency_ms'' \<mapsto> AInt (mr_avg_latency_ms r)] [0..<length (mr_b r)]"

definition mem_WebhookMetrics :: "string list \<Rightarrow> memory \<Rightarrow> metrics_query \<Rightarrow> int list \<Rightarrow> metrics_row list" where
  "mem_WebhookMetrics tenants m q buckets0 =
     (let buckets = (if buckets0 = [] then [100, 500, 1000] else buckets0)
      in map metrics_row_of (metrics_loop q buckets m (iter_delivery_ids tenants m) []))"

text \<open>
  The rows partition the selected deliveries: the count of a key is the number of selected
  deliveries with that key, and the buckets of a row add up to its count.
\<close>

definition key_count :: "(string \<times> agg) list \<Rightarrow> string \<Rightarrow> int" where
  "key_count by key = (case map_of by key of None \<Rightarrow> 0 | Some a \<Rightarrow> agg_cnt a)"

definition aggs_ok :: "int list \<Rightarrow> (string \<times> agg) list \<Rightarrow> bool" where
  "aggs_ok buckets by \<longleftrightarrow> distinct (map fst by) \<and>
     (\<forall>a\<in>snd ` set by. length (agg_b a) = length buckets + 1 \<and> sum_list (agg_b a) = agg_cnt a)"

lemma bucket_index_le: "bucket_index buckets lat \<le> length buckets"
  using find_index_SomeD [of "\<lambda>edge. lat < edge" buckets]
  by (auto simp: bucket_index_def split: option.split simp del: find_index_None)

lemma sum_list_incr: "i < length xs \<Longrightarrow> sum_list (xs[i := xs ! i + 1]) = sum_list xs + (1::int)"
  by (induction xs arbitrary: i) (auto split: nat.split)

lemma agg_add_ok:
  "length (agg_b a) = length buckets + 1 \<Longrightarrow> sum_list (agg_b a) = agg_cnt a \<Longrightarrow>
   length (agg_b (agg_add buckets lat a)) = length buckets + 1 \<and>
   sum_list (agg_b (agg_add buckets lat a)) = agg_cnt (agg_add buckets lat a)"
  using bucket_index_le [of buckets lat] by (simp add: agg_add_def Let_def sum_list_incr)

lemma agg_new_ok: "length (agg_b (agg_new buckets)) = length buckets + 1 \<and> sum_list (agg_b (agg_new buckets)) = agg_cnt (agg_new buckets)"
  by (simp add: agg_new_def sum_list_replicate)

lemma metrics_add_keys: "fst ` set (metrics_add buckets key lat rows) = insert key (fst ` set rows)"
  by (induction buckets key lat rows rule: metrics_add.induct) auto

lemma aggs_ok_add: "aggs_ok buckets rows \<Longrightarrow> aggs_ok buckets (metrics_add buckets key lat rows)"
proof (induction buckets key lat rows rule: metrics_add.induct)
  case (1 buckets key latency)
  then show ?case using agg_add_ok agg_new_ok by (simp add: aggs_ok_def)
next
  case (2 buckets key latency k a rest)
  then show ?case using agg_add_ok metrics_add_keys [of buckets key latency rest] by (auto simp: aggs_ok_def)
qed

lemma key_count_add: "key_count (metrics_add buckets key lat rows) k = key_count rows k + (if k = key then 1 else 0)"
  by (induction buckets key lat rows rule: metrics_add.induct) (auto simp: key_count_def agg_add_def agg_new_def Let_def)

lemma metrics_loop_ok:
  "aggs_ok buckets rows \<Longrightarrow> aggs_ok buckets (metrics_loop q buckets m ks rows) \<and>
   key_count (metrics_loop q buckets m ks rows) key = key_count rows key +
     int (length (filter (\<lambda>k. case deliveries m k of None \<Rightarrow> False
       | Some d \<Rightarrow> metrics_selects q d \<and> metrics_key d = key) ks))"
  by (induction ks arbitrary: rows) (auto simp: aggs_ok_add key_count_add split: option.split)

section \<open>Invariant\<close>

definition deliveries_inv :: "memory \<Rightarrow> bool" where
  "deliveries_inv m \<longleftrightarrow>
     indexed (\<lambda>d. wd_ID (md_Delivery d)) (\<lambda>d. wd_TenantID (md_Delivery d)) (deliveries m) (deliveriesByTenant m) \<and>
     (\<forall>k d. deliveries m k = Some d \<longrightarrow> 0 \<le> wd_Attempts (md_Delivery d) \<and>
        wd_Status (md_Delivery d) \<in> {''pending'', ''retry'', ''delivered'', ''failed''})"

lemma deliveries_inv_new [inv_intros]: "deliveries_inv NewMemory"
  by (simp add: deliveries_inv_def NewMemory_def indexed_empty)

lemma deliveries_inv_Enqueue [inv_intros]:
  "deliveries_inv m \<Longrightarrow> deliveries m uuid = None \<Longrightarrow> uuid \<noteq> '''' \<Longrightarrow>
   deliveries_inv (fst (mem_EnqueueWebhook now uuid m t sid ev url sec pl))"
  by (auto simp: deliveries_inv_def mem_EnqueueWebhook_def Let_def intro!: indexed_insert)

text \<open>Writing one delivery back with the same id and tenant and a legal status.\<close>

lemma deliveries_inv_update:
  assumes "deliveries_inv m" and "deliveries m k = Some d"
    and "wd_ID (md_Delivery d') = wd_ID (md_Delivery d)"
    and "wd_TenantID (md_Delivery d') = wd_TenantID (md_Delivery d)"
    and "0 \<le> wd_Attempts (md_Delivery d')"
    and "wd_Status (md_Delivery d') \<in> {''pending'', ''retry'', ''delivered'', ''failed''}"
  shows "deliveries_inv (m\<lparr>deliveries := (deliveries m)(k \<mapsto> d')\<rparr>)"
  using assms by (auto simp: deliveries_inv_def intro!: indexed_update [of _ _ _ _ k d])

lemma deliveries_inv_attempts:
  "deliveries_inv m \<Longrightarrow> deliveries m k = Some d \<Longrightarrow> 0 \<le> wd_Attempts (md_Delivery d)"
  by (simp add: deliveries_inv_def)

lemma deliveries_inv_Mark [inv_intros]:
  "deliveries_inv m \<Longrightarrow> deliveries_inv (mem_MarkWebhookDelivery now m k ok nxt err code lat)"
  by (auto simp: mem_MarkWebhookDelivery_def Let_def split: option.split
      intro!: deliveries_inv_update dest: deliveries_inv_attempts)

lemma deliveries_inv_dlq: "deliveries_inv (m\<lparr>dlq := q\<rparr>) = deliveries_inv m"
  by (simp add: deliveries_inv_def)

lemma deliveries_inv_Fail [inv_intros]:
  "deliveries_inv m \<Longrightarrow> deliveries_inv (mem_FailWebhookDelivery m k err code lat)"
  by (auto simp: mem_FailWebhookDelivery_def Let_def deliveries_inv_dlq split: option.split
      intro!: deliveries_inv_update dest: deliveries_inv_attempts)

lemma deliveries_inv_Retry [inv_intros]:
  "deliveries_inv m \<Longrightarrow> deliveries_inv (mem_RetryWebhookDelivery now m t k)"
  by (auto simp: mem_RetryWebhookDelivery_def Let_def split: option.split
      intro!: deliveries_inv_update dest: deliveries_inv_attempts)

section \<open>What a fetch returns\<close>

text \<open>Without the early stop the loop is a filter; with it, a prefix of the filter.\<close>

definition due_deliveries :: "time \<Rightarrow> memory \<Rightarrow> string list \<Rightarrow> webhook_delivery list" where
  "due_deliveries now m ks = List.map_filter (\<lambda>k. case deliveries m k of None \<Rightarrow> None
     | Some d \<Rightarrow> if is_due now d then Some (md_Delivery d) else None) ks"

lemma due_deliveries_simps [simp]:
  "due_deliveries now m [] = []"
  "due_deliveries now m (k # ks) = (case deliveries m k of None \<Rightarrow> due_deliveries now m ks
     | Some d \<Rightarrow> if is_due now d then md_Delivery d # due_deliveries now m ks else due_deliveries now m ks)"
  by (simp_all add: due_deliveries_def List.map_filter_def split: option.split)

lemma fetch_loop_eq:
  assumes "0 < limit \<longrightarrow> int (length out) < limit"
  shows "fetch_loop now m limit ks out =
    (if 0 < limit then take (nat limit) (out @ due_deliveries now m ks) else out @ due_deliveries now m ks)"
  using assms
proof (induction ks arbitrary: out)
  case Nil
  then show ?case by auto
next
  case (Cons k ks)
  have "int (length out) < limit \<Longrightarrow> limit \<le> 1 + int (length out) \<Longrightarrow> nat limit - length out = 1" by linarith
  with Cons show ?case by (auto simp: Let_def split: option.split)
qed

lemma fetch_due_eq:
  "mem_FetchDueWebhookDeliveries tenants now m limit =
    (let ds = due_deliveries now m (iter_delivery_ids tenants m) in if 0 < limit then take (nat limit) ds else ds)"
  by (simp add: mem_FetchDueWebhookDeliveries_def fetch_loop_eq)

lemma set_due_deliveries:
  "set (due_deliveries now m ks) = {md_Delivery d | k d. k \<in> set ks \<and> deliveries m k = Some d \<and> is_due now d}"
  by (induction ks) (auto split: option.split)

text \<open>Ids are met once when each tenant is: Go's iteration visits every key once.\<close>

lemma iter_delivery_ids_distinct:
  assumes "deliveries_inv m" and "distinct tenants"
  shows "distinct (iter_delivery_ids tenants m)"
  using assms(2)
proof (induction tenants)
  case Nil
  then show ?case by (simp add: iter_delivery_ids_def)
next
  case (Cons t ts)
  have i: "indexed (\<lambda>d. wd_ID (md_Delivery d)) (\<lambda>d. wd_TenantID (md_Delivery d)) (deliveries m) (deliveriesByTenant m)"
    using assms(1) by (simp add: deliveries_inv_def)
  have "set (deliveriesByTenant m t) \<inter> set (deliveriesByTenant m t') = {}" if "t' \<noteq> t" for t'
    using indexed_lookup [OF i, of _ t] indexed_lookup [OF i, of _ t'] that by (fastforce simp: disjoint_iff)
  with Cons indexed_distinct [OF i] show ?case by (fastforce simp: iter_delivery_ids_def)
qed

lemma due_deliveries_ids:
  assumes "deliveries_inv m"
  shows "map wd_ID (due_deliveries now m ks) = filter (\<lambda>k. case deliveries m k of None \<Rightarrow> False | Some d \<Rightarrow> is_due now d) ks"
  using assms by (induction ks) (auto simp: deliveries_inv_def indexed_def split: option.split)

lemma fetch_due_distinct:
  assumes "deliveries_inv m" and "distinct tenants"
  shows "distinct (map wd_ID (mem_FetchDueWebhookDeliveries tenants now m limit))"
  using iter_delivery_ids_distinct [OF assms]
  by (auto simp: fetch_due_eq Let_def due_deliveries_ids [OF assms(1)] take_map [symmetric])

lemma fetch_due_sound:
  assumes "deliveries_inv m" and "wd \<in> set (mem_FetchDueWebhookDeliveries tenants now m limit)"
  shows "\<exists>d. deliveries m (wd_ID wd) = Some d \<and> md_Delivery d = wd \<and> is_due now d"
proof -
  have "wd \<in> set (due_deliveries now m (iter_delivery_ids tenants m))"
    using assms(2) by (auto simp: fetch_due_eq Let_def split: if_splits dest: in_set_takeD)
  then show ?thesis using assms(1)
    by (auto simp: set_due_deliveries deliveries_inv_def indexed_def)
qed

end
