(* ===== verification/Webhooks.thy ===== *)
theory Webhooks
  imports Memory_Deliveries Memory_Subscriptions
begin

text \<open>
  Package \<^verbatim>\<open>internal/webhooks\<close>: the HMAC signatures (\<^verbatim>\<open>signature.go\<close>), the publisher
  (\<^verbatim>\<open>publisher.go\<close>) and the delivery worker (\<^verbatim>\<open>worker.go\<close>).

  HMAC-SHA256 is the parameter \<open>hmac\<close> (secret and message to digest bytes); the HTTP client is the
  parameter \<open>http\<close>, from the request to its outcome; whether \<^verbatim>\<open>http.NewRequest\<close> accepts a URL is
  the parameter \<open>url_ok\<close>: the worker ignores its error and dereferences the nil request. The store
  is an interface value, here a record of its methods (\<open>delivery_store\<close>), and the locale
  \<open>delivery_queue\<close> states the laws the worker relies on; the in-memory store is its interpretation.
\<close>

section \<open>Signatures\<close>

definition hex_digit :: "nat \<Rightarrow> char" where
  "hex_digit n = ''0123456789abcdef'' ! n"

definition hex_encode :: "string \<Rightarrow> string" where
  "hex_encode bs = concat (map (\<lambda>b. [hex_digit (of_char b div 16), hex_digit (of_char b mod 16)]) bs)"

definition hex_value :: "char \<Rightarrow> nat option" where
  "hex_value c =
     (let n = of_char c in
      if 48 \<le> n \<and> n \<le> 57 then Some (n - 48)
      else if 97 \<le> n \<and> n \<le> 102 then Some (n - 87)
      else if 65 \<le> n \<and> n \<le> 70 then Some (n - 55) else None)"

text \<open>\<^verbatim>\<open>hex.DecodeString\<close>: an error (\<open>None\<close>) on an odd length or a character that is no digit.\<close>

fun hex_decode :: "string \<Rightarrow> string option" where
  "hex_decode [] = Some []"
| "hex_decode [c] = None"
| "hex_decode (c # d # cs) =
     (case (hex_value c, hex_value d, hex_decode cs) of
        (Some h, Some l, Some bs) \<Rightarrow> Some (char_of (16 * h + l) # bs) | _ \<Rightarrow> None)"

definition SignHMAC :: "(string \<Rightarrow> string \<Rightarrow> string) \<Rightarrow> string \<Rightarrow> string \<Rightarrow> string" where
  "SignHMAC hmac secret body = hex_encode (hmac secret body)"

definition VerifyHMAC :: "(string \<Rightarrow> string \<Rightarrow> string) \<Rightarrow> string \<Rightarrow> string \<Rightarrow> string \<Rightarrow> bool" where
  "VerifyHMAC hmac secret body provided =
     (case hex_decode provided of None \<Rightarrow> False | Some b \<Rightarrow> hmac secret body = b)"

lemma hex_digit_value: "n < 16 \<Longrightarrow> hex_value (hex_digit n) = Some n"
proof -
  have "\<forall>n\<in>set [0..<16]. hex_value (hex_digit n) = Some n" by code_simp
  then show "n < 16 \<Longrightarrow> hex_value (hex_digit n) = Some n" by simp
qed

lemma hex_decode_encode [simp]: "hex_decode (hex_encode bs) = Some bs"
proof (induction bs)
  case Nil
  then show ?case by (simp add: hex_encode_def)
next
  case (Cons b bs)
  have "of_char b < (256::nat)" by simp
  then have "(of_char b div 16 :: nat) < 16" by (rule less_mult_imp_div_less [of _ 16 16, simplified])
  with Cons show ?case by (simp add: hex_encode_def hex_digit_value)
qed

lemma hex_value_range: "hex_value c = Some h \<Longrightarrow> h < 16"
  by (auto simp: hex_value_def Let_def split: if_splits)

lemma hex_decode_inj: "hex_decode s = Some bs \<Longrightarrow> length s = 2 * length bs"
  by (induction s arbitrary: bs rule: hex_decode.induct) (auto split: option.splits)

section \<open>Back-off\<close>

definition nextBackoff :: "int \<Rightarrow> duration" where
  "nextBackoff attempts0 =
     (let attempts1 = (if attempts0 < 0 then 0 else attempts0);
          attempts = (if attempts1 > 10 then 10 else attempts1);
          base = second * 2 ^ nat attempts
      in if base > hour then hour else base)"

lemma nextBackoff_eq: "nextBackoff n = second * 2 ^ nat (min (max n 0) 10)"
proof -
  have "(2::int) ^ nat (min (max n 0) 10) \<le> 2 ^ 10" by (intro power_increasing) auto
  then show ?thesis by (auto simp: nextBackoff_def Let_def min_def max_def)
qed

lemma nextBackoff_mono: "a \<le> b \<Longrightarrow> nextBackoff a \<le> nextBackoff b"
  by (auto simp: nextBackoff_eq intro!: power_increasing)

section \<open>The worker\<close>

datatype http_outcome = HttpError string | HttpStatus int

record http_request =
  rq_URL :: string
  rq_Body :: string
  rq_ContentType :: string
  rq_Signature :: "string option"
  rq_EventType :: "string option"

text \<open>What the environment does during one attempt: the clock and the transport.\<close>

record attempt_env =
  ae_now :: time
  ae_http :: "http_request \<Rightarrow> http_outcome"
  ae_latency :: int
  ae_mark_now :: time

text \<open>The methods of the store the worker calls, as the interface value holds them.\<close>

record 's delivery_store =
  ds_fetch :: "time \<Rightarrow> 's \<Rightarrow> int \<Rightarrow> webhook_delivery list result"
  ds_mark :: "time \<Rightarrow> 's \<Rightarrow> string \<Rightarrow> bool \<Rightarrow> time option \<Rightarrow> string \<Rightarrow> int \<Rightarrow> int \<Rightarrow> 's"
  ds_fail :: "'s \<Rightarrow> string \<Rightarrow> string \<Rightarrow> int \<Rightarrow> int \<Rightarrow> 's"

record worker =
  w_hmac :: "string \<Rightarrow> string \<Rightarrow> string"
  w_url_ok :: "string \<Rightarrow> bool"
  w_MaxAttempts :: int

text \<open>One delivery counted: event type, status label, latency.\<close>

type_synonym delivery_metric = "string \<times> string \<times> int"

definition build_request :: "worker \<Rightarrow> webhook_delivery \<Rightarrow> http_request" where
  "build_request w it =
     (let req = \<lparr>rq_URL = wd_URL it, rq_Body = wd_Payload it, rq_ContentType = ''application/json'',
                 rq_Signature = None, rq_EventType = None\<rparr>
      in if wd_Secret it \<noteq> ''''
         then req\<lparr>rq_Signature := Some (SignHMAC (w_hmac w) (wd_Secret it) (wd_Payload it)),
                  rq_EventType := Some (wd_EventType it)\<rparr>
         else req)"

definition process_item :: "'s delivery_store \<Rightarrow> worker \<Rightarrow> attempt_env \<Rightarrow> webhook_delivery
    \<Rightarrow> 's \<times> http_request list \<times> delivery_metric list \<Rightarrow> go_panic + 's \<times> http_request list \<times> delivery_metric list" where
  "process_item S w env it acc =
     (case acc of (s, reqs, mx) \<Rightarrow>
        if \<not> w_url_ok w (wd_URL it) then Inl NilDeref
        else
          let next = ae_now env + nextBackoff (wd_Attempts it);
              req = build_request w it;
              latency = ae_latency env;
              (code, success, lastErr) =
                (case ae_http env req of
                   HttpError e \<Rightarrow> (0, False, e)
                 | HttpStatus c \<Rightarrow> (c, 200 \<le> c \<and> c < 300, ''''));
              status = (if success then ''delivered'' else ''retry'');
              mx1 = mx @ [(wd_EventType it, status, latency)]
          in if \<not> success \<and> w_MaxAttempts w \<le> wd_Attempts it + 1
             then Inr (ds_fail S s (wd_ID it) lastErr code latency, reqs @ [req],
                       mx1 @ [(wd_EventType it, ''failed'', latency)])
             else Inr (ds_mark S (ae_mark_now env) s (wd_ID it) success (Some next) lastErr code latency,
                       reqs @ [req], mx1))"

fun process_items :: "'s delivery_store \<Rightarrow> worker \<Rightarrow> (string \<Rightarrow> attempt_env) \<Rightarrow> webhook_delivery list
    \<Rightarrow> 's \<times> http_request list \<times> delivery_metric list \<Rightarrow> go_panic + 's \<times> http_request list \<times> delivery_metric list" where
  "process_items S w env [] acc = Inr acc"
| "process_items S w env (it # its) acc =
     (case process_item S w (env (wd_ID it)) it acc of
        Inl p \<Rightarrow> Inl p | Inr acc' \<Rightarrow> process_items S w env its acc')"

text \<open>
  One tick of the worker. The environment of each attempt is given by the id of the delivery (a
  fetch never returns an id twice).
\<close>

definition processOnce :: "'s delivery_store \<Rightarrow> worker \<Rightarrow> time \<Rightarrow> (string \<Rightarrow> attempt_env) \<Rightarrow> 's
    \<Rightarrow> go_panic + 's \<times> http_request list \<times> delivery_metric list" where
  "processOnce S w now env s =
     (case ds_fetch S now s 50 of
        Inl _ \<Rightarrow> Inr (s, [], [])
      | Inr items \<Rightarrow> if items = [] then Inr (s, [], []) else process_items S w env items (s, [], []))"

text \<open>The loop runs to its end exactly when every URL can be parsed; otherwise it panics.\<close>

lemma process_items_urls:
  "process_items S w env its acc = Inr r \<Longrightarrow> \<forall>it\<in>set its. w_url_ok w (wd_URL it)"
  by (induction its arbitrary: acc) (auto simp: process_item_def split: sum.splits if_splits prod.splits)

lemma process_items_panic:
  assumes "it \<in> set its" and "\<not> w_url_ok w (wd_URL it)"
  shows "process_items S w env its acc = Inl NilDeref"
proof (cases "process_items S w env its acc")
  case (Inl p)
  have "process_items S w env its acc = Inl p \<Longrightarrow> p = NilDeref" for acc
    by (induction its arbitrary: acc) (auto simp: process_item_def Let_def split: sum.splits if_splits prod.splits)
  with Inl show ?thesis by simp
next
  case (Inr r)
  from process_items_urls [OF this] assms show ?thesis by blast
qed

section \<open>The contract of the queue\<close>

definition live_status :: "string \<Rightarrow> bool" where
  "live_status st \<longleftrightarrow> st = ''pending'' \<or> st = ''retry''"

definition outcome_ok :: "http_outcome \<Rightarrow> bool" where
  "outcome_ok oc = (case oc of HttpError _ \<Rightarrow> False | HttpStatus c \<Rightarrow> 200 \<le> c \<and> c < 300)"

text \<open>What one attempt makes of a delivery: the abstract step of the queue.\<close>

definition attempt_step :: "int \<Rightarrow> bool \<Rightarrow> webhook_delivery \<Rightarrow> webhook_delivery" where
  "attempt_step maxA success wd =
     (if success then wd\<lparr>wd_Attempts := wd_Attempts wd + 1, wd_Status := ''delivered''\<rparr>
      else if maxA \<le> wd_Attempts wd + 1 then wd\<lparr>wd_Status := ''failed''\<rparr>
      else wd\<lparr>wd_Attempts := wd_Attempts wd + 1, wd_Status := ''retry''\<rparr>)"

text \<open>Attempts are bounded: a delivery that is still to be tried has been tried fewer than \<open>maxA\<close> times.\<close>

definition attempts_bounded :: "('s \<Rightarrow> string \<Rightarrow> webhook_delivery option) \<Rightarrow> int \<Rightarrow> 's \<Rightarrow> bool" where
  "attempts_bounded view maxA s \<longleftrightarrow> (\<forall>k wd. view s k = Some wd \<longrightarrow> wd_Attempts wd \<le> maxA \<and>
     (live_status (wd_Status wd) \<longrightarrow> wd_Attempts wd < maxA))"

text \<open>How many attempts a delivery can still take.\<close>

definition attempts_left :: "int \<Rightarrow> webhook_delivery option \<Rightarrow> nat" where
  "attempts_left maxA wdo = (case wdo of None \<Rightarrow> 0
     | Some wd \<Rightarrow> if live_status (wd_Status wd) then nat (maxA - wd_Attempts wd) else 0)"

lemma attempts_left_0:
  assumes "attempts_bounded view maxA s" and "view s k = Some wd" and "attempts_left maxA (view s k) = 0"
  shows "\<not> live_status (wd_Status wd)"
proof
  assume live: "live_status (wd_Status wd)"
  with assms(1,2) have "wd_Attempts wd < maxA" unfolding attempts_bounded_def by blast
  with live assms(2,3) show False by (simp add: attempts_left_def)
qed

text \<open>
  The ticks of the worker one after the other (\<^verbatim>\<open>Worker.Start\<close>), with the ids each tick
  attempts; a panic ends the process.
\<close>

fun run_ticks :: "'s delivery_store \<Rightarrow> worker \<Rightarrow> (time \<times> (string \<Rightarrow> attempt_env)) list \<Rightarrow> 's
    \<Rightarrow> go_panic + 's \<times> string list" where
  "run_ticks S w [] s = Inr (s, [])"
| "run_ticks S w ((now, env) # ticks) s =
     (case processOnce S w now env s of
        Inl p \<Rightarrow> Inl p
      | Inr (s', reqs, mx) \<Rightarrow>
          let ids = (case ds_fetch S now s 50 of Inl _ \<Rightarrow> [] | Inr items \<Rightarrow> map wd_ID items)
          in case run_ticks S w ticks s' of Inl p \<Rightarrow> Inl p | Inr (s'', tried) \<Rightarrow> Inr (s'', ids @ tried))"

locale delivery_queue =
  fixes S :: "'s delivery_store"
    and view :: "'s \<Rightarrow> string \<Rightarrow> webhook_delivery option"
    and inv :: "'s \<Rightarrow> bool"
  assumes fetch_sound: "inv s \<Longrightarrow> ds_fetch S now s limit = Inr items \<Longrightarrow> wd \<in> set items \<Longrightarrow>
      view s (wd_ID wd) = Some wd \<and> live_status (wd_Status wd)"
    and fetch_distinct: "inv s \<Longrightarrow> ds_fetch S now s limit = Inr items \<Longrightarrow> distinct (map wd_ID items)"
    and mark_view: "inv s \<Longrightarrow> view s k = Some wd \<Longrightarrow>
      view (ds_mark S now s k ok nxt err code lat) =
        (view s)(k \<mapsto> wd\<lparr>wd_Attempts := wd_Attempts wd + 1, wd_Status := (if ok then ''delivered'' else ''retry'')\<rparr>)"
    and fail_view: "inv s \<Longrightarrow> view s k = Some wd \<Longrightarrow>
      view (ds_fail S s k err code lat) = (view s)(k \<mapsto> wd\<lparr>wd_Status := ''failed''\<rparr>)"
    and inv_mark: "inv s \<Longrightarrow> inv (ds_mark S now s k ok nxt err code lat)"
    and inv_fail: "inv s \<Longrightarrow> inv (ds_fail S s k err code lat)"
begin

lemma process_item_view:
  assumes "inv s" and "view s (wd_ID it) = Some it" and "w_url_ok w (wd_URL it)"
  shows "\<exists>s' mx'. process_item S w env it (s, reqs, mx) = Inr (s', reqs @ [build_request w it], mx @ mx') \<and> inv s' \<and>
    view s' = (view s)(wd_ID it \<mapsto> attempt_step (w_MaxAttempts w) (outcome_ok (ae_http env (build_request w it))) it)"
  using assms mark_view [OF assms(1,2)] fail_view [OF assms(1,2)] inv_mark inv_fail
  by (cases "ae_http env (build_request w it)")
    (auto simp: process_item_def Let_def outcome_ok_def attempt_step_def)

lemma process_items_view:
  assumes "inv s" and "\<forall>it\<in>set its. view s (wd_ID it) = Some it \<and> w_url_ok w (wd_URL it)"
    and "distinct (map wd_ID its)"
  shows "\<exists>s' mx'. process_items S w env its (s, reqs, mx) = Inr (s', reqs @ map (build_request w) its, mx @ mx') \<and> inv s' \<and>
    (\<forall>k. view s' k = (case find (\<lambda>it. wd_ID it = k) its of
       None \<Rightarrow> view s k
     | Some it \<Rightarrow> Some (attempt_step (w_MaxAttempts w) (outcome_ok (ae_http (env k) (build_request w it))) it)))"
  using assms
proof (induction its arbitrary: s reqs mx)
  case Nil
  then show ?case by simp
next
  case (Cons it its)
  have p: "view s (wd_ID it) = Some it" "w_url_ok w (wd_URL it)" using Cons.prems(2) by simp_all
  from process_item_view [OF Cons.prems(1) p, of "env (wd_ID it)" reqs mx] obtain s1 mx1 where one: "process_item S w (env (wd_ID it)) it (s, reqs, mx) = Inr (s1, reqs @ [build_request w it], mx @ mx1)"
    "inv s1" "view s1 = (view s)(wd_ID it \<mapsto> attempt_step (w_MaxAttempts w)
       (outcome_ok (ae_http (env (wd_ID it)) (build_request w it))) it)"
    by blast
  have other: "wd_ID i \<noteq> wd_ID it" if "i \<in> set its" for i using Cons.prems(3) that by (auto simp: rev_image_eqI)
  have "\<forall>i\<in>set its. view s1 (wd_ID i) = Some i \<and> w_url_ok w (wd_URL i)"
    using Cons.prems(2) by (simp add: one(3) other)
  moreover have "distinct (map wd_ID its)" using Cons.prems(3) by simp
  ultimately obtain s2 mx2 where two:
    "process_items S w env its (s1, reqs @ [build_request w it], mx @ mx1) =
       Inr (s2, (reqs @ [build_request w it]) @ map (build_request w) its, (mx @ mx1) @ mx2)" "inv s2"
    "\<forall>k. view s2 k = (case find (\<lambda>it. wd_ID it = k) its of None \<Rightarrow> view s1 k
      | Some it \<Rightarrow> Some (attempt_step (w_MaxAttempts w) (outcome_ok (ae_http (env k) (build_request w it))) it))"
    using Cons.IH [OF one(2), of "reqs @ [build_request w it]" "mx @ mx1"] by blast
  have "find (\<lambda>i. wd_ID i = wd_ID it) its = None" by (simp add: find_None_iff other)
  with one two show ?case by (auto split: option.split)
qed

text \<open>One tick: exactly the fetched deliveries take one step each, and nothing else changes.\<close>

lemma processOnce_view:
  assumes "inv s" and "ds_fetch S now s 50 = Inr items" and "\<forall>it\<in>set items. w_url_ok w (wd_URL it)"
  shows "\<exists>s' mx. processOnce S w now env s = Inr (s', map (build_request w) items, mx) \<and> inv s' \<and>
    (\<forall>k. view s' k = (if k \<in> wd_ID ` set items
       then map_option (\<lambda>it. attempt_step (w_MaxAttempts w) (outcome_ok (ae_http (env k) (build_request w it))) it) (view s k)
       else view s k))"
proof -
  have v: "\<forall>it\<in>set items. view s (wd_ID it) = Some it \<and> w_url_ok w (wd_URL it)"
    using fetch_sound [OF assms(1,2)] assms(3) by blast
  from process_items_view [OF assms(1) v fetch_distinct [OF assms(1,2)], of env "[]" "[]"] obtain s' mx where p:
    "process_items S w env items (s, [], []) = Inr (s', map (build_request w) items, mx)" "inv s'"
    and view': "\<And>k. view s' k = (case find (\<lambda>it. wd_ID it = k) items of None \<Rightarrow> view s k
      | Some it \<Rightarrow> Some (attempt_step (w_MaxAttempts w) (outcome_ok (ae_http (env k) (build_request w it))) it))" by auto
  have "view s' k = (if k \<in> wd_ID ` set items
       then map_option (\<lambda>it. attempt_step (w_MaxAttempts w) (outcome_ok (ae_http (env k) (build_request w it))) it) (view s k)
       else view s k)" for k
  proof (cases "find (\<lambda>it. wd_ID it = k) items")
    case None
    then have "k \<notin> wd_ID ` set items" by (auto simp: find_None_iff)
    with None show ?thesis by (simp add: view')
  next
    case (Some it)
    then have "it \<in> set items" "wd_ID it = k" by (auto simp: find_Some_iff)
    with v Some show ?thesis by (auto simp: view')
  qed
  with p assms(2) show ?thesis by (auto simp: processOnce_def)
qed

lemma attempt_step_bounded:
  "wd_Attempts wd < maxA \<Longrightarrow> wd_Attempts (attempt_step maxA ok wd) \<le> maxA \<and>
   (live_status (wd_Status (attempt_step maxA ok wd)) \<longrightarrow> wd_Attempts (attempt_step maxA ok wd) < maxA)"
  by (auto simp: attempt_step_def live_status_def)

text \<open>A tick that returns, seen from outside: who was attempted and what became of everyone.\<close>

lemma processOnce_effect:
  assumes "inv s" and "processOnce S w now env s = Inr (s', reqs, mx)"
  obtains ids where "ids = (case ds_fetch S now s 50 of Inl _ \<Rightarrow> [] | Inr items \<Rightarrow> map wd_ID items)"
    and "distinct ids" and "inv s'"
    and "\<And>k. k \<notin> set ids \<Longrightarrow> view s' k = view s k"
    and "\<And>k. k \<in> set ids \<Longrightarrow> \<exists>wd ok. view s k = Some wd \<and> live_status (wd_Status wd) \<and>
      view s' k = Some (attempt_step (w_MaxAttempts w) ok wd)"
proof (cases "ds_fetch S now s 50")
  case (Inl e)
  with assms that [of "[]"] show ?thesis by (simp add: processOnce_def)
next
  case (Inr items)
  have urls: "\<forall>it\<in>set items. w_url_ok w (wd_URL it)"
    using assms(2) Inr process_items_urls [of S w env items "(s, [], [])"] by (auto simp: processOnce_def split: if_splits)
  from processOnce_view [OF assms(1) Inr urls, of env] assms(2) have p: "inv s'"
    "\<And>k. view s' k = (if k \<in> wd_ID ` set items
       then map_option (\<lambda>it. attempt_step (w_MaxAttempts w) (outcome_ok (ae_http (env k) (build_request w it))) it) (view s k)
       else view s k)" by auto
  show ?thesis
  proof (rule that [of "map wd_ID items"])
    fix k
    assume "k \<in> set (map wd_ID items)"
    then obtain wd where "wd \<in> set items" "k = wd_ID wd" by auto
    with fetch_sound [OF assms(1) Inr] p(2) [of k]
    show "\<exists>wd ok. view s k = Some wd \<and> live_status (wd_Status wd) \<and> view s' k = Some (attempt_step (w_MaxAttempts w) ok wd)"
      by auto
  qed (use Inr p fetch_distinct [OF assms(1) Inr] in auto)
qed

lemma processOnce_bounded:
  assumes "inv s" and "attempts_bounded view (w_MaxAttempts w) s" and "processOnce S w now env s = Inr (s', reqs, mx)"
  shows "inv s' \<and> attempts_bounded view (w_MaxAttempts w) s'"
proof -
  from processOnce_effect [OF assms(1,3)] obtain ids where e: "inv s'"
    "\<And>k. k \<notin> set ids \<Longrightarrow> view s' k = view s k"
    "\<And>k. k \<in> set ids \<Longrightarrow> \<exists>wd ok. view s k = Some wd \<and> live_status (wd_Status wd) \<and>
      view s' k = Some (attempt_step (w_MaxAttempts w) ok wd)" by metis
  have "wd_Attempts wd \<le> w_MaxAttempts w \<and> (live_status (wd_Status wd) \<longrightarrow> wd_Attempts wd < w_MaxAttempts w)"
    if v: "view s' k = Some wd" for k wd
  proof (cases "k \<in> set ids")
    case True
    from e(3) [OF this] v obtain wd0 ok where "view s k = Some wd0" "live_status (wd_Status wd0)"
      "wd = attempt_step (w_MaxAttempts w) ok wd0" by auto
    moreover from calculation(1,2) assms(2) have "wd_Attempts wd0 < w_MaxAttempts w"
      by (auto simp: attempts_bounded_def)
    ultimately show ?thesis using attempt_step_bounded by blast
  next
    case False
    with e(2) v have "view s k = Some wd" by simp
    with assms(2) show ?thesis by (auto simp: attempts_bounded_def)
  qed
  with e(1) show ?thesis by (simp add: attempts_bounded_def)
qed

lemma attempt_step_left:
  "live_status (wd_Status wd) \<Longrightarrow> wd_Attempts wd < maxA \<Longrightarrow>
   attempts_left maxA (Some (attempt_step maxA ok wd)) + 1 \<le> attempts_left maxA (Some wd)"
  by (auto simp: attempts_left_def attempt_step_def live_status_def)

text \<open>Every attempt uses up one of the attempts a delivery has left, however the ticks go.\<close>

lemma run_ticks_attempts:
  assumes "inv s" and "attempts_bounded view (w_MaxAttempts w) s" and "run_ticks S w ticks s = Inr (s', tried)"
  shows "inv s' \<and> attempts_bounded view (w_MaxAttempts w) s' \<and>
    count_list tried k + attempts_left (w_MaxAttempts w) (view s' k) \<le> attempts_left (w_MaxAttempts w) (view s k)"
  using assms
proof (induction ticks arbitrary: s tried)
  case Nil
  then show ?case by simp
next
  case (Cons tk ticks)
  obtain now env where tk: "tk = (now, env)" by (cases tk)
  from Cons.prems(3) obtain s1 reqs mx tried1 where one: "processOnce S w now env s = Inr (s1, reqs, mx)"
    "run_ticks S w ticks s1 = Inr (s', tried1)"
    "tried = (case ds_fetch S now s 50 of Inl _ \<Rightarrow> [] | Inr items \<Rightarrow> map wd_ID items) @ tried1"
    by (auto simp: tk Let_def split: sum.splits)
  from processOnce_effect [OF Cons.prems(1) one(1)] one(3) obtain ids where e: "tried = ids @ tried1" "distinct ids"
    "\<And>k. k \<notin> set ids \<Longrightarrow> view s1 k = view s k"
    "\<And>k. k \<in> set ids \<Longrightarrow> \<exists>wd ok. view s k = Some wd \<and> live_status (wd_Status wd) \<and>
      view s1 k = Some (attempt_step (w_MaxAttempts w) ok wd)" by metis
  from processOnce_bounded [OF Cons.prems(1,2) one(1)] Cons.IH [OF _ _ one(2)]
  have ih: "inv s'" "attempts_bounded view (w_MaxAttempts w) s'"
    "count_list tried1 k + attempts_left (w_MaxAttempts w) (view s' k) \<le> attempts_left (w_MaxAttempts w) (view s1 k)"
    by auto
  show ?case
  proof (cases "k \<in> set ids")
    case True
    from e(4) [OF this] obtain wd ok where k: "view s k = Some wd" "live_status (wd_Status wd)"
      "view s1 k = Some (attempt_step (w_MaxAttempts w) ok wd)" by auto
    moreover from k(1,2) Cons.prems(2) have "wd_Attempts wd < w_MaxAttempts w" by (auto simp: attempts_bounded_def)
    ultimately have "attempts_left (w_MaxAttempts w) (view s1 k) + 1 \<le> attempts_left (w_MaxAttempts w) (view s k)"
      using attempt_step_left by simp
    with ih count_list_distinct [OF e(2), of k] show ?thesis by (simp add: e(1))
  next
    case False
    with ih e(3) show ?thesis by (simp add: e(1) count_list_0_iff [THEN iffD2])
  qed
qed

end

section \<open>The in-memory queue\<close>

definition memory_delivery_store :: "string list \<Rightarrow> memory delivery_store" where
  "memory_delivery_store tenants =
     \<lparr>ds_fetch = (\<lambda>now m limit. Inr (mem_FetchDueWebhookDeliveries tenants now m limit)),
      ds_mark = mem_MarkWebhookDelivery, ds_fail = mem_FailWebhookDelivery\<rparr>"

definition delivery_view :: "memory \<Rightarrow> string \<Rightarrow> webhook_delivery option" where
  "delivery_view m k = map_option md_Delivery (deliveries m k)"

lemma delivery_view_Mark:
  "delivery_view m k = Some wd \<Longrightarrow> delivery_view (mem_MarkWebhookDelivery now m k ok nxt err code lat) =
   (delivery_view m)(k \<mapsto> wd\<lparr>wd_Attempts := wd_Attempts wd + 1, wd_Status := (if ok then ''delivered'' else ''retry'')\<rparr>)"
  by (auto simp: delivery_view_def mem_MarkWebhookDelivery_def Let_def fun_eq_iff)

lemma delivery_view_Fail:
  "delivery_view m k = Some wd \<Longrightarrow> delivery_view (mem_FailWebhookDelivery m k err code lat) =
   (delivery_view m)(k \<mapsto> wd\<lparr>wd_Status := ''failed''\<rparr>)"
  by (auto simp: delivery_view_def mem_FailWebhookDelivery_def Let_def fun_eq_iff)

interpretation memory_queue: delivery_queue "memory_delivery_store tenants" delivery_view
  "\<lambda>m. deliveries_inv m \<and> distinct tenants" for tenants
proof
  show "delivery_view m (wd_ID wd) = Some wd \<and> live_status (wd_Status wd)"
    if "deliveries_inv m \<and> distinct tenants" "ds_fetch (memory_delivery_store tenants) now m limit = Inr items"
      "wd \<in> set items" for m now limit items wd
    using that fetch_due_sound [of m wd tenants now limit]
    by (auto simp: memory_delivery_store_def delivery_view_def is_due_def live_status_def)
qed (auto simp: memory_delivery_store_def delivery_view_Mark delivery_view_Fail intro: fetch_due_distinct inv_intros)

end
