(* ===== verification/Publisher.thy ===== *)
theory Publisher
  imports Webhooks
begin

text \<open>
  Package \<^verbatim>\<open>internal/webhooks\<close>, \<^verbatim>\<open>publisher.go\<close>: \<^verbatim>\<open>Emit\<close> enqueues one delivery for each
  subscription of the tenant to the event type; and the construction of the worker
  (\<^verbatim>\<open>NewWorker\<close> of \<^verbatim>\<open>worker.go\<close>).

  \<^verbatim>\<open>json.Marshal\<close> is the parameter \<open>marshal\<close> (the empty slice when it fails: the source drops
  the error), \<^verbatim>\<open>Format(time.RFC3339)\<close> the parameter \<open>fmt\<close>. The i-th call of
  \<^verbatim>\<open>EnqueueWebhook\<close> draws the clock and the identifier \<open>draws i\<close>.
\<close>

definition NewWorker :: "(string \<Rightarrow> string \<Rightarrow> string) \<Rightarrow> (string \<Rightarrow> bool) \<Rightarrow> string \<Rightarrow> worker" where
  "NewWorker hmac url_ok env =
     (let max0 = 10;
          max1 = (if env \<noteq> '''' then (case atoi env of Some n \<Rightarrow> if 0 < n then n else max0 | None \<Rightarrow> max0) else max0)
      in \<lparr>w_hmac = hmac, w_url_ok = url_ok, w_MaxAttempts = max1\<rparr>)"

lemma NewWorker_positive: "0 < w_MaxAttempts (NewWorker hmac url_ok env)"
  by (auto simp: NewWorker_def Let_def split: option.split)

section \<open>Emitting an event\<close>

record 's publish_store =
  pb_subscriptions :: "'s \<Rightarrow> string \<Rightarrow> string \<Rightarrow> subscription list result"
  pb_enqueue :: "time \<times> string \<Rightarrow> 's \<Rightarrow> string \<Rightarrow> string \<Rightarrow> string \<Rightarrow> string \<Rightarrow> string \<Rightarrow> string \<Rightarrow> 's"

text \<open>\<^verbatim>\<open>UnixNano\<close> counts from 1970: 62135596800 seconds after Go's zero time.\<close>

definition unix_nano :: "time \<Rightarrow> int" where
  "unix_nano t = t - 62135596800 * second"

definition emit_payload :: "(time \<Rightarrow> string) \<Rightarrow> time \<Rightarrow> string \<Rightarrow> string \<Rightarrow> any \<Rightarrow> obj" where
  "emit_payload fmt now tenantID eventType data =
     [''id'' \<mapsto> AStr (''evt_'' @ int_text (unix_nano now)), ''type'' \<mapsto> AStr eventType,
      ''tenantId'' \<mapsto> AStr tenantID, ''ts'' \<mapsto> AStr (fmt now), ''data'' \<mapsto> data]"

fun emit_loop :: "'s publish_store \<Rightarrow> string \<Rightarrow> string \<Rightarrow> string \<Rightarrow> (nat \<Rightarrow> time \<times> string) \<Rightarrow> nat
    \<Rightarrow> subscription list \<Rightarrow> 's \<Rightarrow> 's" where
  "emit_loop P tenantID eventType body draws i [] s = s"
| "emit_loop P tenantID eventType body draws i (sub # rest) s =
     emit_loop P tenantID eventType body draws (i + 1) rest
       (pb_enqueue P (draws i) s tenantID (sub_ID sub) eventType (sub_URL sub) (sub_Secret sub) body)"

definition Emit :: "'s publish_store \<Rightarrow> (obj \<Rightarrow> string) \<Rightarrow> (time \<Rightarrow> string) \<Rightarrow> time \<Rightarrow> (nat \<Rightarrow> time \<times> string)
    \<Rightarrow> 's \<Rightarrow> string \<Rightarrow> string \<Rightarrow> any \<Rightarrow> 's" where
  "Emit P marshal fmt now draws s tenantID eventType data =
     (case pb_subscriptions P s tenantID eventType of
        Inl _ \<Rightarrow> s
      | Inr ss \<Rightarrow>
          if ss = [] then s
          else emit_loop P tenantID eventType (marshal (emit_payload fmt now tenantID eventType data)) draws 0 ss s)"

definition memory_publish_store :: "memory publish_store" where
  "memory_publish_store =
     \<lparr>pb_subscriptions = (\<lambda>m t ev. Inr (mem_GetSubscriptionsForEvent m t ev)),
      pb_enqueue = (\<lambda>(now, uuid) m t sid ev url sec pl. fst (mem_EnqueueWebhook now uuid m t sid ev url sec pl))\<rparr>"

section \<open>What is enqueued\<close>

definition pending_delivery :: "string \<Rightarrow> string \<Rightarrow> string \<Rightarrow> string \<Rightarrow> subscription \<Rightarrow> webhook_delivery" where
  "pending_delivery uuid t ev body s = \<lparr>wd_ID = uuid, wd_TenantID = t, wd_SubscriptionID = sub_ID s,
     wd_EventType = ev, wd_URL = sub_URL s, wd_Secret = sub_Secret s, wd_Payload = body,
     wd_Status = ''pending'', wd_Attempts = 0\<rparr>"

text \<open>Identifiers for \<open>n\<close> new deliveries, as \<^verbatim>\<open>uuid.New\<close> gives them: new and all different.\<close>

definition fresh_draws :: "memory \<Rightarrow> (nat \<Rightarrow> time \<times> string) \<Rightarrow> nat \<Rightarrow> nat \<Rightarrow> bool" where
  "fresh_draws m draws i n \<longleftrightarrow> distinct (map (\<lambda>j. snd (draws j)) [i..<i + n]) \<and>
     (\<forall>j\<in>set [i..<i + n]. snd (draws j) \<noteq> '''' \<and> deliveries m (snd (draws j)) = None)"

lemma fresh_draws_Suc:
  "fresh_draws m draws i (Suc n) \<longleftrightarrow> snd (draws i) \<noteq> '''' \<and> deliveries m (snd (draws i)) = None \<and>
     fresh_draws m draws (Suc i) n \<and> snd (draws i) \<notin> (\<lambda>j. snd (draws j)) ` set [Suc i..<Suc i + n]"
proof -
  have "[i..<i + Suc n] = i # [Suc i..<Suc i + n]" by (simp add: upt_conv_Cons del: upt_Suc)
  then show ?thesis unfolding fresh_draws_def by (simp del: upt_Suc set_upt add_Suc_right) blast
qed

lemma fresh_draws_enqueue:
  "fresh_draws m draws i (Suc n) \<Longrightarrow>
   fresh_draws (fst (mem_EnqueueWebhook now (snd (draws i)) m t sid ev url sec pl)) draws (Suc i) n"
  by (drule fresh_draws_Suc [THEN iffD1])
    (auto simp: fresh_draws_def mem_EnqueueWebhook_def Let_def image_iff simp del: upt_Suc)

lemma enqueue_view:
  "delivery_view (fst (mem_EnqueueWebhook now uuid m t (sub_ID s) ev (sub_URL s) (sub_Secret s) body)) =
   (delivery_view m)(uuid \<mapsto> pending_delivery uuid t ev body s)"
  by (auto simp: fun_eq_iff delivery_view_def mem_EnqueueWebhook_def Let_def pending_delivery_def)

lemma emit_loop_memory:
  assumes "deliveries_inv m" and "fresh_draws m draws i (length ss)"
  shows "let m' = emit_loop memory_publish_store t ev body draws i ss m in
    deliveries_inv m' \<and>
    deliveriesByTenant m' t = deliveriesByTenant m t @ map (\<lambda>j. snd (draws j)) [i..<i + length ss] \<and>
    (\<forall>t'. t' \<noteq> t \<longrightarrow> deliveriesByTenant m' t' = deliveriesByTenant m t') \<and>
    (\<forall>j<length ss. delivery_view m' (snd (draws (i + j))) = Some (pending_delivery (snd (draws (i + j))) t ev body (ss ! j))) \<and>
    (\<forall>k. k \<notin> (\<lambda>j. snd (draws j)) ` set [i..<i + length ss] \<longrightarrow> delivery_view m' k = delivery_view m k)"
  using assms
proof (induction ss arbitrary: i m)
  case Nil
  then show ?case by (simp add: Let_def)
next
  case (Cons s ss)
  define u where "u = snd (draws i)"
  define m1 where "m1 = fst (mem_EnqueueWebhook (fst (draws i)) u m t (sub_ID s) ev (sub_URL s) (sub_Secret s) body)"
  have f: "fresh_draws m draws i (Suc (length ss))" using Cons.prems(2) by simp
  have u: "u \<noteq> ''''" "deliveries m u = None" "u \<notin> (\<lambda>j. snd (draws j)) ` set [Suc i..<Suc i + length ss]"
    using f [unfolded fresh_draws_Suc] unfolding u_def by blast+
  have i1: "deliveries_inv m1" unfolding m1_def by (intro deliveries_inv_Enqueue Cons.prems(1) u)
  have f1: "fresh_draws m1 draws (Suc i) (length ss)" unfolding m1_def u_def by (rule fresh_draws_enqueue [OF f])
  have step: "emit_loop memory_publish_store t ev body draws i (s # ss) m = emit_loop memory_publish_store t ev body draws (Suc i) ss m1"
    by (simp add: memory_publish_store_def m1_def u_def split_def)
  have v1: "delivery_view m1 = (delivery_view m)(u \<mapsto> pending_delivery u t ev body s)" unfolding m1_def by (rule enqueue_view)
  have t1: "deliveriesByTenant m1 = (deliveriesByTenant m)(t := deliveriesByTenant m t @ [u])"
    by (simp add: m1_def mem_EnqueueWebhook_def Let_def)
  have up: "[i..<i + length (s # ss)] = i # [Suc i..<Suc i + length ss]" by (simp add: upt_conv_Cons del: upt_Suc)
  note ih = Cons.IH [OF i1 f1, unfolded Let_def]
  have "delivery_view (emit_loop memory_publish_store t ev body draws (Suc i) ss m1) (snd (draws (i + j))) =
    Some (pending_delivery (snd (draws (i + j))) t ev body ((s # ss) ! j))" if "j < length (s # ss)" for j
  proof (cases j)
    case 0
    with ih u(3) v1 show ?thesis by (simp add: u_def)
  next
    case (Suc j')
    with ih that show ?thesis by simp
  qed
  with ih u(3) v1 t1 show ?case unfolding step Let_def up by (auto simp: u_def simp del: upt_Suc)
qed

end
