(* ===== verification/Memory_Store.thy ===== *)
theory Memory_Store
  imports Memory_Orders Memory_Subscriptions Memory_Geofences Memory_Routes Memory_Hos Memory_Plans Publisher
begin

text \<open>
  The in-memory store as one state machine: a step is one call of a method that changes the state
  (\<open>mem_step\<close>; each method runs under the mutex, so calls do not overlap), the reachable states are
  those after any sequence of calls on \<open>NewMemory\<close>, and \<open>store_inv\<close> is the conjunction of the
  invariants of the parts. Identifiers drawn by \<^verbatim>\<open>uuid.New\<close> are not empty and not in use: that is
  the premise of the rules that create something.
\<close>

definition store_inv :: "memory \<Rightarrow> bool" where
  "store_inv m \<longleftrightarrow> orders_inv m \<and> subs_inv m \<and> gfs_inv m \<and> routes_inv m \<and> hos_inv m \<and> plans_inv m \<and> deliveries_inv m"

inductive mem_step :: "memory \<Rightarrow> memory \<Rightarrow> bool" where
  create_orders: "fresh_ids uuids (orders m) (length ords) \<Longrightarrow>
    mem_step m (fst (mem_CreateOrders uuids m t ords))"
| create_subscription: "uuid \<noteq> '''' \<Longrightarrow> \<forall>t. uuid \<notin> sub_ID ` set (subs m t) \<Longrightarrow>
    mem_step m (fst (mem_CreateSubscription uuid m req))"
| delete_subscription: "mem_step m (mem_DeleteSubscription m t sid)"
| create_geofence: "gfs m uuid = None \<Longrightarrow> uuid \<noteq> '''' \<Longrightarrow> mem_step m (fst (mem_CreateGeofence uuid m t inp))"
| patch_geofence: "mem_step m (fst (mem_PatchGeofence m t k inp))"
| delete_geofence: "mem_step m (fst (mem_DeleteGeofence m t k))"
| plan_routes: "routes m (uuids 0) = None \<Longrightarrow> uuids 0 \<noteq> '''' \<Longrightarrow>
    mem_step m (fst (mem_PlanRoutes uuids m req))"
| assign_route: "mem_step m (fst (mem_AssignRoute m t k d v))"
| patch_route: "mem_step m (fst (mem_PatchRoute m t k p))"
| advance_route: "mem_step m (fst (mem_AdvanceRoute fmt now m t k areq))"
| update_hos: "mem_UpdateHOS m t d upd = Inr (m', status, st) \<Longrightarrow> mem_step m m'"
| save_metrics: "mem_step m (mem_SavePlanMetrics m t d a mx)"
| save_weights: "mem_step m (mem_SavePlanMetricsWeights m t d a snaps)"
| save_config: "mem_step m (mem_SaveOptimizerConfig m t cfg)"
| enqueue: "deliveries m uuid = None \<Longrightarrow> uuid \<noteq> '''' \<Longrightarrow>
    mem_step m (fst (mem_EnqueueWebhook now uuid m t sid ev url sec pl))"
| mark: "mem_step m (mem_MarkWebhookDelivery now m k ok nxt err code lat)"
| fail: "mem_step m (mem_FailWebhookDelivery m k err code lat)"
| retry: "mem_step m (mem_RetryWebhookDelivery now m t k)"
| requeue_dlq: "mem_step m (mem_RequeueWebhookDLQ m t k)"
| requeue_dlq_bulk: "mem_step m (mem_RequeueWebhookDLQBulk m t ks)"
| delete_dlq_bulk: "mem_step m (mem_DeleteWebhookDLQBulk m t ks older)"

inductive mem_reachable :: "memory \<Rightarrow> bool" where
  start: "mem_reachable NewMemory"
| step: "mem_reachable m \<Longrightarrow> mem_step m m' \<Longrightarrow> mem_reachable m'"

section \<open>Frames: the invariants depend on their own fields\<close>

lemma orders_inv_frame: "orders m' = orders m \<Longrightarrow> byTen m' = byTen m \<Longrightarrow> orders_inv m' = orders_inv m"
  by (simp add: orders_inv_def)

lemma subs_inv_frame: "subs m' = subs m \<Longrightarrow> subs_inv m' = subs_inv m"
  by (simp add: subs_inv_def)

lemma gfs_inv_frame: "gfs m' = gfs m \<Longrightarrow> gfsTen m' = gfsTen m \<Longrightarrow> gfs_inv m' = gfs_inv m"
  by (simp add: gfs_inv_def)

lemma routes_inv_frame: "routes m' = routes m \<Longrightarrow> routesTen m' = routesTen m \<Longrightarrow> routes_inv m' = routes_inv m"
  by (simp add: routes_inv_def)

lemma hos_inv_frame: "hos m' = hos m \<Longrightarrow> hos_inv m' = hos_inv m"
  by (simp add: hos_inv_def)

lemma plans_inv_frame: "planMx m' = planMx m \<Longrightarrow> plans_inv m' = plans_inv m"
  by (simp add: plans_inv_def)

lemma deliveries_inv_frame:
  "deliveries m' = deliveries m \<Longrightarrow> deliveriesByTenant m' = deliveriesByTenant m \<Longrightarrow> deliveries_inv m' = deliveries_inv m"
  by (simp add: deliveries_inv_def)

lemmas inv_frames = orders_inv_frame subs_inv_frame gfs_inv_frame routes_inv_frame hos_inv_frame plans_inv_frame
  deliveries_inv_frame

text \<open>What the groups of operations leave alone, as relations between the two states.\<close>

definition only_orders :: "memory \<Rightarrow> memory \<Rightarrow> bool" where
  "only_orders m m' \<longleftrightarrow> m' = m\<lparr>orders := orders m', byTen := byTen m'\<rparr>"

definition only_subs :: "memory \<Rightarrow> memory \<Rightarrow> bool" where
  "only_subs m m' \<longleftrightarrow> m' = m\<lparr>subs := subs m'\<rparr>"

definition only_gfs :: "memory \<Rightarrow> memory \<Rightarrow> bool" where
  "only_gfs m m' \<longleftrightarrow> m' = m\<lparr>gfs := gfs m', gfsTen := gfsTen m'\<rparr>"

definition only_routes :: "memory \<Rightarrow> memory \<Rightarrow> bool" where
  "only_routes m m' \<longleftrightarrow> m' = m\<lparr>routes := routes m', routesTen := routesTen m', planMx := planMx m'\<rparr>"

definition only_hos :: "memory \<Rightarrow> memory \<Rightarrow> bool" where
  "only_hos m m' \<longleftrightarrow> m' = m\<lparr>hos := hos m'\<rparr>"

definition only_plans :: "memory \<Rightarrow> memory \<Rightarrow> bool" where
  "only_plans m m' \<longleftrightarrow> m' = m\<lparr>planMx := planMx m', optCfg := optCfg m'\<rparr>"

definition only_deliveries :: "memory \<Rightarrow> memory \<Rightarrow> bool" where
  "only_deliveries m m' \<longleftrightarrow> m' = m\<lparr>deliveries := deliveries m', deliveriesByTenant := deliveriesByTenant m', dlq := dlq m'\<rparr>"

lemma only_ordersD:
  "only_orders m m' \<Longrightarrow> subs m' = subs m \<and>
    gfs m' = gfs m \<and>
    gfsTen m' = gfsTen m \<and>
    routes m' = routes m \<and>
    routesTen m' = routesTen m \<and>
    hos m' = hos m \<and>
    planMx m' = planMx m \<and>
    deliveries m' = deliveries m \<and>
    deliveriesByTenant m' = deliveriesByTenant m"
  by (simp only: only_orders_def, erule ssubst, simp)

lemma only_subsD:
  "only_subs m m' \<Longrightarrow> orders m' = orders m \<and>
    byTen m' = byTen m \<and>
    gfs m' = gfs m \<and>
    gfsTen m' = gfsTen m \<and>
    routes m' = routes m \<and>
    routesTen m' = routesTen m \<and>
    hos m' = hos m \<and>
    planMx m' = planMx m \<and>
    deliveries m' = deliveries m \<and>
    deliveriesByTenant m' = deliveriesByTenant m"
  by (simp only: only_subs_def, erule ssubst, simp)

lemma only_gfsD:
  "only_gfs m m' \<Longrightarrow> orders m' = orders m \<and>
    byTen m' = byTen m \<and>
    subs m' = subs m \<and>
    routes m' = routes m \<and>
    routesTen m' = routesTen m \<and>
    hos m' = hos m \<and>
    planMx m' = planMx m \<and>
    deliveries m' = deliveries m \<and>
    deliveriesByTenant m' = deliveriesByTenant m"
  by (simp only: only_gfs_def, erule ssubst, simp)

lemma only_routesD:
  "only_routes m m' \<Longrightarrow> orders m' = orders m \<and>
    byTen m' = byTen m \<and>
    subs m' = subs m \<and>
    gfs m' = gfs m \<and>
    gfsTen m' = gfsTen m \<and>
    hos m' = hos m \<and>
    deliveries m' = deliveries m \<and>
    deliveriesByTenant m' = deliveriesByTenant m"
  by (simp only: only_routes_def, erule ssubst, simp)

lemma only_hosD:
  "only_hos m m' \<Longrightarrow> orders m' = orders m \<and>
    byTen m' = byTen m \<and>
    subs m' = subs m \<and>
    gfs m' = gfs m \<and>
    gfsTen m' = gfsTen m \<and>
    routes m' = routes m \<and>
    routesTen m' = routesTen m \<and>
    planMx m' = planMx m \<and>
    deliveries m' = deliveries m \<and>
    deliveriesByTenant m' = deliveriesByTenant m"
  by (simp only: only_hos_def, erule ssubst, simp)

lemma only_plansD:
  "only_plans m m' \<Longrightarrow> orders m' = orders m \<and>
    byTen m' = byTen m \<and>
    subs m' = subs m \<and>
    gfs m' = gfs m \<and>
    gfsTen m' = gfsTen m \<and>
    routes m' = routes m \<and>
    routesTen m' = routesTen m \<and>
    hos m' = hos m \<and>
    deliveries m' = deliveries m \<and>
    deliveriesByTenant m' = deliveriesByTenant m"
  by (simp only: only_plans_def, erule ssubst, simp)

lemma only_deliveriesD:
  "only_deliveries m m' \<Longrightarrow> orders m' = orders m \<and>
    byTen m' = byTen m \<and>
    subs m' = subs m \<and>
    gfs m' = gfs m \<and>
    gfsTen m' = gfsTen m \<and>
    routes m' = routes m \<and>
    routesTen m' = routesTen m \<and>
    hos m' = hos m \<and>
    planMx m' = planMx m"
  by (simp only: only_deliveries_def, erule ssubst, simp)

lemma store_inv_only:
  "store_inv m \<Longrightarrow> only_orders m m' \<Longrightarrow> orders_inv m' \<Longrightarrow> store_inv m'"
  "store_inv m \<Longrightarrow> only_subs m m' \<Longrightarrow> subs_inv m' \<Longrightarrow> store_inv m'"
  "store_inv m \<Longrightarrow> only_gfs m m' \<Longrightarrow> gfs_inv m' \<Longrightarrow> store_inv m'"
  "store_inv m \<Longrightarrow> only_routes m m' \<Longrightarrow> routes_inv m' \<Longrightarrow> plans_inv m' \<Longrightarrow> store_inv m'"
  "store_inv m \<Longrightarrow> only_hos m m' \<Longrightarrow> hos_inv m' \<Longrightarrow> store_inv m'"
  "store_inv m \<Longrightarrow> only_plans m m' \<Longrightarrow> plans_inv m' \<Longrightarrow> store_inv m'"
  "store_inv m \<Longrightarrow> only_deliveries m m' \<Longrightarrow> deliveries_inv m' \<Longrightarrow> store_inv m'"
  subgoal by (drule only_ordersD, simp add: store_inv_def orders_inv_def subs_inv_def gfs_inv_def routes_inv_def hos_inv_def
    plans_inv_def deliveries_inv_def)
  subgoal by (drule only_subsD, simp add: store_inv_def orders_inv_def subs_inv_def gfs_inv_def routes_inv_def hos_inv_def
    plans_inv_def deliveries_inv_def)
  subgoal by (drule only_gfsD, simp add: store_inv_def orders_inv_def subs_inv_def gfs_inv_def routes_inv_def hos_inv_def
    plans_inv_def deliveries_inv_def)
  subgoal by (drule only_routesD, simp add: store_inv_def orders_inv_def subs_inv_def gfs_inv_def routes_inv_def hos_inv_def
    plans_inv_def deliveries_inv_def)
  subgoal by (drule only_hosD, simp add: store_inv_def orders_inv_def subs_inv_def gfs_inv_def routes_inv_def hos_inv_def
    plans_inv_def deliveries_inv_def)
  subgoal by (drule only_plansD, simp add: store_inv_def orders_inv_def subs_inv_def gfs_inv_def routes_inv_def hos_inv_def
    plans_inv_def deliveries_inv_def)
  subgoal by (drule only_deliveriesD, simp add: store_inv_def orders_inv_def subs_inv_def gfs_inv_def routes_inv_def hos_inv_def
    plans_inv_def deliveries_inv_def)
  done

section \<open>Each operation writes its own fields\<close>

named_theorems frame_intros \<open>which fields an operation writes\<close>

lemma only_orders_ops [frame_intros]: "only_orders m (fst (mem_CreateOrders uuids m t ords))"
  by (simp add: only_orders_def mem_CreateOrders_def create_orders_loop_eq)

lemma only_subs_ops [frame_intros]:
  "only_subs m (fst (mem_CreateSubscription uuid m req))"
  "only_subs m (mem_DeleteSubscription m t sid)"
  by (simp_all add: only_subs_def mem_CreateSubscription_def mem_DeleteSubscription_def Let_def)

lemma only_gfs_ops [frame_intros]:
  "only_gfs m (fst (mem_CreateGeofence uuid m t inp))"
  "only_gfs m (fst (mem_PatchGeofence m t k inp))"
  "only_gfs m (fst (mem_DeleteGeofence m t k))"
  by (simp_all add: only_gfs_def mem_CreateGeofence_def mem_PatchGeofence_def mem_DeleteGeofence_def Let_def
      split: option.split)

lemma only_routes_ops [frame_intros]:
  "only_routes m (fst (mem_PlanRoutes uuids m req))"
  "only_routes m (fst (mem_AssignRoute m t k d v))"
  "only_routes m (fst (mem_PatchRoute m t k p))"
  "only_routes m (fst (mem_AdvanceRoute fmt now m t k areq))"
  by (simp_all add: only_routes_def mem_PlanRoutes_def mem_AssignRoute_def mem_PatchRoute_def
      mem_AdvanceRoute_def Let_def split: option.split)

lemma only_hos_ops [frame_intros]: "mem_UpdateHOS m t d upd = Inr (m', status, st) \<Longrightarrow> only_hos m m'"
  by (auto simp: only_hos_def mem_UpdateHOS_def Let_def split: option.splits any.splits if_splits)

lemma only_plans_ops [frame_intros]:
  "only_plans m (mem_SavePlanMetrics m t d a mx)"
  "only_plans m (mem_SavePlanMetricsWeights m t d a snaps)"
  "only_plans m (mem_SaveOptimizerConfig m t cfg)"
  by (simp_all add: only_plans_def mem_SavePlanMetrics_def mem_SavePlanMetricsWeights_def
      mem_SaveOptimizerConfig_def Let_def)

lemma only_deliveries_ops [frame_intros]:
  "only_deliveries m (fst (mem_EnqueueWebhook now uuid m t sid ev url sec pl))"
  "only_deliveries m (mem_MarkWebhookDelivery now m k ok nxt err code lat)"
  "only_deliveries m (mem_FailWebhookDelivery m k err code lat)"
  "only_deliveries m (mem_RetryWebhookDelivery now m t k)"
  "only_deliveries m (mem_RequeueWebhookDLQ m t k)"
  "only_deliveries m (mem_RequeueWebhookDLQBulk m t ks)"
  "only_deliveries m (mem_DeleteWebhookDLQBulk m t ks older)"
  by (simp_all add: only_deliveries_def mem_EnqueueWebhook_def mem_MarkWebhookDelivery_def
      mem_FailWebhookDelivery_def mem_RetryWebhookDelivery_def mem_RequeueWebhookDLQ_def
      mem_RequeueWebhookDLQBulk_def mem_DeleteWebhookDLQBulk_def Let_def split: option.split)

lemma plans_inv_routes_ops [inv_intros]:
  assumes "plans_inv m"
  shows "plans_inv (fst (mem_AssignRoute m t k d v))"
    and "plans_inv (fst (mem_PatchRoute m t k p))"
    and "plans_inv (fst (mem_AdvanceRoute fmt now m t k areq))"
    and "plans_inv (mem_SavePlanMetricsWeights m t d a snaps)"
    and "plans_inv (mem_SaveOptimizerConfig m t cfg)"
  using assms by (auto simp: plans_inv_def mem_AssignRoute_def mem_PatchRoute_def mem_AdvanceRoute_def
      mem_SavePlanMetricsWeights_def mem_SaveOptimizerConfig_def Let_def split: option.split)

section \<open>The invariant of the store\<close>

lemma store_invD:
  "store_inv m \<Longrightarrow> orders_inv m" "store_inv m \<Longrightarrow> subs_inv m" "store_inv m \<Longrightarrow> gfs_inv m"
  "store_inv m \<Longrightarrow> routes_inv m" "store_inv m \<Longrightarrow> hos_inv m" "store_inv m \<Longrightarrow> plans_inv m"
  "store_inv m \<Longrightarrow> deliveries_inv m"
  by (simp_all add: store_inv_def)

lemma store_inv_new: "store_inv NewMemory"
  unfolding store_inv_def by (intro conjI inv_intros)

text \<open>One rule for each group: it suffices to keep the group's own invariant.\<close>

lemma store_inv_group:
  "store_inv m \<Longrightarrow> only_orders m m' \<Longrightarrow> (orders_inv m \<Longrightarrow> orders_inv m') \<Longrightarrow> store_inv m'"
  "store_inv m \<Longrightarrow> only_subs m m' \<Longrightarrow> (subs_inv m \<Longrightarrow> subs_inv m') \<Longrightarrow> store_inv m'"
  "store_inv m \<Longrightarrow> only_gfs m m' \<Longrightarrow> (gfs_inv m \<Longrightarrow> gfs_inv m') \<Longrightarrow> store_inv m'"
  "store_inv m \<Longrightarrow> only_routes m m' \<Longrightarrow> (routes_inv m \<Longrightarrow> routes_inv m') \<Longrightarrow> (plans_inv m \<Longrightarrow> plans_inv m') \<Longrightarrow> store_inv m'"
  "store_inv m \<Longrightarrow> only_hos m m' \<Longrightarrow> (hos_inv m \<Longrightarrow> hos_inv m') \<Longrightarrow> store_inv m'"
  "store_inv m \<Longrightarrow> only_plans m m' \<Longrightarrow> (plans_inv m \<Longrightarrow> plans_inv m') \<Longrightarrow> store_inv m'"
  "store_inv m \<Longrightarrow> only_deliveries m m' \<Longrightarrow> (deliveries_inv m \<Longrightarrow> deliveries_inv m') \<Longrightarrow> store_inv m'"
  using store_inv_only store_invD by metis+

lemmas step_intros = inv_intros orders_inv_CreateOrders subs_inv_CreateSubscription gfs_inv_CreateGeofence deliveries_inv_Enqueue

text \<open>A method changes the fields of one group and keeps its invariant; three do nothing.\<close>

lemma store_inv_step: "mem_step m m' \<Longrightarrow> store_inv m \<Longrightarrow> store_inv m'"
proof (induction rule: mem_step.induct)
  case plan_routes
  then show ?case by - (erule store_inv_group, rule frame_intros, erule routes_inv_PlanRoutes, simp_all add: inv_intros)
next
  case (update_hos m t d upd m' status st)
  from update_hos(2) show ?case
    by (rule store_inv_group(5)) (rule only_hos_ops [OF update_hos(1)], erule hos_inv_UpdateHOS [OF _ update_hos(1)])
qed ((erule store_inv_group, rule frame_intros, ((erule step_intros | assumption)+)?)
  | simp add: mem_RequeueWebhookDLQ_def mem_RequeueWebhookDLQBulk_def mem_DeleteWebhookDLQBulk_def)+

lemma mem_reachable_inv: "mem_reachable m \<Longrightarrow> store_inv m"
  by (induction rule: mem_reachable.induct) (auto intro: store_inv_new store_inv_step)

end
