(* ===== verification/Store_Properties.thy ===== *)
theory Store_Properties
  imports Memory_Store
begin

text \<open>
  The properties of the in-memory store and of the webhook pipeline on it. Most are about every
  reachable state (\<open>mem_reachable\<close>), so that no invariant is left to the reader; \<open>demo_store\<close> is the
  concrete reachable state the witnesses use.
\<close>

section \<open>A concrete store\<close>

definition demo_geofence_input :: geofence_input where
  "demo_geofence_input = \<lparr>gi_Name = ''depot'', gi_Type = ''circle'', gi_RadiusM = 50, gi_Center = None, gi_Rules = None\<rparr>"

definition demo_order :: order_in where
  "demo_order = \<lparr>oi_ExternalRef = ''x'', oi_Priority = 1, oi_Attributes = None, oi_Stops = []\<rparr>"

definition demo_subscription :: subscription_request where
  "demo_subscription = \<lparr>sr_TenantID = ''t1'', sr_URL = ''http://u'', sr_Events = [''stop.advanced''], sr_Secret = ''k''\<rparr>"

definition demo_plan_request :: optimize_request where
  "demo_plan_request = \<lparr>or_TenantID = ''t1'', or_PlanDate = ''day'', or_Algorithm = '''', or_TimeBudgetMs = 0,
     or_MaxIterations = 0, or_InitTemp = 0, or_Cooling = 0, or_RemovalWeights = [], or_InsertionWeights = [],
     or_VehiclePool = [], or_Depots = [], or_IncludeOrders = [], or_Constraints = None, or_Objectives = None, or_Reoptimize = False, or_Freeze = None\<rparr>"

definition demo_ids :: "string \<Rightarrow> nat \<Rightarrow> string" where
  "demo_ids p i = (if i = 0 then p @ ''0'' else if i = 1 then p @ ''1'' else p @ ''2'')"

definition demo_store :: memory where
  "demo_store =
     (let m1 = fst (mem_CreateOrders (demo_ids ''o'') NewMemory ''t1'' [demo_order, demo_order]);
          m2 = fst (mem_CreateSubscription ''s1'' m1 demo_subscription);
          m3 = fst (mem_CreateGeofence ''g1'' m2 ''t1'' demo_geofence_input);
          m4 = fst (mem_PlanRoutes (demo_ids ''r'') m3 demo_plan_request)
      in fst (mem_EnqueueWebhook 0 ''d1'' m4 ''t1'' ''s1'' ''stop.advanced'' ''http://u'' ''k'' ''{}''))"

lemmas demo_defs = demo_geofence_input_def demo_order_def demo_subscription_def demo_plan_request_def demo_ids_def
  NewMemory_def mem_CreateOrders_def mem_CreateSubscription_def mem_CreateGeofence_def mem_PlanRoutes_def
  mem_EnqueueWebhook_def

lemma demo_reachable: "mem_reachable demo_store"
  unfolding demo_store_def Let_def
  by (rule mem_reachable.step [OF mem_reachable.step [OF mem_reachable.step [OF mem_reachable.step
        [OF mem_reachable.step [OF mem_reachable.start mem_step.create_orders] mem_step.create_subscription]
        mem_step.create_geofence] mem_step.plan_routes] mem_step.enqueue])
    (simp_all add: demo_defs fresh_ids_def inj_on_def less_Suc_eq Let_def lessThan_Suc)

lemma demo_fields:
  "byTen demo_store ''t1'' = [''o0'', ''o1'']"
  "gfsTen demo_store ''t1'' = [''g1'']" "routesTen demo_store ''t1'' = [''r0'']"
  "subs demo_store ''t1'' = [\<lparr>sub_ID = ''s1'', sub_TenantID = ''t1'', sub_URL = ''http://u'',
     sub_Events = [''stop.advanced''], sub_Secret = ''k''\<rparr>]"
  "deliveriesByTenant demo_store ''t1'' = [''d1'']"
  "routes demo_store ''r0'' = Some (demo_route (demo_ids ''r'') ''day'')"
  "gfs demo_store ''g1'' \<noteq> None" "gfs demo_store ''g2'' = None"
  "deliveries demo_store ''d1'' = Some \<lparr>md_Delivery = \<lparr>wd_ID = ''d1'', wd_TenantID = ''t1'', wd_SubscriptionID = ''s1'',
     wd_EventType = ''stop.advanced'', wd_URL = ''http://u'', wd_Secret = ''k'', wd_Payload = ''{}'',
     wd_Status = ''pending'', wd_Attempts = 0\<rparr>, md_NextAttemptAt = 0, md_LastError = '''', md_ResponseCode = 0,
     md_LatencyMs = 0, md_DeliveredAt = None\<rparr>"
  "k \<noteq> ''d1'' \<Longrightarrow> deliveries demo_store k = None"
  by (simp_all add: demo_store_def demo_defs Let_def)

section \<open>The store\<close>

text \<open>
  C15: whatever calls the store receives, from the empty store on, in whatever order, it keeps its
  well-formedness: tables and tenant indexes agree, ids are unique, each route's legs are visited
  legs, then at most one in progress, then pending ones, each driver's object has a shift and a
  break, each plan has at most one entry per algorithm, deliveries have a legal status.
\<close>

theorem reachable_well_formed: "mem_reachable m \<Longrightarrow> store_inv m"
  by (rule mem_reachable_inv)

theorem reachable_well_formed_witness:
  "mem_reachable demo_store \<and> store_inv demo_store \<and> store_inv (mem_DeleteSubscription demo_store ''t1'' ''s1'')"
  using reachable_well_formed demo_reachable
    reachable_well_formed [OF mem_reachable.step [OF demo_reachable mem_step.delete_subscription]] by blast

text \<open>
  C26: a client that follows the cursors of \<^verbatim>\<open>ListOrders\<close>, whatever page size and status filter it
  asks for, reaches the end and has then seen exactly the tenant's orders with that status, each
  once.
\<close>

theorem list_orders_walk:
  assumes "mem_reachable m"
  shows "\<exists>os. walk_pages (\<lambda>c. Inr (mem_ListOrders m t status c limit)) (Suc (length (byTen m t))) '''' = Some os \<and>
    distinct (map oo_ID os) \<and>
    set os = {o1. \<exists>k. orders m k = Some o1 \<and> oo_TenantID o1 = t \<and> (status = '''' \<or> oo_Status o1 = status)}"
proof -
  have inv: "orders_inv m" using mem_reachable_inv [OF assms] by (simp add: store_inv_def)
  then have ix: "indexed oo_ID oo_TenantID (orders m) (byTen m)" by (simp add: orders_inv_def)
  have ids: "map oo_ID (map (mem_order m) (byTen m t)) = byTen m t"
    using indexed_idents [OF ix, of zero_order_out t] by (simp add: mem_order_def comp_def)
  have "distinct (map oo_ID (orders_view m status (byTen m t)))"
    unfolding orders_view_def using ids indexed_distinct [OF ix, of t] by (metis distinct_map_filter)
  moreover have "set (orders_view m status (byTen m t)) =
    {o1. \<exists>k. orders m k = Some o1 \<and> oo_TenantID o1 = t \<and> (status = '''' \<or> oo_Status o1 = status)}"
    using indexed_values [OF ix, of zero_order_out t]
    by (auto simp: orders_view_def mem_order_def [abs_def] set_eq_iff)
  ultimately show ?thesis using order_pages.walk_complete [of m "(t, status, limit)", OF inv] by auto
qed

theorem list_orders_walk_witness:
  "\<exists>os. walk_pages (\<lambda>c. Inr (mem_ListOrders demo_store ''t1'' ''pending'' c 1)) (Suc (length (byTen demo_store ''t1''))) '''' = Some os \<and>
    distinct (map oo_ID os) \<and>
    set os = {o1. \<exists>k. orders demo_store k = Some o1 \<and> oo_TenantID o1 = ''t1'' \<and> (''pending'' = '''' \<or> oo_Status o1 = ''pending'')}"
  by (rule list_orders_walk [OF demo_reachable])

text \<open>
  Walking the pages of \<^verbatim>\<open>ListGeofences\<close> yields exactly the geofences the tenant can read, each
  once; and a page never exceeds the limit.
\<close>

theorem list_geofences_walk:
  assumes "mem_reachable m"
  shows "(\<exists>gs. walk_pages (\<lambda>c. Inr (mem_ListGeofences m t c limit)) (Suc (length (gfsTen m t))) '''' = Some gs \<and>
      distinct (map gf_ID gs) \<and> set gs = {gf. \<exists>k. mem_GetGeofence m t k = Inr gf}) \<and>
    int (length (fst (mem_ListGeofences m t '''' limit))) \<le> page_limit limit"
proof -
  have inv: "gfs_inv m" using mem_reachable_inv [OF assms] by (simp add: store_inv_def)
  then have ix: "indexed gf_ID gf_TenantID (gfs m) (gfsTen m)" by (simp add: gfs_inv_def)
  have ids: "map gf_ID (map (mem_geofence m) (gfsTen m t)) = gfsTen m t"
    using indexed_idents [OF ix, of zero_geofence t] by (simp add: mem_geofence_def comp_def)
  have "set (map (mem_geofence m) (gfsTen m t)) = {gf. \<exists>k. mem_GetGeofence m t k = Inr gf}"
    using indexed_values [OF ix, of zero_geofence t] mem_GetGeofence_Inr [of m t]
    by (auto simp: mem_geofence_def [abs_def])
  with ids indexed_distinct [OF ix, of t] geofence_pages.walk_complete [of m "(t, limit)", OF inv]
  have "\<exists>gs. walk_pages (\<lambda>c. Inr (mem_ListGeofences m t c limit)) (Suc (length (gfsTen m t))) '''' = Some gs \<and>
      distinct (map gf_ID gs) \<and> set gs = {gf. \<exists>k. mem_GetGeofence m t k = Inr gf}" by auto
  moreover have "int (length (fst (mem_ListGeofences m t '''' limit))) \<le> page_limit limit"
    using geofence_pages.first_page_bound [of m "(t, limit)", OF inv] by auto
  ultimately show ?thesis ..
qed

theorem list_geofences_walk_witness:
  "(\<exists>gs. walk_pages (\<lambda>c. Inr (mem_ListGeofences demo_store ''t1'' c 1)) (Suc (length (gfsTen demo_store ''t1''))) '''' = Some gs \<and>
      distinct (map gf_ID gs) \<and> set gs = {gf. \<exists>k. mem_GetGeofence demo_store ''t1'' k = Inr gf}) \<and>
   int (length (fst (mem_ListGeofences demo_store ''t1'' '''' 1))) \<le> page_limit 1"
  using list_geofences_walk [OF demo_reachable] by blast

text \<open>
  Walking the pages of \<^verbatim>\<open>ListRoutes\<close> yields every route planned for the tenant, in the order
  they were planned, each once.
\<close>

theorem list_routes_walk:
  assumes "mem_reachable m"
  shows "\<exists>rs. walk_pages (\<lambda>c. Inr (mem_ListRoutes m t c limit)) (Suc (length (routesTen m t))) '''' = Some rs \<and>
    map rt_ID rs = routesTen m t \<and> distinct (map rt_ID rs) \<and> (\<forall>r\<in>set rs. mem_GetRoute m t (rt_ID r) = Inr r)"
proof -
  have inv: "routes_inv m" using mem_reachable_inv [OF assms] by (simp add: store_inv_def)
  have at: "\<exists>r. routes m k = Some r \<and> rt_ID r = k" if "k \<in> set (routesTen m t)" for k
    using routes_inv_index [OF inv that] .
  have ids: "map rt_ID (map (mem_route m) (routesTen m t)) = routesTen m t"
    unfolding map_map by (rule map_idI) (use at in \<open>force simp: mem_route_def\<close>)
  have "\<forall>r\<in>set (map (mem_route m) (routesTen m t)). mem_GetRoute m t (rt_ID r) = Inr r"
    using at by (force simp: mem_route_def mem_GetRoute_def)
  with ids route_pages.walk_complete [of m "(t, limit)", OF inv] show ?thesis
    using inv by (auto simp: routes_inv_def)
qed

theorem list_routes_walk_witness:
  "\<exists>rs. walk_pages (\<lambda>c. Inr (mem_ListRoutes demo_store ''t1'' c 1)) (Suc (length (routesTen demo_store ''t1''))) '''' = Some rs \<and>
    map rt_ID rs = routesTen demo_store ''t1'' \<and> distinct (map rt_ID rs) \<and>
    (\<forall>r\<in>set rs. mem_GetRoute demo_store ''t1'' (rt_ID r) = Inr r)"
  by (rule list_routes_walk [OF demo_reachable])

text \<open>
  Walking the pages of \<^verbatim>\<open>ListSubscriptions\<close> never panics and yields the tenant's subscriptions
  in order, as long as the limit plus the number of subscriptions fits a 64-bit integer.
\<close>

theorem list_subscriptions_walk:
  assumes "mem_reachable m" and "int (length (subs m t)) + page_limit limit \<le> max_int"
  shows "walk_pages (\<lambda>c. mem_ListSubscriptions m t c limit) (Suc (length (subs m t))) '''' = Some (subs m t)"
proof -
  have "subs_inv m" using mem_reachable_inv [OF assms(1)] by (simp add: store_inv_def)
  with assms(2) subscription_pages.walk_complete [of m "(t, limit)"] show ?thesis by (simp add: subs_query_ok_def)
qed

theorem list_subscriptions_walk_witness:
  "walk_pages (\<lambda>c. mem_ListSubscriptions demo_store ''t1'' c 1) (Suc (length (subs demo_store ''t1''))) '''' =
    Some (subs demo_store ''t1'')"
  by (rule list_subscriptions_walk [OF demo_reachable]) (simp add: demo_fields page_limit_def max_int_def)

text \<open>
  Beyond that bound the addition of the start index and the limit wraps to a negative number
  and the slice expression panics: any client that passes the id of an existing subscription as
  cursor and the largest integer as limit crashes the call.
\<close>

theorem list_subscriptions_overflow:
  assumes "mem_reachable m" and "s \<in> set (subs m t)" and "int (length (subs m t)) \<le> max_int"
  shows "mem_ListSubscriptions m t (sub_ID s) max_int = Inl SliceBounds"
proof -
  have "subs_inv m" using mem_reachable_inv [OF assms(1)] by (simp add: store_inv_def)
  moreover obtain pre post where "subs m t = pre @ s # post" using assms(2) by (meson split_list)
  ultimately show ?thesis using assms(3) by (intro mem_ListSubscriptions_overflow) auto
qed

theorem list_subscriptions_overflow_witness:
  "mem_ListSubscriptions demo_store ''t1'' ''s1'' max_int = Inl SliceBounds"
  using list_subscriptions_overflow [OF demo_reachable, of "hd (subs demo_store ''t1'')" "''t1''"]
  by (simp add: demo_fields max_int_def)

text \<open>
  The geofences of each tenant are a map of its own: creating adds one binding, patching
  rewrites one, deleting removes one, reads see exactly the map, and a call of one tenant never
  changes what another tenant reads.
\<close>

theorem geofences_are_tenant_maps:
  assumes "mem_reachable m"
  shows "mem_GetGeofence m t k = (case gf_table m t k of None \<Rightarrow> Inl ErrNotFound | Some gf \<Rightarrow> Inr gf) \<and>
    (gfs m k = None \<and> k \<noteq> '''' \<longrightarrow> gf_table (fst (mem_CreateGeofence k m t inp)) =
      (gf_table m)(t := (gf_table m t)(k \<mapsto> snd (mem_CreateGeofence k m t inp)))) \<and>
    snd (mem_PatchGeofence m t k inp) =
      (case gf_table m t k of None \<Rightarrow> Inl ErrNotFound | Some gf \<Rightarrow> Inr (patch_geofence inp gf)) \<and>
    gf_table (fst (mem_PatchGeofence m t k inp)) =
      (gf_table m)(t := (gf_table m t)(k := map_option (patch_geofence inp) (gf_table m t k))) \<and>
    (snd (mem_DeleteGeofence m t k) = Inl ErrNotFound \<longleftrightarrow> gf_table m t k = None) \<and>
    gf_table (fst (mem_DeleteGeofence m t k)) = (gf_table m)(t := (gf_table m t)(k := None)) \<and>
    (t' \<noteq> t \<longrightarrow> mem_GetGeofence (fst (mem_PatchGeofence m t k inp)) t' k' = mem_GetGeofence m t' k' \<and>
      mem_GetGeofence (fst (mem_DeleteGeofence m t k)) t' k' = mem_GetGeofence m t' k')"
proof -
  have inv: "gfs_inv m" using mem_reachable_inv [OF assms] by (simp add: store_inv_def)
  have c: "gfs m k = None \<and> k \<noteq> '''' \<longrightarrow> gf_table (fst (mem_CreateGeofence k m t inp)) =
      (gf_table m)(t := (gf_table m t)(k \<mapsto> snd (mem_CreateGeofence k m t inp)))"
    using mem_geofences.create_table [OF inv] by blast
  have p: "snd (mem_PatchGeofence m t k inp) =
      (case gf_table m t k of None \<Rightarrow> Inl ErrNotFound | Some gf \<Rightarrow> Inr (patch_geofence inp gf))"
    using mem_geofences.patch_table [OF inv, of t k inp] by (metis snd_conv)
  have o: "t' \<noteq> t \<longrightarrow> mem_GetGeofence (fst (mem_PatchGeofence m t k inp)) t' k' = mem_GetGeofence m t' k' \<and>
      mem_GetGeofence (fst (mem_DeleteGeofence m t k)) t' k' = mem_GetGeofence m t' k'"
    using mem_geofences.other_tenant(2) [OF inv] mem_geofences.other_tenant(3) [OF inv] by blast
  note pt = mem_geofences.patch_table [OF inv, THEN conjunct2]
  note dt = mem_geofences.del_table [OF inv, THEN conjunct1] mem_geofences.del_table [OF inv, THEN conjunct2]
  show ?thesis by (intro conjI mem_geofences.get_table c p pt dt o)
qed

theorem geofences_are_tenant_maps_witness:
  "mem_reachable demo_store \<and> gfs demo_store ''g2'' = None \<and>
   gf_table (fst (mem_CreateGeofence ''g2'' demo_store ''t2'' demo_geofence_input)) =
     (gf_table demo_store)(''t2'' := (gf_table demo_store ''t2'')(''g2'' \<mapsto>
        snd (mem_CreateGeofence ''g2'' demo_store ''t2'' demo_geofence_input))) \<and>
   mem_GetGeofence (fst (mem_DeleteGeofence demo_store ''t2'' ''g1'')) ''t1'' ''g1'' = mem_GetGeofence demo_store ''t1'' ''g1''"
  using geofences_are_tenant_maps [OF demo_reachable, of "''t2''" "''g2''" demo_geofence_input]
    geofences_are_tenant_maps [OF demo_reachable, of "''t2''" "''g1''" _ "''t1''" "''g1''"]
  by (simp add: demo_reachable demo_fields)

section \<open>Routes, drivers and plans\<close>

text \<open>
  C27: what \<^verbatim>\<open>AdvanceRoute\<close> does to a route of the store, in every case. The legs are at a position
  \<open>k\<close> (that many are visited). If the auto-advance policy refuses the request or every leg is
  visited, nothing changes and the result says so; otherwise exactly leg \<open>k\<close> becomes visited, leg
  \<open>k + 1\<close> becomes the one in progress, the version goes up by one (modulo \<open>2 ^ 64\<close>), and the result
  names the legs and stops of the move.
\<close>

theorem advance_route_cases:
  assumes "mem_reachable m" and "routes m rid = Some r"
  shows "\<exists>k. legs_at k (rt_Legs r) \<and> mem_AdvanceRoute fmt now m t rid req =
    (if advance_blocked req (rt_AutoAdvance r) \<or> k = length (rt_Legs r)
     then (m, Inr \<lparr>resp_Result = no_advance rid now fmt, resp_Route = r, resp_Alerts = []\<rparr>)
     else let r' = r\<lparr>rt_Legs := advance_legs k (rt_Legs r), rt_Version := wrap64 (rt_Version r + 1)\<rparr>
       in (m\<lparr>routes := (routes m)(rid \<mapsto> r')\<rparr>,
           Inr \<lparr>resp_Result = \<lparr>ad_RouteID = rid, ad_FromLegID = leg_ID (rt_Legs r ! k),
                  ad_FromStopID = leg_ToStopID (rt_Legs r ! k),
                  ad_ToLegID = (if Suc k < length (rt_Legs r) then leg_ID (rt_Legs r ! Suc k) else ''''),
                  ad_ToStopID = (if Suc k < length (rt_Legs r) then leg_ToStopID (rt_Legs r ! Suc k) else ''''),
                  ad_TS = fmt now, ad_Changed = True\<rparr>,
                resp_Route = r', resp_Alerts = []\<rparr>))"
proof -
  have "routes_inv m" using mem_reachable_inv [OF assms(1)] by (simp add: store_inv_def)
  then obtain k where "legs_at k (rt_Legs r)" using routes_inv_legs_at assms(2) by blast
  with mem_AdvanceRoute_cases [OF assms(2) this] show ?thesis by blast
qed

theorem advance_route_cases_witness:
  "mem_reachable demo_store \<and> routes demo_store ''r0'' = Some (demo_route (demo_ids ''r'') ''day'') \<and>
   (let r = demo_route (demo_ids ''r'') ''day'';
        r' = r\<lparr>rt_Legs := advance_legs 0 (rt_Legs r), rt_Version := 2\<rparr>
    in mem_AdvanceRoute (\<lambda>_. ''ts'') 0 demo_store ''t1'' ''r0'' \<lparr>av_Reason = '''', av_Force = False\<rparr> =
      (demo_store\<lparr>routes := (routes demo_store)(''r0'' \<mapsto> r')\<rparr>,
       Inr \<lparr>resp_Result = \<lparr>ad_RouteID = ''r0'', ad_FromLegID = ''r1'', ad_FromStopID = ''s2'', ad_ToLegID = ''r2'',
              ad_ToStopID = ''s3'', ad_TS = ''ts'', ad_Changed = True\<rparr>, resp_Route = r', resp_Alerts = []\<rparr>))"
  using advance_route_cases [OF demo_reachable demo_fields(6), of "\<lambda>_. ''ts''" 0 "''t1''" "\<lparr>av_Reason = '''', av_Force = False\<rparr>"]
  apply (elim exE conjE)
  apply (frule visited_count)
  apply (simp add: demo_reachable demo_fields Let_def demo_route_def zero_route_def zero_leg_def advance_blocked_def
      demo_ids_def wrap64_def)
  done

text \<open>
  C28: a driver who keeps sending requests the policy lets through visits every leg: after as many
  requests as there are legs left, all legs are visited, exactly those requests reported a change,
  and no later one does. After any number of these requests every other route is what it was.
\<close>

theorem advance_route_completes:
  assumes "mem_reachable m" and "mem_position m rid = Some (k, n)" and "mem_passes m rid req"
  shows "mem_position (((\<lambda>s. fst (mem_advance_step fmt now t s rid req)) ^^ (n - k)) m) rid = Some (n, n) \<and>
    (\<forall>j. snd (mem_advance_step fmt now t (((\<lambda>s. fst (mem_advance_step fmt now t s rid req)) ^^ j) m) rid req) = (k + j < n)) \<and>
    (\<forall>j other. other \<noteq> rid \<longrightarrow> routes (((\<lambda>s. fst (mem_advance_step fmt now t s rid req)) ^^ j) m) other = routes m other)"
proof -
  have inv: "routes_inv m" using mem_reachable_inv [OF assms(1)] by (simp add: store_inv_def)
  have one: "other \<noteq> rid \<Longrightarrow> routes (fst (mem_advance_step fmt now t s rid req)) other = routes s other" for s other
    by (auto simp: mem_advance_step_def mem_AdvanceRoute_def Let_def split: option.splits)
  have "other \<noteq> rid \<Longrightarrow> routes (((\<lambda>s. fst (mem_advance_step fmt now t s rid req)) ^^ j) m) other = routes m other" for j other
    by (induction j) (simp_all add: one)
  then show ?thesis using mem_progress.completes [OF inv assms(2,3)] by blast
qed

theorem advance_route_completes_witness:
  "mem_position demo_store ''r0'' = Some (0, 2) \<and>
   mem_position (((\<lambda>s. fst (mem_advance_step (\<lambda>_. ''ts'') 0 ''t1'' s ''r0'' \<lparr>av_Reason = '''', av_Force = False\<rparr>)) ^^ (2 - 0))
     demo_store) ''r0'' = Some (2, 2)"
proof -
  have "mem_position demo_store ''r0'' = Some (0, 2)"
    by (simp add: mem_position_def demo_fields demo_route_def)
  moreover have "mem_passes demo_store ''r0'' \<lparr>av_Reason = '''', av_Force = False\<rparr>"
    by (simp add: mem_passes_def mem_route_def demo_fields demo_route_def zero_route_def advance_blocked_def)
  ultimately show ?thesis using advance_route_completes [OF demo_reachable] by blast
qed

text \<open>
  C29: no sequence of hours-of-service updates ever fails its type assertion, and the driver's
  object always shows the state of the abstract machine of shifts and breaks after those actions.
\<close>

theorem hos_updates_refine:
  assumes "mem_reachable m"
  shows "\<exists>m'. hos_run m t d us = Inr m' \<and> mem_reachable m' \<and>
    hos_view m' d = fold (\<lambda>u. hos_step (hu_Action u)) us (hos_view m d)"
  using assms
proof (induction us arbitrary: m)
  case Nil
  then show ?case by simp
next
  case (Cons u us)
  have inv: "hos_inv m" using mem_reachable_inv [OF Cons.prems] by (simp add: store_inv_def)
  obtain m1 status st where u: "mem_UpdateHOS m t d u = Inr (m1, status, st)"
    using mem_UpdateHOS_spec [OF inv] by blast
  have "mem_reachable m1" by (rule mem_reachable.step [OF Cons.prems mem_step.update_hos [OF u]])
  from Cons.IH [OF this] u hos_view_UpdateHOS(1) [OF inv u, of d] show ?case by auto
qed

theorem hos_updates_refine_witness:
  "\<exists>m'. hos_run demo_store ''t1'' ''d'' [\<lparr>hu_Action = ''shift_start'', hu_TS = ''8'', hu_Type = '''', hu_Note = ''''\<rparr>,
      \<lparr>hu_Action = ''break_start'', hu_TS = ''9'', hu_Type = ''meal'', hu_Note = ''''\<rparr>] = Inr m' \<and> mem_reachable m' \<and>
    hos_view m' ''d'' = fold (\<lambda>u. hos_step (hu_Action u))
      [\<lparr>hu_Action = ''shift_start'', hu_TS = ''8'', hu_Type = '''', hu_Note = ''''\<rparr>,
       \<lparr>hu_Action = ''break_start'', hu_TS = ''9'', hu_Type = ''meal'', hu_Note = ''''\<rparr>] (hos_view demo_store ''d'')"
  by (rule hos_updates_refine [OF demo_reachable])

text \<open>
  Saved plan metrics are an upsert by algorithm: asking for the algorithm just saved yields
  exactly the saved entry (marked with the algorithm's name), the entries of every other algorithm,
  date and tenant are as before.
\<close>

theorem plan_metrics_upsert:
  assumes "mem_reachable m" and "a \<noteq> ''''" and "b \<noteq> ''''"
  shows "mem_ListPlanMetrics (mem_SavePlanMetrics m t d a mx) t' d' b =
    (if t' = t \<and> d' = d \<and> b = a then [mx(''algo'' \<mapsto> AStr a)] else mem_ListPlanMetrics m t' d' b)"
proof -
  have "plans_inv m" using mem_reachable_inv [OF assms(1)] by (simp add: store_inv_def)
  from ListPlanMetrics_Save [OF this assms(2)] assms(3) show ?thesis by simp
qed

theorem plan_metrics_upsert_witness:
  "mem_ListPlanMetrics (mem_SavePlanMetrics demo_store ''t1'' ''day'' ''alns'' Map.empty) ''t1'' ''day'' ''greedy'' =
    (if ''t1'' = ''t1'' \<and> ''day'' = ''day'' \<and> ''greedy'' = ''alns'' then [Map.empty(''algo'' \<mapsto> AStr ''alns'')]
     else mem_ListPlanMetrics demo_store ''t1'' ''day'' ''greedy'')"
  by (rule plan_metrics_upsert [OF demo_reachable]) simp_all

section \<open>Webhooks\<close>

text \<open>
  An event reaches exactly the subscriptions of its tenant that list its type: \<^verbatim>\<open>Emit\<close> appends
  one pending delivery for each of them to the tenant's queue, with that subscription's URL and
  secret and the event as its body, changes no existing delivery and no other tenant's queue.
\<close>

theorem emit_enqueues:
  assumes "mem_reachable m" and "fresh_draws m draws 0 (length (filter (subscribes ev) (subs m t)))"
  shows "\<exists>m'. m' = Emit memory_publish_store marshal fmt now draws m t ev data \<and>
    (let ss = filter (\<lambda>s. ev \<in> set (sub_Events s)) (subs m t);
         ids = map (\<lambda>j. snd (draws j)) [0..<length ss];
         body = marshal (emit_payload fmt now t ev data)
     in deliveriesByTenant m' t = deliveriesByTenant m t @ ids \<and>
        (\<forall>t'. t' \<noteq> t \<longrightarrow> deliveriesByTenant m' t' = deliveriesByTenant m t') \<and>
        (\<forall>j<length ss. delivery_view m' (ids ! j) = Some (pending_delivery (ids ! j) t ev body (ss ! j))) \<and>
        (\<forall>k. k \<notin> set ids \<longrightarrow> delivery_view m' k = delivery_view m k))"
proof -
  have inv: "deliveries_inv m" using mem_reachable_inv [OF assms(1)] by (simp add: store_inv_def)
  have ss: "filter (\<lambda>s. ev \<in> set (sub_Events s)) (subs m t) = filter (subscribes ev) (subs m t)"
    by (rule filter_cong) (simp_all add: subscribes_iff)
  show ?thesis
    using emit_loop_memory [OF inv assms(2), of t ev "marshal (emit_payload fmt now t ev data)"]
    by (auto simp: ss Emit_def memory_publish_store_def mem_GetSubscriptionsForEvent_def Let_def atLeast0LessThan)
qed

theorem emit_enqueues_witness:
  "\<exists>m'. m' = Emit memory_publish_store (\<lambda>_. ''{}'') (\<lambda>_. ''ts'') 7 (\<lambda>_. (7, ''d2'')) demo_store ''t1'' ''stop.advanced'' ANil \<and>
    deliveriesByTenant m' ''t1'' = [''d1'', ''d2''] \<and>
    delivery_view m' ''d2'' = Some (pending_delivery ''d2'' ''t1'' ''stop.advanced'' ''{}'' (hd (subs demo_store ''t1'')))"
  using emit_enqueues [OF demo_reachable, of "\<lambda>_. (7, ''d2'')" "''stop.advanced''" "''t1''" "\<lambda>_. ''{}''" "\<lambda>_. ''ts''" 7 ANil]
  by (simp add: demo_fields fresh_draws_def subscribes_def)

text \<open>
  C30: a fetch with limit \<open>n > 0\<close> returns at most \<open>n\<close> deliveries, no id twice, each of them stored,
  pending or waiting for a retry, and due; and it returns every due delivery of the tenants it
  ranges over unless it returns \<open>n\<close> of them.
\<close>

theorem fetch_due_exact:
  assumes "mem_reachable m" and "distinct tenants" and "0 < n"
  shows "let ds = mem_FetchDueWebhookDeliveries tenants now m n in
    int (length ds) \<le> n \<and> distinct (map wd_ID ds) \<and>
    set ds \<subseteq> {md_Delivery d | k d. deliveries m k = Some d \<and> is_due now d} \<and>
    (int (length ds) < n \<longrightarrow> set ds = {md_Delivery d | k t d. t \<in> set tenants \<and> k \<in> set (deliveriesByTenant m t) \<and>
       deliveries m k = Some d \<and> is_due now d})"
proof -
  have inv: "deliveries_inv m" using mem_reachable_inv [OF assms(1)] by (simp add: store_inv_def)
  have all: "set (due_deliveries now m (iter_delivery_ids tenants m)) = {md_Delivery d | k t d. t \<in> set tenants \<and>
      k \<in> set (deliveriesByTenant m t) \<and> deliveries m k = Some d \<and> is_due now d}"
    by (fastforce simp: set_due_deliveries iter_delivery_ids_def)
  have short: "int (length (mem_FetchDueWebhookDeliveries tenants now m n)) < n \<Longrightarrow>
      mem_FetchDueWebhookDeliveries tenants now m n = due_deliveries now m (iter_delivery_ids tenants m)"
    using assms(3) by (simp add: fetch_due_eq Let_def)
  have "int (length (mem_FetchDueWebhookDeliveries tenants now m n)) < n \<longrightarrow>
      set (mem_FetchDueWebhookDeliveries tenants now m n) = {md_Delivery d | k t d. t \<in> set tenants \<and>
        k \<in> set (deliveriesByTenant m t) \<and> deliveries m k = Some d \<and> is_due now d}"
    by (rule impI, subst short, assumption, rule all)
  moreover have "set (mem_FetchDueWebhookDeliveries tenants now m n) \<subseteq> {md_Delivery d | k d. deliveries m k = Some d \<and> is_due now d}"
    using fetch_due_sound [OF inv] by blast
  moreover have "int (length (mem_FetchDueWebhookDeliveries tenants now m n)) \<le> n"
    using assms(3) by (simp add: fetch_due_eq Let_def)
  ultimately show ?thesis
    unfolding Let_def using fetch_due_distinct [OF inv assms(2)] by blast
qed

theorem fetch_due_exact_witness:
  "let ds = mem_FetchDueWebhookDeliveries [''t1'', ''t2''] 5 demo_store 50 in
    int (length ds) \<le> 50 \<and> distinct (map wd_ID ds) \<and>
    set ds \<subseteq> {md_Delivery d | k d. deliveries demo_store k = Some d \<and> is_due 5 d} \<and>
    (int (length ds) < 50 \<longrightarrow> set ds = {md_Delivery d | k t d. t \<in> set [''t1'', ''t2''] \<and>
       k \<in> set (deliveriesByTenant demo_store t) \<and> deliveries demo_store k = Some d \<and> is_due 5 d})"
  by (rule fetch_due_exact [OF demo_reachable]) simp_all

lemma process_items_reachable:
  "mem_reachable (fst acc) \<Longrightarrow> process_items (memory_delivery_store tenants) w env its acc = Inr acc' \<Longrightarrow> mem_reachable (fst acc')"
proof (induction its arbitrary: acc)
  case Nil
  then show ?case by simp
next
  case (Cons it its)
  obtain s reqs mx where acc: "acc = (s, reqs, mx)" by (cases acc)
  from Cons.prems obtain acc1 where one: "process_item (memory_delivery_store tenants) w (env (wd_ID it)) it acc = Inr acc1"
    "process_items (memory_delivery_store tenants) w env its acc1 = Inr acc'" by (auto split: sum.splits)
  from one(1) Cons.prems(1) have "mem_reachable (fst acc1)"
    by (auto simp: acc process_item_def memory_delivery_store_def Let_def
        split: if_splits http_outcome.splits prod.splits intro: mem_reachable.step [OF _ mem_step.mark] mem_reachable.step [OF _ mem_step.fail])
  from Cons.IH [OF this one(2)] show ?case .
qed

lemma processOnce_reachable:
  assumes "mem_reachable m" and "processOnce (memory_delivery_store tenants) w now env m = Inr (m', reqs, mx)"
  shows "mem_reachable m'"
  using assms process_items_reachable [of "(m, [], [])" tenants w env _ "(m', reqs, mx)"]
  by (auto simp: processOnce_def memory_delivery_store_def split: if_splits)

text \<open>
  C31: one tick of the worker on the in-memory store. When the URLs of the fetched deliveries can be
  parsed, the tick does not panic, sends exactly one request for each fetched delivery, in order,
  and each of them takes one step of its life cycle: \<^verbatim>\<open>delivered\<close> on a 2xx answer, \<^verbatim>\<open>failed\<close> when that
  was its last attempt, otherwise \<^verbatim>\<open>retry\<close> with one more attempt counted. Every other delivery is
  as before, and the store stays reachable.
\<close>

theorem worker_tick:
  assumes "mem_reachable m" and "distinct tenants"
    and "\<forall>it\<in>set (mem_FetchDueWebhookDeliveries tenants now m 50). w_url_ok w (wd_URL it)"
  shows "\<exists>m' mx. processOnce (memory_delivery_store tenants) w now env m =
      Inr (m', map (build_request w) (mem_FetchDueWebhookDeliveries tenants now m 50), mx) \<and> mem_reachable m' \<and>
    (\<forall>k. delivery_view m' k =
       (if k \<in> wd_ID ` set (mem_FetchDueWebhookDeliveries tenants now m 50)
        then map_option (\<lambda>it. attempt_step (w_MaxAttempts w) (outcome_ok (ae_http (env k) (build_request w it))) it) (delivery_view m k)
        else delivery_view m k))"
proof -
  have "deliveries_inv m \<and> distinct tenants" using mem_reachable_inv [OF assms(1)] assms(2) by (simp add: store_inv_def)
  moreover have "ds_fetch (memory_delivery_store tenants) now m 50 = Inr (mem_FetchDueWebhookDeliveries tenants now m 50)"
    by (simp add: memory_delivery_store_def)
  ultimately obtain m' mx where tick: "processOnce (memory_delivery_store tenants) w now env m =
      Inr (m', map (build_request w) (mem_FetchDueWebhookDeliveries tenants now m 50), mx)"
    and view: "\<forall>k. delivery_view m' k =
       (if k \<in> wd_ID ` set (mem_FetchDueWebhookDeliveries tenants now m 50)
        then map_option (\<lambda>it. attempt_step (w_MaxAttempts w) (outcome_ok (ae_http (env k) (build_request w it))) it) (delivery_view m k)
        else delivery_view m k)"
    using memory_queue.processOnce_view assms(3) by blast
  have "mem_reachable m'" by (rule processOnce_reachable [OF assms(1) tick])
  with tick view show ?thesis by blast
qed

definition demo_worker :: worker where
  "demo_worker = NewWorker (\<lambda>secret body. secret @ body) (\<lambda>_. True) ''3''"

definition demo_env :: "string \<Rightarrow> attempt_env" where
  "demo_env k = \<lparr>ae_now = 5, ae_http = (\<lambda>_. HttpStatus 500), ae_latency = 12, ae_mark_now = 6\<rparr>"

theorem worker_tick_witness:
  "\<exists>m' mx. processOnce (memory_delivery_store [''t1'']) demo_worker 5 demo_env demo_store =
      Inr (m', map (build_request demo_worker) (mem_FetchDueWebhookDeliveries [''t1''] 5 demo_store 50), mx) \<and> mem_reachable m' \<and>
    (\<forall>k. delivery_view m' k =
       (if k \<in> wd_ID ` set (mem_FetchDueWebhookDeliveries [''t1''] 5 demo_store 50)
        then map_option (\<lambda>it. attempt_step (w_MaxAttempts demo_worker)
          (outcome_ok (ae_http (demo_env k) (build_request demo_worker it))) it) (delivery_view demo_store k)
        else delivery_view demo_store k))"
  by (rule worker_tick [OF demo_reachable]) (simp_all add: demo_worker_def NewWorker_def)

text \<open>
  A delivery whose URL \<^verbatim>\<open>http.NewRequest\<close> rejects panics the worker (the nil request is
  dereferenced): if any fetched delivery has such a URL, the tick ends the process.
\<close>

theorem worker_panics_on_bad_url:
  assumes "it \<in> set (mem_FetchDueWebhookDeliveries tenants now m 50)" and "\<not> w_url_ok w (wd_URL it)"
  shows "processOnce (memory_delivery_store tenants) w now env m = Inl NilDeref"
  using assms process_items_panic [of it "mem_FetchDueWebhookDeliveries tenants now m 50" w]
  by (auto simp: processOnce_def memory_delivery_store_def)

theorem worker_panics_on_bad_url_witness:
  "processOnce (memory_delivery_store [''t1'']) (demo_worker\<lparr>w_url_ok := (\<lambda>_. False)\<rparr>) 5 demo_env demo_store = Inl NilDeref"
  by (rule worker_panics_on_bad_url [of "the (delivery_view demo_store ''d1'')"])
    (simp_all add: mem_FetchDueWebhookDeliveries_def iter_delivery_ids_def demo_fields is_due_def delivery_view_def Let_def)

text \<open>
  Attempts are bounded. If every delivery to be tried has been tried fewer than
  \<^verbatim>\<open>MaxAttempts\<close> times, then however the ticks of the worker go (clock, answers, batches), the
  attempts a delivery gets in any run of ticks plus those it has left afterwards never exceed those
  it had left before. So no delivery is attempted more than \<^verbatim>\<open>MaxAttempts\<close> times, and one that has
  used up its attempts is delivered or failed for good.
\<close>

theorem attempts_bounded_by_max:
  assumes "mem_reachable m" and "distinct tenants" and "attempts_bounded delivery_view (w_MaxAttempts w) m"
    and "run_ticks (memory_delivery_store tenants) w ticks m = Inr (m', tried)"
  shows "count_list tried k + attempts_left (w_MaxAttempts w) (delivery_view m' k)
       \<le> attempts_left (w_MaxAttempts w) (delivery_view m k) \<and>
     attempts_bounded delivery_view (w_MaxAttempts w) m' \<and>
     (count_list tried k = attempts_left (w_MaxAttempts w) (delivery_view m k) \<longrightarrow>
       (\<forall>wd. delivery_view m' k = Some wd \<longrightarrow> \<not> live_status (wd_Status wd)))"
proof -
  have "deliveries_inv m \<and> distinct tenants" using mem_reachable_inv [OF assms(1)] assms(2) by (simp add: store_inv_def)
  from memory_queue.run_ticks_attempts [OF this assms(3,4), of k]
  have b: "attempts_bounded delivery_view (w_MaxAttempts w) m'"
    and c: "count_list tried k + attempts_left (w_MaxAttempts w) (delivery_view m' k)
      \<le> attempts_left (w_MaxAttempts w) (delivery_view m k)" by auto
  from b c attempts_left_0 [OF b, of k] show ?thesis by auto
qed

lemma demo_attempts_bounded: "attempts_bounded delivery_view 3 demo_store"
  unfolding attempts_bounded_def
proof (intro allI impI)
  fix k wd
  assume "delivery_view demo_store k = Some wd"
  then show "wd_Attempts wd \<le> 3 \<and> (live_status (wd_Status wd) \<longrightarrow> wd_Attempts wd < 3)"
    by (cases "k = ''d1''") (auto simp: delivery_view_def demo_fields)
qed

theorem attempts_bounded_by_max_witness:
  "\<exists>m' tried. run_ticks (memory_delivery_store [''t1'']) demo_worker [(5, demo_env)] demo_store = Inr (m', tried) \<and>
     count_list tried ''d1'' + attempts_left 3 (delivery_view m' ''d1'') \<le> 3"
proof -
  have w: "w_MaxAttempts demo_worker = 3" by (simp add: demo_worker_def NewWorker_def atoi_def digit_value_def max_int_def min_int_def)
  have l: "attempts_left 3 (delivery_view demo_store ''d1'') = 3"
    by (simp add: attempts_left_def delivery_view_def demo_fields live_status_def)
  have "\<exists>m' tried. run_ticks (memory_delivery_store [''t1'']) demo_worker [(5, demo_env)] demo_store = Inr (m', tried)"
    by (auto simp: processOnce_def memory_delivery_store_def mem_FetchDueWebhookDeliveries_def iter_delivery_ids_def
        demo_fields is_due_def Let_def process_item_def demo_worker_def NewWorker_def demo_env_def)
  then obtain m' tried where r: "run_ticks (memory_delivery_store [''t1'']) demo_worker [(5, demo_env)] demo_store = Inr (m', tried)"
    by blast
  from attempts_bounded_by_max [OF demo_reachable _ _ this, where k = "''d1''"] demo_attempts_bounded w l r show ?thesis by auto
qed

text \<open>
  Asking for a redelivery makes exactly that delivery of the tenant pending and due at once;
  with another tenant's id, or an unknown one, the call changes nothing.
\<close>

theorem retry_makes_due:
  assumes "mem_reachable m"
  shows "(case deliveries m k of
      Some d \<Rightarrow> wd_TenantID (md_Delivery d) = t \<and> (\<exists>d'. deliveries (mem_RetryWebhookDelivery now m t k) = (deliveries m)(k \<mapsto> d') \<and>
          is_due now d' \<and> md_Delivery d' = (md_Delivery d)\<lparr>wd_Status := ''pending''\<rparr>) \<or>
        wd_TenantID (md_Delivery d) \<noteq> t \<and> mem_RetryWebhookDelivery now m t k = m
    | None \<Rightarrow> mem_RetryWebhookDelivery now m t k = m) \<and>
    (k \<in> set (deliveriesByTenant m t) \<longleftrightarrow> (\<exists>d. deliveries m k = Some d \<and> wd_TenantID (md_Delivery d) = t))"
proof -
  have "indexed (\<lambda>d. wd_ID (md_Delivery d)) (\<lambda>d. wd_TenantID (md_Delivery d)) (deliveries m) (deliveriesByTenant m)"
    using mem_reachable_inv [OF assms] by (simp add: store_inv_def deliveries_inv_def)
  then show ?thesis
    by (auto simp: mem_RetryWebhookDelivery_def is_due_def Let_def indexed_def split: option.split)
qed

theorem retry_makes_due_witness:
  "\<exists>d'. deliveries (mem_RetryWebhookDelivery 9 demo_store ''t1'' ''d1'') = (deliveries demo_store)(''d1'' \<mapsto> d') \<and> is_due 9 d'"
  using retry_makes_due [OF demo_reachable, where k = "''d1''" and t = "''t1''" and now = 9] by (auto simp: demo_fields)

text \<open>
  The back-off doubles with every attempt from one second on and stops doubling after ten:
  it is \<open>2 ^ n\<close> seconds for \<open>n = 0, ..., 10\<close> and at most 1024 seconds, so the cap of one hour the
  source applies at the end is never reached.
\<close>

theorem next_backoff_bounds:
  "nextBackoff n = second * 2 ^ nat (min (max n 0) 10) \<and> second \<le> nextBackoff n \<and> nextBackoff n \<le> 1024 * second \<and>
   nextBackoff n < hour \<and> nextBackoff n \<le> nextBackoff (n + 1) \<and>
   nextBackoff (if 0 \<le> n \<and> n < 10 then n + 1 else n) = nextBackoff n * (if 0 \<le> n \<and> n < 10 then 2 else 1)"
proof -
  define e where "e = nat (min (max n 0) 10)"
  have "e \<le> 10" by (simp add: e_def)
  then have "(2::int) ^ e \<le> 2 ^ 10" "1 \<le> (2::int) ^ e" by (intro power_increasing) simp_all
  moreover have "0 \<le> n \<and> n < 10 \<Longrightarrow> nat (min (max (n + 1) 0) 10) = Suc e" by (simp add: e_def nat_add_distrib)
  ultimately show ?thesis
    using nextBackoff_mono [of n "n + 1"] by (auto simp: nextBackoff_eq e_def [symmetric])
qed

text \<open>
  \<^verbatim>\<open>VerifyHMAC\<close> accepts what \<^verbatim>\<open>SignHMAC\<close> produced for the same secret and body, rejects the
  signature of any other digest, and accepts exactly the strings that decode to the digest (in
  either letter case), which all have twice its length.
\<close>

theorem hmac_verify_sign:
  "VerifyHMAC hmac secret body (SignHMAC hmac secret body) \<and>
   (VerifyHMAC hmac secret body (SignHMAC hmac secret' body') \<longleftrightarrow> hmac secret body = hmac secret' body') \<and>
   (VerifyHMAC hmac secret body sig \<longleftrightarrow> hex_decode sig = Some (hmac secret body)) \<and>
   {sig. VerifyHMAC hmac secret body sig} \<subseteq> {sig. length sig = 2 * length (hmac secret body)} \<and>
   inj (SignHMAC hmac secret) = inj (hmac secret)"
proof -
  have "inj hex_encode" by (rule inj_on_inverseI [of _ "\<lambda>s. the (hex_decode s)"]) simp
  then have "inj (SignHMAC hmac secret) = inj (hmac secret)"
    by (simp add: SignHMAC_def [abs_def] inj_def) (metis hex_decode_encode option.inject)
  moreover have "VerifyHMAC hmac secret body sig \<longleftrightarrow> hex_decode sig = Some (hmac secret body)" for sig
    by (auto simp: VerifyHMAC_def split: option.split)
  ultimately show ?thesis by (auto simp: SignHMAC_def hex_decode_inj)
qed

text \<open>
  The latency metrics account for every selected delivery: there is one aggregate for each
  pair of event type and status that occurs, its count is the number of selected deliveries with
  that pair, and its buckets (one more than there are edges) add up to its count.
\<close>

theorem webhook_metrics_account:
  "let rows = metrics_loop q buckets m (iter_delivery_ids tenants m) [] in
    distinct (map fst rows) \<and> list_all (\<lambda>(k, a). length (agg_b a) = length buckets + 1 \<and> sum_list (agg_b a) = agg_cnt a) rows \<and>
    key_count rows key = int (length (filter (\<lambda>k. case deliveries m k of None \<Rightarrow> False
       | Some d \<Rightarrow> metrics_selects q d \<and> metrics_key d = key) (iter_delivery_ids tenants m)))"
  using metrics_loop_ok [of buckets "[]" q m "iter_delivery_ids tenants m" key]
  by (auto simp: aggs_ok_def key_count_def Let_def list_all_iff)

end
