(* ===== verification/Opt_Types.thy ===== *)
theory Opt_Types
  imports Go_Float
begin

text \<open>
  Package \<^verbatim>\<open>internal/opt\<close>: the data of the route optimizer (the types of \<^verbatim>\<open>alns_engine.go\<close>).
  A node is referred to by its index in the problem. A route plan belongs to the vehicle with the
  same index; \<open>problem_plans\<close> says that a list of plans fits a problem, which is what makes every
  index read of the engine one in range.
\<close>

record TW =
  tw_start :: time
  tw_end :: time

record Node =
  n_ID :: string
  n_Lat :: f64
  n_Lng :: f64
  n_ServiceSec :: int
  n_TW :: "TW option"
  n_Weight :: f64
  n_Volume :: f64
  n_Skills :: "string list"

record Vehicle =
  v_ID :: string
  v_CapWeight :: f64
  v_CapVolume :: f64
  v_Skills :: "string list"
  v_Start :: "(f64 \<times> f64) option"
  v_End :: "(f64 \<times> f64) option"

record Problem =
  p_Nodes :: "Node list"
  p_Vehicles :: "Vehicle list"
  p_SpeedKph :: f64
  p_Objectives :: "string \<Rightarrow> f64 option"
  p_HosMaxDriveSec :: int
  p_BreakSec :: int
  p_IterationsLimit :: int
  p_InitialTemp :: f64
  p_Cooling :: f64
  p_InitialRemovalWeights :: "f64 list"
  p_InitialInsertionWeights :: "f64 list"

record RoutePlan =
  pl_VehicleID :: string
  pl_Order :: "nat list"

record Solution =
  s_Plans :: "RoutePlan list"
  s_Cost :: f64

record WeightSnapshot =
  ws_Iteration :: int
  ws_Removal :: "f64 list"
  ws_Insertion :: "f64 list"

record Metrics =
  mx_RemovalSelects :: "int list"
  mx_InsertSelects :: "int list"
  mx_Iterations :: int
  mx_Improvements :: int
  mx_AcceptedWorse :: int
  mx_BestCost :: f64
  mx_FinalCost :: f64
  mx_FinalRemovalWeights :: "f64 list"
  mx_FinalInsertionWeights :: "f64 list"
  mx_Snapshots :: "WeightSnapshot list"

text \<open>The nodes a list of plans visits, in order.\<close>

definition plan_nodes :: "RoutePlan list \<Rightarrow> nat list" where
  "plan_nodes plans = concat (map pl_Order plans)"

definition problem_plans :: "Problem \<Rightarrow> RoutePlan list \<Rightarrow> bool" where
  "problem_plans p plans \<longleftrightarrow> length plans = length (p_Vehicles p) \<and> set (plan_nodes plans) \<subseteq> {..<length (p_Nodes p)}"

lemma plan_nodes_simps [simp]:
  "plan_nodes [] = []" "plan_nodes (pl # plans) = pl_Order pl @ plan_nodes plans"
  "plan_nodes (xs @ ys) = plan_nodes xs @ plan_nodes ys"
  by (simp_all add: plan_nodes_def)

lemma mset_plan_nodes_update:
  assumes "i < length plans"
  shows "mset (plan_nodes (plans[i := pl])) + mset (pl_Order (plans ! i)) = mset (plan_nodes plans) + mset (pl_Order pl)"
proof -
  have "plans = take i plans @ plans ! i # drop (Suc i) plans" using assms by (rule id_take_nth_drop)
  then have "mset (plan_nodes plans) = mset (plan_nodes (take i plans)) + mset (pl_Order (plans ! i)) + mset (plan_nodes (drop (Suc i) plans))"
    by (metis add.assoc mset_append plan_nodes_simps(2,3))
  moreover have "mset (plan_nodes (plans[i := pl])) = mset (plan_nodes (take i plans)) + mset (pl_Order pl) + mset (plan_nodes (drop (Suc i) plans))"
    using assms by (simp add: upd_conv_take_nth_drop)
  ultimately show ?thesis by simp
qed

lemma mset_plan_nodes_same:
  "i < length plans \<Longrightarrow> mset (pl_Order pl) = mset (pl_Order (plans ! i)) \<Longrightarrow>
   mset (plan_nodes (plans[i := pl])) = mset (plan_nodes plans)"
  using mset_plan_nodes_update [of i plans pl] by simp

lemma map_VehicleID_update:
  "i < length plans \<Longrightarrow> pl_VehicleID pl = pl_VehicleID (plans ! i) \<Longrightarrow>
   map pl_VehicleID (plans[i := pl]) = map pl_VehicleID plans"
  by (simp add: map_update list_update_same_conv)

text \<open>The number of nodes of each plan.\<close>

definition plan_sizes :: "RoutePlan list \<Rightarrow> nat list" where
  "plan_sizes plans = map (\<lambda>pl. length (pl_Order pl)) plans"

lemma plan_sizes_update:
  "i < length plans \<Longrightarrow> length (pl_Order pl) = length (pl_Order (plans ! i)) \<Longrightarrow> plan_sizes (plans[i := pl]) = plan_sizes plans"
  by (simp add: plan_sizes_def map_update list_update_same_conv)

end
