(* ===== verification/Opt_Eval.thy ===== *)
theory Opt_Eval
  imports Opt_Types
begin

text \<open>
  The evaluation functions of \<^verbatim>\<open>alns_engine.go\<close>: \<^verbatim>\<open>haversine\<close>, \<^verbatim>\<open>feasibleAdd\<close>,
  \<^verbatim>\<open>schedulePlan\<close>, \<^verbatim>\<open>feasibleAddAt\<close>, \<^verbatim>\<open>deltaCostAppend\<close>, \<^verbatim>\<open>deltaCostInsert\<close>, \<^verbatim>\<open>cost\<close>,
  \<^verbatim>\<open>pathDistanceNodes\<close>. All arithmetic is binary64 (\<open>Go_Float\<close>); the functions of package
  \<^verbatim>\<open>math\<close> without a closed form are the record \<open>gm\<close>.
\<close>

section \<open>Geometry and time\<close>

definition haversine :: "gomath \<Rightarrow> f64 \<Rightarrow> f64 \<Rightarrow> f64 \<Rightarrow> f64 \<Rightarrow> f64" where
  "haversine gm lat1 lon1 lat2 lon2 =
     (let R = lit 6371000;
          dLat = (lat2 - lat1) * f_pi / lit 180;
          dLon = (lon2 - lon1) * f_pi / lit 180;
          a = m_sin gm (dLat / lit 2) * m_sin gm (dLat / lit 2) +
              m_cos gm (lat1 * f_pi / lit 180) * m_cos gm (lat2 * f_pi / lit 180) *
              m_sin gm (dLon / lit 2) * m_sin gm (dLon / lit 2);
          c = lit 2 * m_atan2 gm (m_sqrt gm a) (m_sqrt gm (1 - a))
      in R * c)"

text \<open>\<^verbatim>\<open>Time.Sub\<close> saturates; \<^verbatim>\<open>Duration.Seconds\<close> adds whole seconds and the rest (both truncated).\<close>

definition time_sub :: "time \<Rightarrow> time \<Rightarrow> duration" where
  "time_sub t u = (let d = t - u in if max_int < d then max_int else if d < min_int then min_int else d)"

definition seconds :: "duration \<Rightarrow> f64" where
  "seconds d = f_of_int (sgn d * (\<bar>d\<bar> div second)) + f_of_int (sgn d * (\<bar>d\<bar> mod second)) / lit 1000000000"

definition unix_epoch :: time where
  "unix_epoch = 62135596800 * second"

definition unix_seconds :: "time \<Rightarrow> f64" where
  "unix_seconds t = seconds (time_sub t unix_epoch)"

section \<open>Capacity and skills\<close>

definition feasibleAdd :: "Problem \<Rightarrow> RoutePlan \<Rightarrow> Vehicle \<Rightarrow> nat \<Rightarrow> bool" where
  "feasibleAdd p pl v idx =
     (let nd = p_Nodes p ! idx;
          w = foldl (\<lambda>w i. w + n_Weight (p_Nodes p ! i)) 0 (pl_Order pl) + n_Weight nd;
          vol = foldl (\<lambda>w i. w + n_Volume (p_Nodes p ! i)) 0 (pl_Order pl) + n_Volume nd
      in if 0 < v_CapWeight v \<and> v_CapWeight v < w then False
         else if 0 < v_CapVolume v \<and> v_CapVolume v < vol then False
         else if n_Skills nd \<noteq> [] \<and> v_Skills v \<noteq> [] then
           foldl (\<lambda>needed s. removeAll s needed) (remdups (n_Skills nd)) (v_Skills v) = []
         else True)"

section \<open>Schedules\<close>

text \<open>The state of the walk along a plan.\<close>

record walk =
  wk_t :: f64
  wk_dist :: f64
  wk_late :: f64
  wk_since_break :: f64
  wk_lat :: f64
  wk_lng :: f64

definition plan_start :: "Problem \<Rightarrow> RoutePlan \<Rightarrow> Vehicle \<Rightarrow> f64 \<times> f64" where
  "plan_start p pl v = (case v_Start v of
      Some pos \<Rightarrow> pos
    | None \<Rightarrow> (case pl_Order pl of
        [] \<Rightarrow> (0, 0) | i # _ \<Rightarrow> (n_Lat (p_Nodes p ! i), n_Lng (p_Nodes p ! i))))"

text \<open>One stop: the new state, and whether the arrival is in time; on lateness the walk ends.\<close>

definition sched_step :: "gomath \<Rightarrow> Problem \<Rightarrow> nat \<Rightarrow> walk \<Rightarrow> walk \<times> bool" where
  "sched_step gm p idx wk =
     (let nd = p_Nodes p ! idx;
          speed = p_SpeedKph p / lit (36 / 10);
          d = haversine gm (wk_lat wk) (wk_lng wk) (n_Lat nd) (n_Lng nd);
          drive = d / speed;
          brk = (0 < p_HosMaxDriveSec p \<and> p_HosMaxDriveSec p < f_to_int (wk_since_break wk + drive));
          t0 = (if brk then wk_t wk + f_of_int (p_BreakSec p) else wk_t wk);
          since0 = (if brk then 0 else wk_since_break wk);
          t1 = t0 + drive;
          since = since0 + drive;
          t2 = (case n_TW nd of
                  Some tw \<Rightarrow> if tw_start tw \<noteq> 0 \<and> t1 < unix_seconds (tw_start tw)
                             then unix_seconds (tw_start tw) else t1
                | None \<Rightarrow> t1);
          late = (case n_TW nd of
                  Some tw \<Rightarrow> tw_end tw \<noteq> 0 \<and> unix_seconds (tw_end tw) < t2 | None \<Rightarrow> False)
      in if late
         then (\<lparr>wk_t = t2, wk_dist = wk_dist wk + d,
                wk_late = wk_late wk + (t2 - (case n_TW nd of Some tw \<Rightarrow> unix_seconds (tw_end tw) | None \<Rightarrow> 0)),
                wk_since_break = since, wk_lat = wk_lat wk, wk_lng = wk_lng wk\<rparr>, False)
         else (\<lparr>wk_t = t2 + f_of_int (n_ServiceSec nd), wk_dist = wk_dist wk + d, wk_late = wk_late wk,
                wk_since_break = since, wk_lat = n_Lat nd, wk_lng = n_Lng nd\<rparr>, True))"

fun sched_loop :: "gomath \<Rightarrow> Problem \<Rightarrow> nat list \<Rightarrow> walk \<Rightarrow> walk \<times> bool" where
  "sched_loop gm p [] wk = (wk, True)"
| "sched_loop gm p (idx # rest) wk =
     (case sched_step gm p idx wk of
        (wk', ok) \<Rightarrow> if ok then sched_loop gm p rest wk' else (wk', False))"

text \<open>The components (time, distance, lateness) and whether the plan is feasible.\<close>

definition schedulePlan :: "gomath \<Rightarrow> Problem \<Rightarrow> RoutePlan \<Rightarrow> Vehicle \<Rightarrow> (f64 \<times> f64 \<times> f64) \<times> bool" where
  "schedulePlan gm p pl v =
     (case plan_start p pl v of
        (lat, lng) \<Rightarrow>
          (case sched_loop gm p (pl_Order pl)
              \<lparr>wk_t = 0, wk_dist = 0, wk_late = 0, wk_since_break = 0, wk_lat = lat, wk_lng = lng\<rparr> of
             (wk, ok) \<Rightarrow> ((wk_t wk, wk_dist wk, wk_late wk), ok)))"

definition feasibleAddAt :: "gomath \<Rightarrow> Problem \<Rightarrow> RoutePlan \<Rightarrow> Vehicle \<Rightarrow> nat \<Rightarrow> nat \<Rightarrow> bool" where
  "feasibleAddAt gm p pl v idx pos =
     (if \<not> feasibleAdd p pl v idx then False
      else if length (pl_Order pl) < pos then False
      else snd (schedulePlan gm p
             \<lparr>pl_VehicleID = pl_VehicleID pl, pl_Order = take pos (pl_Order pl) @ [idx] @ drop pos (pl_Order pl)\<rparr> v))"

section \<open>Costs\<close>

definition deltaCostAppend :: "gomath \<Rightarrow> Problem \<Rightarrow> RoutePlan \<Rightarrow> Vehicle \<Rightarrow> nat \<Rightarrow> f64" where
  "deltaCostAppend gm p pl v idx =
     (if pl_Order pl = [] then 0
      else let lst = p_Nodes p ! last (pl_Order pl); nd = p_Nodes p ! idx
        in haversine gm (n_Lat lst) (n_Lng lst) (n_Lat nd) (n_Lng nd))"

definition deltaCostInsert :: "gomath \<Rightarrow> Problem \<Rightarrow> RoutePlan \<Rightarrow> Vehicle \<Rightarrow> nat \<Rightarrow> nat \<Rightarrow> f64" where
  "deltaCostInsert gm p pl v idx pos =
     (let node_at = (\<lambda>i. (n_Lat (p_Nodes p ! (pl_Order pl ! i)), n_Lng (p_Nodes p ! (pl_Order pl ! i))));
          prev = (if pos = 0 then
                    (case v_Start v of Some s \<Rightarrow> s | None \<Rightarrow> if pl_Order pl \<noteq> [] then node_at 0 else (0, 0))
                  else node_at (pos - 1));
          nxt = (if pos < length (pl_Order pl) then node_at pos else prev);
          nd = p_Nodes p ! idx;
          add = haversine gm (fst prev) (snd prev) (n_Lat nd) (n_Lng nd) +
                haversine gm (n_Lat nd) (n_Lng nd) (fst nxt) (snd nxt);
          rem = haversine gm (fst prev) (snd prev) (fst nxt) (snd nxt)
      in add - rem + f_of_int (n_ServiceSec nd))"

definition objective :: "Problem \<Rightarrow> string \<Rightarrow> f64" where
  "objective p k = (case p_Objectives p k of Some w \<Rightarrow> w | None \<Rightarrow> 0)"

record cost_state =
  cs_total :: f64
  cs_t :: f64
  cs_lat :: f64
  cs_lng :: f64

definition cost_step :: "gomath \<Rightarrow> Problem \<Rightarrow> cost_state \<Rightarrow> nat \<Rightarrow> cost_state" where
  "cost_step gm p cs idx =
     (let wDrive = (if objective p ''driveTime'' = 0 then 1 else objective p ''driveTime'');
          nd = p_Nodes p ! idx;
          dist = haversine gm (cs_lat cs) (cs_lng cs) (n_Lat nd) (n_Lng nd);
          drive = dist / (p_SpeedKph p / lit (36 / 10));
          t = cs_t cs + drive;
          late = (case n_TW nd of
                    Some tw \<Rightarrow> if tw_end tw \<noteq> 0 \<and> unix_seconds (tw_end tw) < t
                               then t - unix_seconds (tw_end tw) else 0
                  | None \<Rightarrow> 0)
      in \<lparr>cs_total = cs_total cs + (wDrive * drive + objective p ''distance'' * dist + objective p ''lateness'' * late),
          cs_t = t + f_of_int (n_ServiceSec nd), cs_lat = n_Lat nd, cs_lng = n_Lng nd\<rparr>)"

definition cost_plan :: "gomath \<Rightarrow> Problem \<Rightarrow> RoutePlan \<Rightarrow> Vehicle \<Rightarrow> f64 \<Rightarrow> f64" where
  "cost_plan gm p pl v tot =
     (case plan_start p pl v of
        (lat, lng) \<Rightarrow> cs_total (foldl (cost_step gm p)
          \<lparr>cs_total = tot, cs_t = 0, cs_lat = lat, cs_lng = lng\<rparr> (pl_Order pl)))"

definition cost :: "gomath \<Rightarrow> Problem \<Rightarrow> RoutePlan list \<Rightarrow> f64" where
  "cost gm p plans =
     (let tot = foldl (\<lambda>tot vi. cost_plan gm p (plans ! vi) (p_Vehicles p ! vi) tot) 0 [0..<length plans];
          failed = foldl (\<lambda>failed i. if i \<in> set (plan_nodes plans) then failed else failed + 1) 0 [0..<length (p_Nodes p)]
      in tot + objective p ''failed'' * failed * lit 3600)"

fun path_from :: "gomath \<Rightarrow> Problem \<Rightarrow> f64 \<Rightarrow> f64 \<Rightarrow> f64 \<Rightarrow> nat list \<Rightarrow> f64" where
  "path_from gm p tot lat lng [] = tot"
| "path_from gm p tot lat lng (idx # rest) =
     (let nd = p_Nodes p ! idx
      in path_from gm p (tot + haversine gm lat lng (n_Lat nd) (n_Lng nd)) (n_Lat nd) (n_Lng nd) rest)"

definition pathDistanceNodes :: "gomath \<Rightarrow> Problem \<Rightarrow> RoutePlan \<Rightarrow> f64" where
  "pathDistanceNodes gm p pl =
     (case pl_Order pl of
        [] \<Rightarrow> 0
      | i # _ \<Rightarrow> path_from gm p 0 (n_Lat (p_Nodes p ! i)) (n_Lng (p_Nodes p ! i)) (pl_Order pl))"

lemma f_wf_path_from: "f_wf tot \<Longrightarrow> f_wf (path_from gm p tot lat lng xs)"
  by (induction xs arbitrary: tot lat lng) (simp_all add: Let_def)

lemma f_wf_pathDistance [simp]: "f_wf (pathDistanceNodes gm p pl)"
  by (simp add: pathDistanceNodes_def f_wf_path_from del: path_from.simps split: list.split)

text \<open>What a sequence of accepted additions keeps: loads within the capacities, skills covered.\<close>

definition load :: "Problem \<Rightarrow> (Node \<Rightarrow> f64) \<Rightarrow> nat list \<Rightarrow> f64" where
  "load p dem order = foldl (\<lambda>w i. w + dem (p_Nodes p ! i)) 0 order"

definition covers :: "Vehicle \<Rightarrow> Node \<Rightarrow> bool" where
  "covers v nd \<longleftrightarrow> v_Skills v = [] \<or> set (n_Skills nd) \<subseteq> set (v_Skills v)"

definition within_capacity :: "Problem \<Rightarrow> Vehicle \<Rightarrow> nat list \<Rightarrow> bool" where
  "within_capacity p v order \<longleftrightarrow> order = [] \<or>
     (\<not> (0 < v_CapWeight v \<and> v_CapWeight v < load p n_Weight order) \<and>
      \<not> (0 < v_CapVolume v \<and> v_CapVolume v < load p n_Volume order) \<and>
      (\<forall>i\<in>set order. covers v (p_Nodes p ! i)))"

lemma removeAll_fold: "set (foldl (\<lambda>needed s. removeAll s needed) xs vs) = set xs - set vs"
  by (induction vs arbitrary: xs) auto

lemma feasibleAdd_iff:
  "feasibleAdd p pl v idx \<longleftrightarrow>
     \<not> (0 < v_CapWeight v \<and> v_CapWeight v < load p n_Weight (pl_Order pl @ [idx])) \<and>
     \<not> (0 < v_CapVolume v \<and> v_CapVolume v < load p n_Volume (pl_Order pl @ [idx])) \<and>
     covers v (p_Nodes p ! idx)"
proof -
  have "foldl (\<lambda>needed s. removeAll s needed) (remdups xs) vs = [] \<longleftrightarrow> set xs \<subseteq> set vs" for xs vs :: "string list"
    using removeAll_fold [of "remdups xs" vs] by (metis Diff_eq_empty_iff set_empty set_remdups)
  then show ?thesis by (auto simp: feasibleAdd_def load_def covers_def Let_def)
qed

lemma within_capacity_append:
  "within_capacity p v (pl_Order pl) \<Longrightarrow> feasibleAdd p pl v idx \<Longrightarrow> within_capacity p v (pl_Order pl @ [idx])"
  by (auto simp: within_capacity_def feasibleAdd_iff)

end
