(* ===== verification/Opt_Seed.thy ===== *)
theory Opt_Seed
  imports Opt_Eval
begin

text \<open>
  The construction heuristic \<^verbatim>\<open>greedySeed\<close> of \<^verbatim>\<open>alns_engine.go\<close>: vehicles take turns, each
  taking the unassigned node that is cheapest to append among those it can carry, until a round
  changes nothing. The outer loop of the source is a \<open>function\<close>: a round with progress assigns at
  least one node, so the number of unassigned nodes is its measure.
\<close>

text \<open>The state of the source's loop: plans, the used flags, the count and the progress flag.\<close>

record seed_state =
  sd_plans :: "RoutePlan list"
  sd_used :: "bool list"
  sd_assigned :: nat
  sd_progress :: bool

text \<open>The inner loop over the nodes: best index and best delta so far.\<close>

fun seed_pick :: "gomath \<Rightarrow> Problem \<Rightarrow> RoutePlan \<Rightarrow> Vehicle \<Rightarrow> bool list \<Rightarrow> nat list \<Rightarrow> nat option \<times> f64 \<Rightarrow> nat option \<times> f64" where
  "seed_pick gm p pl v used [] best = best"
| "seed_pick gm p pl v used (i # rest) (bestIdx, bestDelta) =
     (if used ! i then seed_pick gm p pl v used rest (bestIdx, bestDelta)
      else if \<not> feasibleAdd p pl v i then seed_pick gm p pl v used rest (bestIdx, bestDelta)
      else let d = deltaCostAppend gm p pl v i
        in if d < bestDelta then seed_pick gm p pl v used rest (Some i, d)
           else seed_pick gm p pl v used rest (bestIdx, bestDelta))"

text \<open>The turn of one vehicle.\<close>

definition seed_turn :: "gomath \<Rightarrow> Problem \<Rightarrow> nat \<Rightarrow> seed_state \<Rightarrow> seed_state" where
  "seed_turn gm p vi st =
     (case seed_pick gm p (sd_plans st ! vi) (p_Vehicles p ! vi) (sd_used st) [0..<length (p_Nodes p)] (None, max_float) of
        (None, _) \<Rightarrow> st
      | (Some i, _) \<Rightarrow>
          st\<lparr>sd_plans := (sd_plans st)[vi := (sd_plans st ! vi)\<lparr>pl_Order := pl_Order (sd_plans st ! vi) @ [i]\<rparr>],
             sd_used := (sd_used st)[i := True],
             sd_assigned := sd_assigned st + 1, sd_progress := True\<rparr>)"

text \<open>One round over the vehicles; it stops when the turn just taken assigned the last node.\<close>

fun seed_round :: "gomath \<Rightarrow> Problem \<Rightarrow> nat list \<Rightarrow> seed_state \<Rightarrow> seed_state" where
  "seed_round gm p [] st = st"
| "seed_round gm p (vi # vis) st =
     (let st' = seed_turn gm p vi st
      in if sd_assigned st' \<noteq> sd_assigned st \<and> sd_assigned st' = length (p_Nodes p) then st'
         else seed_round gm p vis st')"

lemma seed_turn_assigned:
  "sd_assigned (seed_turn gm p vi st) = (if seed_turn gm p vi st = st then sd_assigned st else Suc (sd_assigned st))"
  by (auto simp: seed_turn_def split: prod.split option.split)

lemma seed_turn_mono: "sd_assigned st \<le> sd_assigned (seed_turn gm p vi st)"
  by (auto simp: seed_turn_def split: prod.split option.split)

lemma seed_round_mono: "sd_assigned st \<le> sd_assigned (seed_round gm p vis st)"
  by (induction vis arbitrary: st) (auto simp: Let_def intro: order_trans [OF seed_turn_mono], metis seed_turn_mono)

lemma seed_turn_progress:
  "sd_progress (seed_turn gm p vi st) \<Longrightarrow> sd_progress st \<or> sd_assigned st < sd_assigned (seed_turn gm p vi st)"
  by (auto simp: seed_turn_def split: prod.splits option.splits)

lemma seed_round_progress:
  "sd_progress (seed_round gm p vis st) \<Longrightarrow> sd_progress st \<or> sd_assigned st < sd_assigned (seed_round gm p vis st)"
proof (induction vis arbitrary: st)
  case Nil
  then show ?case by simp
next
  case (Cons vi vis)
  note t = seed_turn_progress [of gm p vi st] and m = seed_turn_mono [of st gm p vi]
  show ?case
  proof (cases "sd_assigned (seed_turn gm p vi st) \<noteq> sd_assigned st \<and> sd_assigned (seed_turn gm p vi st) = length (p_Nodes p)")
    case True
    with Cons.prems t show ?thesis by (auto simp: Let_def)
  next
    case False
    then have e: "seed_round gm p (vi # vis) st = seed_round gm p vis (seed_turn gm p vi st)" by (auto simp: Let_def)
    from Cons.IH [OF Cons.prems [unfolded e]] t m seed_round_mono [of "seed_turn gm p vi st" gm p vis]
    show ?thesis unfolding e by auto
  qed
qed

function seed_loop :: "gomath \<Rightarrow> Problem \<Rightarrow> seed_state \<Rightarrow> seed_state" where
  "seed_loop gm p st =
     (if sd_assigned st < length (p_Nodes p) then
        let st' = seed_round gm p [0..<length (p_Vehicles p)] (st\<lparr>sd_progress := False\<rparr>)
        in if sd_progress st' then seed_loop gm p st' else st'
      else st)"
  by pat_completeness auto

termination
proof (relation "measure (\<lambda>(gm, p, st). length (p_Nodes p) - sd_assigned st)")
  fix gm p and st st' :: seed_state
  assume "sd_assigned st < length (p_Nodes p)"
    "st' = seed_round gm p [0..<length (p_Vehicles p)] (st\<lparr>sd_progress := False\<rparr>)" "sd_progress st'"
  with seed_round_progress [of gm p "[0..<length (p_Vehicles p)]" "st\<lparr>sd_progress := False\<rparr>"]
  have "sd_assigned st < sd_assigned st'" by simp
  with \<open>sd_assigned st < length (p_Nodes p)\<close>
  show "((gm, p, st'), (gm, p, st)) \<in> measure (\<lambda>(gm, p, st). length (p_Nodes p) - sd_assigned st)" by simp
qed simp

declare seed_loop.simps [simp del]

definition greedySeed :: "gomath \<Rightarrow> Problem \<Rightarrow> Solution" where
  "greedySeed gm p =
     (let plans0 = map (\<lambda>v. \<lparr>pl_VehicleID = v_ID v, pl_Order = []\<rparr>) (p_Vehicles p);
          st = seed_loop gm p \<lparr>sd_plans = plans0, sd_used = replicate (length (p_Nodes p)) False,
                 sd_assigned = 0, sd_progress = False\<rparr>
      in \<lparr>s_Plans = sd_plans st, s_Cost = cost gm p (sd_plans st)\<rparr>)"

section \<open>What the seed satisfies\<close>

text \<open>
  The invariant of the loops: every used node is in exactly one plan, the count is right, and each
  plan is within its vehicle's capacity.
\<close>

definition seed_inv :: "Problem \<Rightarrow> seed_state \<Rightarrow> bool" where
  "seed_inv p st \<longleftrightarrow> length (sd_plans st) = length (p_Vehicles p) \<and> length (sd_used st) = length (p_Nodes p) \<and>
     mset (plan_nodes (sd_plans st)) = mset (filter (\<lambda>i. sd_used st ! i) [0..<length (p_Nodes p)]) \<and>
     sd_assigned st = length (plan_nodes (sd_plans st)) \<and>
     (\<forall>vi<length (p_Vehicles p). within_capacity p (p_Vehicles p ! vi) (pl_Order (sd_plans st ! vi)) \<and>
        pl_VehicleID (sd_plans st ! vi) = v_ID (p_Vehicles p ! vi))"

text \<open>A node is a candidate of a vehicle: unassigned, allowed, and with a cost below the largest float.\<close>

definition candidate :: "gomath \<Rightarrow> Problem \<Rightarrow> seed_state \<Rightarrow> nat \<Rightarrow> nat \<Rightarrow> bool" where
  "candidate gm p st vi i \<longleftrightarrow> \<not> sd_used st ! i \<and> feasibleAdd p (sd_plans st ! vi) (p_Vehicles p ! vi) i \<and>
     deltaCostAppend gm p (sd_plans st ! vi) (p_Vehicles p ! vi) i < max_float"

lemma seed_pick_sound:
  "seed_pick gm p pl v used is (b, db) = (Some i, d) \<Longrightarrow>
   b = Some i \<or> i \<in> set is \<and> \<not> used ! i \<and> feasibleAdd p pl v i"
  by (induction "is" arbitrary: b db) (auto simp: Let_def split: if_splits)

lemma seed_pick_Some: "seed_pick gm p pl v used is (Some b, db) \<noteq> (None, d)"
  by (induction "is" arbitrary: b db) (auto simp: Let_def)

lemma seed_pick_None:
  "seed_pick gm p pl v used is (None, db) = (None, d) \<Longrightarrow>
   \<forall>i\<in>set is. \<not> (\<not> used ! i \<and> feasibleAdd p pl v i \<and> deltaCostAppend gm p pl v i < db)"
  by (induction "is" arbitrary: db) (auto simp: Let_def seed_pick_Some split: if_splits)

lemma filter_mark_used:
  assumes "i < n" and "length used = n" and "\<not> used ! i"
  shows "mset (filter (\<lambda>j. used[i := True] ! j) [0..<n]) = add_mset i (mset (filter (\<lambda>j. used ! j) [0..<n]))"
proof -
  have "mset (filter (\<lambda>j. used[i := True] ! j) [0..<n]) = mset_set {j. j < n \<and> (j = i \<or> used ! j)}"
    using assms by (auto simp: mset_filter mset_set_upto_eq_mset_upto [symmetric] filter_mset_mset_set nth_list_update
        intro!: arg_cong [of _ _ mset_set])
  also have "{j. j < n \<and> (j = i \<or> used ! j)} = insert i {j. j < n \<and> used ! j}" using assms by auto
  also have "mset_set \<dots> = add_mset i (mset_set {j. j < n \<and> used ! j})" using assms by simp
  also have "mset_set {j. j < n \<and> used ! j} = mset (filter (\<lambda>j. used ! j) [0..<n])"
    by (auto simp: mset_filter mset_set_upto_eq_mset_upto [symmetric] filter_mset_mset_set intro!: arg_cong [of _ _ mset_set])
  finally show ?thesis .
qed

lemma seed_turn_inv:
  assumes "seed_inv p st" and "vi < length (p_Vehicles p)"
  shows "seed_inv p (seed_turn gm p vi st)"
proof (cases "seed_pick gm p (sd_plans st ! vi) (p_Vehicles p ! vi) (sd_used st) [0..<length (p_Nodes p)] (None, max_float)")
  case (Pair b d)
  show ?thesis
  proof (cases b)
    case None
    with Pair assms show ?thesis by (simp add: seed_turn_def)
  next
    case (Some i)
    let ?pl = "sd_plans st ! vi"
    let ?pl' = "?pl\<lparr>pl_Order := pl_Order ?pl @ [i]\<rparr>"
    have "None = Some i \<or> i \<in> set [0..<length (p_Nodes p)] \<and> \<not> sd_used st ! i \<and> feasibleAdd p ?pl (p_Vehicles p ! vi) i"
      by (rule seed_pick_sound) (use Pair Some in simp)
    then have i: "i < length (p_Nodes p)" "\<not> sd_used st ! i" "feasibleAdd p ?pl (p_Vehicles p ! vi) i" by simp_all
    have l: "length (sd_plans st) = length (p_Vehicles p)" "length (sd_used st) = length (p_Nodes p)"
      using assms(1) by (simp_all add: seed_inv_def)
    have m: "mset (plan_nodes ((sd_plans st)[vi := ?pl'])) = add_mset i (mset (plan_nodes (sd_plans st)))"
      using mset_plan_nodes_update [of vi "sd_plans st" ?pl'] assms(2) l by simp
    then have c: "length (plan_nodes ((sd_plans st)[vi := ?pl'])) = Suc (length (plan_nodes (sd_plans st)))"
      by (metis size_add_mset size_mset)
    have e: "seed_turn gm p vi st = st\<lparr>sd_plans := (sd_plans st)[vi := ?pl'], sd_used := (sd_used st)[i := True],
        sd_assigned := sd_assigned st + 1, sd_progress := True\<rparr>"
      using Pair Some by (simp add: seed_turn_def)
    have w: "within_capacity p (p_Vehicles p ! vi) (pl_Order ?pl')"
      using within_capacity_append i(3) assms by (simp add: seed_inv_def)
    show ?thesis
      using assms l m c w filter_mark_used [OF i(1) l(2) i(2)]
      by (auto simp: e seed_inv_def nth_list_update)
  qed
qed

lemma seed_round_inv:
  "seed_inv p st \<Longrightarrow> set vis \<subseteq> {..<length (p_Vehicles p)} \<Longrightarrow> seed_inv p (seed_round gm p vis st)"
  by (induction vis arbitrary: st) (auto simp: Let_def seed_turn_inv)

lemma seed_inv_progress [simp]: "seed_inv p (st\<lparr>sd_progress := b\<rparr>) = seed_inv p st"
  by (simp add: seed_inv_def)

lemma seed_turn_idle:
  "\<not> sd_progress (seed_turn gm p vi st) \<Longrightarrow> seed_turn gm p vi st = st \<and> (\<forall>i<length (p_Nodes p). \<not> candidate gm p st vi i)"
  by (auto simp: seed_turn_def candidate_def split: prod.splits option.splits dest!: seed_pick_None)

lemma seed_turn_keeps: "sd_progress st \<Longrightarrow> sd_progress (seed_turn gm p vi st)"
  by (auto simp: seed_turn_def split: prod.split option.split)

lemma seed_round_keeps: "sd_progress st \<Longrightarrow> sd_progress (seed_round gm p vis st)"
  by (induction vis arbitrary: st) (auto simp: Let_def seed_turn_keeps)

lemma seed_round_idle:
  "\<not> sd_progress (seed_round gm p vis st) \<Longrightarrow> \<not> sd_progress st \<Longrightarrow>
   seed_round gm p vis st = st \<and> (\<forall>vi\<in>set vis. \<forall>i<length (p_Nodes p). \<not> candidate gm p st vi i)"
proof (induction vis arbitrary: st)
  case Nil
  then show ?case by simp
next
  case (Cons vi vis)
  have "\<not> sd_progress (seed_turn gm p vi st)"
  proof
    assume pr: "sd_progress (seed_turn gm p vi st)"
    with Cons.prems(2) seed_turn_progress have "sd_assigned (seed_turn gm p vi st) \<noteq> sd_assigned st" by fastforce
    with Cons.prems(1) pr show False
      by (auto simp: Let_def split: if_splits dest: seed_round_keeps)
  qed
  from seed_turn_idle [OF this] Cons show ?case by (auto simp: Let_def)
qed

text \<open>The end of the loop: everything is assigned, or no vehicle can take any of the rest.\<close>

lemma seed_loop_post:
  assumes "seed_inv p st"
  shows "seed_inv p (seed_loop gm p st) \<and>
    (\<forall>vi<length (p_Vehicles p). \<forall>i<length (p_Nodes p). \<not> candidate gm p (seed_loop gm p st) vi i)"
  using assms
proof (induction gm p st rule: seed_loop.induct)
  case (1 gm p st)
  show ?case
  proof (cases "sd_assigned st < length (p_Nodes p)")
    case False
    have "length (filter (\<lambda>i. sd_used st ! i) [0..<length (p_Nodes p)]) = sd_assigned st"
      using 1(2) by (metis seed_inv_def size_mset)
    with False have "length (filter (\<lambda>i. sd_used st ! i) [0..<length (p_Nodes p)]) = length [0..<length (p_Nodes p)]"
      using length_filter_le [of "\<lambda>i. sd_used st ! i" "[0..<length (p_Nodes p)]"] by simp
    then have "\<forall>i\<in>set [0..<length (p_Nodes p)]. sd_used st ! i" using length_filter_less by (metis nat_less_le)
    with 1(2) False show ?thesis by (subst seed_loop.simps, subst (2) seed_loop.simps) (simp add: candidate_def)
  next
    case True
    define st' where "st' = seed_round gm p [0..<length (p_Vehicles p)] (st\<lparr>sd_progress := False\<rparr>)"
    have inv: "seed_inv p st'" unfolding st'_def using 1(2) by (intro seed_round_inv) auto
    have e: "seed_loop gm p st = (if sd_progress st' then seed_loop gm p st' else st')"
      by (subst seed_loop.simps) (simp add: True st'_def Let_def)
    show ?thesis
    proof (cases "sd_progress st'")
      case pr: True
      from 1(1) [OF True st'_def pr inv] show ?thesis by (simp add: e pr)
    next
      case False
      with seed_round_idle [of gm p "[0..<length (p_Vehicles p)]" "st\<lparr>sd_progress := False\<rparr>"] inv
      show ?thesis by (auto simp: e st'_def)
    qed
  qed
qed

lemma seed_start_inv:
  "seed_inv p \<lparr>sd_plans = map (\<lambda>v. \<lparr>pl_VehicleID = v_ID v, pl_Order = []\<rparr>) (p_Vehicles p),
     sd_used = replicate (length (p_Nodes p)) False, sd_assigned = 0, sd_progress = False\<rparr>"
proof -
  have "plan_nodes (map (\<lambda>v. \<lparr>pl_VehicleID = v_ID v, pl_Order = []\<rparr>) vs) = []" for vs :: "Vehicle list"
    by (induction vs) auto
  moreover have "filter (\<lambda>i. replicate n False ! i) [0..<n] = []" for n by (auto simp: filter_empty_conv)
  ultimately show ?thesis by (simp add: seed_inv_def within_capacity_def)
qed

text \<open>The seed is the plans of a final state of the loop.\<close>

lemma greedySeed_state:
  "\<exists>st. seed_inv p st \<and> s_Plans (greedySeed gm p) = sd_plans st \<and>
     (\<forall>vi<length (p_Vehicles p). \<forall>i<length (p_Nodes p). \<not> candidate gm p st vi i)"
  using seed_loop_post [OF seed_start_inv, of p gm] by (auto simp: greedySeed_def Let_def)

text \<open>
  Every assigned node is assigned once, every plan is within its vehicle's capacity, and a node is
  left out only when no vehicle can take it (or the cost of appending it is not below the largest
  float).
\<close>

lemma greedySeed_spec:
  "distinct (plan_nodes (s_Plans (greedySeed gm p))) \<and> set (plan_nodes (s_Plans (greedySeed gm p))) \<subseteq> {..<length (p_Nodes p)} \<and>
   length (s_Plans (greedySeed gm p)) = length (p_Vehicles p) \<and>
   (\<forall>vi<length (p_Vehicles p). within_capacity p (p_Vehicles p ! vi) (pl_Order (s_Plans (greedySeed gm p) ! vi)) \<and>
      pl_VehicleID (s_Plans (greedySeed gm p) ! vi) = v_ID (p_Vehicles p ! vi)) \<and>
   (\<forall>vi<length (p_Vehicles p). \<forall>i<length (p_Nodes p). i \<notin> set (plan_nodes (s_Plans (greedySeed gm p))) \<longrightarrow>
      \<not> (feasibleAdd p (s_Plans (greedySeed gm p) ! vi) (p_Vehicles p ! vi) i \<and>
         deltaCostAppend gm p (s_Plans (greedySeed gm p) ! vi) (p_Vehicles p ! vi) i < max_float))"
proof -
  obtain st where st: "seed_inv p st" "s_Plans (greedySeed gm p) = sd_plans st"
    "\<forall>vi<length (p_Vehicles p). \<forall>i<length (p_Nodes p). \<not> candidate gm p st vi i" using greedySeed_state by blast
  from st(1) have m: "mset (plan_nodes (sd_plans st)) = mset (filter (\<lambda>i. sd_used st ! i) [0..<length (p_Nodes p)])"
    by (simp add: seed_inv_def)
  have "distinct (plan_nodes (sd_plans st))" using m by (metis distinct_filter distinct_upt mset_eq_imp_distinct_iff)
  moreover have "set (plan_nodes (sd_plans st)) = {i. i < length (p_Nodes p) \<and> sd_used st ! i}"
    using mset_eq_setD [OF m] by auto
  ultimately show ?thesis using st(1,3) unfolding st(2) by (auto simp: seed_inv_def candidate_def)
qed

end
