(* ===== verification/Opt_Repair.thy ===== *)
theory Opt_Repair
  imports Opt_Eval
begin

text \<open>
  The destroy and repair operators of \<^verbatim>\<open>alns_engine.go\<close>: \<^verbatim>\<open>pickRandomNodes\<close>,
  \<^verbatim>\<open>shawRemoval\<close> (with \<^verbatim>\<open>twOverlap\<close>), \<^verbatim>\<open>removeNodes\<close>, \<^verbatim>\<open>greedyInsert\<close>, the insertion
  loop of \<^verbatim>\<open>regretInsert\<close>, and the roulette wheel \<^verbatim>\<open>selectOp\<close>.

  The random source is a record of its two methods on an abstract state; the order in which Go
  ranges over a map is the argument \<open>order\<close>. The loops of \<^verbatim>\<open>greedyInsert\<close> and
  \<^verbatim>\<open>regretInsert\<close> are the same text around different scans, and are one loop here
  (\<open>insert_loop\<close>), with the scan as the operator's index.
\<close>

section \<open>Randomness\<close>

record 'r rng =
  rg_Intn :: "'r \<Rightarrow> nat \<Rightarrow> nat \<times> 'r"
  rg_Float64 :: "'r \<Rightarrow> f64 \<times> 'r"

text \<open>What package \<^verbatim>\<open>math/rand\<close> documents.\<close>

definition rng_ok :: "'r rng \<Rightarrow> bool" where
  "rng_ok R \<longleftrightarrow> (\<forall>r n. 0 < n \<longrightarrow> fst (rg_Intn R r n) < n)"

definition map_order_ok :: "(nat list \<Rightarrow> nat list) \<Rightarrow> bool" where
  "map_order_ok order \<longleftrightarrow> (\<forall>xs. mset (order xs) = mset xs)"

fun wheel :: "f64 list \<Rightarrow> f64 \<Rightarrow> f64 \<Rightarrow> nat \<Rightarrow> nat" where
  "wheel [] r acc i = i - 1"
| "wheel (w # ws) r acc i = (let acc' = acc + w in if r \<le> acc' then i else wheel ws r acc' (i + 1))"

definition selectOp :: "'r rng \<Rightarrow> f64 list \<Rightarrow> 'r \<Rightarrow> nat \<times> 'r" where
  "selectOp R weights r =
     (let s = foldl (+) 0 weights
      in if s \<le> 0 then (0, r)
         else case rg_Float64 R r of (x, r') \<Rightarrow> (wheel weights (x * s) 0 0, r'))"

lemma wheel_range: "ws \<noteq> [] \<or> 0 < i \<Longrightarrow> wheel ws r acc i < i + length ws"
  by (induction ws arbitrary: acc i) (auto simp: Let_def, metis add_Suc zero_less_Suc)

lemma selectOp_range: "weights \<noteq> [] \<Longrightarrow> fst (selectOp R weights r) < length weights"
  using wheel_range [of weights 0] by (auto simp: selectOp_def Let_def split: prod.split)

section \<open>Removal\<close>

definition remove_nth :: "nat \<Rightarrow> 'a list \<Rightarrow> 'a list" where
  "remove_nth i xs = take i xs @ drop (Suc i) xs"

lemma length_remove_nth: "i < length xs \<Longrightarrow> length (remove_nth i xs) = length xs - 1"
  by (simp add: remove_nth_def)

lemma mset_remove_nth_add: "i < length xs \<Longrightarrow> add_mset (xs ! i) (mset (remove_nth i xs)) = mset xs"
  unfolding remove_nth_def by (rule mset_remove_nth)

fun pick_loop :: "'r rng \<Rightarrow> nat \<Rightarrow> nat list \<Rightarrow> nat list \<Rightarrow> 'r \<Rightarrow> nat list \<times> 'r" where
  "pick_loop R 0 xs removed r = (removed, r)"
| "pick_loop R (Suc k) xs removed r =
     (if xs = [] then (removed, r)
      else case rg_Intn R r (length xs) of
        (j, r') \<Rightarrow> pick_loop R k (remove_nth j xs) (removed @ [xs ! j]) r')"

definition pickRandomNodes :: "'r rng \<Rightarrow> (nat list \<Rightarrow> nat list) \<Rightarrow> RoutePlan list \<Rightarrow> nat \<Rightarrow> 'r \<Rightarrow> nat list \<times> 'r" where
  "pickRandomNodes R order plans k r =
     (let xs = order (remdups (plan_nodes plans))
      in if xs = [] then ([], r) else pick_loop R k xs [] r)"

definition twOverlap :: "TW \<Rightarrow> TW \<Rightarrow> f64" where
  "twOverlap a b =
     (let start = (if tw_start a < tw_start b then tw_start b else tw_start a);
          fin = (if tw_end b < tw_end a then tw_end b else tw_end a)
      in if fin < start then 0 else seconds (time_sub fin start))"

definition relatedness :: "gomath \<Rightarrow> Problem \<Rightarrow> nat \<Rightarrow> nat \<Rightarrow> f64" where
  "relatedness gm p seedIdx idx =
     (let sN = p_Nodes p ! seedIdx; n = p_Nodes p ! idx;
          geo = haversine gm (n_Lat sN) (n_Lng sN) (n_Lat n) (n_Lng n);
          tw = (case (n_TW sN, n_TW n) of (Some a, Some b) \<Rightarrow> twOverlap a b | _ \<Rightarrow> 0)
      in geo - lit 1000 * tw)"

text \<open>The source's exchange sort: for each pair \<open>i < j\<close>, swap when out of order.\<close>

definition swap_at :: "nat \<Rightarrow> nat \<Rightarrow> 'a list \<Rightarrow> 'a list" where
  "swap_at i j xs = xs[i := xs ! j, j := xs ! i]"

definition index_pairs :: "nat \<Rightarrow> (nat \<times> nat) list" where
  "index_pairs n = concat (map (\<lambda>i. map (Pair i) [Suc i..<n]) [0..<n])"

definition exchange_sort :: "(nat \<times> f64) list \<Rightarrow> (nat \<times> f64) list" where
  "exchange_sort rel = foldl (\<lambda>rel (i, j). if snd (rel ! j) < snd (rel ! i) then swap_at i j rel else rel)
     rel (index_pairs (length rel))"

definition shawRemoval :: "gomath \<Rightarrow> 'r rng \<Rightarrow> Problem \<Rightarrow> RoutePlan list \<Rightarrow> nat \<Rightarrow> 'r \<Rightarrow> nat list \<times> 'r" where
  "shawRemoval gm R p plans k r =
     (let assigned = plan_nodes plans
      in if assigned = [] then ([], r)
         else case rg_Intn R r (length assigned) of
           (j, r') \<Rightarrow>
             let seedIdx = assigned ! j;
                 rel = map (\<lambda>idx. (idx, relatedness gm p seedIdx idx)) (filter (\<lambda>idx. idx \<noteq> seedIdx) assigned)
             in (seedIdx # map fst (take (k - 1) (exchange_sort rel)), r'))"

definition removeNodes :: "Solution \<Rightarrow> nat list \<Rightarrow> Solution" where
  "removeNodes sol removed =
     (if removed = [] then sol
      else \<lparr>s_Plans = map (\<lambda>pl. \<lparr>pl_VehicleID = pl_VehicleID pl, pl_Order = filter (\<lambda>idx. idx \<notin> set removed) (pl_Order pl)\<rparr>) (s_Plans sol),
            s_Cost = 0\<rparr>)"

section \<open>Insertion\<close>

datatype repair_op = Greedy | Regret2

definition insert_at :: "nat \<Rightarrow> 'a \<Rightarrow> 'a list \<Rightarrow> 'a list" where
  "insert_at pos x xs = (if pos = length xs then xs @ [x] else take pos xs @ x # drop pos xs)"

lemma mset_insert_at_add: "mset (insert_at pos x xs) = add_mset x (mset xs)"
  by (cases "pos = length xs") (simp_all add: insert_at_def mset_insert_at [simplified])

text \<open>The places a node can go, in the order of the loops: plan, then position.\<close>

definition positions :: "RoutePlan list \<Rightarrow> (nat \<times> nat) list" where
  "positions plans = concat (map (\<lambda>vi. map (Pair vi) [0..<Suc (length (pl_Order (plans ! vi)))]) [0..<length plans])"

definition greedy_place :: "gomath \<Rightarrow> Problem \<Rightarrow> RoutePlan list \<Rightarrow> nat list \<Rightarrow> nat
    \<Rightarrow> (nat \<times> nat \<times> nat) option \<times> f64 \<Rightarrow> nat \<times> nat \<Rightarrow> (nat \<times> nat \<times> nat) option \<times> f64" where
  "greedy_place gm p plans nodes ni acc place =
     (case acc of (best, bestCost) \<Rightarrow> case place of (vi, pos) \<Rightarrow>
        if \<not> feasibleAddAt gm p (plans ! vi) (p_Vehicles p ! vi) (nodes ! ni) pos then (best, bestCost)
        else let c = deltaCostInsert gm p (plans ! vi) (p_Vehicles p ! vi) (nodes ! ni) pos
          in if c < bestCost then (Some (ni, vi, pos), c) else (best, bestCost))"

definition greedy_scan :: "gomath \<Rightarrow> Problem \<Rightarrow> RoutePlan list \<Rightarrow> nat list \<Rightarrow> (nat \<times> nat \<times> nat) option" where
  "greedy_scan gm p plans nodes =
     fst (foldl (\<lambda>acc ni. foldl (greedy_place gm p plans nodes ni) acc (positions plans))
       (None, max_float) [0..<length nodes])"

text \<open>For one node: the best place, its cost, and the second best cost.\<close>

definition two_place :: "gomath \<Rightarrow> Problem \<Rightarrow> RoutePlan list \<Rightarrow> nat
    \<Rightarrow> (nat \<times> nat) option \<times> f64 \<times> f64 \<Rightarrow> nat \<times> nat \<Rightarrow> (nat \<times> nat) option \<times> f64 \<times> f64" where
  "two_place gm p plans idx acc place =
     (case acc of (b, best1, best2) \<Rightarrow> case place of (vi, pos) \<Rightarrow>
        if \<not> feasibleAddAt gm p (plans ! vi) (p_Vehicles p ! vi) idx pos then (b, best1, best2)
        else let c = deltaCostInsert gm p (plans ! vi) (p_Vehicles p ! vi) idx pos
          in if c < best1 then (Some (vi, pos), c, best1)
             else if c < best2 then (b, best1, c) else (b, best1, best2))"

definition best_two :: "gomath \<Rightarrow> Problem \<Rightarrow> RoutePlan list \<Rightarrow> nat \<Rightarrow> (nat \<times> nat) option \<times> f64 \<times> f64" where
  "best_two gm p plans idx = foldl (two_place gm p plans idx) (None, max_float, max_float) (positions plans)"

text \<open>The node to insert next: the one with the largest regret, as the source compares them.\<close>

definition regret_node :: "gomath \<Rightarrow> Problem \<Rightarrow> RoutePlan list \<Rightarrow> nat list
    \<Rightarrow> (nat \<times> nat \<times> nat) option \<times> f64 \<times> f64 \<Rightarrow> nat \<Rightarrow> (nat \<times> nat \<times> nat) option \<times> f64 \<times> f64" where
  "regret_node gm p plans nodes acc ni =
     (case acc of (best, bestCost, secondCost) \<Rightarrow>
        case best_two gm p plans (nodes ! ni) of (b, best1, best2) \<Rightarrow>
          let regret0 = best2 - best1; regret = (if regret0 < 0 then 0 else regret0)
          in if best1 < max_float \<and> (secondCost - bestCost < regret \<or> best = None)
             then (map_option (\<lambda>(vi, pos). (ni, vi, pos)) b, best1, best2)
             else (best, bestCost, secondCost))"

definition regret_scan :: "gomath \<Rightarrow> Problem \<Rightarrow> RoutePlan list \<Rightarrow> nat list \<Rightarrow> (nat \<times> nat \<times> nat) option" where
  "regret_scan gm p plans nodes =
     fst (foldl (regret_node gm p plans nodes) (None, max_float, max_float) [0..<length nodes])"

definition scan :: "repair_op \<Rightarrow> gomath \<Rightarrow> Problem \<Rightarrow> RoutePlan list \<Rightarrow> nat list \<Rightarrow> (nat \<times> nat \<times> nat) option" where
  "scan rop gm p plans nodes = (case rop of Greedy \<Rightarrow> greedy_scan gm p plans nodes | Regret2 \<Rightarrow> regret_scan gm p plans nodes)"

definition shortest_plan :: "RoutePlan list \<Rightarrow> nat" where
  "shortest_plan plans = foldl (\<lambda>s i. if length (pl_Order (plans ! i)) < length (pl_Order (plans ! s)) then i else s)
     0 [0..<length plans]"

section \<open>The scans pick a feasible place\<close>

lemma foldl_inv: "P a \<Longrightarrow> (\<And>a x. P a \<Longrightarrow> x \<in> set xs \<Longrightarrow> P (f a x)) \<Longrightarrow> P (foldl f a xs)"
  by (induction xs arbitrary: a) auto

definition place_ok :: "gomath \<Rightarrow> Problem \<Rightarrow> RoutePlan list \<Rightarrow> nat list \<Rightarrow> nat \<times> nat \<times> nat \<Rightarrow> bool" where
  "place_ok gm p plans nodes pl \<longleftrightarrow> (case pl of (ni, vi, pos) \<Rightarrow>
     ni < length nodes \<and> vi < length plans \<and> pos \<le> length (pl_Order (plans ! vi)) \<and>
     feasibleAddAt gm p (plans ! vi) (p_Vehicles p ! vi) (nodes ! ni) pos)"

lemma set_positions: "x \<in> set (positions plans) \<longleftrightarrow> fst x < length plans \<and> snd x \<le> length (pl_Order (plans ! fst x))"
  by (cases x) (auto simp: positions_def image_iff simp del: upt_Suc)

lemma greedy_place_ok:
  "pred_option (place_ok gm p plans nodes) (fst acc) \<Longrightarrow> ni < length nodes \<Longrightarrow> x \<in> set (positions plans) \<Longrightarrow>
   pred_option (place_ok gm p plans nodes) (fst (greedy_place gm p plans nodes ni acc x))"
  by (auto simp: greedy_place_def Let_def set_positions place_ok_def split: prod.splits)

lemma greedy_scan_ok: "pred_option (place_ok gm p plans nodes) (greedy_scan gm p plans nodes)"
  unfolding greedy_scan_def
proof (rule foldl_inv [where P = "\<lambda>acc. pred_option (place_ok gm p plans nodes) (fst acc)"])
  fix acc :: "(nat \<times> nat \<times> nat) option \<times> f64" and ni
  assume "pred_option (place_ok gm p plans nodes) (fst acc)" and "ni \<in> set [0..<length nodes]"
  then show "pred_option (place_ok gm p plans nodes) (fst (foldl (greedy_place gm p plans nodes ni) acc (positions plans)))"
    by (intro foldl_inv [where P = "\<lambda>acc. pred_option (place_ok gm p plans nodes) (fst acc)"] greedy_place_ok) auto
qed simp

lemma best_two_ok:
  "pred_option (\<lambda>x. x \<in> set (positions plans) \<and> feasibleAddAt gm p (plans ! fst x) (p_Vehicles p ! fst x) idx (snd x))
     (fst (best_two gm p plans idx))"
  unfolding best_two_def
  by (rule foldl_inv) (auto simp: two_place_def Let_def split: prod.splits)

lemma regret_scan_ok: "pred_option (place_ok gm p plans nodes) (regret_scan gm p plans nodes)"
  unfolding regret_scan_def
proof (rule foldl_inv [where P = "\<lambda>acc. pred_option (place_ok gm p plans nodes) (fst acc)"])
  fix acc :: "(nat \<times> nat \<times> nat) option \<times> f64 \<times> f64" and ni
  assume acc: "pred_option (place_ok gm p plans nodes) (fst acc)" and "ni \<in> set [0..<length nodes]"
  then have "pred_option (place_ok gm p plans nodes) (map_option (Pair ni) (fst (best_two gm p plans (nodes ! ni))))"
    using best_two_ok [of plans gm p "nodes ! ni"]
    by (cases "fst (best_two gm p plans (nodes ! ni))") (auto simp: place_ok_def set_positions)
  with acc show "pred_option (place_ok gm p plans nodes) (fst (regret_node gm p plans nodes acc ni))"
    by (auto simp: regret_node_def Let_def split: prod.splits)
qed simp

lemma scan_ok: "scan rop gm p plans nodes = Some pl \<Longrightarrow> place_ok gm p plans nodes pl"
  using greedy_scan_ok [of gm p plans nodes] regret_scan_ok [of gm p plans nodes]
  by (auto simp: scan_def split: repair_op.splits)

section \<open>The greedy scan picks a cheapest feasible place\<close>

text \<open>A scan for a minimum with the comparisons of binary64 (NaN is below and above nothing).\<close>

lemma fold_min:
  fixes f :: "'a \<Rightarrow> f64"
  assumes "foldl (\<lambda>acc x. if ok x \<and> f x < snd acc then (Some x, f x) else acc) (None, m) xs = (b, d)"
  shows "case b of None \<Rightarrow> d = m \<and> (\<forall>x\<in>set xs. ok x \<longrightarrow> \<not> f x < m)
    | Some x \<Rightarrow> x \<in> set xs \<and> ok x \<and> d = f x \<and> f x < m \<and> (\<forall>y\<in>set xs. ok y \<longrightarrow> \<not> f y < f x)"
  using assms
proof (induction xs arbitrary: b d rule: rev_induct)
  case Nil
  then show ?case by simp
next
  case (snoc x xs)
  obtain b1 d1 where r: "foldl (\<lambda>acc x. if ok x \<and> f x < snd acc then (Some x, f x) else acc) (None, m) xs = (b1, d1)" by fastforce
  note ih = snoc.IH [OF r]
  have bd: "(b, d) = (if ok x \<and> f x < d1 then (Some x, f x) else (b1, d1))" using snoc.prems r by simp
  show ?case
  proof (cases "ok x \<and> f x < d1")
    case True
    have "f x < m" using True ih by (cases b1) (auto intro: f_trans)
    moreover have "\<forall>y\<in>set xs. ok y \<longrightarrow> \<not> f y < f x" using True ih by (cases b1) (auto dest: f_trans)
    ultimately show ?thesis using True bd by auto
  next
    case False
    with bd ih show ?thesis by (cases b1) auto
  qed
qed

lemma foldl_nested: "foldl (\<lambda>acc y. foldl (g y) acc xs) a ys = foldl (\<lambda>acc (y, x). g y acc x) a (List.product ys xs)"
proof (induction ys arbitrary: a)
  case (Cons y ys)
  have "foldl (\<lambda>acc (y, x). g y acc x) a (map (Pair y) xs) = foldl (g y) a xs" for a by (induction xs arbitrary: a) simp_all
  with Cons show ?case by simp
qed simp

definition insertion_cost :: "gomath \<Rightarrow> Problem \<Rightarrow> RoutePlan list \<Rightarrow> nat list \<Rightarrow> nat \<times> nat \<times> nat \<Rightarrow> f64" where
  "insertion_cost gm p plans nodes place = (case place of (ni, vi, pos) \<Rightarrow>
     deltaCostInsert gm p (plans ! vi) (p_Vehicles p ! vi) (nodes ! ni) pos)"

lemma greedy_scan_min:
  "case greedy_scan gm p plans nodes of
     None \<Rightarrow> \<forall>y. place_ok gm p plans nodes y \<longrightarrow> \<not> insertion_cost gm p plans nodes y < max_float
   | Some x \<Rightarrow> place_ok gm p plans nodes x \<and> (\<forall>y. place_ok gm p plans nodes y \<longrightarrow>
       \<not> insertion_cost gm p plans nodes y < insertion_cost gm p plans nodes x)"
proof -
  let ?ok = "\<lambda>(ni, vi, pos). feasibleAddAt gm p (plans ! vi) (p_Vehicles p ! vi) (nodes ! ni) pos"
  let ?xs = "List.product [0..<length nodes] (positions plans)"
  have g: "(\<lambda>acc (ni, x). greedy_place gm p plans nodes ni acc x) =
      (\<lambda>acc x. if ?ok x \<and> insertion_cost gm p plans nodes x < snd acc then (Some x, insertion_cost gm p plans nodes x) else acc)"
    by (auto simp: fun_eq_iff greedy_place_def insertion_cost_def Let_def)
  obtain b d where f: "foldl (\<lambda>acc x. if ?ok x \<and> insertion_cost gm p plans nodes x < snd acc
      then (Some x, insertion_cost gm p plans nodes x) else acc) (None, max_float) ?xs = (b, d)" by fastforce
  have s: "greedy_scan gm p plans nodes = b" unfolding greedy_scan_def foldl_nested g f by simp
  have m: "place_ok gm p plans nodes y \<longleftrightarrow> y \<in> set ?xs \<and> ?ok y" for y
    by (cases y) (auto simp: place_ok_def set_positions)
  from fold_min [OF f] show ?thesis unfolding s by (cases b) (simp_all only: m option.case, blast+)
qed

section \<open>The insertion loop\<close>

definition add_to_plan :: "nat \<Rightarrow> nat \<Rightarrow> nat \<Rightarrow> RoutePlan list \<Rightarrow> RoutePlan list" where
  "add_to_plan vi pos x plans = plans[vi := (plans ! vi)\<lparr>pl_Order := insert_at pos x (pl_Order (plans ! vi))\<rparr>]"

function insert_loop :: "repair_op \<Rightarrow> gomath \<Rightarrow> Problem \<Rightarrow> RoutePlan list \<Rightarrow> nat list \<Rightarrow> RoutePlan list" where
  "insert_loop rop gm p plans nodes =
     (if nodes = [] then plans
      else case scan rop gm p plans nodes of
          None \<Rightarrow>
            let s = shortest_plan plans
            in insert_loop rop gm p (plans[s := (plans ! s)\<lparr>pl_Order := pl_Order (plans ! s) @ [hd nodes]\<rparr>]) (tl nodes)
        | Some (ni, vi, pos) \<Rightarrow>
            insert_loop rop gm p (add_to_plan vi pos (nodes ! ni) plans) (remove_nth ni nodes))"
  by pat_completeness auto

termination
proof (relation "measure (\<lambda>(rop, gm, p, plans, nodes). length nodes)")
  fix rop gm p plans and nodes :: "nat list" and pl ni y vi pos
  assume "nodes \<noteq> []" and "scan rop gm p plans nodes = Some pl" and "(ni, y) = pl" and "(vi, pos) = y"
  then have "place_ok gm p plans nodes (ni, vi, pos)" using scan_ok by blast
  then have "ni < length nodes" by (simp add: place_ok_def)
  then show "((rop, gm, p, add_to_plan vi pos (nodes ! ni) plans, remove_nth ni nodes), rop, gm, p, plans, nodes)
      \<in> measure (\<lambda>(rop, gm, p, plans, nodes). length nodes)"
    by (simp add: length_remove_nth)
qed auto

declare insert_loop.simps [simp del]

definition greedyInsert :: "gomath \<Rightarrow> Problem \<Rightarrow> Solution \<Rightarrow> nat list \<Rightarrow> Solution" where
  "greedyInsert gm p sol removed =
     (if removed = [] then sol
      else let plans = insert_loop Greedy gm p (s_Plans sol) removed in \<lparr>s_Plans = plans, s_Cost = cost gm p plans\<rparr>)"

lemma shortest_plan_less: "plans \<noteq> [] \<Longrightarrow> shortest_plan plans < length plans"
  unfolding shortest_plan_def by (rule foldl_inv) auto

text \<open>Each round moves one node from the list into a plan.\<close>

lemma insert_loop_nodes:
  assumes "plans \<noteq> []"
  shows "mset (plan_nodes (insert_loop rop gm p plans nodes)) = mset (plan_nodes plans) + mset nodes \<and>
    map pl_VehicleID (insert_loop rop gm p plans nodes) = map pl_VehicleID plans"
  using assms
proof (induction rop gm p plans nodes rule: insert_loop.induct)
  case (1 rop gm p plans nodes)
  show ?case
  proof (cases "nodes = []")
    case True
    then show ?thesis by (subst insert_loop.simps, subst (2) insert_loop.simps) simp
  next
    case nodes: False
    show ?thesis
    proof (cases "scan rop gm p plans nodes")
      case None
      let ?s = "shortest_plan plans"
      let ?pl = "(plans ! ?s)\<lparr>pl_Order := pl_Order (plans ! ?s) @ [hd nodes]\<rparr>"
      have "mset (plan_nodes (plans[?s := ?pl])) = add_mset (hd nodes) (mset (plan_nodes plans))"
        using mset_plan_nodes_update [OF shortest_plan_less [OF 1(3)], of ?pl] by simp
      moreover have "mset nodes = add_mset (hd nodes) (mset (tl nodes))" using nodes by (cases nodes) auto
      moreover have "map pl_VehicleID (plans[?s := ?pl]) = map pl_VehicleID plans"
        using shortest_plan_less [OF 1(3)] by (intro map_VehicleID_update) simp_all
      ultimately show ?thesis using 1(1) [OF nodes None refl] 1(3) nodes None
        by (subst insert_loop.simps, subst (2) insert_loop.simps) (simp add: Let_def)
    next
      case (Some pl)
      obtain ni vi pos where pl: "pl = (ni, vi, pos)" by (cases pl) auto
      have ok: "ni < length nodes" "vi < length plans"
        using scan_ok [OF Some] by (auto simp: pl place_ok_def)
      have "mset (plan_nodes (add_to_plan vi pos (nodes ! ni) plans)) = add_mset (nodes ! ni) (mset (plan_nodes plans))"
        using mset_plan_nodes_update [OF ok(2), of "(plans ! vi)\<lparr>pl_Order := insert_at pos (nodes ! ni) (pl_Order (plans ! vi))\<rparr>"]
        by (simp add: add_to_plan_def mset_insert_at_add)
      moreover have "map pl_VehicleID (add_to_plan vi pos (nodes ! ni) plans) = map pl_VehicleID plans"
        using ok(2) unfolding add_to_plan_def by (intro map_VehicleID_update) simp_all
      moreover have "add_to_plan vi pos (nodes ! ni) plans \<noteq> []" using 1(3) by (simp add: add_to_plan_def)
      ultimately show ?thesis
        using 1(2) [OF nodes Some pl [symmetric] refl] nodes Some pl mset_remove_nth_add [OF ok(1)]
        by (subst insert_loop.simps, subst (2) insert_loop.simps) simp
    qed
  qed
qed

section \<open>What is removed and put back\<close>

lemma pick_loop_spec:
  assumes "rng_ok R" and "pick_loop R k xs removed r = (out, r')"
  shows "\<exists>rest. mset out + mset rest = mset removed + mset xs \<and> length out = length removed + min k (length xs)"
  using assms(2)
proof (induction k arbitrary: xs removed r)
  case 0
  then show ?case by auto
next
  case (Suc k)
  show ?case
  proof (cases "xs = []")
    case True
    with Suc.prems show ?thesis by auto
  next
    case False
    obtain j r1 where j: "rg_Intn R r (length xs) = (j, r1)" by (cases "rg_Intn R r (length xs)")
    with assms(1) False have lt: "j < length xs" unfolding rng_ok_def by (metis fst_conv length_greater_0_conv)
    from Suc.prems False j have "pick_loop R k (remove_nth j xs) (removed @ [xs ! j]) r1 = (out, r')" by simp
    from Suc.IH [OF this] obtain rest where "mset out + mset rest = mset (removed @ [xs ! j]) + mset (remove_nth j xs)"
      "length out = length (removed @ [xs ! j]) + min k (length (remove_nth j xs))" by blast
    with lt mset_remove_nth_add [OF lt] show ?thesis by (intro exI [of _ rest]) (auto simp: length_remove_nth)
  qed
qed

text \<open>Both removal operators draw distinct nodes of the solution, at most \<open>k\<close> of them.\<close>

lemma pickRandomNodes_spec:
  assumes "rng_ok R" and "map_order_ok order" and "pickRandomNodes R order plans k r = (out, r')"
  shows "distinct out \<and> set out \<subseteq> set (plan_nodes plans) \<and> length out = min k (card (set (plan_nodes plans)))"
proof (cases "order (remdups (plan_nodes plans)) = []")
  case True
  then have "mset (remdups (plan_nodes plans)) = {#}" using assms(2) unfolding map_order_ok_def by (metis mset.simps(1))
  with True assms(3) show ?thesis by (auto simp: pickRandomNodes_def)
next
  case False
  with assms(3) have "pick_loop R k (order (remdups (plan_nodes plans))) [] r = (out, r')" by (simp add: pickRandomNodes_def Let_def)
  from pick_loop_spec [OF assms(1) this] obtain rest where
    o: "mset out + mset rest = mset (order (remdups (plan_nodes plans)))" "length out = min k (length (order (remdups (plan_nodes plans))))" by auto
  have m: "mset (order (remdups (plan_nodes plans))) = mset (remdups (plan_nodes plans))" using assms(2) by (simp add: map_order_ok_def)
  with o(1) have e: "mset (out @ rest) = mset (remdups (plan_nodes plans))" by simp
  then have "distinct (out @ rest)" by (metis distinct_remdups mset_eq_imp_distinct_iff)
  moreover have "set (out @ rest) = set (plan_nodes plans)" using e by (metis mset_eq_setD set_remdups)
  moreover have "length (order (remdups (plan_nodes plans))) = card (set (plan_nodes plans))"
    using m by (metis length_remdups_card_conv mset_eq_length)
  ultimately show ?thesis using o(2) by auto
qed

lemma mset_swap_at: "i < length xs \<Longrightarrow> j < length xs \<Longrightarrow> mset (swap_at i j xs) = mset xs"
  unfolding swap_at_def by (rule mset_swap)

lemma length_swap_at [simp]: "length (swap_at i j xs) = length xs"
  by (simp add: swap_at_def)

lemma set_index_pairs: "ij \<in> set (index_pairs n) \<longleftrightarrow> fst ij < snd ij \<and> snd ij < n"
  by (cases ij) (auto simp: index_pairs_def image_iff)

lemma mset_exchange_sort: "mset (exchange_sort rel) = mset rel"
  unfolding exchange_sort_def
proof (rule foldl_inv [where P = "\<lambda>xs. mset xs = mset rel"])
  fix xs :: "(nat \<times> f64) list" and ij
  assume m: "mset xs = mset rel" and "ij \<in> set (index_pairs (length rel))"
  moreover have "length xs = length rel" using m by (rule mset_eq_length)
  ultimately have "fst ij < length xs" "snd ij < length xs" by (auto simp: set_index_pairs)
  with m show "mset (case ij of (i, j) \<Rightarrow> if snd (xs ! j) < snd (xs ! i) then swap_at i j xs else xs) = mset rel"
    by (cases ij) (auto simp: mset_swap_at)
qed simp

lemma shawRemoval_subset:
  assumes "rng_ok R" and "shawRemoval gm R p plans k r = (out, r')"
  shows "set out \<subseteq> set (plan_nodes plans)"
proof (cases "plan_nodes plans = []")
  case True
  with assms(2) show ?thesis by (auto simp: shawRemoval_def)
next
  case False
  obtain j r1 where j: "rg_Intn R r (length (plan_nodes plans)) = (j, r1)" by (cases "rg_Intn R r (length (plan_nodes plans))")
  define seed where "seed = plan_nodes plans ! j"
  define rel where "rel = map (\<lambda>idx. (idx, relatedness gm p seed idx)) (filter (\<lambda>idx. idx \<noteq> seed) (plan_nodes plans))"
  from assms(1) False j have "j < length (plan_nodes plans)" unfolding rng_ok_def by (metis fst_conv length_greater_0_conv)
  then have s: "seed \<in> set (plan_nodes plans)" by (simp add: seed_def)
  have o: "out = seed # map fst (take (k - 1) (exchange_sort rel))"
    using assms(2) False j by (simp add: shawRemoval_def Let_def rel_def seed_def)
  have "set (exchange_sort rel) = set rel" by (rule mset_eq_setD [OF mset_exchange_sort])
  then show ?thesis using s by (auto simp: o rel_def dest!: in_set_takeD)
qed

lemma shawRemoval_spec:
  assumes "rng_ok R" and "distinct (plan_nodes plans)" and "shawRemoval gm R p plans k r = (out, r')"
  shows "distinct out \<and> set out \<subseteq> set (plan_nodes plans) \<and> length out \<le> max k 1"
proof (cases "plan_nodes plans = []")
  case True
  with assms(3) show ?thesis by (auto simp: shawRemoval_def)
next
  case False
  obtain j r1 where j: "rg_Intn R r (length (plan_nodes plans)) = (j, r1)" by (cases "rg_Intn R r (length (plan_nodes plans))")
  define seed where "seed = plan_nodes plans ! j"
  define rel where "rel = map (\<lambda>idx. (idx, relatedness gm p seed idx)) (filter (\<lambda>idx. idx \<noteq> seed) (plan_nodes plans))"
  from assms(1) False j have "j < length (plan_nodes plans)" unfolding rng_ok_def by (metis fst_conv length_greater_0_conv)
  then have s: "seed \<in> set (plan_nodes plans)" by (simp add: seed_def)
  have o: "out = seed # map fst (take (k - 1) (exchange_sort rel))"
    using assms(3) False j by (simp add: shawRemoval_def Let_def rel_def seed_def)
  have m: "mset (map fst (exchange_sort rel)) = mset (filter (\<lambda>idx. idx \<noteq> seed) (plan_nodes plans))"
    unfolding mset_map mset_exchange_sort by (simp add: rel_def comp_def flip: mset_map)
  then have "distinct (map fst (exchange_sort rel))"
    using assms(2) by (metis distinct_filter mset_eq_imp_distinct_iff)
  moreover have "set (map fst (exchange_sort rel)) = {i \<in> set (plan_nodes plans). i \<noteq> seed}"
    using mset_eq_setD [OF m] by auto
  ultimately show ?thesis using s by (auto simp: o take_map [symmetric] dest: in_set_takeD)
qed

lemma removeNodes_plans:
  "s_Plans (removeNodes sol removed) =
     map (\<lambda>pl. \<lparr>pl_VehicleID = pl_VehicleID pl, pl_Order = filter (\<lambda>idx. idx \<notin> set removed) (pl_Order pl)\<rparr>) (s_Plans sol)"
proof (cases "removed = []")
  case True
  have "\<lparr>pl_VehicleID = pl_VehicleID pl, pl_Order = pl_Order pl\<rparr> = pl" for pl :: RoutePlan by (cases pl) simp
  with True show ?thesis by (simp add: removeNodes_def map_idI [symmetric])
qed (simp add: removeNodes_def)

lemma plan_nodes_filter:
  "plan_nodes (map (\<lambda>pl. \<lparr>pl_VehicleID = pl_VehicleID pl, pl_Order = filter P (pl_Order pl)\<rparr>) plans) = filter P (plan_nodes plans)"
  by (induction plans) auto

lemma remove_and_insert:
  assumes "distinct (plan_nodes (s_Plans sol))" and "distinct removed" and "set removed \<subseteq> set (plan_nodes (s_Plans sol))"
    and "s_Plans sol \<noteq> []"
  shows "mset (plan_nodes (insert_loop rop gm p (s_Plans (removeNodes sol removed)) removed)) = mset (plan_nodes (s_Plans sol)) \<and>
    map pl_VehicleID (insert_loop rop gm p (s_Plans (removeNodes sol removed)) removed) = map pl_VehicleID (s_Plans sol)"
proof -
  let ?all = "plan_nodes (s_Plans sol)"
  have "mset (filter (\<lambda>i. i \<notin> set removed) ?all) + mset removed = mset ?all"
  proof -
    have "mset_set (set ?all - set removed) + mset_set (set removed) = mset_set (set ?all)"
      using assms(3) by (metis List.finite_set Diff_disjoint Diff_partition Un_commute finite_Diff inf_commute mset_set_Union)
    moreover have "mset (filter (\<lambda>i. i \<notin> set removed) ?all) = mset_set (set ?all - set removed)"
      using assms(1) by (metis distinct_filter mset_set_set set_minus_filter_out set_filter Diff_eq Collect_mem_eq set_diff_eq)
    ultimately show ?thesis using assms(1,2) by (simp add: mset_set_set)
  qed
  moreover have "s_Plans (removeNodes sol removed) \<noteq> []" using assms(4) by (simp add: removeNodes_plans)
  ultimately show ?thesis
    using insert_loop_nodes [of "s_Plans (removeNodes sol removed)" rop gm p removed]
    by (simp add: removeNodes_plans plan_nodes_filter comp_def)
qed

end
