(* ===== verification/Opt_Descent.thy ===== *)
theory Opt_Descent
  imports Opt_Repair
begin

text \<open>
  The shape of every local search of \<^verbatim>\<open>alns_engine.go\<close>: \<^verbatim>\<open>for improved { improved = false; ... }\<close>.
  \<open>descend\<close> is that loop around a pass that returns the new state and the flag; not returning is
  the value \<open>None\<close>. The locale \<open>improvement\<close> is the contract of a pass: on the states of a finite
  set it makes the state strictly better or leaves it alone. Under it the loop returns, at a state
  the pass leaves alone, and no worse than the start.
\<close>

partial_function (option) descend :: "('s \<Rightarrow> 's \<times> bool) \<Rightarrow> 's \<Rightarrow> 's option" where
  "descend pass s = (case pass s of (s', improved) \<Rightarrow> if improved then descend pass s' else Some s')"

text \<open>The result has every property the pass keeps.\<close>

lemma descend_keeps:
  assumes "descend pass s = Some s'" and "P s" and "\<And>s. P s \<Longrightarrow> P (fst (pass s))"
  shows "P s'"
proof -
  have "(\<forall>s. P s \<longrightarrow> P (fst (pass s))) \<longrightarrow> P s \<longrightarrow> P s'"
  proof (rule descend.raw_induct [OF _ assms(1), where P = "\<lambda>pass s s'. (\<forall>s. P s \<longrightarrow> P (fst (pass s))) \<longrightarrow> P s \<longrightarrow> P s'"])
    fix d pass s s'
    assume ih: "\<And>pass s y. d pass s = Some y \<Longrightarrow> (\<forall>s. P s \<longrightarrow> P (fst (pass s))) \<longrightarrow> P s \<longrightarrow> P y"
      and r: "(case pass s of (s', improved) \<Rightarrow> if improved then d pass s' else Some s') = Some s'"
    show "(\<forall>s. P s \<longrightarrow> P (fst (pass s))) \<longrightarrow> P s \<longrightarrow> P s'"
    proof (intro impI)
      assume k: "\<forall>s. P s \<longrightarrow> P (fst (pass s))" and "P s"
      then have "P (fst (pass s))" by blast
      with r ih k show "P s'" by (cases "pass s") (auto split: if_splits)
    qed
  qed
  with assms(2,3) show ?thesis by blast
qed

locale improvement =
  fixes pass :: "'s \<Rightarrow> 's \<times> bool"
    and inv :: "'s \<Rightarrow> bool"
    and better :: "'s \<Rightarrow> 's \<Rightarrow> bool"
  assumes finite_inv: "finite (Collect inv)"
    and inv_pass: "inv s \<Longrightarrow> inv (fst (pass s))"
    and better_pass: "inv s \<Longrightarrow> snd (pass s) \<Longrightarrow> better (fst (pass s)) s"
    and stable_pass: "inv s \<Longrightarrow> \<not> snd (pass s) \<Longrightarrow> fst (pass s) = s"
    and better_trans: "better a b \<Longrightarrow> better b c \<Longrightarrow> better a c"
    and better_irrefl: "\<not> better a a"
begin

lemma descend_returns:
  assumes "inv s"
  shows "\<exists>s'. descend pass s = Some s' \<and> inv s' \<and> pass s' = (s', False) \<and> (s' = s \<or> better s' s)"
  using assms
proof (induction "card {x. inv x \<and> better x s}" arbitrary: s rule: less_induct)
  case less
  obtain s1 b where p: "pass s = (s1, b)" by (cases "pass s")
  show ?case
  proof (cases b)
    case False
    with p less.prems stable_pass [of s] show ?thesis by (subst descend.simps) auto
  next
    case True
    have i: "inv s1" and bt: "better s1 s" using p True inv_pass [OF less.prems] better_pass [OF less.prems] by simp_all
    have "{x. inv x \<and> better x s1} \<subset> {x. inv x \<and> better x s}"
      using i bt better_trans better_irrefl by blast
    moreover have "finite {x. inv x \<and> better x s}" using finite_inv by (rule rev_finite_subset) auto
    ultimately have "card {x. inv x \<and> better x s1} < card {x. inv x \<and> better x s}" by (rule psubset_card_mono [rotated])
    from less.hyps [OF this i] obtain s' where "descend pass s1 = Some s'" "inv s'" "pass s' = (s', False)"
      "s' = s1 \<or> better s' s1" by blast
    with p True bt better_trans show ?thesis by (subst descend.simps) auto
  qed
qed

end

section \<open>Finitely many plans\<close>

lemma finite_lists_over: "finite A \<Longrightarrow> finite {xs. set xs \<subseteq> A \<and> length xs \<le> n}"
  by (rule finite_lists_length_le)

text \<open>Plans with given vehicle ids, over a finite set of nodes, with a given total length.\<close>

definition plans_over :: "string list \<Rightarrow> nat set \<Rightarrow> nat \<Rightarrow> RoutePlan list \<Rightarrow> bool" where
  "plans_over ids A n plans \<longleftrightarrow> map pl_VehicleID plans = ids \<and> set (plan_nodes plans) \<subseteq> A \<and> length (plan_nodes plans) = n"

lemma pl_Order_in_plan_nodes: "pl \<in> set plans \<Longrightarrow> set (pl_Order pl) \<subseteq> set (plan_nodes plans)"
  by (auto simp: plan_nodes_def)

lemma pl_Order_length_plan_nodes: "pl \<in> set plans \<Longrightarrow> length (pl_Order pl) \<le> length (plan_nodes plans)"
  by (induction plans) auto

lemma finite_plans_over: "finite A \<Longrightarrow> finite {plans. plans_over ids A n plans}"
proof -
  assume A: "finite A"
  define Ords where "Ords = {xs. set xs \<subseteq> A \<and> length xs \<le> n}"
  have "finite Ords" using A unfolding Ords_def by (rule finite_lists_over)
  then have f: "finite {os. set os \<subseteq> Ords \<and> length os = length ids}" by (rule finite_lists_length_eq)
  have "{plans. plans_over ids A n plans} \<subseteq>
    (\<lambda>os. map2 (\<lambda>v xs. \<lparr>pl_VehicleID = v, pl_Order = xs\<rparr>) ids os) ` {os. set os \<subseteq> Ords \<and> length os = length ids}"
  proof
    fix plans
    assume "plans \<in> {plans. plans_over ids A n plans}"
    then have p: "map pl_VehicleID plans = ids" "set (plan_nodes plans) \<subseteq> A" "length (plan_nodes plans) = n"
      by (simp_all add: plans_over_def)
    have "map pl_Order plans \<in> {os. set os \<subseteq> Ords \<and> length os = length ids}"
      using p pl_Order_in_plan_nodes pl_Order_length_plan_nodes by (fastforce simp: Ords_def)
    moreover have "plans = map2 (\<lambda>v xs. \<lparr>pl_VehicleID = v, pl_Order = xs\<rparr>) ids (map pl_Order plans)"
      unfolding p(1) [symmetric] by (induction plans) auto
    ultimately show "plans \<in> (\<lambda>os. map2 (\<lambda>v xs. \<lparr>pl_VehicleID = v, pl_Order = xs\<rparr>) ids os) ` {os. set os \<subseteq> Ords \<and> length os = length ids}"
      by blast
  qed
  with f show ?thesis by (rule finite_surj)
qed

lemma finite_plan_mset: "finite {pl :: RoutePlan. pl_VehicleID pl = v \<and> mset (pl_Order pl) = M}"
proof -
  have "finite {xs. set xs \<subseteq> set_mset M \<and> length xs \<le> size M}" by (rule finite_lists_over) simp
  then have "finite ((\<lambda>xs. \<lparr>pl_VehicleID = v, pl_Order = xs\<rparr>) ` {xs. set xs \<subseteq> set_mset M \<and> length xs \<le> size M})" by (rule finite_imageI)
  moreover have "{pl :: RoutePlan. pl_VehicleID pl = v \<and> mset (pl_Order pl) = M} \<subseteq>
    (\<lambda>xs. \<lparr>pl_VehicleID = v, pl_Order = xs\<rparr>) ` {xs. set xs \<subseteq> set_mset M \<and> length xs \<le> size M}"
  proof
    fix pl :: RoutePlan
    assume a: "pl \<in> {pl. pl_VehicleID pl = v \<and> mset (pl_Order pl) = M}"
    then have "set (pl_Order pl) \<subseteq> set_mset M" "length (pl_Order pl) \<le> size M" by (auto simp flip: set_mset_mset)
    moreover have "pl = \<lparr>pl_VehicleID = v, pl_Order = pl_Order pl\<rparr>" using a by (cases pl) simp
    ultimately show "pl \<in> (\<lambda>xs. \<lparr>pl_VehicleID = v, pl_Order = xs\<rparr>) ` {xs. set xs \<subseteq> set_mset M \<and> length xs \<le> size M}" by blast
  qed
  ultimately show ?thesis by (rule rev_finite_subset)
qed

end
