(* ===== verification/Opt_Two_Opt.thy ===== *)
theory Opt_Two_Opt
  imports Opt_Descent
begin

text \<open>
  \<^verbatim>\<open>twoOptImprove\<close> of \<^verbatim>\<open>alns_engine.go\<close>: within each plan, reverse inner segments as long as that
  shortens the path by more than \<open>1e-6\<close> and keeps the schedule feasible. The pass over all segments
  meets the contract \<open>improvement\<close>, with the order of binary64 numbers on the path length.
\<close>

section \<open>Reversing a segment\<close>

text \<open>The swap loop \<^verbatim>\<open>for a,b := i,k; a < b; a,b = a+1,b-1\<close>.\<close>

function reverse_segment :: "nat \<Rightarrow> nat \<Rightarrow> 'a list \<Rightarrow> 'a list" where
  "reverse_segment a b xs = (if a < b then reverse_segment (a + 1) (b - 1) (swap_at a b xs) else xs)"
  by pat_completeness auto

termination by (relation "measure (\<lambda>(a, b, xs). b - a)") auto

declare reverse_segment.simps [simp del]

lemma reverse_segment_spec:
  "b < length xs \<Longrightarrow> mset (reverse_segment a b xs) = mset xs \<and> length (reverse_segment a b xs) = length xs \<and>
    (\<forall>j<length xs. reverse_segment a b xs ! j = (if a \<le> j \<and> j \<le> b then xs ! (a + b - j) else xs ! j))"
proof (induction a b xs rule: reverse_segment.induct)
  case (1 a b xs)
  show ?case
  proof (cases "a < b")
    case False
    then have "a \<le> j \<and> j \<le> b \<Longrightarrow> a + b - j = j" for j by auto
    with False show ?thesis by (subst (1 2 3) reverse_segment.simps) auto
  next
    case True
    have e: "reverse_segment a b xs = reverse_segment (a + 1) (b - 1) (swap_at a b xs)"
      using True by (subst reverse_segment.simps) simp
    have ih: "mset (reverse_segment (a + 1) (b - 1) (swap_at a b xs)) = mset (swap_at a b xs)"
      "length (reverse_segment (a + 1) (b - 1) (swap_at a b xs)) = length xs"
      "\<And>j. j < length xs \<Longrightarrow> reverse_segment (a + 1) (b - 1) (swap_at a b xs) ! j =
        (if a + 1 \<le> j \<and> j \<le> b - 1 then swap_at a b xs ! (a + 1 + (b - 1) - j) else swap_at a b xs ! j)"
      using 1(1) [OF True] 1(2) by auto
    have s: "swap_at a b xs ! j = (if j = a then xs ! b else if j = b then xs ! a else xs ! j)" if "j < length xs" for j
      using that True 1(2) by (simp add: swap_at_def nth_list_update)
    have "reverse_segment a b xs ! j = (if a \<le> j \<and> j \<le> b then xs ! (a + b - j) else xs ! j)" if "j < length xs" for j
    proof (cases "a + 1 \<le> j \<and> j \<le> b - 1")
      case inner: True
      then have n: "a + 1 + (b - 1) - j = a + b - j" "a + b - j < length xs" "a + b - j \<noteq> a" "a + b - j \<noteq> b" "a \<le> j \<and> j \<le> b"
        using True that 1(2) by auto
      show ?thesis unfolding e ih(3) [OF that] n(1) using inner n s [OF n(2)] by simp
    next
      case False
      show ?thesis unfolding e ih(3) [OF that] s [OF that] using False True by auto
    qed
    with ih(1,2) True 1(2) show ?thesis by (simp add: e mset_swap_at)
  qed
qed

section \<open>The pass\<close>

definition two_opt_try :: "gomath \<Rightarrow> Problem \<Rightarrow> Vehicle \<Rightarrow> RoutePlan \<times> bool \<Rightarrow> nat \<times> nat \<Rightarrow> RoutePlan \<times> bool" where
  "two_opt_try gm p v acc ik =
     (case acc of (pl, improved) \<Rightarrow> case ik of (i, k) \<Rightarrow>
        let cand = \<lparr>pl_VehicleID = pl_VehicleID pl, pl_Order = reverse_segment i k (pl_Order pl)\<rparr>
        in if \<not> snd (schedulePlan gm p cand v) then (pl, improved)
           else let c1 = pathDistanceNodes gm p pl; c2 = pathDistanceNodes gm p cand
             in if c2 + lit (1 / 10 ^ 6) < c1 then (cand, True) else (pl, improved))"

text \<open>\<open>i\<close> from 1 below \<open>n - 2\<close>, \<open>k\<close> from \<open>i + 1\<close> below \<open>n - 1\<close>.\<close>

definition inner_segments :: "nat \<Rightarrow> (nat \<times> nat) list" where
  "inner_segments n = concat (map (\<lambda>i. map (Pair i) [Suc i..<n - 1]) [1..<n - 2])"

definition two_opt_pass :: "gomath \<Rightarrow> Problem \<Rightarrow> Vehicle \<Rightarrow> RoutePlan \<Rightarrow> RoutePlan \<times> bool" where
  "two_opt_pass gm p v pl = foldl (two_opt_try gm p v) (pl, False) (inner_segments (length (pl_Order pl)))"

definition two_opt_vehicle :: "gomath \<Rightarrow> Problem \<Rightarrow> RoutePlan list \<Rightarrow> nat \<Rightarrow> RoutePlan list option" where
  "two_opt_vehicle gm p plans vi =
     map_option (\<lambda>pl. plans[vi := pl]) (descend (two_opt_pass gm p (p_Vehicles p ! vi)) (plans ! vi))"

definition twoOptImprove :: "gomath \<Rightarrow> Problem \<Rightarrow> Solution \<Rightarrow> Solution option" where
  "twoOptImprove gm p sol =
     map_option (\<lambda>plans. \<lparr>s_Plans = plans, s_Cost = cost gm p plans\<rparr>)
       (foldl (\<lambda>acc vi. Option.bind acc (\<lambda>plans. two_opt_vehicle gm p plans vi)) (Some (s_Plans sol)) [0..<length (s_Plans sol)])"

section \<open>One plan\<close>

text \<open>How a plan may change: a permutation with the same ends.\<close>

definition same_ends :: "RoutePlan \<Rightarrow> RoutePlan \<Rightarrow> bool" where
  "same_ends pl' pl \<longleftrightarrow> pl_VehicleID pl' = pl_VehicleID pl \<and> mset (pl_Order pl') = mset (pl_Order pl) \<and>
     (pl_Order pl \<noteq> [] \<longrightarrow> hd (pl_Order pl') = hd (pl_Order pl) \<and> last (pl_Order pl') = last (pl_Order pl))"

definition shorter :: "gomath \<Rightarrow> Problem \<Rightarrow> RoutePlan \<Rightarrow> RoutePlan \<Rightarrow> bool" where
  "shorter gm p pl' pl \<longleftrightarrow> pathDistanceNodes gm p pl' < pathDistanceNodes gm p pl"

lemma set_inner_segments: "ik \<in> set (inner_segments n) \<longleftrightarrow> 0 < fst ik \<and> fst ik < snd ik \<and> snd ik < n - 1"
  by (cases ik) (auto simp: inner_segments_def image_iff)

lemma same_ends_refl [simp]: "same_ends pl pl"
  by (simp add: same_ends_def)

lemma same_ends_trans: "same_ends a b \<Longrightarrow> same_ends b c \<Longrightarrow> same_ends a c"
  by (auto simp: same_ends_def)

lemma shorter_trans: "shorter gm p a b \<Longrightarrow> shorter gm p b c \<Longrightarrow> shorter gm p a c"
  unfolding shorter_def by (rule f_trans)

lemma shorter_irrefl: "\<not> shorter gm p a a"
  by (simp add: shorter_def)

lemma same_ends_reverse:
  assumes "0 < i" and "i < k" and "k < length (pl_Order pl) - 1"
  shows "same_ends \<lparr>pl_VehicleID = pl_VehicleID pl, pl_Order = reverse_segment i k (pl_Order pl)\<rparr> pl"
proof -
  have k: "k < length (pl_Order pl)" using assms by simp
  note r = reverse_segment_spec [OF k, of i]
  have l: "pl_Order pl \<noteq> []" "reverse_segment i k (pl_Order pl) \<noteq> []" using r assms by auto
  have "hd (reverse_segment i k (pl_Order pl)) = hd (pl_Order pl)"
    using r assms l by (simp add: hd_conv_nth)
  moreover have "last (reverse_segment i k (pl_Order pl)) = last (pl_Order pl)"
    using r assms l by (simp add: last_conv_nth)
  ultimately show ?thesis using r by (simp add: same_ends_def)
qed

lemma eps_less: "pathDistanceNodes gm p pl + lit (1 / 10 ^ 6) < x \<Longrightarrow> pathDistanceNodes gm p pl < x"
  by (rule add_lit_less_imp [of _ "1 / 10 ^ 6"]) simp_all

lemma two_opt_try_cases:
  assumes "0 < fst ik" and "fst ik < snd ik" and "snd ik < length (pl_Order pl) - 1"
  shows "two_opt_try gm p v (pl, b) ik = (pl, b) \<or>
    (\<exists>pl'. two_opt_try gm p v (pl, b) ik = (pl', True) \<and> same_ends pl' pl \<and> shorter gm p pl' pl \<and> snd (schedulePlan gm p pl' v))"
  using same_ends_reverse [of "fst ik" "snd ik" pl] assms
  by (cases ik) (auto simp: two_opt_try_def Let_def shorter_def dest: eps_less [simplified])

text \<open>What a pass makes of a plan: nothing, or a shorter feasible one.\<close>

definition two_opt_result :: "gomath \<Rightarrow> Problem \<Rightarrow> Vehicle \<Rightarrow> RoutePlan \<Rightarrow> RoutePlan \<times> bool \<Rightarrow> bool" where
  "two_opt_result gm p v pl acc \<longleftrightarrow> same_ends (fst acc) pl \<and>
     (if snd acc then shorter gm p (fst acc) pl \<and> snd (schedulePlan gm p (fst acc) v) else fst acc = pl)"

lemma two_opt_pass_result: "two_opt_result gm p v pl (two_opt_pass gm p v pl)"
  unfolding two_opt_pass_def
proof (rule foldl_inv [where P = "two_opt_result gm p v pl"])
  show "two_opt_result gm p v pl (pl, False)" by (simp add: two_opt_result_def)
next
  fix acc ik
  assume acc: "two_opt_result gm p v pl acc" and "ik \<in> set (inner_segments (length (pl_Order pl)))"
  moreover obtain pl1 b where a: "acc = (pl1, b)" by (cases acc)
  moreover have "length (pl_Order pl1) = length (pl_Order pl)"
    using acc a by (auto simp: two_opt_result_def same_ends_def dest: mset_eq_length)
  ultimately have "two_opt_try gm p v acc ik = acc \<or>
    (\<exists>pl'. two_opt_try gm p v acc ik = (pl', True) \<and> same_ends pl' pl1 \<and> shorter gm p pl' pl1 \<and> snd (schedulePlan gm p pl' v))"
    using two_opt_try_cases [of ik pl1 gm p v b] by (simp add: set_inner_segments)
  with acc show "two_opt_result gm p v pl (two_opt_try gm p v acc ik)"
    by (auto simp: two_opt_result_def a split: if_splits intro: same_ends_trans shorter_trans)
qed

interpretation two_opt: improvement "two_opt_pass gm p v" "\<lambda>pl :: RoutePlan. pl_VehicleID pl = w \<and> mset (pl_Order pl) = M" "shorter gm p"
  for gm p v w M
proof
  show "finite (Collect (\<lambda>pl :: RoutePlan. pl_VehicleID pl = w \<and> mset (pl_Order pl) = M))" by (rule finite_plan_mset)
next
  fix s :: RoutePlan
  assume "pl_VehicleID s = w \<and> mset (pl_Order s) = M"
  then show "pl_VehicleID (fst (two_opt_pass gm p v s)) = w \<and> mset (pl_Order (fst (two_opt_pass gm p v s))) = M"
    using two_opt_pass_result [of gm p v s] by (simp add: two_opt_result_def same_ends_def)
qed (use two_opt_pass_result [of gm p v] in \<open>auto simp: two_opt_result_def shorter_irrefl intro: shorter_trans\<close>)

text \<open>What the loop makes of one plan.\<close>

definition two_opt_done :: "gomath \<Rightarrow> Problem \<Rightarrow> Vehicle \<Rightarrow> RoutePlan \<Rightarrow> RoutePlan \<Rightarrow> bool" where
  "two_opt_done gm p v pl' pl \<longleftrightarrow> same_ends pl' pl \<and>
     (pl' = pl \<or> shorter gm p pl' pl \<and> snd (schedulePlan gm p pl' v)) \<and> two_opt_pass gm p v pl' = (pl', False)"

lemma two_opt_descends: "\<exists>pl'. descend (two_opt_pass gm p v) pl = Some pl' \<and> two_opt_done gm p v pl' pl"
proof -
  from two_opt.descend_returns [of pl "pl_VehicleID pl" "mset (pl_Order pl)" gm p v] obtain pl' where
    d: "descend (two_opt_pass gm p v) pl = Some pl'" "two_opt_pass gm p v pl' = (pl', False)" "pl' = pl \<or> shorter gm p pl' pl"
    by auto
  have "same_ends pl' pl" using d(1)
  proof (rule descend_keeps [where P = "\<lambda>x. same_ends x pl"])
    fix x
    assume "same_ends x pl"
    then show "same_ends (fst (two_opt_pass gm p v x)) pl"
      using two_opt_pass_result [of gm p v x] by (auto simp: two_opt_result_def intro: same_ends_trans)
  qed simp
  moreover have "pl' = pl \<or> snd (schedulePlan gm p pl' v)" using d(1)
  proof (rule descend_keeps [where P = "\<lambda>x. x = pl \<or> snd (schedulePlan gm p x v)"])
    fix x
    assume "x = pl \<or> snd (schedulePlan gm p x v)"
    then show "fst (two_opt_pass gm p v x) = pl \<or> snd (schedulePlan gm p (fst (two_opt_pass gm p v x)) v)"
      using two_opt_pass_result [of gm p v x] by (auto simp: two_opt_result_def split: if_splits)
  qed simp
  ultimately show ?thesis using d by (auto simp: two_opt_done_def)
qed

section \<open>All plans\<close>

text \<open>A loop over the vehicles that rewrites one plan at a time, and can only fail as a whole.\<close>

lemma fold_vehicles:
  assumes "\<And>plans vi. vi < length plans \<Longrightarrow> \<exists>pl. f plans vi = Some (plans[vi := pl]) \<and> R vi pl (plans ! vi)"
  shows "k \<le> length plans \<Longrightarrow> \<exists>plans'. foldl (\<lambda>acc vi. Option.bind acc (\<lambda>plans. f plans vi)) (Some plans) [0..<k] = Some plans' \<and>
    length plans' = length plans \<and> (\<forall>vi<length plans. if vi < k then R vi (plans' ! vi) (plans ! vi) else plans' ! vi = plans ! vi)"
proof (induction k)
  case 0
  then show ?case by simp
next
  case (Suc k)
  then obtain plans1 where p1: "foldl (\<lambda>acc vi. Option.bind acc (\<lambda>plans. f plans vi)) (Some plans) [0..<k] = Some plans1"
    "length plans1 = length plans"
    "\<forall>vi<length plans. if vi < k then R vi (plans1 ! vi) (plans ! vi) else plans1 ! vi = plans ! vi" by auto
  from Suc.prems p1(2) assms [of k plans1] obtain pl where "f plans1 k = Some (plans1[k := pl])" "R k pl (plans1 ! k)" by auto
  with p1 Suc.prems show ?case by (auto simp: nth_list_update less_Suc_eq)
qed

lemma twoOptImprove_spec:
  "\<exists>plans'. twoOptImprove gm p sol = Some \<lparr>s_Plans = plans', s_Cost = cost gm p plans'\<rparr> \<and>
     length plans' = length (s_Plans sol) \<and>
     (\<forall>vi<length plans'. two_opt_done gm p (p_Vehicles p ! vi) (plans' ! vi) (s_Plans sol ! vi))"
proof -
  have "\<exists>pl. two_opt_vehicle gm p plans vi = Some (plans[vi := pl]) \<and> two_opt_done gm p (p_Vehicles p ! vi) pl (plans ! vi)" for plans vi
    using two_opt_descends [of gm p "p_Vehicles p ! vi" "plans ! vi"] by (auto simp: two_opt_vehicle_def)
  from fold_vehicles [of "two_opt_vehicle gm p" "\<lambda>vi. two_opt_done gm p (p_Vehicles p ! vi)" "length (s_Plans sol)" "s_Plans sol", OF this]
  show ?thesis by (auto simp: twoOptImprove_def)
qed

end
