(* ===== verification/Opt_Exchange.thy ===== *)
theory Opt_Exchange
  imports Opt_Two_Opt
begin

text \<open>
  The inter-route searches of \<^verbatim>\<open>alns_engine.go\<close>: \<^verbatim>\<open>crossExchangeImprove\<close> swaps single nodes,
  \<^verbatim>\<open>twoOptStarImprove\<close> swaps segments of one or two nodes. Their loops are the same text around
  different candidates: for each pair of plans \<open>a < b\<close>, with both plans read once at the start of the
  pair, every candidate that is feasible and shortens the two paths by more than \<open>1e-6\<close> is written
  over the pair. \<open>exchange_pass\<close> is that text with the candidates as argument.

  The segments of 2-opt* are spliced with nested calls of \<^verbatim>\<open>append\<close> on slices of one array:
  the inner call overwrites the array from position \<open>i\<close> on before the outer one reads the tail from
  position \<open>i + l\<close> on (\<open>splice\<close>). When the array is too small for the inner call it is copied, and
  then the tail is empty, so the result does not depend on the capacity.
\<close>

section \<open>The shared loop\<close>

definition try_exchange :: "gomath \<Rightarrow> Problem \<Rightarrow> nat \<Rightarrow> nat \<Rightarrow> RoutePlan \<Rightarrow> RoutePlan \<Rightarrow> RoutePlan list \<times> bool
    \<Rightarrow> RoutePlan \<times> RoutePlan \<Rightarrow> RoutePlan list \<times> bool" where
  "try_exchange gm p a b pa pb acc cand =
     (case acc of (plans, improved) \<Rightarrow> case cand of (ca, cb) \<Rightarrow>
        if \<not> snd (schedulePlan gm p ca (p_Vehicles p ! a)) then (plans, improved)
        else if \<not> snd (schedulePlan gm p cb (p_Vehicles p ! b)) then (plans, improved)
        else let before = pathDistanceNodes gm p pa + pathDistanceNodes gm p pb;
                 after = pathDistanceNodes gm p ca + pathDistanceNodes gm p cb
          in if after + lit (1 / 10 ^ 6) < before then (plans[a := ca, b := cb], True) else (plans, improved))"

type_synonym candidates = "RoutePlan \<Rightarrow> RoutePlan \<Rightarrow> (RoutePlan \<times> RoutePlan) list"

definition exchange_pair :: "candidates \<Rightarrow> gomath \<Rightarrow> Problem \<Rightarrow> RoutePlan list \<times> bool \<Rightarrow> nat \<times> nat \<Rightarrow> RoutePlan list \<times> bool" where
  "exchange_pair cands gm p acc ab =
     (case ab of (a, b) \<Rightarrow>
        let pa = fst acc ! a; pb = fst acc ! b
        in foldl (try_exchange gm p a b pa pb) acc (cands pa pb))"

definition exchange_pass :: "candidates \<Rightarrow> gomath \<Rightarrow> Problem \<Rightarrow> RoutePlan list \<Rightarrow> RoutePlan list \<times> bool" where
  "exchange_pass cands gm p plans = foldl (exchange_pair cands gm p) (plans, False) (index_pairs (length plans))"

definition exchange_improve :: "candidates \<Rightarrow> gomath \<Rightarrow> Problem \<Rightarrow> Solution \<Rightarrow> Solution option" where
  "exchange_improve cands gm p sol =
     (if length (s_Plans sol) < 2 then Some sol
      else map_option (\<lambda>plans. \<lparr>s_Plans = plans, s_Cost = cost gm p plans\<rparr>) (descend (exchange_pass cands gm p) (s_Plans sol)))"

section \<open>The candidates\<close>

definition cross_candidates :: candidates where
  "cross_candidates pa pb = concat (map (\<lambda>i. map (\<lambda>j.
     (\<lparr>pl_VehicleID = pl_VehicleID pa, pl_Order = (pl_Order pa)[i := pl_Order pb ! j]\<rparr>,
      \<lparr>pl_VehicleID = pl_VehicleID pb, pl_Order = (pl_Order pb)[j := pl_Order pa ! i]\<rparr>))
     [0..<length (pl_Order pb)]) [0..<length (pl_Order pa)])"

definition splice :: "nat list \<Rightarrow> nat \<Rightarrow> nat \<Rightarrow> nat list \<Rightarrow> nat list" where
  "splice xs i l seg =
     (let written = take (length xs) (take i xs @ seg @ drop (i + length seg) xs)
      in (take i xs @ seg) @ drop (i + l) written)"

definition segment_lengths :: "nat \<Rightarrow> nat \<Rightarrow> nat list" where
  "segment_lengths i n = filter (\<lambda>l. i + l \<le> n) [1, 2]"

definition star_candidate :: "RoutePlan \<Rightarrow> RoutePlan \<Rightarrow> nat \<Rightarrow> nat \<Rightarrow> nat \<Rightarrow> nat \<Rightarrow> RoutePlan \<times> RoutePlan" where
  "star_candidate pa pb i j la lb =
     (let segA = take la (drop i (pl_Order pa)); segB = take lb (drop j (pl_Order pb))
      in (\<lparr>pl_VehicleID = pl_VehicleID pa, pl_Order = splice (pl_Order pa) i la segB\<rparr>,
          \<lparr>pl_VehicleID = pl_VehicleID pb, pl_Order = splice (pl_Order pb) j lb segA\<rparr>))"

definition star_candidates :: candidates where
  "star_candidates pa pb =
     concat (map (\<lambda>i. concat (map (\<lambda>j. concat (map (\<lambda>la. map (\<lambda>lb. star_candidate pa pb i j la lb)
       (segment_lengths j (length (pl_Order pb)))) (segment_lengths i (length (pl_Order pa)))))
       [0..<length (pl_Order pb)])) [0..<length (pl_Order pa)])"

definition crossExchangeImprove :: "gomath \<Rightarrow> Problem \<Rightarrow> Solution \<Rightarrow> Solution option" where
  "crossExchangeImprove gm p sol = exchange_improve cross_candidates gm p sol"

definition twoOptStarImprove :: "gomath \<Rightarrow> Problem \<Rightarrow> Solution \<Rightarrow> Solution option" where
  "twoOptStarImprove gm p sol = exchange_improve star_candidates gm p sol"

section \<open>What a pass does\<close>

text \<open>The sum of the path lengths, as exact numbers: what every accepted exchange lowers.\<close>

definition path_sum :: "gomath \<Rightarrow> Problem \<Rightarrow> RoutePlan list \<Rightarrow> rat" where
  "path_sum gm p plans = sum_list (map (\<lambda>pl. f_val (pathDistanceNodes gm p pl)) plans)"

text \<open>One accepted exchange.\<close>

definition exchanged_at :: "candidates \<Rightarrow> gomath \<Rightarrow> Problem \<Rightarrow> nat \<Rightarrow> nat \<Rightarrow> RoutePlan list \<Rightarrow> RoutePlan list \<Rightarrow> bool" where
  "exchanged_at cands gm p a b plans' plans \<longleftrightarrow> a < b \<and> b < length plans \<and> (\<exists>ca cb.
     (ca, cb) \<in> set (cands (plans ! a) (plans ! b)) \<and> plans' = plans[a := ca, b := cb] \<and>
     snd (schedulePlan gm p ca (p_Vehicles p ! a)) \<and> snd (schedulePlan gm p cb (p_Vehicles p ! b)) \<and>
     f_val (pathDistanceNodes gm p ca) + f_val (pathDistanceNodes gm p cb)
       < f_val (pathDistanceNodes gm p (plans ! a)) + f_val (pathDistanceNodes gm p (plans ! b)))"

definition exchanged :: "candidates \<Rightarrow> gomath \<Rightarrow> Problem \<Rightarrow> RoutePlan list \<Rightarrow> RoutePlan list \<Rightarrow> bool" where
  "exchanged cands gm p plans' plans \<longleftrightarrow> (\<exists>a b. exchanged_at cands gm p a b plans' plans)"

lemma sum_list_two_updates:
  fixes f :: "'a \<Rightarrow> rat"
  assumes "a < b" and "b < length xs" and "f x + f y < f (xs ! a) + f (xs ! b)"
  shows "sum_list (map f (xs[a := x, b := y])) < sum_list (map f xs)"
proof -
  have u: "i < length zs \<Longrightarrow> sum_list (map f (zs[i := z])) = sum_list (map f zs) + f z - f (zs ! i)" for zs :: "'a list" and i z
    by (induction zs arbitrary: i) (auto split: nat.split)
  show ?thesis using assms by (simp add: u)
qed

lemma exchanged_path_sum: "exchanged cands gm p plans' plans \<Longrightarrow> path_sum gm p plans' < path_sum gm p plans"
  unfolding exchanged_def exchanged_at_def path_sum_def using sum_list_two_updates [of _ _ plans "\<lambda>pl. f_val (pathDistanceNodes gm p pl)"] by blast

lemma try_exchange_cases:
  fixes pa pb :: RoutePlan
  shows "try_exchange gm p a b pa pb (plans, im) (ca, cb) = (plans, im) \<or>
   try_exchange gm p a b pa pb (plans, im) (ca, cb) = (plans[a := ca, b := cb], True) \<and>
     snd (schedulePlan gm p ca (p_Vehicles p ! a)) \<and> snd (schedulePlan gm p cb (p_Vehicles p ! b)) \<and>
     f_val (pathDistanceNodes gm p ca) + f_val (pathDistanceNodes gm p cb)
       < f_val (pathDistanceNodes gm p pa) + f_val (pathDistanceNodes gm p pb)"
  using add_lit_sum_less_imp [of "pathDistanceNodes gm p pa" "pathDistanceNodes gm p pb" "pathDistanceNodes gm p ca" "pathDistanceNodes gm p cb" "1 / 10 ^ 6"]
  by (auto simp: try_exchange_def Let_def)

text \<open>A pair leaves the plans alone or makes one exchange (the last accepted candidate).\<close>

lemma exchange_pair_cases:
  assumes "a < b" and "b < length plans"
  shows "exchange_pair cands gm p (plans, im) (a, b) = (plans, im) \<or>
    (\<exists>plans'. exchange_pair cands gm p (plans, im) (a, b) = (plans', True) \<and> exchanged_at cands gm p a b plans' plans)"
proof -
  let ?P = "\<lambda>acc. acc = (plans, im) \<or> snd acc \<and> exchanged_at cands gm p a b (fst acc) plans"
  have "?P (foldl (try_exchange gm p a b (plans ! a) (plans ! b)) (plans, im) (cands (plans ! a) (plans ! b)))"
  proof (rule foldl_inv [where P = ?P])
    fix acc c
    assume acc: "?P acc" and c: "c \<in> set (cands (plans ! a) (plans ! b))"
    obtain ps im1 where a: "acc = (ps, im1)" by (cases acc)
    obtain ca cb where cc: "c = (ca, cb)" by (cases c)
    have up: "ps[a := ca, b := cb] = plans[a := ca, b := cb]"
      using acc assms by (auto simp: a exchanged_at_def list_update_swap)
    from try_exchange_cases [of gm p a b "plans ! a" "plans ! b" ps im1 ca cb, unfolded up]
    show "?P (try_exchange gm p a b (plans ! a) (plans ! b) acc c)"
    proof (elim disjE)
      assume "try_exchange gm p a b (plans ! a) (plans ! b) (ps, im1) (ca, cb) = (ps, im1)"
      with acc show ?thesis by (simp add: a cc)
    next
      assume t: "try_exchange gm p a b (plans ! a) (plans ! b) (ps, im1) (ca, cb) = (plans[a := ca, b := cb], True) \<and>
        snd (schedulePlan gm p ca (p_Vehicles p ! a)) \<and> snd (schedulePlan gm p cb (p_Vehicles p ! b)) \<and>
        f_val (pathDistanceNodes gm p ca) + f_val (pathDistanceNodes gm p cb)
          < f_val (pathDistanceNodes gm p (plans ! a)) + f_val (pathDistanceNodes gm p (plans ! b))"
      then have "exchanged_at cands gm p a b (plans[a := ca, b := cb]) plans"
        unfolding exchanged_at_def using assms c cc by blast
      with t show ?thesis by (simp add: a cc)
    qed
  qed simp
  then show ?thesis by (auto simp: exchange_pair_def Let_def) (metis prod.collapse)
qed

text \<open>A pass is a chain of exchanges, and the flag says whether there was one.\<close>

lemma exchanged_length: "exchanged cands gm p plans' plans \<Longrightarrow> length plans' = length plans"
  by (auto simp: exchanged_def exchanged_at_def)

lemma exchanges_length: "(exchanged cands gm p)\<^sup>+\<^sup>+ plans' plans \<Longrightarrow> length plans' = length plans"
  by (induction rule: tranclp.induct) (auto dest: exchanged_length)

lemma exchanges_path_sum: "(exchanged cands gm p)\<^sup>+\<^sup>+ plans' plans \<Longrightarrow> path_sum gm p plans' < path_sum gm p plans"
  by (induction rule: tranclp.induct) (auto dest: exchanged_path_sum)

definition pass_result :: "candidates \<Rightarrow> gomath \<Rightarrow> Problem \<Rightarrow> RoutePlan list \<Rightarrow> RoutePlan list \<times> bool \<Rightarrow> bool" where
  "pass_result cands gm p plans acc \<longleftrightarrow> (if snd acc then (exchanged cands gm p)\<^sup>+\<^sup>+ (fst acc) plans else fst acc = plans)"

lemma exchange_pass_result: "pass_result cands gm p plans (exchange_pass cands gm p plans)"
  unfolding exchange_pass_def
proof (rule foldl_inv [where P = "pass_result cands gm p plans"])
  show "pass_result cands gm p plans (plans, False)" by (simp add: pass_result_def)
next
  fix acc ab
  assume acc: "pass_result cands gm p plans acc" and ab: "ab \<in> set (index_pairs (length plans))"
  obtain ps im where a: "acc = (ps, im)" by (cases acc)
  have "length ps = length plans" using acc by (auto simp: a pass_result_def dest: exchanges_length split: if_splits)
  with ab have "fst ab < snd ab" "snd ab < length ps" by (auto simp: set_index_pairs)
  from exchange_pair_cases [OF this, of cands gm p im]
  show "pass_result cands gm p plans (exchange_pair cands gm p acc ab)"
  proof (elim disjE exE conjE)
    fix ps'
    assume e: "exchange_pair cands gm p (ps, im) (fst ab, snd ab) = (ps', True)" "exchanged_at cands gm p (fst ab) (snd ab) ps' ps"
    then have "exchanged cands gm p ps' ps" by (auto simp: exchanged_def)
    with acc e show ?thesis by (auto simp: a pass_result_def split: if_splits intro: tranclp_into_tranclp2)
  qed (use acc in \<open>simp add: a\<close>)
qed

section \<open>The contract of the candidates\<close>

text \<open>
  Candidates keep the vehicles, invent no node, and keep the number of nodes of the two plans
  together. That is enough for the search to end.
\<close>

locale exchange_operator =
  fixes cands :: candidates
  assumes cands_ids: "(ca, cb) \<in> set (cands pa pb) \<Longrightarrow> pl_VehicleID ca = pl_VehicleID pa \<and> pl_VehicleID cb = pl_VehicleID pb"
    and cands_nodes: "(ca, cb) \<in> set (cands pa pb) \<Longrightarrow>
      set (pl_Order ca) \<union> set (pl_Order cb) \<subseteq> set (pl_Order pa) \<union> set (pl_Order pb)"
    and cands_length: "(ca, cb) \<in> set (cands pa pb) \<Longrightarrow>
      length (pl_Order ca) + length (pl_Order cb) = length (pl_Order pa) + length (pl_Order pb)"
begin

lemma exchanged_plans_over:
  assumes "exchanged cands gm p plans' plans" and "plans_over ids A n plans"
  shows "plans_over ids A n plans'"
proof -
  from assms(1) obtain a b ca cb where x: "a < b" "b < length plans" "(ca, cb) \<in> set (cands (plans ! a) (plans ! b))"
    "plans' = plans[a := ca, b := cb]" by (auto simp: exchanged_def exchanged_at_def)
  have ids: "map pl_VehicleID plans' = ids"
    using assms(2) cands_ids [OF x(3)] x by (simp add: plans_over_def map_VehicleID_update)
  have m: "mset (plan_nodes plans') + mset (pl_Order (plans ! a)) + mset (pl_Order (plans ! b)) =
      mset (plan_nodes plans) + mset (pl_Order ca) + mset (pl_Order cb)"
  proof -
    have A: "mset (plan_nodes (plans[a := ca])) + mset (pl_Order (plans ! a)) = mset (plan_nodes plans) + mset (pl_Order ca)"
      using mset_plan_nodes_update [of a plans ca] x by simp
    have B: "mset (plan_nodes plans') + mset (pl_Order (plans ! b)) = mset (plan_nodes (plans[a := ca])) + mset (pl_Order cb)"
      using mset_plan_nodes_update [of b "plans[a := ca]" cb] x by simp
    have "mset (plan_nodes plans') + mset (pl_Order (plans ! a)) + mset (pl_Order (plans ! b)) =
        (mset (plan_nodes plans') + mset (pl_Order (plans ! b))) + mset (pl_Order (plans ! a))"
      by (simp only: ac_simps)
    also have "\<dots> = (mset (plan_nodes (plans[a := ca])) + mset (pl_Order (plans ! a))) + mset (pl_Order cb)"
      unfolding B by (simp only: ac_simps)
    finally show ?thesis unfolding A .
  qed
  have "size (mset (plan_nodes plans') + mset (pl_Order (plans ! a)) + mset (pl_Order (plans ! b))) =
      size (mset (plan_nodes plans) + mset (pl_Order ca) + mset (pl_Order cb))" by (simp only: m)
  then have l: "length (plan_nodes plans') = length (plan_nodes plans)" using cands_length [OF x(3)] by simp
  have "set_mset (mset (plan_nodes plans')) \<subseteq> set_mset (mset (plan_nodes plans) + mset (pl_Order ca) + mset (pl_Order cb))"
    unfolding m [symmetric] by auto
  then have "set (plan_nodes plans') \<subseteq> set (plan_nodes plans) \<union> (set (pl_Order ca) \<union> set (pl_Order cb))" by auto
  also have "\<dots> \<subseteq> set (plan_nodes plans)"
    using cands_nodes [OF x(3)] pl_Order_in_plan_nodes [of "plans ! a" plans] pl_Order_in_plan_nodes [of "plans ! b" plans] x by auto
  finally show ?thesis using ids l assms(2) by (auto simp: plans_over_def)
qed

lemma exchanges_plans_over:
  "(exchanged cands gm p)\<^sup>+\<^sup>+ plans' plans \<Longrightarrow> plans_over ids A n plans \<Longrightarrow> plans_over ids A n plans'"
  by (induction rule: tranclp_induct) (auto intro: exchanged_plans_over)

end

sublocale exchange_operator \<subseteq> search: improvement "exchange_pass cands gm p" "plans_over ids {..<k} n" "(exchanged cands gm p)\<^sup>+\<^sup>+"
  for gm p ids k n
proof
  show "finite (Collect (plans_over ids {..<k} n))" by (rule finite_plans_over) simp
next
  fix s
  assume s: "plans_over ids {..<k} n s"
  show "plans_over ids {..<k} n (fst (exchange_pass cands gm p s))"
    using exchange_pass_result [of cands gm p s] s exchanges_plans_over by (auto simp: pass_result_def split: if_splits)
  show "snd (exchange_pass cands gm p s) \<Longrightarrow> (exchanged cands gm p)\<^sup>+\<^sup>+ (fst (exchange_pass cands gm p s)) s"
    "\<not> snd (exchange_pass cands gm p s) \<Longrightarrow> fst (exchange_pass cands gm p s) = s"
    using exchange_pass_result [of cands gm p s] by (auto simp: pass_result_def split: if_splits)
next
  show "(exchanged cands gm p)\<^sup>+\<^sup>+ a b \<Longrightarrow> (exchanged cands gm p)\<^sup>+\<^sup>+ b c \<Longrightarrow> (exchanged cands gm p)\<^sup>+\<^sup>+ a c" for a b c
    by (rule tranclp_trans)
  show "\<not> (exchanged cands gm p)\<^sup>+\<^sup>+ a a" for a using exchanges_path_sum by blast
qed

text \<open>The search returns: at plans no candidate improves, reached by exchanges.\<close>

context exchange_operator
begin

lemma exchange_improve_returns:
  "\<exists>plans'. exchange_improve cands gm p sol =
      Some (if length (s_Plans sol) < 2 then sol else \<lparr>s_Plans = plans', s_Cost = cost gm p plans'\<rparr>) \<and>
    (plans' = s_Plans sol \<or> (exchanged cands gm p)\<^sup>+\<^sup>+ plans' (s_Plans sol)) \<and>
    (2 \<le> length (s_Plans sol) \<longrightarrow> exchange_pass cands gm p plans' = (plans', False))"
proof (cases "length (s_Plans sol) < 2")
  case True
  then show ?thesis by (auto simp: exchange_improve_def)
next
  case False
  have "set (plan_nodes (s_Plans sol)) \<subseteq> {..<Suc (Max (insert 0 (set (plan_nodes (s_Plans sol)))))}"
    by (auto simp: less_Suc_eq_le)
  then have "plans_over (map pl_VehicleID (s_Plans sol)) {..<Suc (Max (insert 0 (set (plan_nodes (s_Plans sol)))))}
      (length (plan_nodes (s_Plans sol))) (s_Plans sol)" by (simp add: plans_over_def)
  from search.descend_returns [OF this, of gm p] False show ?thesis by (auto simp: exchange_improve_def)
qed

end

lemma exchanges_feasible:
  assumes "(exchanged cands gm p)\<^sup>+\<^sup>+ plans' plans"
  shows "\<forall>vi<length plans. plans' ! vi = plans ! vi \<or> snd (schedulePlan gm p (plans' ! vi) (p_Vehicles p ! vi))"
proof -
  have one: "\<forall>vi<length z. y ! vi = z ! vi \<or> snd (schedulePlan gm p (y ! vi) (p_Vehicles p ! vi))"
    if "exchanged cands gm p y z" for y z
    using that by (auto simp: exchanged_def exchanged_at_def nth_list_update)
  show ?thesis using assms
  proof (induction rule: tranclp_induct)
    case (base z)
    then show ?case by (rule one)
  next
    case (step y z)
    then show ?case using one [OF step(2)] exchanged_length [OF step(2)] by metis
  qed
qed

section \<open>Cross exchange\<close>

lemma set_cross_candidates:
  "(ca, cb) \<in> set (cross_candidates pa pb) \<Longrightarrow> (\<exists>i j. i < length (pl_Order pa) \<and> j < length (pl_Order pb) \<and>
     ca = \<lparr>pl_VehicleID = pl_VehicleID pa, pl_Order = (pl_Order pa)[i := pl_Order pb ! j]\<rparr> \<and>
     cb = \<lparr>pl_VehicleID = pl_VehicleID pb, pl_Order = (pl_Order pb)[j := pl_Order pa ! i]\<rparr>)"
  unfolding cross_candidates_def in_set_concat_map in_set_map by (simp add: Bex_def)

lemma mset_update_add: "i < length xs \<Longrightarrow> add_mset (xs ! i) (mset (xs[i := x])) = add_mset x (mset xs)"
  by (simp add: mset_update)

lemma cross_candidates_mset:
  assumes "(ca, cb) \<in> set (cross_candidates pa pb)"
  shows "mset (pl_Order ca) + mset (pl_Order cb) = mset (pl_Order pa) + mset (pl_Order pb) \<and>
    length (pl_Order ca) = length (pl_Order pa) \<and> length (pl_Order cb) = length (pl_Order pb) \<and>
    pl_VehicleID ca = pl_VehicleID pa \<and> pl_VehicleID cb = pl_VehicleID pb"
proof -
  obtain i j where ij: "i < length (pl_Order pa)" "j < length (pl_Order pb)"
    and ca: "ca = \<lparr>pl_VehicleID = pl_VehicleID pa, pl_Order = (pl_Order pa)[i := pl_Order pb ! j]\<rparr>"
    and cb: "cb = \<lparr>pl_VehicleID = pl_VehicleID pb, pl_Order = (pl_Order pb)[j := pl_Order pa ! i]\<rparr>"
    using set_cross_candidates [OF assms] by blast
  define x y where "x = pl_Order pa ! i" and "y = pl_Order pb ! j"
  have "add_mset x (mset (pl_Order ca)) = add_mset y (mset (pl_Order pa))"
    "add_mset y (mset (pl_Order cb)) = add_mset x (mset (pl_Order pb))"
    using mset_update_add [OF ij(1), of y] mset_update_add [OF ij(2), of x] by (simp_all add: ca cb x_def y_def)
  then have "add_mset x (mset (pl_Order ca)) + add_mset y (mset (pl_Order cb)) =
      add_mset y (mset (pl_Order pa)) + add_mset x (mset (pl_Order pb))" by simp
  then have "mset (pl_Order ca) + mset (pl_Order cb) = mset (pl_Order pa) + mset (pl_Order pb)"
    by (simp add: add_mset_commute)
  then show ?thesis by (simp add: ca cb)
qed

interpretation cross: exchange_operator cross_candidates
proof
  fix ca cb pa pb
  assume c: "(ca, cb) \<in> set (cross_candidates pa pb)"
  note m = cross_candidates_mset [OF c]
  from m show "pl_VehicleID ca = pl_VehicleID pa \<and> pl_VehicleID cb = pl_VehicleID pb"
    "length (pl_Order ca) + length (pl_Order cb) = length (pl_Order pa) + length (pl_Order pb)" by simp_all
  have "set_mset (mset (pl_Order ca) + mset (pl_Order cb)) = set_mset (mset (pl_Order pa) + mset (pl_Order pb))"
    using m by simp
  then show "set (pl_Order ca) \<union> set (pl_Order cb) \<subseteq> set (pl_Order pa) \<union> set (pl_Order pb)" by simp
qed

text \<open>A cross exchange permutes the nodes and leaves the size of every plan.\<close>

lemma cross_exchanged_keeps:
  assumes "exchanged cross_candidates gm p plans' plans"
  shows "mset (plan_nodes plans') = mset (plan_nodes plans) \<and> plan_sizes plans' = plan_sizes plans \<and>
    map pl_VehicleID plans' = map pl_VehicleID plans"
proof -
  from assms obtain a b ca cb where x: "a < b" "b < length plans" "(ca, cb) \<in> set (cross_candidates (plans ! a) (plans ! b))"
    "plans' = plans[a := ca, b := cb]" by (auto simp: exchanged_def exchanged_at_def)
  note m = cross_candidates_mset [OF x(3)]
  have A: "mset (plan_nodes (plans[a := ca])) + mset (pl_Order (plans ! a)) = mset (plan_nodes plans) + mset (pl_Order ca)"
    using mset_plan_nodes_update [of a plans ca] x by simp
  have B: "mset (plan_nodes plans') + mset (pl_Order (plans ! b)) = mset (plan_nodes (plans[a := ca])) + mset (pl_Order cb)"
    using mset_plan_nodes_update [of b "plans[a := ca]" cb] x by simp
  have "mset (plan_nodes plans') + (mset (pl_Order (plans ! a)) + mset (pl_Order (plans ! b))) =
      (mset (plan_nodes (plans[a := ca])) + mset (pl_Order (plans ! a))) + mset (pl_Order cb)"
    using B by (metis add.assoc add.commute)
  also have "\<dots> = mset (plan_nodes plans) + (mset (pl_Order ca) + mset (pl_Order cb))" unfolding A by (simp only: ac_simps)
  finally have "mset (plan_nodes plans') = mset (plan_nodes plans)" using m by simp
  moreover have "plan_sizes plans' = plan_sizes plans"
    using m x by (simp add: plan_sizes_update)
  moreover have "map pl_VehicleID plans' = map pl_VehicleID plans" using m x by (simp add: map_VehicleID_update)
  ultimately show ?thesis by simp
qed

lemma cross_exchanges_keep:
  "(exchanged cross_candidates gm p)\<^sup>+\<^sup>+ plans' plans \<Longrightarrow>
   mset (plan_nodes plans') = mset (plan_nodes plans) \<and> plan_sizes plans' = plan_sizes plans \<and>
   map pl_VehicleID plans' = map pl_VehicleID plans"
proof (induction rule: tranclp_induct)
  case (base z)
  then show ?case by (rule cross_exchanged_keeps)
next
  case (step y z)
  then show ?case using cross_exchanged_keeps [OF step(2)] by simp
qed

section \<open>2-opt*\<close>

lemma length_splice: "i + l \<le> length xs \<Longrightarrow> length (splice xs i l seg) = length xs + length seg - l"
  by (auto simp: splice_def Let_def)

lemma set_splice: "set (splice xs i l seg) \<subseteq> set xs \<union> set seg"
  by (auto simp: splice_def Let_def dest!: in_set_dropD in_set_takeD)

text \<open>The splice is the intended one unless the new segment is longer than the old one and a tail follows.\<close>

lemma splice_short: "length seg \<le> l \<Longrightarrow> i + l \<le> length xs \<Longrightarrow> splice xs i l seg = take i xs @ seg @ drop (i + l) xs"
  by (auto simp: splice_def Let_def drop_take min_def ac_simps)

lemma splice_long:
  assumes "i + 1 < length xs"
  shows "splice xs i 1 [x, y] = take i xs @ [x, y, y] @ drop (i + 2) xs"
  using assms by (simp add: splice_def Let_def drop_take min_def numeral_2_eq_2)

lemma splice_end: "i + 1 = length xs \<Longrightarrow> splice xs i 1 [x, y] = take i xs @ [x, y]"
  by (simp add: splice_def Let_def)

lemma set_star_candidates:
  "(ca, cb) \<in> set (star_candidates pa pb) \<Longrightarrow> \<exists>i j la lb. i + la \<le> length (pl_Order pa) \<and> j + lb \<le> length (pl_Order pb) \<and>
     la \<in> {1, 2} \<and> lb \<in> {1, 2} \<and> (ca, cb) = star_candidate pa pb i j la lb"
  unfolding star_candidates_def in_set_concat_map in_set_map segment_lengths_def set_filter
  by (elim bexE CollectE conjE, intro exI conjI, assumption, assumption, simp_all)

interpretation star: exchange_operator star_candidates
proof
  fix ca cb pa pb
  assume "(ca, cb) \<in> set (star_candidates pa pb)"
  from set_star_candidates [OF this] obtain i j la lb where
    c: "i + la \<le> length (pl_Order pa)" "j + lb \<le> length (pl_Order pb)" "la \<in> {1, 2}" "lb \<in> {1, 2}" "(ca, cb) = star_candidate pa pb i j la lb" by blast
  define segA segB where s: "segA = take la (drop i (pl_Order pa))" "segB = take lb (drop j (pl_Order pb))"
  have l: "length segA = la" "length segB = lb" using c by (auto simp: s)
  have e: "ca = \<lparr>pl_VehicleID = pl_VehicleID pa, pl_Order = splice (pl_Order pa) i la segB\<rparr>"
    "cb = \<lparr>pl_VehicleID = pl_VehicleID pb, pl_Order = splice (pl_Order pb) j lb segA\<rparr>"
    using c(5) by (simp_all add: star_candidate_def Let_def s)
  show "pl_VehicleID ca = pl_VehicleID pa \<and> pl_VehicleID cb = pl_VehicleID pb" by (simp add: e)
  show "length (pl_Order ca) + length (pl_Order cb) = length (pl_Order pa) + length (pl_Order pb)"
    using c by (simp add: e length_splice l)
  have "set segA \<subseteq> set (pl_Order pa)" "set segB \<subseteq> set (pl_Order pb)"
    by (auto simp: s dest!: in_set_takeD in_set_dropD)
  then show "set (pl_Order ca) \<union> set (pl_Order cb) \<subseteq> set (pl_Order pa) \<union> set (pl_Order pb)"
    using set_splice [of "pl_Order pa" i la segB] set_splice [of "pl_Order pb" j lb segA] by (auto simp: e)
qed

end
