(* ===== verification/Opt_Or_Opt.thy ===== *)
theory Opt_Or_Opt
  imports Opt_Exchange
begin

text \<open>
  \<^verbatim>\<open>orOptLocalImprove\<close> of \<^verbatim>\<open>alns_engine.go\<close>, the relocation of single nodes that
  \<^verbatim>\<open>regretInsert\<close> ends with, and \<^verbatim>\<open>regretInsert\<close> itself.

  The innermost loop runs \<^verbatim>\<open>j\<close> up to and including the length of the plan, but its body sets
  \<^verbatim>\<open>j\<close> back to the length of the shortened plan when it is larger; the increment then yields the
  same \<^verbatim>\<open>j\<close> again. The loop is a \<open>partial_function (option)\<close>, so that not returning is \<open>None\<close>.
\<close>

section \<open>The loops\<close>

definition relocate :: "nat list \<Rightarrow> nat \<Rightarrow> nat \<Rightarrow> nat list" where
  "relocate xs i j = (let rest = remove_nth i xs in take j rest @ [xs ! i] @ drop j rest)"

text \<open>The candidate and its effect on the best plan so far; \<open>j\<close> is already clamped.\<close>

definition or_opt_try :: "gomath \<Rightarrow> Problem \<Rightarrow> nat \<Rightarrow> RoutePlan list \<Rightarrow> RoutePlan \<Rightarrow> nat \<Rightarrow> nat
    \<Rightarrow> RoutePlan \<times> f64 \<Rightarrow> RoutePlan \<times> f64" where
  "or_opt_try gm p vi plans pl i j st =
     (case st of (best, bestCost) \<Rightarrow>
        let cand = \<lparr>pl_VehicleID = pl_VehicleID pl, pl_Order = relocate (pl_Order pl) i j\<rparr>
        in if \<not> snd (schedulePlan gm p cand (p_Vehicles p ! vi)) then (best, bestCost)
           else let c = cost gm p (plans[vi := cand])
             in if c + lit (1 / 10 ^ 6) < bestCost then (cand, c) else (best, bestCost))"

partial_function (option) or_opt_j :: "gomath \<Rightarrow> Problem \<Rightarrow> nat \<Rightarrow> RoutePlan list \<Rightarrow> RoutePlan \<Rightarrow> nat \<Rightarrow> nat
    \<Rightarrow> RoutePlan \<times> f64 \<Rightarrow> (RoutePlan \<times> f64) option" where
  "or_opt_j gm p vi plans pl i j st =
     (if length (pl_Order pl) < j then Some st
      else if j = i \<or> j = i + 1 then or_opt_j gm p vi plans pl i (j + 1) st
      else let shortened = length (pl_Order pl) - 1;
               j' = (if shortened < j then shortened else j)
        in or_opt_j gm p vi plans pl i (j' + 1) (or_opt_try gm p vi plans pl i j' st))"

definition or_opt_vehicle :: "gomath \<Rightarrow> Problem \<Rightarrow> RoutePlan list \<times> bool \<Rightarrow> nat \<Rightarrow> (RoutePlan list \<times> bool) option" where
  "or_opt_vehicle gm p acc vi =
     (case acc of (plans, improved) \<Rightarrow>
        let pl = plans ! vi in
        case foldl (\<lambda>st i. Option.bind st (or_opt_j gm p vi plans pl i 0)) (Some (pl, max_float)) [0..<length (pl_Order pl)] of
          None \<Rightarrow> None
        | Some (best, bestCost) \<Rightarrow>
            if bestCost + lit (1 / 10 ^ 6) < cost gm p plans then Some (plans[vi := best], True) else Some (plans, improved))"

definition or_opt_pass :: "gomath \<Rightarrow> Problem \<Rightarrow> RoutePlan list \<Rightarrow> (RoutePlan list \<times> bool) option" where
  "or_opt_pass gm p plans =
     foldl (\<lambda>acc vi. Option.bind acc (\<lambda>acc. or_opt_vehicle gm p acc vi)) (Some (plans, False)) [0..<length plans]"

partial_function (option) or_opt_loop :: "gomath \<Rightarrow> Problem \<Rightarrow> RoutePlan list \<Rightarrow> RoutePlan list option" where
  "or_opt_loop gm p plans =
     (case or_opt_pass gm p plans of
        None \<Rightarrow> None
      | Some (plans', improved) \<Rightarrow> if improved then or_opt_loop gm p plans' else Some plans')"

definition orOptLocalImprove :: "gomath \<Rightarrow> Problem \<Rightarrow> Solution \<Rightarrow> Solution option" where
  "orOptLocalImprove gm p sol =
     map_option (\<lambda>plans. \<lparr>s_Plans = plans, s_Cost = cost gm p plans\<rparr>) (or_opt_loop gm p (s_Plans sol))"

definition regretInsert :: "gomath \<Rightarrow> Problem \<Rightarrow> Solution \<Rightarrow> nat list \<Rightarrow> Solution option" where
  "regretInsert gm p sol removed =
     (if removed = [] then Some sol
      else let plans = insert_loop Regret2 gm p (s_Plans sol) removed
        in orOptLocalImprove gm p \<lparr>s_Plans = plans, s_Cost = cost gm p plans\<rparr>)"

section \<open>It does not return\<close>

text \<open>From any \<open>j\<close> within the plan, for a node that is not the last, \<open>j\<close> stays within the plan.\<close>

lemma or_opt_j_diverges:
  assumes "i + 1 < length (pl_Order pl)" and "j \<le> length (pl_Order pl)"
  shows "or_opt_j gm p vi plans pl i j st = None"
proof (cases "or_opt_j gm p vi plans pl i j st")
  case (Some y)
  have "i + 1 < length (pl_Order pl) \<longrightarrow> j \<le> length (pl_Order pl) \<longrightarrow> False"
  proof (rule or_opt_j.raw_induct [OF _ Some, where
      P = "\<lambda>gm p vi plans pl i j st y. i + 1 < length (pl_Order pl) \<longrightarrow> j \<le> length (pl_Order pl) \<longrightarrow> False"])
    fix f gm p vi plans pl i j st y
    assume ih: "\<And>gm p vi plans pl i j st y. f gm p vi plans pl i j st = Some y \<Longrightarrow>
        i + 1 < length (pl_Order pl) \<longrightarrow> j \<le> length (pl_Order pl) \<longrightarrow> False"
      and r: "(if length (pl_Order pl) < j then Some st
        else if j = i \<or> j = i + 1 then f gm p vi plans pl i (j + 1) st
        else let shortened = length (pl_Order pl) - 1; j' = (if shortened < j then shortened else j)
          in f gm p vi plans pl i (j' + 1) (or_opt_try gm p vi plans pl i j' st)) = Some y"
    show "i + 1 < length (pl_Order pl) \<longrightarrow> j \<le> length (pl_Order pl) \<longrightarrow> False"
    proof (intro impI)
      assume i: "i + 1 < length (pl_Order pl)" and j: "j \<le> length (pl_Order pl)"
      show False
      proof (cases "j = i \<or> j = i + 1")
        case True
        with r j have "f gm p vi plans pl i (j + 1) st = Some y" by (auto split: if_splits)
        from ih [OF this] i True show False by auto
      next
        case False
        define j' where "j' = (if length (pl_Order pl) - 1 < j then length (pl_Order pl) - 1 else j)"
        from r j False have "f gm p vi plans pl i (j' + 1) (or_opt_try gm p vi plans pl i j' st) = Some y"
          by (auto simp: Let_def j'_def)
        from ih [OF this] i j show False by (auto simp: j'_def split: if_splits)
      qed
    qed
  qed
  with assms show ?thesis by blast
qed simp

lemma foldl_bind_None: "foldl (\<lambda>acc x. Option.bind acc (f x)) None xs = None"
  by (induction xs) auto

lemma or_opt_vehicle_diverges:
  assumes "2 \<le> length (pl_Order (plans ! vi))"
  shows "or_opt_vehicle gm p (plans, im) vi = None"
proof -
  obtain rest where u: "[0..<length (pl_Order (plans ! vi))] = 0 # rest"
    using assms by (cases "length (pl_Order (plans ! vi))") (simp_all add: upt_conv_Cons del: upt_Suc)
  have "or_opt_j gm p vi plans (plans ! vi) 0 0 (plans ! vi, max_float) = None"
    by (rule or_opt_j_diverges) (use assms in auto)
  then show ?thesis by (simp add: or_opt_vehicle_def Let_def u foldl_bind_None del: upt_Suc)
qed

text \<open>A vehicle with at most one node returns, with its plan as it was.\<close>

lemma or_opt_vehicle_short:
  assumes "length (pl_Order (plans ! vi)) < 2"
  shows "or_opt_vehicle gm p (plans, im) vi =
    Some (if max_float + lit (1 / 10 ^ 6) < cost gm p plans then (plans[vi := plans ! vi], True) else (plans, im))"
proof (cases "pl_Order (plans ! vi)")
  case Nil
  then show ?thesis by (simp add: or_opt_vehicle_def Let_def)
next
  case (Cons x xs)
  with assms have l: "length (pl_Order (plans ! vi)) = 1" by simp
  have "or_opt_j gm p vi plans (plans ! vi) 0 0 st = Some st" for st
    using l by (subst or_opt_j.simps, simp, subst or_opt_j.simps, simp, subst or_opt_j.simps, simp)
  then show ?thesis by (simp add: or_opt_vehicle_def Let_def l)
qed

lemma or_opt_vehicle_keeps:
  "or_opt_vehicle gm p (plans, im) vi = Some (plans', im') \<Longrightarrow> plans' = plans"
  using or_opt_vehicle_diverges [of plans vi gm p im] or_opt_vehicle_short [of plans vi gm p im]
  by (cases "length (pl_Order (plans ! vi)) < 2") (auto split: if_splits)

lemma or_opt_pass_prefix:
  "foldl (\<lambda>acc vi. Option.bind acc (\<lambda>acc. or_opt_vehicle gm p acc vi)) (Some (plans, im)) xs = Some (plans', im') \<Longrightarrow>
   plans' = plans \<and> (\<forall>vi\<in>set xs. length (pl_Order (plans ! vi)) < 2)"
proof (induction xs arbitrary: im)
  case Nil
  then show ?case by simp
next
  case (Cons vi xs)
  from Cons.prems obtain plans1 im1 where o: "or_opt_vehicle gm p (plans, im) vi = Some (plans1, im1)"
    "foldl (\<lambda>acc vi. Option.bind acc (\<lambda>acc. or_opt_vehicle gm p acc vi)) (Some (plans1, im1)) xs = Some (plans', im')"
    by (cases "or_opt_vehicle gm p (plans, im) vi") (auto simp: foldl_bind_None)
  have "length (pl_Order (plans ! vi)) < 2" using or_opt_vehicle_diverges [of plans vi gm p im] o(1) by fastforce
  with Cons.IH o or_opt_vehicle_keeps [OF o(1)] show ?case by auto
qed

lemma or_opt_pass_keeps:
  assumes "or_opt_pass gm p plans = Some (plans', im)"
  shows "plans' = plans \<and> (\<forall>pl\<in>set plans. length (pl_Order pl) < 2)"
  using or_opt_pass_prefix [OF assms [unfolded or_opt_pass_def]] by (auto simp: in_set_conv_nth)

lemma or_opt_loop_keeps:
  assumes "or_opt_loop gm p plans = Some plans'"
  shows "plans' = plans \<and> (\<forall>pl\<in>set plans. length (pl_Order pl) < 2)"
proof (rule or_opt_loop.raw_induct [OF _ assms, where P = "\<lambda>gm p plans plans'. plans' = plans \<and> (\<forall>pl\<in>set plans. length (pl_Order pl) < 2)"])
  fix f gm p plans plans'
  assume ih: "\<And>gm p plans plans'. f gm p plans = Some plans' \<Longrightarrow> plans' = plans \<and> (\<forall>pl\<in>set plans. length (pl_Order pl) < 2)"
    and r: "(case or_opt_pass gm p plans of None \<Rightarrow> None
      | Some (plans', improved) \<Rightarrow> if improved then f gm p plans' else Some plans') = Some plans'"
  from r obtain plans1 im where o: "or_opt_pass gm p plans = Some (plans1, im)"
    "(if im then f gm p plans1 else Some plans1) = Some plans'" by (auto split: option.splits)
  from or_opt_pass_keeps [OF o(1)] o(2) ih show "plans' = plans \<and> (\<forall>pl\<in>set plans. length (pl_Order pl) < 2)"
    by (cases im) auto
qed

lemma or_opt_pass_diverges:
  assumes "vi < length plans" and "2 \<le> length (pl_Order (plans ! vi))"
  shows "or_opt_pass gm p plans = None"
proof (cases "or_opt_pass gm p plans")
  case (Some r)
  obtain plans' im' where "r = (plans', im')" by (cases r)
  with Some have "\<forall>vi\<in>set [0..<length plans]. length (pl_Order (plans ! vi)) < 2"
    using or_opt_pass_prefix unfolding or_opt_pass_def by blast
  with assms show ?thesis by force
qed simp

lemma orOptLocalImprove_diverges:
  assumes "pl \<in> set (s_Plans sol)" and "2 \<le> length (pl_Order pl)"
  shows "orOptLocalImprove gm p sol = None"
proof -
  obtain vi where "vi < length (s_Plans sol)" "s_Plans sol ! vi = pl" using assms(1) by (auto simp: in_set_conv_nth)
  with or_opt_pass_diverges [of vi "s_Plans sol" gm p] assms(2) have "or_opt_pass gm p (s_Plans sol) = None" by simp
  then show ?thesis by (simp add: orOptLocalImprove_def) (subst or_opt_loop.simps, simp)
qed

text \<open>Whenever \<open>regretInsert\<close> returns, no plan has two nodes, and the plans are those of the insertion loop.\<close>

lemma regretInsert_returns:
  assumes "regretInsert gm p sol removed = Some sol'" and "removed \<noteq> []"
  shows "s_Plans sol' = insert_loop Regret2 gm p (s_Plans sol) removed \<and>
    (\<forall>pl\<in>set (s_Plans sol'). length (pl_Order pl) < 2)"
proof -
  from assms obtain z where "or_opt_loop gm p (insert_loop Regret2 gm p (s_Plans sol) removed) = Some z" "s_Plans sol' = z"
    by (auto simp: regretInsert_def Let_def orOptLocalImprove_def)
  with or_opt_loop_keeps [OF this(1)] show ?thesis by simp
qed

lemma or_opt_pass_short:
  assumes "\<forall>pl\<in>set plans. length (pl_Order pl) < 2" and "\<not> max_float + lit (1 / 10 ^ 6) < cost gm p plans"
  shows "or_opt_pass gm p plans = Some (plans, False)"
proof -
  have "set xs \<subseteq> {..<length plans} \<Longrightarrow>
    foldl (\<lambda>acc vi. Option.bind acc (\<lambda>acc. or_opt_vehicle gm p acc vi)) (Some (plans, False)) xs = Some (plans, False)" for xs
    using assms by (induction xs) (auto simp: or_opt_vehicle_short)
  then show ?thesis by (simp add: or_opt_pass_def lessThan_atLeast0)
qed

lemma orOptLocalImprove_short:
  assumes "\<forall>pl\<in>set (s_Plans sol). length (pl_Order pl) < 2" and "\<not> max_float + lit (1 / 10 ^ 6) < cost gm p (s_Plans sol)"
  shows "orOptLocalImprove gm p sol = Some \<lparr>s_Plans = s_Plans sol, s_Cost = cost gm p (s_Plans sol)\<rparr>"
  using or_opt_pass_short [OF assms] by (simp add: orOptLocalImprove_def) (subst or_opt_loop.simps, simp)

end
