(* ===== verification/Opt_Solve.thy ===== *)
theory Opt_Solve
  imports Opt_Seed Opt_Or_Opt
begin

text \<open>
  \<^verbatim>\<open>Solve\<close> of \<^verbatim>\<open>alns_engine.go\<close>: the adaptive large neighbourhood search around the operators
  of the other theories. Parameters: the mathematical functions \<open>gm\<close>, the random source \<open>R\<close> with
  its constructor \<open>mk\<close>, the order of ranging over a map, and the clock, as the sequence of its
  readings. The loop is a \<open>partial_function (option)\<close>: an iteration may not return, and a clock that
  never reaches the deadline lets the loop run forever.

  In the source \<^verbatim>\<open>best\<close> and \<^verbatim>\<open>curr\<close> share their plans after \<^verbatim>\<open>best = curr\<close>. The sharing has
  no effect: the next iteration works on the copy \<^verbatim>\<open>removeNodes\<close> makes, except when nothing is
  removed, and then every plan is empty and no operator changes it.
\<close>

section \<open>Set-up\<close>

definition with_speed :: "Problem \<Rightarrow> Problem" where
  "with_speed p = (if p_SpeedKph p \<le> 0 then p\<lparr>p_SpeedKph := lit 50\<rparr> else p)"

definition start_weights :: "f64 list \<Rightarrow> f64 list" where
  "start_weights ws = (if length ws = 2 then [ws ! 0, ws ! 1] else [1, 1])"

definition start_temp :: "Problem \<Rightarrow> f64" where
  "start_temp p = (if 0 < p_InitialTemp p then p_InitialTemp p else 1)"

definition start_cooling :: "Problem \<Rightarrow> f64" where
  "start_cooling p = (if 0 < p_Cooling p \<and> p_Cooling p < 1 then p_Cooling p else lit (995 / 1000))"

record 'r search =
  se_curr :: Solution
  se_best :: Solution
  se_remW :: "f64 list"
  se_insW :: "f64 list"
  se_temp :: f64
  se_m :: Metrics
  se_rng :: 'r

section \<open>One iteration\<close>

definition destroy :: "gomath \<Rightarrow> 'r rng \<Rightarrow> (nat list \<Rightarrow> nat list) \<Rightarrow> Problem \<Rightarrow> Solution \<Rightarrow> nat \<Rightarrow> nat \<Rightarrow> 'r \<Rightarrow> nat list \<times> 'r" where
  "destroy gm R order p cur rop k r =
     (if rop = 0 then pickRandomNodes R order (s_Plans cur) k r
      else if rop = 1 then shawRemoval gm R p (s_Plans cur) k r else ([], r))"

definition repair :: "gomath \<Rightarrow> Problem \<Rightarrow> Solution \<Rightarrow> nat \<Rightarrow> nat list \<Rightarrow> Solution option" where
  "repair gm p cur iop removed =
     (if iop = 0 then Some (greedyInsert gm p cur removed)
      else if iop = 1 then regretInsert gm p cur removed else Some cur)"

definition local_search :: "gomath \<Rightarrow> Problem \<Rightarrow> Solution \<Rightarrow> Solution option" where
  "local_search gm p cur =
     Option.bind (twoOptImprove gm p cur) (\<lambda>cur.
     Option.bind (crossExchangeImprove gm p cur) (\<lambda>cur.
     Option.bind (twoOptStarImprove gm p cur) (\<lambda>cur.
     Some (cur\<lparr>s_Cost := cost gm p (s_Plans cur)\<rparr>))))"

text \<open>The acceptance test draws a random number only when the candidate is not better.\<close>

definition accepts :: "gomath \<Rightarrow> 'r rng \<Rightarrow> f64 \<Rightarrow> f64 \<Rightarrow> 'r \<Rightarrow> bool \<times> 'r" where
  "accepts gm R delta temp r =
     (if delta < 0 then (True, r)
      else case rg_Float64 R r of (x, r') \<Rightarrow> (x < m_exp gm (- delta / (temp + lit (1 / 10 ^ 9))), r'))"

definition penalty :: "f64 \<Rightarrow> f64" where
  "penalty w = f_max (lit (1 / 100)) (w * lit (999 / 1000))"

definition judge :: "gomath \<Rightarrow> 'r rng \<Rightarrow> nat \<Rightarrow> nat \<Rightarrow> 'r search \<Rightarrow> 'r search" where
  "judge gm R rop iop st =
     (case accepts gm R (s_Cost (se_curr st) - s_Cost (se_best st)) (se_temp st) (se_rng st) of (ok, r) \<Rightarrow>
        if ok then
          if s_Cost (se_curr st) < s_Cost (se_best st) then
            st\<lparr>se_best := se_curr st,
               se_remW := (se_remW st)[rop := se_remW st ! rop + lit (1 / 10)],
               se_insW := (se_insW st)[iop := se_insW st ! iop + lit (1 / 10)],
               se_m := (se_m st)\<lparr>mx_Improvements := mx_Improvements (se_m st) + 1, mx_BestCost := s_Cost (se_curr st)\<rparr>,
               se_rng := r\<rparr>
          else
            st\<lparr>se_remW := (se_remW st)[rop := se_remW st ! rop + lit (1 / 100)],
               se_insW := (se_insW st)[iop := se_insW st ! iop + lit (1 / 100)],
               se_m := (se_m st)\<lparr>mx_AcceptedWorse := mx_AcceptedWorse (se_m st) + 1\<rparr>,
               se_rng := r\<rparr>
        else
          st\<lparr>se_remW := (se_remW st)[rop := penalty (se_remW st ! rop)],
             se_insW := (se_insW st)[iop := penalty (se_insW st ! iop)],
             se_rng := r\<rparr>)"

definition cool_down :: "f64 \<Rightarrow> 'r search \<Rightarrow> 'r search" where
  "cool_down cool st =
     (let st = st\<lparr>se_temp := se_temp st * cool\<rparr>
      in if mx_Iterations (se_m st) mod 50 = 0
         then st\<lparr>se_m := (se_m st)\<lparr>mx_Snapshots := mx_Snapshots (se_m st) @
           [\<lparr>ws_Iteration = mx_Iterations (se_m st), ws_Removal = se_remW st, ws_Insertion = se_insW st\<rparr>]\<rparr>\<rparr>
         else st)"

definition solve_iteration :: "gomath \<Rightarrow> 'r rng \<Rightarrow> (nat list \<Rightarrow> nat list) \<Rightarrow> Problem \<Rightarrow> 'r search \<Rightarrow> 'r search option" where
  "solve_iteration gm R order p st =
     (case rg_Intn R (se_rng st) 3 of (k, r1) \<Rightarrow>
      case selectOp R (se_remW st) r1 of (rop, r2) \<Rightarrow>
      case selectOp R (se_insW st) r2 of (iop, r3) \<Rightarrow>
      case destroy gm R order p (se_curr st) rop (1 + k) r3 of (removed, r4) \<Rightarrow>
        let m = (se_m st)\<lparr>mx_RemovalSelects := (mx_RemovalSelects (se_m st))[rop := mx_RemovalSelects (se_m st) ! rop + 1],
                  mx_InsertSelects := (mx_InsertSelects (se_m st))[iop := mx_InsertSelects (se_m st) ! iop + 1]\<rparr>
        in map_option (\<lambda>cur. cool_down (start_cooling p) (judge gm R rop iop (st\<lparr>se_curr := cur, se_m := m, se_rng := r4\<rparr>)))
             (Option.bind (repair gm p (removeNodes (se_curr st) removed) iop removed) (local_search gm p)))"

section \<open>The loop\<close>

definition count_iteration :: "'r search \<Rightarrow> 'r search" where
  "count_iteration st = st\<lparr>se_m := (se_m st)\<lparr>mx_Iterations := mx_Iterations (se_m st) + 1\<rparr>\<rparr>"

partial_function (option) solve_loop :: "gomath \<Rightarrow> 'r rng \<Rightarrow> (nat list \<Rightarrow> nat list) \<Rightarrow> (nat \<Rightarrow> time) \<Rightarrow> time \<Rightarrow> Problem
    \<Rightarrow> nat \<Rightarrow> 'r search \<Rightarrow> 'r search option" where
  "solve_loop gm R order clock deadline p n st =
     (if \<not> clock n < deadline then Some st
      else let st1 = count_iteration st
        in if 0 < p_IterationsLimit p \<and> p_IterationsLimit p \<le> mx_Iterations (se_m st1) then Some st1
           else Option.bind (solve_iteration gm R order p st1) (\<lambda>st2. solve_loop gm R order clock deadline p (n + 1) st2))"

definition start_search :: "gomath \<Rightarrow> Problem \<Rightarrow> 'r \<Rightarrow> 'r search" where
  "start_search gm p r =
     (let cur = greedySeed gm p
      in \<lparr>se_curr = cur, se_best = cur,
          se_remW = start_weights (p_InitialRemovalWeights p), se_insW = start_weights (p_InitialInsertionWeights p),
          se_temp = start_temp p,
          se_m = \<lparr>mx_RemovalSelects = [0, 0], mx_InsertSelects = [0, 0], mx_Iterations = 0, mx_Improvements = 0,
                  mx_AcceptedWorse = 0, mx_BestCost = s_Cost cur, mx_FinalCost = 0, mx_FinalRemovalWeights = [0, 0],
                  mx_FinalInsertionWeights = [0, 0], mx_Snapshots = []\<rparr>,
          se_rng = r\<rparr>)"

definition finish :: "'r search \<Rightarrow> Solution \<times> Metrics" where
  "finish st = (se_best st, (se_m st)\<lparr>mx_FinalCost := s_Cost (se_best st),
     mx_FinalRemovalWeights := se_remW st, mx_FinalInsertionWeights := se_insW st\<rparr>)"

definition Solve :: "gomath \<Rightarrow> 'r rng \<Rightarrow> (int \<Rightarrow> 'r) \<Rightarrow> (nat list \<Rightarrow> nat list) \<Rightarrow> (nat \<Rightarrow> time) \<Rightarrow> Problem \<Rightarrow> int \<Rightarrow> duration
    \<Rightarrow> (Solution \<times> Metrics) option" where
  "Solve gm R mk order clock p seed timeBudget =
     (let n = (if seed = 0 then 1 else 0);
          r = mk (if seed = 0 then clock 0 - unix_epoch else seed);
          p = with_speed p
      in map_option finish (solve_loop gm R order clock (clock n + timeBudget) p (n + 1) (start_search gm p r)))"

section \<open>What an iteration keeps\<close>

text \<open>
  Plans of the problem: one per vehicle in the vehicles' order, over the problem's nodes. Whether
  each node occurs once is another matter: the 2-opt* step may lose one.
\<close>

definition fits :: "Problem \<Rightarrow> RoutePlan list \<Rightarrow> bool" where
  "fits p plans \<longleftrightarrow> map pl_VehicleID plans = map v_ID (p_Vehicles p) \<and> set (plan_nodes plans) \<subseteq> {..<length (p_Nodes p)}"

lemma fits_from:
  "fits p plans \<Longrightarrow> map pl_VehicleID plans' = map pl_VehicleID plans \<Longrightarrow> set (plan_nodes plans') \<subseteq> set (plan_nodes plans) \<Longrightarrow> fits p plans'"
  by (auto simp: fits_def)

lemma destroy_subset:
  assumes "rng_ok R" and "map_order_ok order" and "destroy gm R order p sol rop k r = (removed, r')"
  shows "set removed \<subseteq> set (plan_nodes (s_Plans sol))"
  using assms pickRandomNodes_spec [OF assms(1,2)] shawRemoval_subset [OF assms(1)]
  by (auto simp: destroy_def split: if_splits)

lemma insert_loop_fits:
  assumes "fits p (s_Plans sol)" and "set removed \<subseteq> set (plan_nodes (s_Plans sol))" and "removed \<noteq> []"
  shows "fits p (insert_loop rop gm p (s_Plans (removeNodes sol removed)) removed)"
proof -
  have "s_Plans (removeNodes sol removed) \<noteq> []" using assms(2,3) by (auto simp: removeNodes_plans)
  note i = insert_loop_nodes [OF this, of rop gm p removed]
  show ?thesis
  proof (rule fits_from [OF assms(1)])
    show "map pl_VehicleID (insert_loop rop gm p (s_Plans (removeNodes sol removed)) removed) = map pl_VehicleID (s_Plans sol)"
      using i by (simp add: removeNodes_plans comp_def)
    have "set_mset (mset (plan_nodes (insert_loop rop gm p (s_Plans (removeNodes sol removed)) removed))) =
        set_mset (mset (plan_nodes (s_Plans (removeNodes sol removed))) + mset removed)" using i by simp
    then show "set (plan_nodes (insert_loop rop gm p (s_Plans (removeNodes sol removed)) removed)) \<subseteq> set (plan_nodes (s_Plans sol))"
      using assms(2) by (auto simp: removeNodes_plans plan_nodes_filter)
  qed
qed

lemma removeNodes_fits: "fits p (s_Plans sol) \<Longrightarrow> fits p (s_Plans (removeNodes sol removed))"
  by (auto simp: fits_def removeNodes_plans plan_nodes_filter comp_def)

lemma repair_fits:
  assumes "fits p (s_Plans sol)" and "set removed \<subseteq> set (plan_nodes (s_Plans sol))"
    and "repair gm p (removeNodes sol removed) iop removed = Some sol'"
  shows "fits p (s_Plans sol')"
proof (cases "removed = [] \<or> iop \<noteq> 0 \<and> iop \<noteq> 1")
  case True
  then have "sol' = removeNodes sol removed"
    using assms(3) by (auto simp: repair_def greedyInsert_def regretInsert_def split: if_splits)
  with removeNodes_fits [OF assms(1)] show ?thesis by simp
next
  case False
  then have "\<exists>rop. s_Plans sol' = insert_loop rop gm p (s_Plans (removeNodes sol removed)) removed"
    using assms(3) regretInsert_returns [of gm p "removeNodes sol removed" removed sol']
    by (auto simp: repair_def greedyInsert_def Let_def split: if_splits)
  with insert_loop_fits [OF assms(1,2)] False show ?thesis by auto
qed

lemma length_fits: "fits p plans \<Longrightarrow> length plans = length (p_Vehicles p)"
  by (metis fits_def length_map)

text \<open>The improvement steps return, and keep the vehicles and the set of possible nodes.\<close>

lemma two_opt_keeps_nodes:
  assumes "length plans' = length plans" and "\<forall>vi<length plans'. two_opt_done gm p (p_Vehicles p ! vi) (plans' ! vi) (plans ! vi)"
  shows "mset (plan_nodes plans') = mset (plan_nodes plans) \<and> map pl_VehicleID plans' = map pl_VehicleID plans"
proof
  have e: "\<forall>vi<length plans'. mset (pl_Order (plans' ! vi)) = mset (pl_Order (plans ! vi)) \<and> pl_VehicleID (plans' ! vi) = pl_VehicleID (plans ! vi)"
    using assms(2) by (auto simp: two_opt_done_def same_ends_def)
  then show "map pl_VehicleID plans' = map pl_VehicleID plans" using assms(1) by (simp add: list_eq_iff_nth_eq)
  have "map (\<lambda>pl. mset (pl_Order pl)) plans' = map (\<lambda>pl. mset (pl_Order pl)) plans"
    using e assms(1) by (simp add: list_eq_iff_nth_eq)
  moreover have "mset (plan_nodes ps) = sum_list (map (\<lambda>pl. mset (pl_Order pl)) ps)" for ps
    by (induction ps) simp_all
  ultimately show "mset (plan_nodes plans') = mset (plan_nodes plans)" by simp
qed

lemma exchanges_fits:
  assumes "exchange_operator cands" and "(exchanged cands gm p)\<^sup>+\<^sup>+ plans' plans" and "fits p plans"
  shows "fits p plans'"
  using exchange_operator.exchanges_plans_over [OF assms(1,2), of "map pl_VehicleID plans" "set (plan_nodes plans)" "length (plan_nodes plans)"]
  by (intro fits_from [OF assms(3)]) (simp_all add: plans_over_def)

lemma exchange_improve_fits:
  assumes "exchange_operator cands" and "fits p (s_Plans sol)"
  shows "\<exists>sol'. exchange_improve cands gm p sol = Some sol' \<and> fits p (s_Plans sol')"
  using exchange_operator.exchange_improve_returns [OF assms(1), of gm p sol] exchanges_fits [OF assms(1) _ assms(2)] assms(2)
  by auto

lemma local_search_returns:
  assumes "fits p (s_Plans sol)"
  shows "\<exists>sol'. local_search gm p sol = Some sol' \<and> fits p (s_Plans sol') \<and> s_Cost sol' = cost gm p (s_Plans sol')"
proof -
  from twoOptImprove_spec [of gm p sol] obtain plans1 where
    t: "twoOptImprove gm p sol = Some \<lparr>s_Plans = plans1, s_Cost = cost gm p plans1\<rparr>" "length plans1 = length (s_Plans sol)"
    "\<forall>vi<length plans1. two_opt_done gm p (p_Vehicles p ! vi) (plans1 ! vi) (s_Plans sol ! vi)" by blast
  have "fits p plans1"
    using two_opt_keeps_nodes [OF t(2,3)] assms by (auto intro: fits_from dest: mset_eq_setD)
  then obtain sol2 where c: "crossExchangeImprove gm p \<lparr>s_Plans = plans1, s_Cost = cost gm p plans1\<rparr> = Some sol2" "fits p (s_Plans sol2)"
    using exchange_improve_fits [OF cross.exchange_operator_axioms, of p "\<lparr>s_Plans = plans1, s_Cost = cost gm p plans1\<rparr>" gm]
    by (auto simp: crossExchangeImprove_def)
  then obtain sol3 where "twoOptStarImprove gm p sol2 = Some sol3" "fits p (s_Plans sol3)"
    using exchange_improve_fits [OF star.exchange_operator_axioms, of p sol2 gm] by (auto simp: twoOptStarImprove_def)
  with t c show ?thesis by (auto simp: local_search_def)
qed

section \<open>What the search keeps\<close>

definition search_inv :: "gomath \<Rightarrow> Problem \<Rightarrow> Solution \<Rightarrow> 'r search \<Rightarrow> bool" where
  "search_inv gm p seed st \<longleftrightarrow> fits p (s_Plans (se_curr st)) \<and> fits p (s_Plans (se_best st)) \<and>
     s_Cost (se_curr st) = cost gm p (s_Plans (se_curr st)) \<and> s_Cost (se_best st) = cost gm p (s_Plans (se_best st)) \<and>
     (se_best st = seed \<or> s_Cost (se_best st) < s_Cost seed) \<and> mx_BestCost (se_m st) = s_Cost (se_best st)"

lemma search_inv_count: "search_inv gm p seed st \<Longrightarrow> search_inv gm p seed (count_iteration st)"
  by (auto simp: search_inv_def count_iteration_def)

lemma search_inv_judge:
  "search_inv gm p seed st \<Longrightarrow> search_inv gm p seed (judge gm R rop iop st)"
  by (auto simp: search_inv_def judge_def split: prod.split intro: f_trans)

lemma search_inv_cool_down: "search_inv gm p seed st \<Longrightarrow> search_inv gm p seed (cool_down cool st)"
  by (auto simp: search_inv_def cool_down_def Let_def)

lemma solve_iteration_inv:
  assumes "rng_ok R" and "map_order_ok order" and "search_inv gm p seed st" and "solve_iteration gm R order p st = Some st'"
  shows "search_inv gm p seed st'"
proof -
  obtain k r1 where k: "rg_Intn R (se_rng st) 3 = (k, r1)" by (cases "rg_Intn R (se_rng st) 3")
  obtain rop r2 where r: "selectOp R (se_remW st) r1 = (rop, r2)" by (cases "selectOp R (se_remW st) r1")
  obtain iop r3 where i: "selectOp R (se_insW st) r2 = (iop, r3)" by (cases "selectOp R (se_insW st) r2")
  obtain removed r4 where d: "destroy gm R order p (se_curr st) rop (1 + k) r3 = (removed, r4)"
    by (cases "destroy gm R order p (se_curr st) rop (1 + k) r3")
  from assms(4) k r i d obtain sol1 cur where s: "repair gm p (removeNodes (se_curr st) removed) iop removed = Some sol1"
    "local_search gm p sol1 = Some cur"
    "\<exists>m. st' = cool_down (start_cooling p) (judge gm R rop iop (st\<lparr>se_curr := cur, se_m := m, se_rng := r4\<rparr>)) \<and>
      mx_BestCost m = mx_BestCost (se_m st)"
    by (fastforce simp: solve_iteration_def Let_def bind_eq_Some_conv)
  have "fits p (s_Plans (se_curr st))" using assms(3) by (simp add: search_inv_def)
  then have "fits p (s_Plans sol1)"
    using repair_fits [OF _ destroy_subset [OF assms(1,2) d] s(1)] by blast
  with local_search_returns [of p sol1 gm] s(2) have "fits p (s_Plans cur)" "s_Cost cur = cost gm p (s_Plans cur)" by auto
  with assms(3) have "search_inv gm p seed (st\<lparr>se_curr := cur, se_m := m, se_rng := r4\<rparr>)"
    if "mx_BestCost m = mx_BestCost (se_m st)" for m using that by (auto simp: search_inv_def)
  with s(3) show ?thesis using search_inv_judge search_inv_cool_down by blast
qed

text \<open>The loop ends with what every iteration keeps.\<close>

lemma solve_loop_keeps:
  assumes "solve_loop gm R order clock deadline p n st = Some st'" and "Q st"
    and "\<And>st. Q st \<Longrightarrow> Q (count_iteration st)"
    and "\<And>st st'. Q st \<Longrightarrow> solve_iteration gm R order p st = Some st' \<Longrightarrow> Q st'"
  shows "Q st'"
proof -
  let ?K = "\<lambda>gm R order p Q. (\<forall>st. Q st \<longrightarrow> Q (count_iteration st)) \<and> (\<forall>st st'. Q st \<longrightarrow> solve_iteration gm R order p st = Some st' \<longrightarrow> Q st')"
  have "?K gm R order p Q \<longrightarrow> Q st \<longrightarrow> Q st'"
  proof (rule solve_loop.raw_induct [OF _ assms(1), where P = "\<lambda>gm R order clock deadline p n st st'. ?K gm R order p Q \<longrightarrow> Q st \<longrightarrow> Q st'"])
    fix f and gm R order clock deadline p n and st st' :: "'a search"
    assume ih: "\<And>gm R order clock deadline p n st st'. f gm R order clock deadline p n st = Some st' \<Longrightarrow>
        ?K gm R order p Q \<longrightarrow> Q st \<longrightarrow> Q st'"
      and r: "(if \<not> clock n < deadline then Some st
        else let st1 = count_iteration st
          in if 0 < p_IterationsLimit p \<and> p_IterationsLimit p \<le> mx_Iterations (se_m st1) then Some st1
             else Option.bind (solve_iteration gm R order p st1) (\<lambda>st2. f gm R order clock deadline p (n + 1) st2)) = Some st'"
    show "?K gm R order p Q \<longrightarrow> Q st \<longrightarrow> Q st'"
    proof (intro impI)
      assume K: "?K gm R order p Q" and q: "Q st"
      from r consider "st' = st" | "st' = count_iteration st"
        | st2 where "solve_iteration gm R order p (count_iteration st) = Some st2" "f gm R order clock deadline p (n + 1) st2 = Some st'"
        by (auto simp: Let_def bind_eq_Some_conv split: if_splits)
      then show "Q st'" using K q ih by cases blast+
    qed
  qed
  with assms(2-4) show ?thesis by blast
qed

lemma greedySeed_fits: "fits p (s_Plans (greedySeed gm p))"
proof -
  note s = greedySeed_spec [of gm p]
  have "map pl_VehicleID (s_Plans (greedySeed gm p)) = map v_ID (p_Vehicles p)"
    by (rule nth_equalityI) (use s in simp_all)
  with s show ?thesis by (simp add: fits_def)
qed

lemma greedySeed_cost: "s_Cost (greedySeed gm p) = cost gm p (s_Plans (greedySeed gm p))"
  by (simp add: greedySeed_def Let_def)

lemma finish_iterations: "\<exists>best m. finish st = (best, m) \<and> mx_Iterations m = mx_Iterations (se_m st)"
  by (simp add: finish_def)

lemma search_inv_start: "search_inv gm p (greedySeed gm p) (start_search gm p r)"
  by (simp add: search_inv_def start_search_def Let_def greedySeed_fits greedySeed_cost)

text \<open>Whenever \<open>Solve\<close> returns: the seed or something cheaper, over the problem's vehicles and nodes.\<close>

lemma Solve_result:
  assumes "rng_ok R" and "map_order_ok order" and "Solve gm R mk order clock p seed budget = Some (best, m)"
  shows "fits p (s_Plans best) \<and> s_Cost best = cost gm (with_speed p) (s_Plans best) \<and>
    (best = greedySeed gm (with_speed p) \<or> s_Cost best < s_Cost (greedySeed gm (with_speed p))) \<and>
    mx_BestCost m = s_Cost best \<and> mx_FinalCost m = s_Cost best"
proof -
  from assms(3) obtain n r deadline st where
    l: "solve_loop gm R order clock deadline (with_speed p) n (start_search gm (with_speed p) r) = Some st" "finish st = (best, m)"
    by (auto simp: Solve_def Let_def split: if_splits)
  have "search_inv gm (with_speed p) (greedySeed gm (with_speed p)) st"
    using l(1) search_inv_start search_inv_count solve_iteration_inv [OF assms(1,2)]
    by (rule solve_loop_keeps [where Q = "search_inv gm (with_speed p) (greedySeed gm (with_speed p))"])
  moreover have "fits (with_speed p) = fits p" by (rule ext) (simp add: fits_def with_speed_def)
  ultimately show ?thesis using l(2) by (auto simp: search_inv_def finish_def)
qed

text \<open>An expired budget, or a limit of one iteration: the seed.\<close>

lemma Solve_no_iterations:
  assumes "clock (if seed = 0 then 2 else 1) \<ge> clock (if seed = 0 then 1 else 0) + budget \<or> p_IterationsLimit p = 1"
  shows "\<exists>m. Solve gm R mk order clock p seed budget = Some (greedySeed gm (with_speed p), m)"
proof -
  have "p_IterationsLimit (with_speed p) = p_IterationsLimit p" by (simp add: with_speed_def)
  with assms show ?thesis unfolding Solve_def Let_def
    by (subst solve_loop.simps) (auto simp: numeral_2_eq_2 Let_def finish_def start_search_def count_iteration_def)
qed

section \<open>Which insertion operator is drawn\<close>

text \<open>What package \<^verbatim>\<open>math/rand\<close> documents of \<^verbatim>\<open>Float64\<close>: a number in the half-open unit interval.\<close>

definition unit_float :: "f64 \<Rightarrow> bool" where
  "unit_float x \<longleftrightarrow> (\<exists>q. x = Fin q \<and> 0 \<le> q \<and> q < 1)"

lemma zero_add_finite: "f_finite (Fin r) \<Longrightarrow> 0 + Fin r = Fin r" "f_finite (Fin r) \<Longrightarrow> Fin r + 0 = Fin r"
  using f_finite_bounded by (simp_all add: plus_f64_def zero_f64_def)

lemma selectOp_first:
  assumes "f_finite w" and "\<forall>r. unit_float (fst (rg_Float64 R r))"
  shows "fst (selectOp R [w, 0] r) = 0"
proof -
  obtain a where a: "w = Fin a" using assms(1) by (cases w) auto
  have s: "foldl (+) 0 [w, 0] = Fin a" using assms(1) by (simp add: a zero_add_finite)
  show ?thesis
  proof (cases "Fin a \<le> 0")
    case True
    then show ?thesis unfolding selectOp_def s Let_def by simp
  next
    case False
    then have pos: "0 \<le> a" by (auto simp: less_eq_f64_def zero_f64_def)
    obtain q r' where q: "rg_Float64 R r = (Fin q, r')" "0 \<le> q" "q < 1"
      using assms(2) unfolding unit_float_def by (metis prod.collapse)
    have "Fin q * Fin a \<le> Fin a" using f_mult_unit_le [of a q] assms(1) pos q by (simp add: a)
    with False q(1) show ?thesis using assms(1) unfolding selectOp_def s Let_def by (simp add: a zero_add_finite Let_def)
  qed
qed

lemma penalty_finite: "f_finite w \<Longrightarrow> f_finite (penalty w)"
proof -
  assume w: "f_finite w"
  then obtain a where a: "w = Fin a" by (cases w) auto
  have u: "0 \<le> rnd_val (999 / 1000)" "rnd_val (999 / 1000) \<le> 1" "0 \<le> rnd_val (1 / 100)" "rnd_val (1 / 100) \<le> 1"
    using rnd_val_unit [of "999 / 1000"] rnd_val_unit [of "1 / 100"] by simp_all
  have "f_finite (w * lit (999 / 1000))" unfolding a lit_def by (rule f_finite_mult_unit [OF w [unfolded a] u(1,2)])
  moreover have "f_finite (lit (1 / 100))"
    using f_finite_add_lit [of 0 "1 / 100"] zero_add_finite(1) max_val_pos u max_val_ge
    by (simp add: lit_def repr_rnd_val zero_f64_def plus_f64_def)
  ultimately show ?thesis by (cases "w * lit (999 / 1000)"; cases "lit (1 / 100)") (auto simp: penalty_def f_max_def)
qed

section \<open>Greedy insertion only: the search returns\<close>

definition greedy_inv :: "Problem \<Rightarrow> 'r search \<Rightarrow> bool" where
  "greedy_inv p st \<longleftrightarrow> fits p (s_Plans (se_curr st)) \<and> (\<exists>w. se_insW st = [w, 0] \<and> f_finite w)"

lemma judge_insW:
  assumes "se_insW st = [w, 0]" and "f_finite w"
  shows "\<exists>w'. se_insW (judge gm R rop 0 st) = [w', 0] \<and> f_finite w'"
proof -
  have "f_finite (w + lit (1 / 10))" "f_finite (w + lit (1 / 100))" using assms(2) by (simp_all add: f_finite_add_lit)
  with assms penalty_finite show ?thesis by (simp add: judge_def split: prod.split)
qed

lemma judge_keeps:
  "se_curr (judge gm R rop iop st) = se_curr st \<and> mx_Iterations (se_m (judge gm R rop iop st)) = mx_Iterations (se_m st)"
  by (simp add: judge_def split: prod.split)

lemma cool_down_keeps:
  "se_curr (cool_down c st) = se_curr st \<and> se_insW (cool_down c st) = se_insW st \<and>
   mx_Iterations (se_m (cool_down c st)) = mx_Iterations (se_m st)"
  by (simp add: cool_down_def Let_def)

lemma greedy_iteration:
  assumes "rng_ok R" and "map_order_ok order" and unit: "\<forall>r. unit_float (fst (rg_Float64 R r))" and g: "greedy_inv p st"
  shows "\<exists>st'. solve_iteration gm R order p st = Some st' \<and> greedy_inv p st' \<and> mx_Iterations (se_m st') = mx_Iterations (se_m st)"
proof -
  obtain w where w: "se_insW st = [w, 0]" "f_finite w" using g by (auto simp: greedy_inv_def)
  obtain k r1 where k: "rg_Intn R (se_rng st) 3 = (k, r1)" by (cases "rg_Intn R (se_rng st) 3")
  obtain rop r2 where r: "selectOp R (se_remW st) r1 = (rop, r2)" by (cases "selectOp R (se_remW st) r1")
  obtain iop r3 where i: "selectOp R (se_insW st) r2 = (iop, r3)" by (cases "selectOp R (se_insW st) r2")
  obtain removed r4 where d: "destroy gm R order p (se_curr st) rop (1 + k) r3 = (removed, r4)"
    by (cases "destroy gm R order p (se_curr st) rop (1 + k) r3")
  have i0: "iop = 0" using selectOp_first [OF w(2) unit, of r2] i w(1) by simp
  define sol1 where "sol1 = greedyInsert gm p (removeNodes (se_curr st) removed) removed"
  have rep: "repair gm p (removeNodes (se_curr st) removed) iop removed = Some sol1" by (simp add: repair_def i0 sol1_def)
  have "fits p (s_Plans (se_curr st))" using g by (simp add: greedy_inv_def)
  then have "fits p (s_Plans sol1)" using repair_fits [OF _ destroy_subset [OF assms(1,2) d] rep] by blast
  then obtain cur where c: "local_search gm p sol1 = Some cur" "fits p (s_Plans cur)" using local_search_returns by blast
  define st1 where "st1 = st\<lparr>se_curr := cur, se_m := (se_m st)\<lparr>mx_RemovalSelects := (mx_RemovalSelects (se_m st))[rop := mx_RemovalSelects (se_m st) ! rop + 1],
      mx_InsertSelects := (mx_InsertSelects (se_m st))[iop := mx_InsertSelects (se_m st) ! iop + 1]\<rparr>, se_rng := r4\<rparr>"
  have "solve_iteration gm R order p st = Some (cool_down (start_cooling p) (judge gm R rop 0 st1))"
    using c k r i d rep i0 by (simp add: solve_iteration_def Let_def st1_def)
  moreover have "se_insW st1 = [w, 0]" "se_curr st1 = cur" "mx_Iterations (se_m st1) = mx_Iterations (se_m st)"
    using w(1) by (simp_all add: st1_def)
  ultimately show ?thesis
    using judge_insW [of st1 w gm R rop] w(2) c(2)
    by (simp add: greedy_inv_def judge_keeps cool_down_keeps)
qed

lemma greedy_loop:
  assumes "rng_ok R" and "map_order_ok order" and "\<forall>r. unit_float (fst (rg_Float64 R r))" and "0 < p_IterationsLimit p"
  shows "greedy_inv p st \<Longrightarrow> mx_Iterations (se_m st) < p_IterationsLimit p \<Longrightarrow>
    \<exists>st'. solve_loop gm R order clock deadline p n st = Some st' \<and> mx_Iterations (se_m st') \<le> p_IterationsLimit p"
proof (induction "nat (p_IterationsLimit p - mx_Iterations (se_m st))" arbitrary: st n rule: less_induct)
  case less
  let ?st1 = "count_iteration st"
  have c: "mx_Iterations (se_m ?st1) = mx_Iterations (se_m st) + 1" "greedy_inv p ?st1"
    using less.prems(1) by (simp_all add: count_iteration_def greedy_inv_def)
  show ?case
  proof (cases "clock n < deadline \<and> mx_Iterations (se_m st) + 1 < p_IterationsLimit p")
    case False
    then show ?thesis using less.prems(2) c assms(4) by (subst solve_loop.simps) (auto simp: Let_def)
  next
    case True
    from greedy_iteration [OF assms(1-3) c(2), of gm] obtain st2 where
      s2: "solve_iteration gm R order p ?st1 = Some st2" "greedy_inv p st2" "mx_Iterations (se_m st2) = mx_Iterations (se_m st) + 1"
      using c(1) by auto
    then have "nat (p_IterationsLimit p - mx_Iterations (se_m st2)) < nat (p_IterationsLimit p - mx_Iterations (se_m st))"
      using True by simp
    from less.hyps [OF this s2(2)] True s2 c obtain st' where
      "solve_loop gm R order clock deadline p (n + 1) st2 = Some st'" "mx_Iterations (se_m st') \<le> p_IterationsLimit p" by auto
    with s2(1) c True show ?thesis by (subst solve_loop.simps) (simp add: Let_def)
  qed
qed

lemma Solve_greedy_returns:
  fixes R :: "'r rng"
  assumes "rng_ok R" and "map_order_ok order" and "\<forall>r. unit_float (fst (rg_Float64 R r))"
    and "p_InitialInsertionWeights p = [w, 0]" and "f_finite w" and "0 < p_IterationsLimit p"
  shows "\<exists>best m. Solve gm R mk order clock p seed budget = Some (best, m) \<and> mx_Iterations m \<le> p_IterationsLimit p"
proof -
  have ws: "p_IterationsLimit (with_speed p) = p_IterationsLimit p" "p_InitialInsertionWeights (with_speed p) = p_InitialInsertionWeights p"
    by (simp_all add: with_speed_def)
  have "greedy_inv (with_speed p) (start_search gm (with_speed p) r)" for r :: 'r
    using assms(4,5) greedySeed_fits [of "with_speed p" gm]
    by (simp add: greedy_inv_def start_search_def Let_def start_weights_def ws)
  moreover have "mx_Iterations (se_m (start_search gm (with_speed p) r)) = 0" for r :: 'r by (simp add: start_search_def Let_def)
  ultimately have "\<exists>st. solve_loop gm R order clock deadline (with_speed p) n (start_search gm (with_speed p) r) = Some st \<and>
      mx_Iterations (se_m st) \<le> p_IterationsLimit p" for deadline n and r :: 'r
    using greedy_loop [OF assms(1-3), of "with_speed p"] assms(6) by (simp add: ws)
  then show ?thesis unfolding Solve_def Let_def by (metis (no_types, lifting) finish_iterations option.simps(9))
qed

section \<open>Regret insertion with more nodes than vehicles: the search hangs\<close>

lemma shawRemoval_nonempty:
  "plan_nodes plans \<noteq> [] \<Longrightarrow> shawRemoval gm R p plans k r = (out, r') \<Longrightarrow> out \<noteq> []"
  by (auto simp: shawRemoval_def Let_def split: prod.splits)

lemma destroy_nonempty:
  assumes "rng_ok R" and "map_order_ok order" and "plan_nodes (s_Plans sol) \<noteq> []"
    and "rop < 2" and "destroy gm R order p sol rop (1 + k) r = (removed, r')"
  shows "removed \<noteq> []"
proof (cases "rop = 0")
  case True
  with assms(5) have pk: "pickRandomNodes R order (s_Plans sol) (1 + k) r = (removed, r')" by (simp add: destroy_def)
  have "0 < card (set (plan_nodes (s_Plans sol)))" using assms(3) by (simp add: card_gt_0_iff)
  with pickRandomNodes_spec [OF assms(1,2) pk] show ?thesis by auto
next
  case False
  with assms(4,5) have "shawRemoval gm R p (s_Plans sol) (1 + k) r = (removed, r')" by (simp add: destroy_def)
  with shawRemoval_nonempty [OF assms(3) this] show ?thesis by simp
qed

text \<open>Whether or not nodes occur twice, removing some and inserting them again visits the same set of nodes.\<close>

lemma remove_and_insert_set:
  assumes "set removed \<subseteq> set (plan_nodes (s_Plans sol))" and "s_Plans sol \<noteq> []"
  shows "set (plan_nodes (insert_loop rop gm p (s_Plans (removeNodes sol removed)) removed)) = set (plan_nodes (s_Plans sol)) \<and>
    map pl_VehicleID (insert_loop rop gm p (s_Plans (removeNodes sol removed)) removed) = map pl_VehicleID (s_Plans sol)"
proof -
  have "s_Plans (removeNodes sol removed) \<noteq> []" using assms(2) by (simp add: removeNodes_plans)
  note i = insert_loop_nodes [OF this, of rop gm p removed]
  have "set_mset (mset (plan_nodes (insert_loop rop gm p (s_Plans (removeNodes sol removed)) removed))) =
      set_mset (mset (plan_nodes (s_Plans (removeNodes sol removed))) + mset removed)" using i by simp
  then show ?thesis using assms(1) i by (auto simp: removeNodes_plans plan_nodes_filter comp_def)
qed

lemma destroy_spec:
  assumes "rng_ok R" and "map_order_ok order" and "distinct (plan_nodes (s_Plans sol))" and "plan_nodes (s_Plans sol) \<noteq> []"
    and "rop < 2" and "destroy gm R order p sol rop (1 + k) r = (removed, r')"
  shows "distinct removed \<and> set removed \<subseteq> set (plan_nodes (s_Plans sol)) \<and> removed \<noteq> []"
proof (cases "rop = 0")
  case True
  with assms(6) have "pickRandomNodes R order (s_Plans sol) (1 + k) r = (removed, r')" by (simp add: destroy_def)
  with pickRandomNodes_spec [OF assms(1,2)] destroy_nonempty [OF assms(1,2,4-6)] show ?thesis by blast
next
  case False
  with assms(5,6) have "shawRemoval gm R p (s_Plans sol) (1 + k) r = (removed, r')" by (simp add: destroy_def)
  with shawRemoval_spec [OF assms(1,3)] destroy_nonempty [OF assms(1,2,4-6)] show ?thesis by blast
qed

lemma length_plan_nodes_short: "\<forall>pl\<in>set plans. length (pl_Order pl) < 2 \<Longrightarrow> length (plan_nodes plans) \<le> length plans"
  by (induction plans) auto

lemma regretInsert_hangs:
  assumes "distinct (plan_nodes (s_Plans sol))" and "length (s_Plans sol) < length (plan_nodes (s_Plans sol))"
    and "distinct removed" and "set removed \<subseteq> set (plan_nodes (s_Plans sol))" and "removed \<noteq> []" and "s_Plans sol \<noteq> []"
  shows "regretInsert gm p (removeNodes sol removed) removed = None"
proof (cases "regretInsert gm p (removeNodes sol removed) removed")
  case (Some sol')
  note k = remove_and_insert [OF assms(1,3,4,6), of Regret2 gm p] and r = regretInsert_returns [OF Some assms(5)]
  have "length (plan_nodes (s_Plans sol')) = length (plan_nodes (s_Plans sol))" using k r mset_eq_length by metis
  moreover have "length (s_Plans sol') = length (s_Plans sol)" using k r by (metis length_map)
  ultimately show ?thesis using length_plan_nodes_short [of "s_Plans sol'"] r assms(2) by simp
qed simp

lemma regret_iteration:
  assumes "rng_ok R" and "map_order_ok order" and "distinct (plan_nodes (s_Plans (se_curr st)))"
    and "length (s_Plans (se_curr st)) < length (plan_nodes (s_Plans (se_curr st)))"
    and "s_Plans (se_curr st) \<noteq> []" and "length (se_remW st) = 2"
    and "fst (selectOp R (se_insW st) (snd (selectOp R (se_remW st) (snd (rg_Intn R (se_rng st) 3))))) = 1"
  shows "solve_iteration gm R order p st = None"
proof -
  obtain k r1 where k: "rg_Intn R (se_rng st) 3 = (k, r1)" by (cases "rg_Intn R (se_rng st) 3")
  obtain rop r2 where r: "selectOp R (se_remW st) r1 = (rop, r2)" by (cases "selectOp R (se_remW st) r1")
  obtain iop r3 where i: "selectOp R (se_insW st) r2 = (iop, r3)" by (cases "selectOp R (se_insW st) r2")
  obtain removed r4 where d: "destroy gm R order p (se_curr st) rop (1 + k) r3 = (removed, r4)"
    by (cases "destroy gm R order p (se_curr st) rop (1 + k) r3")
  have "rop < 2" using selectOp_range [of "se_remW st" R r1] r assms(6) by (cases "se_remW st") auto
  moreover have "plan_nodes (s_Plans (se_curr st)) \<noteq> []" using assms(4) by auto
  ultimately have rm: "distinct removed" "set removed \<subseteq> set (plan_nodes (s_Plans (se_curr st)))" "removed \<noteq> []"
    using destroy_spec [OF assms(1,2,3) _ _ d] by auto
  have "iop = 1" using assms(7) i by (simp add: k r)
  then have "repair gm p (removeNodes (se_curr st) removed) iop removed = None"
    using regretInsert_hangs [OF assms(3,4) rm assms(5)] by (simp add: repair_def)
  then show ?thesis using d by (simp add: solve_iteration_def k r i Let_def)
qed

lemma selectOp_second:
  assumes "f_finite w" and "0 < w" and "\<not> fst (rg_Float64 R r) * w \<le> 0"
  shows "fst (selectOp R [0, w] r) = 1"
proof -
  obtain a where a: "w = Fin a" using assms(1) by (cases w) auto
  have s: "foldl (+) 0 [0, w] = w" using assms(1) zero_add_finite(1) [of 0] zero_add_finite(1) [of a]
    by (simp add: a zero_f64_def max_val_pos [THEN less_imp_le])
  have w: "\<not> w \<le> 0" using assms(2) by (auto simp: less_eq_f64_def less_f64_def a zero_f64_def)
  obtain x r' where x: "rg_Float64 R r = (x, r')" by (cases "rg_Float64 R r")
  have "\<not> x * w \<le> 0" using assms(3) x by (metis fst_conv)
  moreover have "(0 :: f64) + 0 = 0" by (simp add: zero_f64_def plus_f64_def rnd_def)
  ultimately show ?thesis using w unfolding selectOp_def s Let_def x by (simp add: Let_def)
qed

text \<open>
  The random number that picks the insertion operator of the first iteration: after the size of the removal and the
  removal operator have been drawn.
\<close>

definition first_insertion_draw :: "'r rng \<Rightarrow> (int \<Rightarrow> 'r) \<Rightarrow> (nat \<Rightarrow> time) \<Rightarrow> Problem \<Rightarrow> int \<Rightarrow> f64" where
  "first_insertion_draw R mk clock p seed =
     (let r = mk (if seed = 0 then clock 0 - unix_epoch else seed);
          r1 = snd (rg_Intn R r 3);
          r2 = snd (selectOp R (start_weights (p_InitialRemovalWeights p)) r1)
      in fst (rg_Float64 R r2))"

lemma Solve_regret_hangs:
  fixes R :: "'r rng"
  assumes "rng_ok R" and "map_order_ok order"
    and "\<not> first_insertion_draw R mk clock p seed * w \<le> 0" and "p_InitialInsertionWeights p = [0, w]" and "f_finite w" and "0 < w"
    and "p_IterationsLimit p \<noteq> 1"
    and "clock (if seed = 0 then 2 else 1) < clock (if seed = 0 then 1 else 0) + budget"
    and "length (p_Vehicles p) < length (plan_nodes (s_Plans (greedySeed gm (with_speed p))))"
  shows "Solve gm R mk order clock p seed budget = None"
proof -
  let ?p = "with_speed p" and ?sol = "greedySeed gm (with_speed p)"
  have ws: "p_IterationsLimit ?p = p_IterationsLimit p" "p_InitialInsertionWeights ?p = p_InitialInsertionWeights p"
    "p_InitialRemovalWeights ?p = p_InitialRemovalWeights p" "p_Vehicles ?p = p_Vehicles p" by (simp_all add: with_speed_def)
  note g = greedySeed_spec [of gm ?p]
  define r where "r = mk (if seed = 0 then clock 0 - unix_epoch else seed)"
  have "solve_iteration gm R order ?p (count_iteration (start_search gm ?p r)) = None"
  proof (rule regret_iteration [OF assms(1,2)])
    let ?st = "count_iteration (start_search gm ?p r)"
    have st: "se_rng ?st = r" "se_remW ?st = start_weights (p_InitialRemovalWeights p)" "se_insW ?st = [0, w]"
      using assms(4) by (simp_all add: count_iteration_def start_search_def Let_def ws) (simp add: start_weights_def)
    show "fst (selectOp R (se_insW ?st) (snd (selectOp R (se_remW ?st) (snd (rg_Intn R (se_rng ?st) 3))))) = 1"
      unfolding st by (rule selectOp_second [OF assms(5,6)]) (use assms(3) in \<open>simp add: first_insertion_draw_def Let_def r_def\<close>)
    show "s_Plans (se_curr (count_iteration (start_search gm ?p r))) \<noteq> []"
      using assms(9) by (auto simp: count_iteration_def start_search_def Let_def)
  qed (use g assms(9) in \<open>simp_all add: count_iteration_def start_search_def Let_def start_weights_def ws\<close>)
  moreover have "mx_Iterations (se_m (count_iteration (start_search gm ?p r))) = 1"
    by (simp add: count_iteration_def start_search_def Let_def)
  ultimately have "solve_loop gm R order clock deadline ?p n (start_search gm ?p r) = None"
    if "clock n < deadline" for deadline n
    using that assms(7) by (subst solve_loop.simps) (simp add: Let_def ws)
  then show ?thesis using assms(8) unfolding Solve_def Let_def r_def by (auto simp: numeral_2_eq_2)
qed

end
