(* ===== verification/Opt_Heuristics.thy ===== *)
theory Opt_Heuristics
  imports Opt_Two_Opt "HOL-Library.AList"
begin

text \<open>
  The small files of package \<^verbatim>\<open>internal/opt\<close>: the stop-order heuristic of \<^verbatim>\<open>heuristics.go\<close>,
  the trivial entry point of \<^verbatim>\<open>alns.go\<close> and the metrics registry of \<^verbatim>\<open>metrics_store.go\<close>
  (its mutex makes every operation one step).
\<close>

section \<open>heuristics.go\<close>

record StopNode =
  sn_Lat :: f64
  sn_Lng :: f64

definition haversineMeters :: "gomath \<Rightarrow> f64 \<Rightarrow> f64 \<Rightarrow> f64 \<Rightarrow> f64 \<Rightarrow> f64" where
  "haversineMeters gm lat1 lon1 lat2 lon2 =
     (let R = lit 6371000;
          dLat = (lat2 - lat1) * f_pi / lit 180;
          dLon = (lon2 - lon1) * f_pi / lit 180;
          a = m_sin gm (dLat / lit 2) * m_sin gm (dLat / lit 2) +
              m_cos gm (lat1 * f_pi / lit 180) * m_cos gm (lat2 * f_pi / lit 180) *
              m_sin gm (dLon / lit 2) * m_sin gm (dLon / lit 2);
          c = lit 2 * m_atan2 gm (m_sqrt gm a) (m_sqrt gm (1 - a))
      in R * c)"

definition pathDistance :: "gomath \<Rightarrow> StopNode list \<Rightarrow> nat list \<Rightarrow> f64" where
  "pathDistance gm nodes order =
     foldl (\<lambda>tot i. let a = nodes ! (order ! i); b = nodes ! (order ! (i + 1))
       in tot + haversineMeters gm (sn_Lat a) (sn_Lng a) (sn_Lat b) (sn_Lng b)) 0 [0..<length order - 1]"

definition twoOptSwap :: "nat list \<Rightarrow> nat \<Rightarrow> nat \<Rightarrow> nat list" where
  "twoOptSwap ord i k = take i ord @ map (\<lambda>j. ord ! j) (rev [i..<k + 1]) @ drop (k + 1) ord"

definition improve_try :: "gomath \<Rightarrow> StopNode list \<Rightarrow> nat list \<times> f64 \<times> bool \<Rightarrow> nat \<times> nat \<Rightarrow> nat list \<times> f64 \<times> bool" where
  "improve_try gm nodes acc ik =
     (case acc of (best, bestDist, improved) \<Rightarrow> case ik of (i, k) \<Rightarrow>
        let newOrder = twoOptSwap best i k; d = pathDistance gm nodes newOrder
        in if d + lit (1 / 1000) < bestDist then (newOrder, d, True) else (best, bestDist, improved))"

fun improve_rounds :: "gomath \<Rightarrow> StopNode list \<Rightarrow> nat \<Rightarrow> nat \<Rightarrow> nat list \<times> f64 \<Rightarrow> nat list" where
  "improve_rounds gm nodes n 0 (best, bestDist) = best"
| "improve_rounds gm nodes n (Suc its) (best, bestDist) =
     (case foldl (improve_try gm nodes) (best, bestDist, False) (inner_segments n) of
        (best', bestDist', improved) \<Rightarrow>
          if improved then improve_rounds gm nodes n its (best', bestDist') else best')"

definition ImproveOrder2Opt :: "gomath \<Rightarrow> StopNode list \<Rightarrow> nat list \<Rightarrow> int \<Rightarrow> nat list" where
  "ImproveOrder2Opt gm nodes order iterations =
     improve_rounds gm nodes (length order) (nat (if iterations \<le> 0 then 1 else iterations)) (order, pathDistance gm nodes order)"

text \<open>The swap is the in-place reversal of \<^verbatim>\<open>twoOptImprove\<close>.\<close>

lemma twoOptSwap_reverse:
  assumes "i \<le> k" and "k < length ord"
  shows "twoOptSwap ord i k = reverse_segment i k ord"
proof (rule nth_equalityI)
  note r = reverse_segment_spec [OF assms(2), of i]
  show l: "length (twoOptSwap ord i k) = length (reverse_segment i k ord)"
    using assms r by (simp add: twoOptSwap_def)
  fix j
  assume "j < length (twoOptSwap ord i k)"
  then have j: "j < length ord" using l r by simp
  have "twoOptSwap ord i k ! j = (if i \<le> j \<and> j \<le> k then ord ! (i + k - j) else ord ! j)"
    using assms j by (auto simp: twoOptSwap_def nth_append rev_nth min_def simp del: upt_Suc)
  with r j show "twoOptSwap ord i k ! j = reverse_segment i k ord ! j" by simp
qed

text \<open>What the heuristic may do to an order.\<close>

definition reordered :: "nat list \<Rightarrow> nat list \<Rightarrow> bool" where
  "reordered xs ys \<longleftrightarrow> mset xs = mset ys \<and> (ys \<noteq> [] \<longrightarrow> hd xs = hd ys \<and> last xs = last ys)"

lemma reordered_trans: "reordered xs ys \<Longrightarrow> reordered ys zs \<Longrightarrow> reordered xs zs"
  by (auto simp: reordered_def)

lemma reordered_swap:
  assumes "0 < i" and "i < k" and "k < length ord - 1"
  shows "reordered (twoOptSwap ord i k) ord"
proof -
  have "same_ends \<lparr>pl_VehicleID = '''', pl_Order = reverse_segment i k ord\<rparr> \<lparr>pl_VehicleID = '''', pl_Order = ord\<rparr>"
    using same_ends_reverse [of i k "\<lparr>pl_VehicleID = '''', pl_Order = ord\<rparr>"] assms by simp
  then show ?thesis using twoOptSwap_reverse [of i k ord] assms by (simp add: same_ends_def reordered_def)
qed

definition improve_inv :: "gomath \<Rightarrow> StopNode list \<Rightarrow> nat list \<Rightarrow> nat list \<times> f64 \<Rightarrow> bool" where
  "improve_inv gm nodes order bd \<longleftrightarrow> reordered (fst bd) order \<and> snd bd = pathDistance gm nodes (fst bd) \<and>
     (fst bd = order \<or> pathDistance gm nodes (fst bd) < pathDistance gm nodes order)"

lemma f_wf_path_fold: "f_wf a \<Longrightarrow> f_wf (foldl (\<lambda>tot i. tot + g i) a xs)"
  by (induction xs arbitrary: a) auto

lemma f_wf_pathDistance_order: "f_wf (pathDistance gm nodes order)"
  unfolding pathDistance_def Let_def by (rule f_wf_path_fold) simp

lemma improve_pass_inv:
  assumes "improve_inv gm nodes order (best, bestDist)"
    and r: "r = foldl (improve_try gm nodes) (best, bestDist, im) (inner_segments (length order))"
  shows "improve_inv gm nodes order (fst r, fst (snd r))"
  unfolding r
proof (rule foldl_inv [where P = "\<lambda>acc. improve_inv gm nodes order (fst acc, fst (snd acc))"])
  show "improve_inv gm nodes order (fst (best, bestDist, im), fst (snd (best, bestDist, im)))" using assms by simp
next
  fix acc :: "nat list \<times> f64 \<times> bool" and ik
  assume inv: "improve_inv gm nodes order (fst acc, fst (snd acc))" and ik: "ik \<in> set (inner_segments (length order))"
  obtain b d im where a: "acc = (b, d, im)" by (cases acc)
  obtain i k where ik': "ik = (i, k)" by (cases ik)
  have l: "length b = length order" using inv by (auto simp: a improve_inv_def reordered_def dest: mset_eq_length)
  then have sw: "reordered (twoOptSwap b i k) b" using ik by (intro reordered_swap) (auto simp: ik' set_inner_segments)
  let ?d = "pathDistance gm nodes (twoOptSwap b i k)"
  have "?d < d" if "?d + lit (1 / 1000) < d"
    using add_lit_less_imp [OF f_wf_pathDistance_order, of "1 / 1000"] that by simp
  then show "improve_inv gm nodes order (fst (improve_try gm nodes acc ik), fst (snd (improve_try gm nodes acc ik)))"
    using inv sw by (auto simp: a ik' improve_try_def Let_def improve_inv_def intro: reordered_trans f_trans)
qed

lemma improve_rounds_inv:
  "improve_inv gm nodes order (best, bestDist) \<Longrightarrow>
   reordered (improve_rounds gm nodes (length order) its (best, bestDist)) order \<and>
   (improve_rounds gm nodes (length order) its (best, bestDist) = order \<or>
    pathDistance gm nodes (improve_rounds gm nodes (length order) its (best, bestDist)) < pathDistance gm nodes order)"
proof (induction its arbitrary: best bestDist)
  case 0
  then show ?case by (simp add: improve_inv_def)
next
  case (Suc its)
  obtain b d im where r: "foldl (improve_try gm nodes) (best, bestDist, False) (inner_segments (length order)) = (b, d, im)"
    by (cases "foldl (improve_try gm nodes) (best, bestDist, False) (inner_segments (length order))")
  have i: "improve_inv gm nodes order (b, d)" using improve_pass_inv [OF Suc.prems, of "(b, d, im)" False] r by simp
  then show ?case using Suc.IH [OF i] by (auto simp: r improve_inv_def)
qed

lemma ImproveOrder2Opt_spec:
  "reordered (ImproveOrder2Opt gm nodes order its) order \<and>
   (ImproveOrder2Opt gm nodes order its = order \<or>
    pathDistance gm nodes (ImproveOrder2Opt gm nodes order its) < pathDistance gm nodes order)"
  unfolding ImproveOrder2Opt_def by (rule improve_rounds_inv) (simp add: improve_inv_def reordered_def)

section \<open>alns.go\<close>

definition Optimize :: "Vehicle list \<Rightarrow> Solution" where
  "Optimize vehicles = \<lparr>s_Plans = map (\<lambda>v. \<lparr>pl_VehicleID = v_ID v, pl_Order = []\<rparr>) vehicles, s_Cost = 0\<rparr>"

section \<open>metrics\_store.go\<close>

record registry_key =
  mk_Tenant :: string
  mk_PlanDate :: string
  mk_Algo :: string

type_synonym registry = "(registry_key \<times> Metrics) list"

definition RecordMetrics :: "string \<Rightarrow> string \<Rightarrow> string \<Rightarrow> Metrics \<Rightarrow> registry \<Rightarrow> registry" where
  "RecordMetrics tenant planDate algo m st =
     AList.update \<lparr>mk_Tenant = tenant, mk_PlanDate = planDate, mk_Algo = algo\<rparr> m st"

text \<open>\<open>order\<close> is the order in which Go ranges over the map.\<close>

definition GetMetrics :: "(registry \<Rightarrow> registry) \<Rightarrow> string \<Rightarrow> string \<Rightarrow> registry \<Rightarrow> (string \<rightharpoonup> Metrics)" where
  "GetMetrics order tenant planDate st =
     foldl (\<lambda>out (k, v). if mk_Tenant k = tenant \<and> mk_PlanDate k = planDate then out(mk_Algo k \<mapsto> v) else out)
       Map.empty (order st)"

lemma GetMetrics_fold:
  assumes "distinct (map fst xs)"
  shows "foldl (\<lambda>out (k, v). if mk_Tenant k = tenant \<and> mk_PlanDate k = planDate then out(mk_Algo k \<mapsto> v) else out) out xs =
    (\<lambda>algo. case map_of xs \<lparr>mk_Tenant = tenant, mk_PlanDate = planDate, mk_Algo = algo\<rparr> of None \<Rightarrow> out algo | Some v \<Rightarrow> Some v)"
  using assms
proof (induction xs arbitrary: out)
  case Nil
  then show ?case by simp
next
  case (Cons kv xs)
  obtain k v where kv: "kv = (k, v)" by (cases kv)
  obtain t d a where k: "k = \<lparr>mk_Tenant = t, mk_PlanDate = d, mk_Algo = a\<rparr>" by (cases k) simp
  have "map_of xs k = None" using Cons.prems by (simp add: kv map_of_eq_None_iff)
  with Cons show ?case
    by (auto simp: kv k fun_eq_iff split: option.split)
qed

lemma GetMetrics_order:
  assumes "distinct (map fst st)" and "mset (order st) = mset st"
  shows "GetMetrics order tenant planDate st algo = map_of st \<lparr>mk_Tenant = tenant, mk_PlanDate = planDate, mk_Algo = algo\<rparr>"
proof -
  have "mset (map fst (order st)) = mset (map fst st)" using assms(2) by simp
  then have d: "distinct (map fst (order st))" using assms(1) by (metis mset_eq_imp_distinct_iff)
  have "map_of (order st) = map_of st" by (rule map_of_inject_set [THEN iffD2, OF d assms(1)]) (rule mset_eq_setD [OF assms(2)])
  then show ?thesis by (simp add: GetMetrics_def GetMetrics_fold [OF d] split: option.split)
qed

end
