(* ===== verification/Planner_Properties.thy ===== *)
theory Planner_Properties
  imports Opt_Solve Opt_Heuristics
begin

text \<open>
  The properties of the route optimizer. Every statement is for arbitrary mathematical functions
  \<open>gm\<close>, random sources and map orders; the witnesses use the small problem \<open>demo_problem\<close> with the
  constants below, for which every distance is 0.
\<close>

section \<open>A concrete problem\<close>

definition demo_math :: gomath where
  "demo_math = \<lparr>m_sin = \<lambda>_. 0, m_cos = \<lambda>_. 0, m_sqrt = \<lambda>_. 0, m_atan2 = \<lambda>_ _. 0, m_exp = \<lambda>_. 0\<rparr>"

definition demo_rng :: "unit rng" where
  "demo_rng = \<lparr>rg_Intn = \<lambda>r n. (0, r), rg_Float64 = \<lambda>r. (Fin (1 / 2), r)\<rparr>"

definition demo_node :: Node where
  "demo_node = \<lparr>n_ID = ''n'', n_Lat = 0, n_Lng = 0, n_ServiceSec = 0, n_TW = None, n_Weight = 0, n_Volume = 0, n_Skills = []\<rparr>"

definition demo_vehicle :: Vehicle where
  "demo_vehicle = \<lparr>v_ID = ''v'', v_CapWeight = 0, v_CapVolume = 0, v_Skills = [], v_Start = None, v_End = None\<rparr>"

definition demo_problem :: "f64 list \<Rightarrow> Problem" where
  "demo_problem ws = \<lparr>p_Nodes = [demo_node, demo_node], p_Vehicles = [demo_vehicle], p_SpeedKph = 0,
     p_Objectives = Map.empty, p_HosMaxDriveSec = 0, p_BreakSec = 0, p_IterationsLimit = 3, p_InitialTemp = 0,
     p_Cooling = 0, p_InitialRemovalWeights = [], p_InitialInsertionWeights = ws\<rparr>"

definition demo_run :: "int \<Rightarrow> Metrics" where
  "demo_run n = \<lparr>mx_RemovalSelects = [0, 0], mx_InsertSelects = [0, 0], mx_Iterations = n, mx_Improvements = 0, mx_AcceptedWorse = 0,
     mx_BestCost = 0, mx_FinalCost = 0, mx_FinalRemovalWeights = [1, 1], mx_FinalInsertionWeights = [1, 1], mx_Snapshots = []\<rparr>"

definition demo_plan :: "nat list \<Rightarrow> RoutePlan" where
  "demo_plan xs = \<lparr>pl_VehicleID = ''v'', pl_Order = xs\<rparr>"

lemma demo_rng_ok: "rng_ok demo_rng"
  by (simp add: rng_ok_def demo_rng_def)

lemma demo_order_ok: "map_order_ok id"
  by (simp add: map_order_ok_def)

lemma demo_rng_unit: "\<forall>r. unit_float (fst (rg_Float64 demo_rng r))"
  unfolding unit_float_def by (intro allI exI [of _ "1 / 2"]) (simp add: demo_rng_def)

lemma lit_times_zero: "lit a * 0 = 0"
  by (simp add: lit_def zero_f64_def times_f64_def rnd_def)

lemma demo_haversine: "haversine demo_math a b c d = 0"
  by (simp add: haversine_def demo_math_def Let_def lit_times_zero)

lemma demo_append: "deltaCostAppend demo_math p pl v i = 0"
  by (simp add: deltaCostAppend_def demo_haversine Let_def)

lemma zero_less_max_float: "(0::f64) < max_float"
  by (simp add: zero_f64_def max_float_def)

lemma demo_feasible: "i < 2 \<Longrightarrow> feasibleAdd (with_speed (demo_problem ws)) pl demo_vehicle i"
  by (auto simp: feasibleAdd_iff demo_vehicle_def covers_def zero_f64_def)

lemma demo_sizes: "length (p_Nodes (with_speed (demo_problem ws))) = 2" "p_Vehicles (with_speed (demo_problem ws)) = [demo_vehicle]"
  by (simp_all add: with_speed_def demo_problem_def)

text \<open>The seed of the demo problem assigns both nodes.\<close>

lemma demo_seed: "set (plan_nodes (s_Plans (greedySeed demo_math (with_speed (demo_problem ws))))) = {0, 1} \<and>
  length (plan_nodes (s_Plans (greedySeed demo_math (with_speed (demo_problem ws))))) = 2"
proof -
  let ?p = "with_speed (demo_problem ws)"
  note g = greedySeed_spec [of demo_math ?p]
  note l = demo_sizes [of ws]
  have "i \<in> set (plan_nodes (s_Plans (greedySeed demo_math ?p)))" if "i < 2" for i
    using g that demo_feasible [OF that, of ws "s_Plans (greedySeed demo_math ?p) ! 0"]
    by (auto simp: l demo_append zero_less_max_float)
  moreover have "{..<2} = {0, 1 :: nat}" by auto
  ultimately have n: "set (plan_nodes (s_Plans (greedySeed demo_math ?p))) = {0, 1}" using g l(1) by auto
  have "card (set (plan_nodes (s_Plans (greedySeed demo_math ?p)))) = length (plan_nodes (s_Plans (greedySeed demo_math ?p)))"
    using g by (intro distinct_card) simp
  with n show ?thesis by simp
qed

lemma finite_one: "f_finite 1" "(0::f64) < 1"
proof -
  have "(1::rat) \<le> max_val"
  proof -
    have "(1::rat) < 2 powi 1023" using powi_less_iff [of 0 1023] by simp
    with max_val_ge show ?thesis by linarith
  qed
  moreover have "repr 1" using rnd_val_of_int [of 1] by (simp add: repr_def)
  ultimately show "f_finite 1" by (simp add: one_f64_def)
  show "(0::f64) < 1" by (simp add: zero_f64_def one_f64_def)
qed

lemma half_positive: "\<forall>r. \<not> fst (rg_Float64 demo_rng r) * 1 \<le> 0"
proof -
  have "rnd_val (1 / 2) = 1 / 2" by (rule rnd_val_exact [of _ 1 "- 1"]) (simp_all add: power_int_def)
  then have "Fin (1 / 2) * 1 = Fin (1 / 2)" by (simp add: one_f64_def times_f64_def rnd_def)
  then show ?thesis by (simp add: demo_rng_def less_eq_f64_def less_f64_def zero_f64_def)
qed

section \<open>The search\<close>

text \<open>
  C16: whenever \<^verbatim>\<open>Solve\<close> returns, its solution has one plan per vehicle in the vehicles' order,
  visits nodes of the problem only, is the greedy seed or strictly cheaper than it, and the cost it
  carries, the best and the final cost of the metrics are the cost function of its plans.
\<close>

theorem solve_not_worse_than_seed:
  assumes "rng_ok R" and "map_order_ok order" and "Solve gm R mk order clock p seed budget = Some (best, m)"
  shows "map pl_VehicleID (s_Plans best) = map v_ID (p_Vehicles p) \<and>
    set (plan_nodes (s_Plans best)) \<subseteq> {..<length (p_Nodes p)} \<and>
    (best = greedySeed gm (with_speed p) \<or> s_Cost best < s_Cost (greedySeed gm (with_speed p))) \<and>
    s_Cost best = cost gm (with_speed p) (s_Plans best) \<and> mx_BestCost m = s_Cost best \<and> mx_FinalCost m = s_Cost best"
  using Solve_result [OF assms] unfolding fits_def by blast

theorem solve_not_worse_than_seed_witness:
  "\<exists>best m. Solve demo_math demo_rng (\<lambda>_. ()) id (\<lambda>n. int n) (demo_problem [1, 0]) 7 0 = Some (best, m) \<and>
    map pl_VehicleID (s_Plans best) = [''v''] \<and> mx_BestCost m = s_Cost best"
proof -
  have "\<exists>m. Solve demo_math demo_rng (\<lambda>_. ()) id (\<lambda>n. int n) (demo_problem [1, 0]) 7 0 =
      Some (greedySeed demo_math (with_speed (demo_problem [1, 0])), m)"
    by (rule Solve_no_iterations) simp
  then obtain m where m: "Solve demo_math demo_rng (\<lambda>_. ()) id (\<lambda>n. int n) (demo_problem [1, 0]) 7 0 =
      Some (greedySeed demo_math (with_speed (demo_problem [1, 0])), m)" ..
  from solve_not_worse_than_seed [OF demo_rng_ok demo_order_ok m] m show ?thesis
    by (auto simp: demo_problem_def demo_vehicle_def)
qed

text \<open>
  C17: with insertion weights that leave out regret insertion (a finite first weight and a zero second one) and a
  positive iteration limit, \<^verbatim>\<open>Solve\<close> returns, whatever the clock does, after at most that many
  iterations: every operator and every local search of every iteration ends.
\<close>

theorem solve_returns_with_greedy_insertion:
  assumes "rng_ok R" and "map_order_ok order" and "\<forall>r. unit_float (fst (rg_Float64 R r))"
    and "p_InitialInsertionWeights p = [w, 0]" and "f_finite w" and "0 < p_IterationsLimit p"
  shows "\<exists>best m. Solve gm R mk order clock p seed budget = Some (best, m) \<and> mx_Iterations m \<le> p_IterationsLimit p"
  using assms by (rule Solve_greedy_returns)

theorem solve_returns_with_greedy_insertion_witness:
  "\<exists>best m. Solve demo_math demo_rng (\<lambda>_. ()) id (\<lambda>n. 0) (demo_problem [1, 0]) 7 5 = Some (best, m) \<and> mx_Iterations m \<le> 3"
  using solve_returns_with_greedy_insertion [OF demo_rng_ok demo_order_ok demo_rng_unit _ finite_one(1), of "demo_problem [1, 0]"]
  by (simp add: demo_problem_def)

text \<open>
  C18: \<^verbatim>\<open>Solve\<close> does not return when greedy insertion has weight 0 and regret insertion a positive finite one, the seed assigns more
  nodes than there are vehicles, the budget and the limit of iterations let the first iteration run, and the random number that picks its
  insertion operator is not 0 (nor so small that its product with the weight rounds to 0; \<^verbatim>\<open>rand.Float64\<close> may return 0, which
  picks greedy insertion): some plan then gets two nodes, and \<^verbatim>\<open>orOptLocalImprove\<close> loops forever on it.
\<close>

theorem solve_hangs_with_regret_insertion:
  assumes "rng_ok R" and "map_order_ok order"
    and "\<not> first_insertion_draw R mk clock p seed * w \<le> 0" and "p_InitialInsertionWeights p = [0, w]" and "f_finite w" and "0 < w"
    and "p_IterationsLimit p \<noteq> 1"
    and "clock (if seed = 0 then 2 else 1) < clock (if seed = 0 then 1 else 0) + budget"
    and "length (p_Vehicles p) < length (plan_nodes (s_Plans (greedySeed gm (with_speed p))))"
  shows "Solve gm R mk order clock p seed budget = None"
  using assms by (rule Solve_regret_hangs)

theorem solve_hangs_with_regret_insertion_witness:
  "Solve demo_math demo_rng (\<lambda>_. ()) id (\<lambda>n. int n) (demo_problem [0, 1]) 7 5 = None"
proof (rule solve_hangs_with_regret_insertion [OF demo_rng_ok demo_order_ok _ _ finite_one])
  show "\<not> first_insertion_draw demo_rng (\<lambda>_. ()) (\<lambda>n. int n) (demo_problem [0, 1]) 7 * 1 \<le> 0"
    using half_positive by (simp add: first_insertion_draw_def Let_def)
  show "length (p_Vehicles (demo_problem [0, 1])) < length (plan_nodes (s_Plans (greedySeed demo_math (with_speed (demo_problem [0, 1])))))"
    using demo_seed [of "[0, 1]"] by (simp add: demo_problem_def)
qed (simp_all add: demo_problem_def)

text \<open>
  An expired budget or an iteration limit of one gives the greedy seed: the iteration that
  reaches the limit is counted and not run.
\<close>

theorem solve_without_iterations:
  assumes "clock (if seed = 0 then 2 else 1) \<ge> clock (if seed = 0 then 1 else 0) + budget \<or> p_IterationsLimit p = 1"
  shows "\<exists>m. Solve gm R mk order clock p seed budget = Some (greedySeed gm (with_speed p), m)"
  using assms by (rule Solve_no_iterations)

theorem solve_without_iterations_witness:
  "\<exists>m. Solve demo_math demo_rng (\<lambda>_. ()) id (\<lambda>n. int n) (demo_problem []) 0 1 =
    Some (greedySeed demo_math (with_speed (demo_problem [])), m)"
  by (rule solve_without_iterations) simp

section \<open>Construction and repair\<close>

text \<open>
  C37: the greedy seed assigns every node at most once, keeps each vehicle's weight, volume and
  skills (\<^verbatim>\<open>within_capacity\<close>, sums rounded as computed), and leaves a node out only when no
  vehicle can take it in addition to its plan or the cost of appending it is not below the largest float.
\<close>

theorem greedy_seed_spec:
  "distinct (plan_nodes (s_Plans (greedySeed gm p))) \<and> set (plan_nodes (s_Plans (greedySeed gm p))) \<subseteq> {..<length (p_Nodes p)} \<and>
   length (s_Plans (greedySeed gm p)) = length (p_Vehicles p) \<and>
   (\<forall>vi<length (p_Vehicles p). within_capacity p (p_Vehicles p ! vi) (pl_Order (s_Plans (greedySeed gm p) ! vi)) \<and>
      pl_VehicleID (s_Plans (greedySeed gm p) ! vi) = v_ID (p_Vehicles p ! vi)) \<and>
   (\<forall>vi<length (p_Vehicles p). \<forall>i<length (p_Nodes p). i \<notin> set (plan_nodes (s_Plans (greedySeed gm p))) \<longrightarrow>
      \<not> (feasibleAdd p (s_Plans (greedySeed gm p) ! vi) (p_Vehicles p ! vi) i \<and>
         deltaCostAppend gm p (s_Plans (greedySeed gm p) ! vi) (p_Vehicles p ! vi) i < max_float))"
  by (rule greedySeed_spec)

theorem greedy_seed_spec_witness:
  "distinct (plan_nodes (s_Plans (greedySeed demo_math (with_speed (demo_problem []))))) \<and>
   set (plan_nodes (s_Plans (greedySeed demo_math (with_speed (demo_problem []))))) = {0, 1} \<and>
   within_capacity (with_speed (demo_problem [])) demo_vehicle (pl_Order (s_Plans (greedySeed demo_math (with_speed (demo_problem []))) ! 0))"
  using greedy_seed_spec [of demo_math "with_speed (demo_problem [])"] demo_seed [of "[]"]
  by (simp add: demo_sizes)

text \<open>
  C38: removal and greedy insertion conserve the nodes. For a solution that visits some node, both removal operators draw
  at least one node and only nodes of the solution, and after removing and reinserting them every plan belongs to the
  same vehicle and the nodes visited are the same. If no node is visited twice, the drawn nodes are distinct and
  each node is visited exactly as before, once (the 2-opt* step of \<^verbatim>\<open>Solve\<close> may leave a node visited twice).
\<close>

theorem remove_and_insert_conserves:
  assumes "rng_ok R" and "map_order_ok order" and "plan_nodes (s_Plans sol) \<noteq> []"
    and "rop < 2" and "destroy gm R order p sol rop (1 + k) r = (removed, r')"
  shows "removed \<noteq> [] \<and> set removed \<subseteq> set (plan_nodes (s_Plans sol)) \<and>
    set (plan_nodes (s_Plans (greedyInsert gm p (removeNodes sol removed) removed))) = set (plan_nodes (s_Plans sol)) \<and>
    map pl_VehicleID (s_Plans (greedyInsert gm p (removeNodes sol removed) removed)) = map pl_VehicleID (s_Plans sol) \<and>
    (distinct (plan_nodes (s_Plans sol)) \<longrightarrow> distinct removed \<and>
      mset (plan_nodes (s_Plans (greedyInsert gm p (removeNodes sol removed) removed))) = mset (plan_nodes (s_Plans sol)))"
proof -
  have sub: "set removed \<subseteq> set (plan_nodes (s_Plans sol))" by (rule destroy_subset [OF assms(1,2,5)])
  have ne: "s_Plans sol \<noteq> []" using assms(3) by auto
  have "distinct removed" if "distinct (plan_nodes (s_Plans sol))" using destroy_spec [OF assms(1,2) that assms(3-5)] by blast
  moreover have "mset (plan_nodes (s_Plans (greedyInsert gm p (removeNodes sol removed) removed))) = mset (plan_nodes (s_Plans sol))"
    if "distinct (plan_nodes (s_Plans sol))" "distinct removed"
    using remove_and_insert [OF that sub ne, of Greedy gm p] destroy_nonempty [OF assms] by (simp add: greedyInsert_def Let_def)
  moreover note destroy_nonempty [OF assms] sub remove_and_insert_set [OF sub ne, of Greedy gm p]
  ultimately show ?thesis by (simp add: greedyInsert_def Let_def)
qed

theorem remove_and_insert_conserves_witness:
  "mset (plan_nodes (s_Plans (greedyInsert demo_math (demo_problem []) (removeNodes \<lparr>s_Plans = [demo_plan [1, 0]], s_Cost = 0\<rparr> [1]) [1]))) = {#0, 1#}"
proof -
  have "destroy demo_math demo_rng id (demo_problem []) \<lparr>s_Plans = [demo_plan [1, 0]], s_Cost = 0\<rparr> 0 (1 + 0) () = ([1], ())"
    by (simp add: destroy_def pickRandomNodes_def demo_plan_def demo_rng_def Let_def)
  from remove_and_insert_conserves [OF demo_rng_ok demo_order_ok _ _ this] show ?thesis
    by (simp add: demo_plan_def add_mset_commute)
qed

text \<open>
  Each step of greedy insertion takes a cheapest place: among all remaining nodes, plans and
  positions whose capacity, skill and schedule checks pass, no insertion is cheaper than the one chosen,
  and none is chosen only when no feasible one costs less than the largest float.
\<close>

theorem greedy_scan_cheapest:
  "case greedy_scan gm p plans nodes of
     None \<Rightarrow> \<forall>y. place_ok gm p plans nodes y \<longrightarrow> \<not> insertion_cost gm p plans nodes y < max_float
   | Some x \<Rightarrow> place_ok gm p plans nodes x \<and> (\<forall>y. place_ok gm p plans nodes y \<longrightarrow>
       \<not> insertion_cost gm p plans nodes y < insertion_cost gm p plans nodes x)"
  by (rule greedy_scan_min)

lemma demo_insertion_cost: "insertion_cost demo_math (demo_problem ws) [demo_plan [1]] [0] (0, 0, 0) = 0"
  by (simp add: insertion_cost_def deltaCostInsert_def demo_haversine Let_def demo_plan_def demo_problem_def demo_node_def
      demo_vehicle_def zero_f64_def plus_f64_def minus_f64_def f_of_int_def rnd_def)

lemma demo_place_ok: "place_ok demo_math (demo_problem ws) [demo_plan [1]] [0] (0, 0, 0)"
  by (simp add: place_ok_def feasibleAddAt_def feasibleAdd_iff covers_def demo_plan_def demo_problem_def demo_node_def demo_vehicle_def
      zero_f64_def schedulePlan_def plan_start_def sched_step_def Let_def)

theorem greedy_scan_cheapest_witness:
  "\<exists>x. greedy_scan demo_math (demo_problem []) [demo_plan [1]] [0] = Some x \<and> place_ok demo_math (demo_problem []) [demo_plan [1]] [0] x"
proof (cases "greedy_scan demo_math (demo_problem []) [demo_plan [1]] [0]")
  case None
  then have "\<not> insertion_cost demo_math (demo_problem []) [demo_plan [1]] [0] (0, 0, 0) < max_float"
    using greedy_scan_cheapest [of demo_math "demo_problem []" "[demo_plan [1]]" "[0]"] demo_place_ok [of "[]"]
    by (simp only: option.case) blast
  then show ?thesis unfolding demo_insertion_cost using zero_less_max_float by blast
next
  case (Some x)
  with greedy_scan_cheapest [of demo_math "demo_problem []" "[demo_plan [1]]" "[0]"] show ?thesis by simp
qed

section \<open>Local search\<close>

text \<open>
  C39: \<^verbatim>\<open>twoOptImprove\<close> returns. Every plan keeps its vehicle, its nodes and its first and last
  node, and is the old plan or one that is feasible and strictly shorter; a further pass changes nothing.
\<close>

theorem two_opt_improves:
  "\<exists>plans'. twoOptImprove gm p sol = Some \<lparr>s_Plans = plans', s_Cost = cost gm p plans'\<rparr> \<and>
     length plans' = length (s_Plans sol) \<and>
     (\<forall>vi<length plans'. same_ends (plans' ! vi) (s_Plans sol ! vi) \<and>
        (plans' ! vi = s_Plans sol ! vi \<or> pathDistanceNodes gm p (plans' ! vi) < pathDistanceNodes gm p (s_Plans sol ! vi) \<and>
           snd (schedulePlan gm p (plans' ! vi) (p_Vehicles p ! vi))) \<and>
        two_opt_pass gm p (p_Vehicles p ! vi) (plans' ! vi) = (plans' ! vi, False))"
  using twoOptImprove_spec [of gm p sol] unfolding two_opt_done_def shorter_def .

theorem two_opt_improves_witness:
  "\<exists>sol'. twoOptImprove demo_math (demo_problem []) \<lparr>s_Plans = [demo_plan [1, 0]], s_Cost = 0\<rparr> = Some sol' \<and>
    mset (pl_Order (s_Plans sol' ! 0)) = {#0, 1#}"
  using two_opt_improves [of demo_math "demo_problem []" "\<lparr>s_Plans = [demo_plan [1, 0]], s_Cost = 0\<rparr>"]
  by (auto simp: same_ends_def demo_plan_def)

text \<open>
  \<^verbatim>\<open>crossExchangeImprove\<close> returns. The plans keep their vehicles and sizes and visit the same
  nodes, each plan is unchanged or feasible, the sum of the path lengths does not grow, and no
  exchange improves the result further.
\<close>

theorem cross_exchange_improves:
  assumes "2 \<le> length (s_Plans sol)"
  shows "\<exists>plans'. crossExchangeImprove gm p sol = Some \<lparr>s_Plans = plans', s_Cost = cost gm p plans'\<rparr> \<and>
    mset (plan_nodes plans') = mset (plan_nodes (s_Plans sol)) \<and> plan_sizes plans' = plan_sizes (s_Plans sol) \<and>
    map pl_VehicleID plans' = map pl_VehicleID (s_Plans sol) \<and>
    (\<forall>vi<length plans'. plans' ! vi = s_Plans sol ! vi \<or> snd (schedulePlan gm p (plans' ! vi) (p_Vehicles p ! vi))) \<and>
    (plans' = s_Plans sol \<or> path_sum gm p plans' < path_sum gm p (s_Plans sol)) \<and>
    exchange_pass cross_candidates gm p plans' = (plans', False)"
proof -
  from cross.exchange_improve_returns [of gm p sol] assms obtain plans' where
    e: "crossExchangeImprove gm p sol = Some \<lparr>s_Plans = plans', s_Cost = cost gm p plans'\<rparr>"
    "plans' = s_Plans sol \<or> (exchanged cross_candidates gm p)\<^sup>+\<^sup>+ plans' (s_Plans sol)"
    "exchange_pass cross_candidates gm p plans' = (plans', False)"
    unfolding crossExchangeImprove_def by auto
  from e(2) have "mset (plan_nodes plans') = mset (plan_nodes (s_Plans sol)) \<and> plan_sizes plans' = plan_sizes (s_Plans sol) \<and>
      map pl_VehicleID plans' = map pl_VehicleID (s_Plans sol) \<and>
      (plans' = s_Plans sol \<or> path_sum gm p plans' < path_sum gm p (s_Plans sol))"
    using cross_exchanges_keep exchanges_path_sum by blast
  moreover from e(2) have "\<forall>vi<length plans'. plans' ! vi = s_Plans sol ! vi \<or> snd (schedulePlan gm p (plans' ! vi) (p_Vehicles p ! vi))"
    using exchanges_feasible [of cross_candidates gm p plans' "s_Plans sol"] exchanges_length [of cross_candidates gm p plans' "s_Plans sol"] by auto
  ultimately show ?thesis using e(1,3) by blast
qed

theorem cross_exchange_improves_witness:
  "\<exists>sol'. crossExchangeImprove demo_math (demo_problem []) \<lparr>s_Plans = [demo_plan [1], demo_plan [0]], s_Cost = 0\<rparr> = Some sol' \<and>
    mset (plan_nodes (s_Plans sol')) = {#1, 0#}"
  using cross_exchange_improves [of "\<lparr>s_Plans = [demo_plan [1], demo_plan [0]], s_Cost = 0\<rparr>" demo_math "demo_problem []"]
  by (auto simp: demo_plan_def)

text \<open>
  \<^verbatim>\<open>twoOptStarImprove\<close> returns. The plans keep their vehicles, visit no node that was
  not visited before, and the number of visits stays the same; no exchange improves the result further. (That
  every node is still visited does not hold, see the next two properties.)
\<close>

theorem two_opt_star_returns:
  assumes "2 \<le> length (s_Plans sol)"
  shows "\<exists>plans'. twoOptStarImprove gm p sol = Some \<lparr>s_Plans = plans', s_Cost = cost gm p plans'\<rparr> \<and>
    map pl_VehicleID plans' = map pl_VehicleID (s_Plans sol) \<and>
    set (plan_nodes plans') \<subseteq> set (plan_nodes (s_Plans sol)) \<and> length (plan_nodes plans') = length (plan_nodes (s_Plans sol)) \<and>
    (plans' = s_Plans sol \<or> path_sum gm p plans' < path_sum gm p (s_Plans sol)) \<and>
    exchange_pass star_candidates gm p plans' = (plans', False)"
proof -
  from star.exchange_improve_returns [of gm p sol] assms obtain plans' where
    e: "twoOptStarImprove gm p sol = Some \<lparr>s_Plans = plans', s_Cost = cost gm p plans'\<rparr>"
    "plans' = s_Plans sol \<or> (exchanged star_candidates gm p)\<^sup>+\<^sup>+ plans' (s_Plans sol)"
    "exchange_pass star_candidates gm p plans' = (plans', False)"
    unfolding twoOptStarImprove_def by auto
  have "plans_over (map pl_VehicleID (s_Plans sol)) (set (plan_nodes (s_Plans sol))) (length (plan_nodes (s_Plans sol))) (s_Plans sol)"
    by (simp add: plans_over_def)
  with e(2) star.exchanges_plans_over have "plans_over (map pl_VehicleID (s_Plans sol)) (set (plan_nodes (s_Plans sol))) (length (plan_nodes (s_Plans sol))) plans'"
    by blast
  then show ?thesis using e exchanges_path_sum unfolding plans_over_def by blast
qed

theorem two_opt_star_returns_witness:
  "\<exists>sol'. twoOptStarImprove demo_math (demo_problem []) \<lparr>s_Plans = [demo_plan [1], demo_plan [0]], s_Cost = 0\<rparr> = Some sol' \<and>
    length (plan_nodes (s_Plans sol')) = 2"
  using two_opt_star_returns [of "\<lparr>s_Plans = [demo_plan [1], demo_plan [0]], s_Cost = 0\<rparr>" demo_math "demo_problem []"]
  by (auto simp: demo_plan_def)

lemma mset_three_parts: "mset (take i xs) + mset (take l (drop i xs)) + mset (drop (i + l) xs) = mset xs"
proof -
  have a: "mset (take l (drop i xs)) + mset (drop l (drop i xs)) = mset (drop i xs)"
    by (simp only: mset_append [symmetric] append_take_drop_id)
  have b: "mset (take i xs) + mset (drop i xs) = mset xs" by (simp only: mset_append [symmetric] append_take_drop_id)
  have "drop (i + l) xs = drop l (drop i xs)" by (simp add: add.commute)
  then show ?thesis by (simp only: add.assoc a b)
qed

text \<open>
  A 2-opt* candidate for segments of the same length is the exchange of the two segments, and
  permutes the nodes of the two plans.
\<close>

theorem star_candidate_equal_lengths:
  assumes "i + l \<le> length (pl_Order pa)" and "j + l \<le> length (pl_Order pb)"
  shows "map pl_Order [fst (star_candidate pa pb i j l l), snd (star_candidate pa pb i j l l)] =
      [take i (pl_Order pa) @ take l (drop j (pl_Order pb)) @ drop (i + l) (pl_Order pa),
       take j (pl_Order pb) @ take l (drop i (pl_Order pa)) @ drop (j + l) (pl_Order pb)] \<and>
    mset (pl_Order (fst (star_candidate pa pb i j l l))) + mset (pl_Order (snd (star_candidate pa pb i j l l))) =
      mset (pl_Order pa) + mset (pl_Order pb)"
proof -
  have e: "pl_Order (fst (star_candidate pa pb i j l l)) = take i (pl_Order pa) @ take l (drop j (pl_Order pb)) @ drop (i + l) (pl_Order pa)"
    "pl_Order (snd (star_candidate pa pb i j l l)) = take j (pl_Order pb) @ take l (drop i (pl_Order pa)) @ drop (j + l) (pl_Order pb)"
    using assms by (simp_all add: star_candidate_def Let_def splice_short)
  have s: "mset (take i xs) + mset (take l (drop i xs)) + mset (drop (i + l) xs) = mset xs" for i and xs :: "nat list"
    by (rule mset_three_parts)
  have "mset (pl_Order (fst (star_candidate pa pb i j l l))) + mset (pl_Order (snd (star_candidate pa pb i j l l))) =
      (mset (take i (pl_Order pa)) + mset (take l (drop i (pl_Order pa))) + mset (drop (i + l) (pl_Order pa))) +
      (mset (take j (pl_Order pb)) + mset (take l (drop j (pl_Order pb))) + mset (drop (j + l) (pl_Order pb)))"
    unfolding e mset_append by (simp only: ac_simps)
  then show ?thesis unfolding s by (simp add: e)
qed

theorem star_candidate_equal_lengths_witness:
  "pl_Order (fst (star_candidate (demo_plan [0, 1, 2]) (demo_plan [3, 4]) 1 0 1 1)) = [0, 3, 2]"
  using star_candidate_equal_lengths [of 1 1 "demo_plan [0, 1, 2]" 0 "demo_plan [3, 4]"] by (simp add: demo_plan_def)

text \<open>
  A 2-opt* candidate that brings two nodes in for one, with a tail behind it, loses a node: the
  nested \<^verbatim>\<open>append\<close> overwrites the first node of the tail before the tail is copied, so the second
  incoming node is visited twice and that node is in neither plan.
\<close>

theorem star_candidate_loses_node:
  assumes "i + 1 < length (pl_Order pa)" and "j + 2 \<le> length (pl_Order pb)" and "distinct (pl_Order pa @ pl_Order pb)"
  shows "pl_Order (fst (star_candidate pa pb i j 1 2)) =
      take i (pl_Order pa) @ [pl_Order pb ! j, pl_Order pb ! (j + 1), pl_Order pb ! (j + 1)] @ drop (i + 2) (pl_Order pa) \<and>
    pl_Order pa ! (i + 1) \<notin> set (pl_Order (fst (star_candidate pa pb i j 1 2))) \<union> set (pl_Order (snd (star_candidate pa pb i j 1 2)))"
proof -
  let ?xs = "pl_Order pa" and ?ys = "pl_Order pb"
  have segs: "take 2 (drop j ?ys) = [?ys ! j, ?ys ! (j + 1)]" "take 1 (drop i ?xs) = [?xs ! i]"
    using assms Cons_nth_drop_Suc [of j ?ys] Cons_nth_drop_Suc [of "j + 1" ?ys] Cons_nth_drop_Suc [of i ?xs]
    by (auto simp: numeral_2_eq_2 take_Suc_Cons dest!: sym [of "_ # _"])
  have a: "pl_Order (fst (star_candidate pa pb i j 1 2)) = take i ?xs @ [?ys ! j, ?ys ! (j + 1), ?ys ! (j + 1)] @ drop (i + 2) ?xs"
    using assms(1) by (simp add: star_candidate_def Let_def segs splice_long [simplified])
  have b: "pl_Order (snd (star_candidate pa pb i j 1 2)) = take j ?ys @ [?xs ! i] @ drop (j + 2) ?ys"
    using assms(2) segs by (simp add: star_candidate_def Let_def splice_short)
  have d: "distinct ?xs" "set ?xs \<inter> set ?ys = {}" using assms(3) by auto
  have "?xs ! (i + 1) \<notin> set (take i ?xs)" "?xs ! (i + 1) \<notin> set (drop (i + 2) ?xs)" "?xs ! (i + 1) \<noteq> ?xs ! i"
    using d(1) assms(1) by (auto simp: in_set_conv_nth nth_eq_iff_index_eq)
  moreover have "?xs ! (i + 1) \<notin> set ?ys" using d(2) assms(1) nth_mem [of "i + 1" ?xs] by blast
  moreover from this have "?xs ! (i + 1) \<noteq> ?ys ! j" "?xs ! (i + 1) \<noteq> ?ys ! (j + 1)" using assms(2) by auto
  ultimately show ?thesis unfolding a b by (auto dest: in_set_takeD in_set_dropD)
qed

theorem star_candidate_loses_node_witness:
  "pl_Order (fst (star_candidate (demo_plan [0, 1, 2]) (demo_plan [3, 4]) 0 0 1 2)) = [3, 4, 4, 2]"
  using star_candidate_loses_node [of 0 "demo_plan [0, 1, 2]" 0 "demo_plan [3, 4]"] by (simp add: demo_plan_def)

text \<open>
  C40: \<^verbatim>\<open>orOptLocalImprove\<close> does not return for a solution in which some plan visits two nodes: the
  loop over \<open>j\<close> resets \<open>j\<close> to the length of the shortened plan and increments it back, forever.
\<close>

theorem or_opt_diverges:
  assumes "\<exists>pl\<in>set (s_Plans sol). 2 \<le> length (pl_Order pl)"
  shows "orOptLocalImprove gm p sol = None"
  using assms orOptLocalImprove_diverges by blast

theorem or_opt_diverges_witness:
  "orOptLocalImprove demo_math (demo_problem []) \<lparr>s_Plans = [demo_plan [1, 0]], s_Cost = 0\<rparr> = None"
  by (rule or_opt_diverges) (simp add: demo_plan_def)

section \<open>Heuristics and the metrics registry\<close>

text \<open>
  \<^verbatim>\<open>ImproveOrder2Opt\<close> returns the stops it was given, with the first and the last one in
  their places, and the order is the one it was given or strictly shorter.
\<close>

theorem improve_order_spec:
  "mset (ImproveOrder2Opt gm nodes order its) = mset order \<and>
   (order \<noteq> [] \<longrightarrow> hd (ImproveOrder2Opt gm nodes order its) = hd order \<and> last (ImproveOrder2Opt gm nodes order its) = last order) \<and>
   (ImproveOrder2Opt gm nodes order its = order \<or>
    pathDistance gm nodes (ImproveOrder2Opt gm nodes order its) < pathDistance gm nodes order)"
  using ImproveOrder2Opt_spec [of gm nodes order its] unfolding reordered_def by blast

theorem improve_order_spec_witness:
  "hd (ImproveOrder2Opt demo_math [\<lparr>sn_Lat = 0, sn_Lng = 0\<rparr>] [0, 0] 5) = 0"
  using improve_order_spec [of demo_math "[\<lparr>sn_Lat = 0, sn_Lng = 0\<rparr>]" "[0, 0]" 5] by simp

text \<open>
  \<^verbatim>\<open>twoOptSwap\<close> of the heuristics, which copies, and the in-place swap loop of the
  engine's 2-opt compute the same order.
\<close>

theorem two_opt_swap_is_reversal:
  assumes "i \<le> k" and "k < length ord"
  shows "twoOptSwap ord i k = reverse_segment i k ord"
  using assms by (rule twoOptSwap_reverse)

theorem two_opt_swap_is_reversal_witness: "twoOptSwap [5, 6, 7, 8] 1 2 = [5, 7, 6, 8] \<and> reverse_segment 1 2 [5, 6, 7, 8] = [5, 7, 6, 8 :: nat]"
  using two_opt_swap_is_reversal [of 1 2 "[5, 6, 7, 8]"] by (simp add: twoOptSwap_def upt_rec)

text \<open>
  The metrics recorded for a tenant, plan date and algorithm are what the registry returns
  for them, every other entry is as before, and the result does not depend on the map's order.
\<close>

theorem metrics_registry:
  assumes "distinct (map fst st)" and "\<forall>st'. mset (order st') = mset st'"
  shows "GetMetrics order t d (RecordMetrics t' d' a' m st) a =
    (if (t, d, a) = (t', d', a') then Some m else GetMetrics order t d st a)"
proof -
  have "distinct (map fst (RecordMetrics t' d' a' m st))" unfolding RecordMetrics_def by (rule distinct_update [OF assms(1)])
  with assms show ?thesis by (auto simp: GetMetrics_order RecordMetrics_def update_conv')
qed

theorem metrics_registry_witness:
  "GetMetrics rev ''t'' ''d'' (RecordMetrics ''t'' ''d'' ''alns'' (demo_run 1) (RecordMetrics ''t'' ''d'' ''greedy'' (demo_run 0) [])) ''alns'' =
    Some (demo_run 1)"
  using metrics_registry [where st = "RecordMetrics ''t'' ''d'' ''greedy'' (demo_run 0) []" and order = rev and t = "''t''" and d = "''d''"
      and t' = "''t''" and d' = "''d''" and a' = "''alns''" and m = "demo_run 1" and a = "''alns''"]
  by (simp add: RecordMetrics_def)

end
