(* ===== verification/Go_Library.thy ===== *)
theory Go_Library
  imports Model_Types
begin

text \<open>
  What the HTTP side of the program uses of Go's standard library on byte strings: the functions of
  package \<^verbatim>\<open>strings\<close>, \<^verbatim>\<open>fmt.Sscanf\<close> with \<^verbatim>\<open>%d\<close> and the URL-safe base64 decoder, with the
  lemmas the handlers and the token verifier need; the outcome of a call that may fail or panic;
  and the record of the library functions that stay parameters.
\<close>

section \<open>Outcomes\<close>

datatype 'a outcome = Ret 'a | Err go_error | Panic go_panic

definition error_text :: "go_error \<Rightarrow> string" where
  "error_text e = (case e of ErrNotFound \<Rightarrow> ''not found'' | ErrText s \<Rightarrow> s)"

section \<open>Library functions that are parameters\<close>

text \<open>
  Unicode case mapping (\<^verbatim>\<open>strings.ToLower\<close>, \<^verbatim>\<open>strings.EqualFold\<close>), the RFC 3339 text of times,
  JSON, and the cryptographic primitives. Times are printed in UTC or in the server's zone;
  \<open>lib_parse_time\<close> gives the instant and its text in the zone it was written in. \<open>lib_parse_obj\<close> is \<^verbatim>\<open>json.Unmarshal\<close> into a
  \<^verbatim>\<open>map[string]any\<close>; \<open>lib_rsa_verify n e hash sig\<close> is \<^verbatim>\<open>rsa.VerifyPKCS1v15\<close> for SHA-256.
\<close>

record golib =
  lib_lower :: "string \<Rightarrow> string"
  lib_equal_fold :: "string \<Rightarrow> string \<Rightarrow> bool"
  lib_format :: "time \<Rightarrow> string"
  lib_format_local :: "time \<Rightarrow> string"
  lib_parse_time :: "string \<Rightarrow> (time \<times> string) option"
  lib_marshal :: "obj \<Rightarrow> string"
  lib_parse_obj :: "string \<Rightarrow> obj option"
  lib_hmac :: "string \<Rightarrow> string \<Rightarrow> string"
  lib_sha256 :: "string \<Rightarrow> string"
  lib_rsa_verify :: "nat \<Rightarrow> int \<Rightarrow> string \<Rightarrow> string \<Rightarrow> bool"

text \<open>What is assumed of the case mapping: on ASCII text it maps the capital letters.\<close>

definition ascii_lower :: "char \<Rightarrow> char" where
  "ascii_lower c = (let n = of_char c in if 65 \<le> n \<and> n \<le> (90::nat) then char_of (n + 32) else c)"

definition ascii :: "string \<Rightarrow> bool" where
  "ascii s \<longleftrightarrow> list_all (\<lambda>c. of_char c < (128::nat)) s"

definition lower_on_ascii :: "golib \<Rightarrow> bool" where
  "lower_on_ascii L \<longleftrightarrow> (\<forall>s. ascii s \<longrightarrow> lib_lower L s = map ascii_lower s)"

section \<open>Prefixes, suffixes and parts\<close>

definition has_prefix :: "string \<Rightarrow> string \<Rightarrow> bool" where
  "has_prefix p s \<longleftrightarrow> take (length p) s = p"

definition trim_prefix :: "string \<Rightarrow> string \<Rightarrow> string" where
  "trim_prefix p s = (if has_prefix p s then drop (length p) s else s)"

definition has_suffix :: "string \<Rightarrow> string \<Rightarrow> bool" where
  "has_suffix p s \<longleftrightarrow> length p \<le> length s \<and> drop (length s - length p) s = p"

definition trim_suffix :: "string \<Rightarrow> string \<Rightarrow> string" where
  "trim_suffix p s = (if has_suffix p s then take (length s - length p) s else s)"

fun contains :: "string \<Rightarrow> string \<Rightarrow> bool" where
  "contains p [] \<longleftrightarrow> p = []"
| "contains p (c # s) \<longleftrightarrow> has_prefix p (c # s) \<or> contains p s"

lemma has_prefix_append [simp]: "has_prefix p (p @ s)"
  by (simp add: has_prefix_def)

lemma has_prefix_iff: "has_prefix p s \<longleftrightarrow> (\<exists>t. s = p @ t)"
  by (metis append_eq_conv_conj append_take_drop_id has_prefix_def)

lemma trim_prefix_append [simp]: "trim_prefix p (p @ s) = s"
  by (simp add: trim_prefix_def)

lemma has_suffix_iff: "has_suffix p s \<longleftrightarrow> (\<exists>t. s = t @ p)"
proof
  assume "has_suffix p s"
  then have "s = take (length s - length p) s @ p" unfolding has_suffix_def by (metis append_take_drop_id)
  then show "\<exists>t. s = t @ p" ..
qed (auto simp: has_suffix_def)

lemma trim_suffix_append [simp]: "trim_suffix p (s @ p) = s"
  by (simp add: trim_suffix_def has_suffix_def)

lemma contains_iff: "contains p s \<longleftrightarrow> (\<exists>a b. s = a @ p @ b)"
proof (induction s)
  case Nil
  then show ?case by simp
next
  case (Cons c s)
  show ?case
  proof
    assume "contains p (c # s)"
    then consider "has_prefix p (c # s)" | "contains p s" by auto
    then show "\<exists>a b. c # s = a @ p @ b"
    proof cases
      case 1
      then obtain t where "c # s = [] @ p @ t" by (auto simp: has_prefix_iff)
      then show ?thesis by blast
    next
      case 2
      with Cons.IH obtain a b where "c # s = (c # a) @ p @ b" by auto
      then show ?thesis by blast
    qed
  next
    assume "\<exists>a b. c # s = a @ p @ b"
    then obtain a b where ab: "c # s = a @ p @ b" by blast
    show "contains p (c # s)"
    proof (cases a)
      case Nil
      with ab have "has_prefix p (c # s)" by simp
      then show ?thesis by simp
    next
      case (Cons d a')
      with ab Cons.IH show ?thesis by auto
    qed
  qed
qed

text \<open>\<^verbatim>\<open>strings.Split\<close> with a separator of one byte, and \<^verbatim>\<open>strings.Join\<close>.\<close>

fun split_on :: "char \<Rightarrow> string \<Rightarrow> string list" where
  "split_on sep [] = [[]]"
| "split_on sep (c # s) =
     (if c = sep then [] # split_on sep s
      else (case split_on sep s of p # ps \<Rightarrow> (c # p) # ps | [] \<Rightarrow> [[c]]))"

fun join_with :: "char \<Rightarrow> string list \<Rightarrow> string" where
  "join_with sep [] = []"
| "join_with sep [p] = p"
| "join_with sep (p # q # ps) = p @ sep # join_with sep (q # ps)"

lemma split_on_not_Nil [simp]: "split_on sep s \<noteq> []"
  by (induction s) (auto split: list.splits)

lemma join_split: "join_with sep (split_on sep s) = s"
proof (induction s)
  case Nil
  then show ?case by simp
next
  case (Cons c s)
  obtain p ps where sp: "split_on sep s = p # ps" by (meson list.exhaust split_on_not_Nil)
  with Cons show ?case by (cases ps) auto
qed

lemma split_on_parts: "p \<in> set (split_on sep s) \<Longrightarrow> sep \<notin> set p"
proof (induction s arbitrary: p)
  case Nil
  then show ?case by simp
next
  case (Cons c s)
  obtain q ps where sp: "split_on sep s = q # ps" by (meson list.exhaust split_on_not_Nil)
  with Cons show ?case by (auto split: if_splits)
qed

lemma split_on_plain: "sep \<notin> set p \<Longrightarrow> split_on sep p = [p]"
  by (induction p) auto

lemma split_on_append: "sep \<notin> set p \<Longrightarrow> split_on sep (p @ sep # s) = p # split_on sep s"
  by (induction p) auto

lemma split_on_three:
  "split_on sep s = [a, b, c] \<longleftrightarrow> s = a @ sep # b @ sep # c \<and> sep \<notin> set a \<and> sep \<notin> set b \<and> sep \<notin> set c"
proof
  assume sp: "split_on sep s = [a, b, c]"
  with join_split [of sep s] split_on_parts [of _ sep s]
  show "s = a @ sep # b @ sep # c \<and> sep \<notin> set a \<and> sep \<notin> set b \<and> sep \<notin> set c" by auto
qed (simp add: split_on_append split_on_plain)

section \<open>White space\<close>

text \<open>
  The UTF-8 encodings of the code points \<^verbatim>\<open>unicode.IsSpace\<close> accepts. \<^verbatim>\<open>strings.TrimSpace\<close> strips
  them from both ends; it decodes at the ends only, so stripping encodings is the same.
\<close>

definition space_codes :: "nat list list" where
  "space_codes = [[9], [10], [11], [12], [13], [32], [194, 133], [194, 160], [225, 154, 128]] @
     map (\<lambda>n. [226, 128, n]) [128..<139] @ [[226, 128, 168], [226, 128, 169], [226, 128, 175], [226, 129, 159], [227, 128, 128]]"

definition strip_one :: "string list \<Rightarrow> string \<Rightarrow> string option" where
  "strip_one codes s = (case find (\<lambda>p. has_prefix p s) codes of None \<Rightarrow> None | Some p \<Rightarrow> Some (drop (length p) s))"

fun strip :: "nat \<Rightarrow> string list \<Rightarrow> string \<Rightarrow> string" where
  "strip 0 codes s = s"
| "strip (Suc n) codes s = (case strip_one codes s of None \<Rightarrow> s | Some t \<Rightarrow> strip n codes t)"

definition trim_left :: "string \<Rightarrow> string" where
  "trim_left s = strip (length s) (map (map char_of) space_codes) s"

definition trim_right :: "string \<Rightarrow> string" where
  "trim_right s = rev (strip (length s) (map (\<lambda>c. rev (map char_of c)) space_codes) (rev s))"

definition trim_space :: "string \<Rightarrow> string" where
  "trim_space s = trim_right (trim_left s)"

section \<open>Numbers\<close>

text \<open>
  \<^verbatim>\<open>fmt.Sscanf(v, "%d", &x)\<close> for an \<^verbatim>\<open>int\<close>: leading spaces are skipped, a newline among them is
  an error; then an optional sign and the longest run of digits, which must be a 64-bit number. On
  an error the variable keeps its value; what follows the digits is not looked at.
\<close>

definition scan_spaces :: "string list" where
  "scan_spaces = map (map char_of) (removeAll [10] space_codes)"

definition sscanf_d :: "string \<Rightarrow> int \<Rightarrow> int" where
  "sscanf_d v x =
     (let s = strip (length v) scan_spaces v;
          (sign, ds) = (case s of [] \<Rightarrow> ([], [])
                        | c # cs \<Rightarrow> if c = CHR ''-'' \<or> c = CHR ''+'' then ([c], cs) else ([], s));
          digits = takeWhile (\<lambda>c. digit_value c \<noteq> None) ds
      in if digits = [] then x
         else case atoi (sign @ digits) of None \<Rightarrow> x | Some n \<Rightarrow> n)"

lemma digit_char_plain: "digit_value c \<noteq> None \<Longrightarrow> c \<noteq> CHR ''-'' \<and> c \<noteq> CHR ''+''"
  by (auto simp: digit_value_def)

lemma nat_text_digits: "\<forall>c\<in>set (nat_text n). digit_value c \<noteq> None"
proof (induction n rule: nat_text.induct)
  case (1 n)
  show ?case
  proof (cases "n < 10")
    case True
    then show ?thesis by (subst nat_text.simps) simp
  next
    case False
    with 1 [OF False] show ?thesis by (subst nat_text.simps) simp
  qed
qed

lemma takeWhile_all: "\<forall>x\<in>set xs. P x \<Longrightarrow> takeWhile P xs = xs"
  by (simp add: takeWhile_eq_all_conv)

lemma strip_none: "strip_one codes s = None \<Longrightarrow> strip n codes s = s"
  by (cases n) auto

lemma scan_spaces_none:
  "list_all (\<lambda>p. p \<noteq> [] \<and> digit_value (hd p) = None \<and> hd p \<noteq> CHR ''-'') scan_spaces"
  by code_simp

lemma strip_one_number:
  assumes "s \<noteq> []" and "digit_value (hd s) \<noteq> None \<or> hd s = CHR ''-''"
  shows "strip_one scan_spaces s = None"
proof -
  have "\<not> has_prefix p s" if "p \<in> set scan_spaces" for p
  proof
    assume "has_prefix p s"
    moreover have p: "p \<noteq> []" "digit_value (hd p) = None" "hd p \<noteq> CHR ''-''"
      using scan_spaces_none that by (auto simp: list_all_iff)
    ultimately have "hd s = hd p" by (auto simp: has_prefix_iff hd_append)
    with p assms show False by auto
  qed
  then have "find (\<lambda>p. has_prefix p s) scan_spaces = None" by (simp add: find_None_iff)
  then show ?thesis by (simp add: strip_one_def)
qed

text \<open>A printed number is read back, whatever follows it (as long as it is not a digit).\<close>

lemma sscanf_int_text:
  assumes "min_int \<le> i" and "i \<le> max_int"
  shows "sscanf_d (int_text i) x = i"
proof -
  let ?s = "int_text i"
  have ne: "nat_text n \<noteq> []" for n using nat_text_shape [of n] by auto
  have hd: "?s \<noteq> []" "digit_value (hd ?s) \<noteq> None \<or> hd ?s = CHR ''-''"
    using bspec [OF nat_text_digits hd_in_set [OF ne]] ne by (simp_all add: int_text_def)
  have strip: "strip (length ?s) scan_spaces ?s = ?s" by (rule strip_none) (rule strip_one_number [OF hd])
  have tw: "takeWhile (\<lambda>c. digit_value c \<noteq> None) (nat_text n) = nat_text n" for n
    by (rule takeWhile_all [OF nat_text_digits])
  show ?thesis
  proof (cases "i < 0")
    case True
    then have "?s = CHR ''-'' # nat_text (nat (- i))" by (simp add: int_text_def)
    with strip ne atoi_int_text [OF assms] show ?thesis by (simp add: sscanf_d_def Let_def tw del: not_None_eq)
  next
    case False
    then have s: "?s = nat_text (nat i)" by (simp add: int_text_def)
    obtain d rest where dr: "nat_text (nat i) = d # rest" using ne by (meson list.exhaust)
    have "d \<noteq> CHR ''-'' \<and> d \<noteq> CHR ''+''" using nat_text_digits [of "nat i"] dr by (auto intro!: digit_char_plain)
    with strip tw [of "nat i", unfolded dr] atoi_int_text [OF assms] s show ?thesis
      by (simp add: sscanf_d_def Let_def dr del: not_None_eq takeWhile.simps takeWhile_eq_all_conv)
  qed
qed

section \<open>Base64, URL alphabet without padding\<close>

text \<open>
  \<^verbatim>\<open>base64.RawURLEncoding.DecodeString\<close>: carriage returns and newlines are skipped, any other
  character outside the alphabet is an error, and so is a single character left over; the unused bits of the last
  character are not checked.
\<close>

definition b64_value :: "char \<Rightarrow> nat option" where
  "b64_value c =
     (let n = of_char c in
      if 65 \<le> n \<and> n \<le> 90 then Some (n - 65)
      else if 97 \<le> n \<and> n \<le> 122 then Some (n - 71)
      else if 48 \<le> n \<and> n \<le> 57 then Some (n + 4)
      else if n = 45 then Some 62 else if n = 95 then Some 63 else None)"

fun b64_bytes :: "nat list \<Rightarrow> string option" where
  "b64_bytes [] = Some []"
| "b64_bytes [a] = None"
| "b64_bytes [a, b] = Some [char_of (a * 4 + b div 16)]"
| "b64_bytes [a, b, c] = Some [char_of (a * 4 + b div 16), char_of (b mod 16 * 16 + c div 4)]"
| "b64_bytes (a # b # c # d # rest) =
     (case b64_bytes rest of None \<Rightarrow> None
      | Some bs \<Rightarrow> Some (char_of (a * 4 + b div 16) # char_of (b mod 16 * 16 + c div 4) # char_of (c mod 4 * 64 + d) # bs))"

definition b64_decode :: "string \<Rightarrow> string option" where
  "b64_decode s =
     (case those (map b64_value (filter (\<lambda>c. c \<noteq> char_of (10::nat) \<and> c \<noteq> char_of (13::nat)) s)) of
        None \<Rightarrow> None | Some vs \<Rightarrow> b64_bytes vs)"

text \<open>The encoder, as a specification of the decoder.\<close>

definition b64_char :: "nat \<Rightarrow> char" where
  "b64_char n = char_of (if n < 26 then n + 65 else if n < 52 then n + 71 else if n < 62 then n - 4
     else if n = 62 then 45 else 95)"

fun b64_encode :: "string \<Rightarrow> string" where
  "b64_encode [] = []"
| "b64_encode [x] = (let a = of_char x in [b64_char (a div 4), b64_char (a mod 4 * 16)])"
| "b64_encode [x, y] = (let a = of_char x; b = of_char y
     in [b64_char (a div 4), b64_char (a mod 4 * 16 + b div 16), b64_char (b mod 16 * 4)])"
| "b64_encode (x # y # z # rest) = (let a = of_char x; b = of_char y; c = of_char z
     in b64_char (a div 4) # b64_char (a mod 4 * 16 + b div 16) # b64_char (b mod 16 * 4 + c div 64) # b64_char (c mod 64)
        # b64_encode rest)"

lemma b64_char_props:
  assumes "n < 64"
  shows "b64_value (b64_char n) = Some n" and "b64_char n \<noteq> char_of (10::nat) \<and> b64_char n \<noteq> char_of (13::nat)"
    and "b64_char n \<noteq> CHR ''.''"
proof -
  define k where "k = (if n < 26 then n + 65 else if n < 52 then n + 71 else if n < 62 then n - 4 else if n = 62 then 45 else 95)"
  have k: "k < 256" "k \<noteq> 10" "k \<noteq> 13" "k \<noteq> 46" using assms by (auto simp: k_def)
  have c: "b64_char n = char_of k" by (simp add: b64_char_def k_def)
  have o: "of_char (b64_char n) = k" using k(1) by (simp add: c)
  have codes: "of_char (CHR ''.'') = (46::nat)" "of_char (char_of (10::nat)) = (10::nat)" "of_char (char_of (13::nat)) = (13::nat)"
    by simp_all
  show "b64_char n \<noteq> char_of (10::nat) \<and> b64_char n \<noteq> char_of (13::nat)" and "b64_char n \<noteq> CHR ''.''"
    using k o codes by metis+
  show "b64_value (b64_char n) = Some n" using assms by (auto simp: b64_value_def o k_def Let_def)
qed

definition b64_values :: "string \<Rightarrow> nat list option" where
  "b64_values s = those (map b64_value (filter (\<lambda>c. c \<noteq> char_of (10::nat) \<and> c \<noteq> char_of (13::nat)) s))"

lemma b64_values_Nil: "b64_values [] = Some []"
  by (simp add: b64_values_def)

lemma b64_values_Cons: "n < 64 \<Longrightarrow> b64_values (b64_char n # s) = map_option (Cons n) (b64_values s)"
  using b64_char_props [of n] by (simp add: b64_values_def)

text \<open>The six-bit groups of one, two or three bytes, and the bytes put together again.\<close>

lemma pack: "r < k \<Longrightarrow> (q * k + r) div k = q \<and> (q * k + r) mod k = (r::nat)"
  by (cases "k = 0") simp_all

lemma b64_groups:
  fixes x y z :: char
  shows "(of_char x :: nat) div 4 < 64" and "(of_char x :: nat) mod 4 * 16 < 64"
    and "(of_char x :: nat) mod 4 * 16 + of_char y div 16 < 64" and "(of_char y :: nat) mod 16 * 4 < 64"
    and "(of_char y :: nat) mod 16 * 4 + of_char z div 64 < 64" and "(of_char z :: nat) mod 64 < 64"
proof -
  have q: "(of_char c :: nat) div 4 < 64" "(of_char c :: nat) div 16 < 16" "(of_char c :: nat) div 64 < 4" for c :: char
    using less_mult_imp_div_less [of "of_char c" 64 4] less_mult_imp_div_less [of "of_char c" 16 16]
      less_mult_imp_div_less [of "of_char c" 4 64] by simp_all
  have m: "(of_char c :: nat) mod 4 \<le> 3" "(of_char c :: nat) mod 16 \<le> 15" for c :: char
    using mod_less_divisor [of 4 "of_char c :: nat"] mod_less_divisor [of 16 "of_char c :: nat"] by linarith+
  show "(of_char x :: nat) div 4 < 64" and "(of_char z :: nat) mod 64 < 64" using q by simp_all
  show "(of_char x :: nat) mod 4 * 16 < 64" and "(of_char y :: nat) mod 16 * 4 < 64" using m(1) [of x] m(2) [of y] by linarith+
  show "(of_char x :: nat) mod 4 * 16 + of_char y div 16 < 64" using m(1) [of x] q(2) [of y] by linarith
  show "(of_char y :: nat) mod 16 * 4 + of_char z div 64 < 64" using m(2) [of y] q(3) [of z] by linarith
qed

lemma b64_bytes_of:
  fixes x y z :: char
  shows "(of_char x :: nat) div 4 * 4 + (of_char x mod 4 * 16 + of_char y div 16) div 16 = of_char x"
    and "(of_char x :: nat) div 4 * 4 + of_char x mod 4 * 16 div 16 = of_char x"
    and "((of_char x :: nat) mod 4 * 16 + of_char y div 16) mod 16 * 16 + (of_char y mod 16 * 4 + of_char z div 64) div 4 = of_char y"
    and "((of_char x :: nat) mod 4 * 16 + of_char y div 16) mod 16 * 16 + of_char y mod 16 * 4 div 4 = of_char y"
    and "((of_char y :: nat) mod 16 * 4 + of_char z div 64) mod 4 * 64 + of_char z mod 64 = of_char z"
proof -
  have y: "(of_char y :: nat) div 16 < 16" and z: "(of_char z :: nat) div 64 < 4"
    using less_mult_imp_div_less [of "of_char y :: nat" 16 16] less_mult_imp_div_less [of "of_char z :: nat" 4 64] by simp_all
  show "(of_char x :: nat) div 4 * 4 + (of_char x mod 4 * 16 + of_char y div 16) div 16 = of_char x"
    and "((of_char x :: nat) mod 4 * 16 + of_char y div 16) mod 16 * 16 + (of_char y mod 16 * 4 + of_char z div 64) div 4 = of_char y"
    and "((of_char y :: nat) mod 16 * 4 + of_char z div 64) mod 4 * 64 + of_char z mod 64 = of_char z"
    using pack [OF y, of "of_char x mod 4"] pack [OF z, of "of_char y mod 16"] by (simp_all only: div_mult_mod_eq)
  show "(of_char x :: nat) div 4 * 4 + of_char x mod 4 * 16 div 16 = of_char x"
    and "((of_char x :: nat) mod 4 * 16 + of_char y div 16) mod 16 * 16 + of_char y mod 16 * 4 div 4 = of_char y"
    using pack [OF y, of "of_char x mod 4"] by (simp_all only: div_mult_mod_eq nonzero_mult_div_cancel_right simp_thms
        zero_neq_numeral not_False_eq_True)
qed

lemma b64_roundtrip: "b64_decode (b64_encode s) = Some s"
proof -
  have "\<exists>vs. b64_values (b64_encode s) = Some vs \<and> b64_bytes vs = Some s"
  proof (induction s rule: b64_encode.induct)
    case (4 x y z rest)
    then obtain vs where vs: "b64_values (b64_encode rest) = Some vs" "b64_bytes vs = Some rest" by blast
    then show ?case by (simp only: b64_encode.simps b64_bytes.simps Let_def b64_values_Cons b64_groups b64_bytes_of
          option.map option.inject option.case char_of_char ex_simps simp_thms)
  qed (simp_all only: b64_encode.simps b64_bytes.simps Let_def b64_values_Cons b64_values_Nil b64_groups b64_bytes_of
      option.map option.inject option.case char_of_char ex_simps simp_thms)
  then show ?thesis by (auto simp: b64_decode_def b64_values_def)
qed

lemma b64_encode_plain: "CHR ''.'' \<notin> set (b64_encode s)"
proof -
  have "CHR ''.'' \<noteq> b64_char n" if "n < 64" for n using b64_char_props(3) [OF that] by metis
  then show ?thesis by (induction s rule: b64_encode.induct) (simp_all add: Let_def b64_groups)
qed

end
