(* ===== verification/Store_Interface.thy ===== *)
theory Store_Interface
  imports Go_Library Publisher
begin

text \<open>
  The interface \<^verbatim>\<open>store.Store\<close> (\<^verbatim>\<open>internal/store/store.go\<close>) as a record of methods over a state
  \<open>'s\<close>, one field for each method of the interface in its order. A call maps the state to the new
  state and an outcome: a value, an error or a panic. Contexts are not modelled. The HTTP handlers are
  defined over any such record; the in-memory store is one (\<open>Store_Memory\<close>).
\<close>

type_synonym ('s, 'a) call = "'s \<Rightarrow> 's \<times> 'a outcome"

record dlq_query =
  dq_eventType :: string
  dq_olderThan :: time
  dq_codeMin :: int
  dq_codeMax :: int
  dq_errorQuery :: string

record 's store =
  st_CreateOrders :: "string \<Rightarrow> order_in list \<Rightarrow> ('s, string \<times> int \<times> int) call"
  st_ListOrders :: "string \<Rightarrow> string \<Rightarrow> string \<Rightarrow> int \<Rightarrow> ('s, order_out list \<times> string) call"
  st_GetRoute :: "string \<Rightarrow> string \<Rightarrow> ('s, route) call"
  st_ListRoutes :: "string \<Rightarrow> string \<Rightarrow> int \<Rightarrow> ('s, route list \<times> string) call"
  st_AssignRoute :: "string \<Rightarrow> string \<Rightarrow> string \<Rightarrow> string \<Rightarrow> time \<Rightarrow> ('s, route) call"
  st_PatchRoute :: "string \<Rightarrow> string \<Rightarrow> route_patch \<Rightarrow> ('s, route) call"
  st_PlanRoutes :: "optimize_request \<Rightarrow> ('s, route list \<times> string) call"
  st_InsertDriverEvents :: "string \<Rightarrow> driver_event list \<Rightarrow> ('s, int) call"
  st_CreatePoD :: "pod_request \<Rightarrow> ('s, string \<times> string) call"
  st_CreateSubscription :: "subscription_request \<Rightarrow> ('s, subscription) call"
  st_GetSubscriptionsForEvent :: "string \<Rightarrow> string \<Rightarrow> ('s, subscription list) call"
  st_ListSubscriptions :: "string \<Rightarrow> string \<Rightarrow> int \<Rightarrow> ('s, subscription list \<times> string) call"
  st_DeleteSubscription :: "string \<Rightarrow> string \<Rightarrow> ('s, unit) call"
  st_AdvanceRoute :: "string \<Rightarrow> string \<Rightarrow> advance_request \<Rightarrow> ('s, advance_response) call"
  st_UpdateHOS :: "string \<Rightarrow> string \<Rightarrow> hos_update \<Rightarrow> ('s, string \<times> obj) call"
  st_CreateGeofence :: "string \<Rightarrow> geofence_input \<Rightarrow> ('s, geofence) call"
  st_ListGeofences :: "string \<Rightarrow> string \<Rightarrow> int \<Rightarrow> ('s, geofence list \<times> string) call"
  st_GetGeofence :: "string \<Rightarrow> string \<Rightarrow> ('s, geofence) call"
  st_PatchGeofence :: "string \<Rightarrow> string \<Rightarrow> geofence_input \<Rightarrow> ('s, geofence) call"
  st_DeleteGeofence :: "string \<Rightarrow> string \<Rightarrow> ('s, unit) call"
  st_EnqueueWebhook :: "string \<Rightarrow> string \<Rightarrow> string \<Rightarrow> string \<Rightarrow> string \<Rightarrow> string \<Rightarrow> ('s, string) call"
  st_FetchDueWebhookDeliveries :: "int \<Rightarrow> ('s, webhook_delivery list) call"
  st_MarkWebhookDelivery :: "string \<Rightarrow> bool \<Rightarrow> time option \<Rightarrow> string \<Rightarrow> int \<Rightarrow> int \<Rightarrow> ('s, unit) call"
  st_FailWebhookDelivery :: "string \<Rightarrow> string \<Rightarrow> int \<Rightarrow> int \<Rightarrow> ('s, unit) call"
  st_ListWebhookDeliveries :: "string \<Rightarrow> string \<Rightarrow> string \<Rightarrow> int \<Rightarrow> ('s, obj list \<times> string) call"
  st_RetryWebhookDelivery :: "string \<Rightarrow> string \<Rightarrow> ('s, unit) call"
  st_RouteStats :: "string \<Rightarrow> string \<Rightarrow> ('s, obj) call"
  st_WebhookMetrics :: "metrics_query \<Rightarrow> int list \<Rightarrow> ('s, obj list) call"
  st_SavePlanMetrics :: "string \<Rightarrow> string \<Rightarrow> string \<Rightarrow> obj \<Rightarrow> ('s, unit) call"
  st_ListPlanMetrics :: "string \<Rightarrow> string \<Rightarrow> string \<Rightarrow> ('s, obj list) call"
  st_SavePlanMetricsWeights :: "string \<Rightarrow> string \<Rightarrow> string \<Rightarrow> obj list \<Rightarrow> ('s, unit) call"
  st_ListPlanMetricsWeights :: "string \<Rightarrow> string \<Rightarrow> string \<Rightarrow> ('s, obj list) call"
  st_GetOptimizerConfig :: "string \<Rightarrow> ('s, obj option) call"
  st_SaveOptimizerConfig :: "string \<Rightarrow> obj \<Rightarrow> ('s, unit) call"
  st_FindRoutesByStop :: "string \<Rightarrow> string \<Rightarrow> ('s, string list) call"
  st_ListActiveRoutesForDriver :: "string \<Rightarrow> string \<Rightarrow> ('s, string list) call"
  st_ListWebhookDLQ :: "string \<Rightarrow> dlq_query \<Rightarrow> string \<Rightarrow> int \<Rightarrow> ('s, obj list \<times> string) call"
  st_RequeueWebhookDLQ :: "string \<Rightarrow> string \<Rightarrow> ('s, unit) call"
  st_RequeueWebhookDLQBulk :: "string \<Rightarrow> string list \<Rightarrow> ('s, unit) call"
  st_DeleteWebhookDLQBulk :: "string \<Rightarrow> string list \<Rightarrow> time \<Rightarrow> ('s, unit) call"

text \<open>The part of the interface the publisher uses (\<^verbatim>\<open>webhooks.NewPublisher(s)\<close>).\<close>

definition publisher_of :: "'s store \<Rightarrow> 's publish_store" where
  "publisher_of M =
     \<lparr>pb_subscriptions = (\<lambda>s t ev. case snd (st_GetSubscriptionsForEvent M t ev s) of
         Ret ss \<Rightarrow> Inr ss | Err e \<Rightarrow> Inl e | Panic _ \<Rightarrow> Inl (ErrText ''panic'')),
      pb_enqueue = (\<lambda>_ s t sid ev url sec pl. fst (st_EnqueueWebhook M t sid ev url sec pl s))\<rparr>"

section \<open>What a server relies on\<close>

text \<open>
  A call keeps a predicate on the state, and if it panics then not because of a channel.
\<close>

definition keeps :: "('s \<Rightarrow> bool) \<Rightarrow> ('s, 'a) call \<Rightarrow> bool" where
  "keeps good f \<longleftrightarrow> (\<forall>s. good s \<longrightarrow> good (fst (f s)) \<and> snd (f s) \<noteq> Panic CloseClosed \<and> snd (f s) \<noteq> Panic SendClosed)"

text \<open>
  The contract of a store: every method the handlers call keeps the states \<open>good\<close>. Two methods write a
  route under an identifier the caller chooses, also when there is no such route; they keep \<open>good\<close> when the
  identifier is \<open>free\<close>, that is, none that the store will draw for something else later.
\<close>

locale store_contract =
  fixes M :: "'s store"
    and good :: "'s \<Rightarrow> bool"
    and free :: "'s \<Rightarrow> string \<Rightarrow> bool"
  assumes keeps_CreateOrders: "keeps good (st_CreateOrders M t ords)"
    and keeps_ListOrders: "keeps good (st_ListOrders M t status cursor limit)"
    and keeps_GetRoute: "keeps good (st_GetRoute M t k)"
    and keeps_ListRoutes: "keeps good (st_ListRoutes M t cursor limit)"
    and keeps_PlanRoutes: "keeps good (st_PlanRoutes M req)"
    and keeps_InsertDriverEvents: "keeps good (st_InsertDriverEvents M t evs)"
    and keeps_CreatePoD: "keeps good (st_CreatePoD M pod)"
    and keeps_CreateSubscription: "keeps good (st_CreateSubscription M sub)"
    and keeps_ListSubscriptions: "keeps good (st_ListSubscriptions M t cursor limit)"
    and keeps_DeleteSubscription: "keeps good (st_DeleteSubscription M t k)"
    and keeps_AdvanceRoute: "keeps good (st_AdvanceRoute M t k adv)"
    and keeps_UpdateHOS: "keeps good (st_UpdateHOS M t d upd)"
    and keeps_CreateGeofence: "keeps good (st_CreateGeofence M t inp)"
    and keeps_ListGeofences: "keeps good (st_ListGeofences M t cursor limit)"
    and keeps_GetGeofence: "keeps good (st_GetGeofence M t k)"
    and keeps_PatchGeofence: "keeps good (st_PatchGeofence M t k inp)"
    and keeps_DeleteGeofence: "keeps good (st_DeleteGeofence M t k)"
    and keeps_EnqueueWebhook: "keeps good (st_EnqueueWebhook M t sid ev url sec pl)"
    and keeps_ListWebhookDeliveries: "keeps good (st_ListWebhookDeliveries M t status cursor limit)"
    and keeps_RetryWebhookDelivery: "keeps good (st_RetryWebhookDelivery M t k)"
    and keeps_RouteStats: "keeps good (st_RouteStats M t planDate)"
    and keeps_WebhookMetrics: "keeps good (st_WebhookMetrics M q buckets)"
    and keeps_ListPlanMetrics: "keeps good (st_ListPlanMetrics M t planDate algo)"
    and keeps_ListPlanMetricsWeights: "keeps good (st_ListPlanMetricsWeights M t planDate algo)"
    and keeps_GetOptimizerConfig: "keeps good (st_GetOptimizerConfig M t)"
    and keeps_SaveOptimizerConfig: "keeps good (st_SaveOptimizerConfig M t cfg)"
    and keeps_FindRoutesByStop: "keeps good (st_FindRoutesByStop M t stop)"
    and keeps_ListActiveRoutesForDriver: "keeps good (st_ListActiveRoutesForDriver M t d)"
    and keeps_ListWebhookDLQ: "keeps good (st_ListWebhookDLQ M t dq cursor limit)"
    and keeps_RequeueWebhookDLQ: "keeps good (st_RequeueWebhookDLQ M t k)"
    and keeps_RequeueWebhookDLQBulk: "keeps good (st_RequeueWebhookDLQBulk M t ks)"
    and keeps_DeleteWebhookDLQBulk: "keeps good (st_DeleteWebhookDLQBulk M t ks older)"
    and good_AssignRoute: "good s \<Longrightarrow> free s k \<Longrightarrow> good (fst (st_AssignRoute M t k d v now s)) \<and>
      snd (st_AssignRoute M t k d v now s) \<noteq> Panic CloseClosed \<and> snd (st_AssignRoute M t k d v now s) \<noteq> Panic SendClosed"
    and good_PatchRoute: "good s \<Longrightarrow> free s k \<Longrightarrow> good (fst (st_PatchRoute M t k p s)) \<and>
      snd (st_PatchRoute M t k p s) \<noteq> Panic CloseClosed \<and> snd (st_PatchRoute M t k p s) \<noteq> Panic SendClosed"
begin

lemmas kept = keeps_CreateOrders keeps_ListOrders keeps_GetRoute keeps_ListRoutes keeps_PlanRoutes
  keeps_InsertDriverEvents keeps_CreatePoD keeps_CreateSubscription keeps_ListSubscriptions
  keeps_DeleteSubscription keeps_AdvanceRoute keeps_UpdateHOS keeps_CreateGeofence keeps_ListGeofences
  keeps_GetGeofence keeps_PatchGeofence keeps_DeleteGeofence keeps_EnqueueWebhook keeps_ListWebhookDeliveries
  keeps_RetryWebhookDelivery keeps_RouteStats keeps_WebhookMetrics keeps_ListPlanMetrics
  keeps_ListPlanMetricsWeights keeps_GetOptimizerConfig keeps_SaveOptimizerConfig keeps_FindRoutesByStop
  keeps_ListActiveRoutesForDriver keeps_ListWebhookDLQ keeps_RequeueWebhookDLQ keeps_RequeueWebhookDLQBulk
  keeps_DeleteWebhookDLQBulk

lemma keepsD: "keeps good f \<Longrightarrow> good s \<Longrightarrow> good (fst (f s)) \<and> snd (f s) \<noteq> Panic CloseClosed \<and> snd (f s) \<noteq> Panic SendClosed"
  by (simp add: keeps_def)

end

end
