(* ===== verification/Broker.thy ===== *)
theory Broker
  imports Model_Types
begin

text \<open>
  The in-process event broker, \<^verbatim>\<open>internal/api/broker.go\<close>: a map from route ids to sets of buffered
  channels. Every method holds the mutex while it touches the map, so a call is one step.

  A channel is a reference that broker and clients share, so channels live in a heap: \<open>br_chans\<close>
  lists them in the order of their creation and a channel is its position. \<^verbatim>\<open>close\<close> of a closed
  channel and a send on one panic, as in Go. A set of channels is a list: the order in which Go ranges over it does not
  matter, because the sends go to different channels.
\<close>

record sse_event =
  ev_Type :: string
  ev_Data :: obj

record channel =
  ch_buffer :: "sse_event list"
  ch_closed :: bool

record broker =
  br_subs :: "string \<Rightarrow> nat list option"
  br_chans :: "channel list"

definition NewBroker :: broker where
  "NewBroker = \<lparr>br_subs = Map.empty, br_chans = []\<rparr>"

text \<open>The capacity in \<^verbatim>\<open>make(chan SSEEvent, 8)\<close>.\<close>

definition capacity :: nat where
  "capacity = 8"

definition Subscribe :: "string \<Rightarrow> broker \<Rightarrow> broker \<times> nat" where
  "Subscribe routeID b =
     (let ch = length (br_chans b);
          m = (case br_subs b routeID of None \<Rightarrow> [] | Some m \<Rightarrow> m)
      in (b\<lparr>br_subs := (br_subs b)(routeID \<mapsto> m @ [ch]),
            br_chans := br_chans b @ [\<lparr>ch_buffer = [], ch_closed = False\<rparr>]\<rparr>, ch))"

definition close_channel :: "nat \<Rightarrow> broker \<Rightarrow> broker \<times> go_panic option" where
  "close_channel ch b =
     (if ch_closed (br_chans b ! ch) then (b, Some CloseClosed)
      else (b\<lparr>br_chans := (br_chans b)[ch := (br_chans b ! ch)\<lparr>ch_closed := True\<rparr>]\<rparr>, None))"

definition Unsubscribe :: "string \<Rightarrow> nat \<Rightarrow> broker \<Rightarrow> broker \<times> go_panic option" where
  "Unsubscribe routeID ch b =
     (let b1 = (case br_subs b routeID of
                  None \<Rightarrow> b
                | Some m \<Rightarrow>
                    let m' = removeAll ch m
                    in b\<lparr>br_subs := (br_subs b)(routeID := (if m' = [] then None else Some m'))\<rparr>)
      in close_channel ch b1)"

text \<open>\<^verbatim>\<open>select { case ch <- evt: default: }\<close> for one channel, and the loop over the set.\<close>

definition try_send :: "sse_event \<Rightarrow> channel \<Rightarrow> go_panic + channel" where
  "try_send evt c =
     (if ch_closed c then Inl SendClosed
      else if length (ch_buffer c) < capacity then Inr (c\<lparr>ch_buffer := ch_buffer c @ [evt]\<rparr>)
      else Inr c)"

fun publish_loop :: "sse_event \<Rightarrow> nat list \<Rightarrow> channel list \<Rightarrow> channel list \<times> go_panic option" where
  "publish_loop evt [] cs = (cs, None)"
| "publish_loop evt (ch # m) cs =
     (case try_send evt (cs ! ch) of
        Inl p \<Rightarrow> (cs, Some p)
      | Inr c \<Rightarrow> publish_loop evt m (cs[ch := c]))"

definition Publish :: "string \<Rightarrow> sse_event \<Rightarrow> broker \<Rightarrow> broker \<times> go_panic option" where
  "Publish routeID evt b =
     (let (cs, p) = publish_loop evt (case br_subs b routeID of None \<Rightarrow> [] | Some m \<Rightarrow> m) (br_chans b)
      in (b\<lparr>br_chans := cs\<rparr>, p))"

text \<open>
  \<^verbatim>\<open><-ch\<close>: the oldest value of the buffer; on an empty channel the receiver waits unless the
  channel is closed.
\<close>

datatype received = Got sse_event | Closed | Waits

definition receive :: "nat \<Rightarrow> broker \<Rightarrow> broker \<times> received" where
  "receive ch b =
     (case ch_buffer (br_chans b ! ch) of
        evt # rest \<Rightarrow> (b\<lparr>br_chans := (br_chans b)[ch := (br_chans b ! ch)\<lparr>ch_buffer := rest\<rparr>]\<rparr>, Got evt)
      | [] \<Rightarrow> (b, if ch_closed (br_chans b ! ch) then Closed else Waits))"

section \<open>Well-formed brokers\<close>

definition subscribed :: "broker \<Rightarrow> string \<Rightarrow> nat \<Rightarrow> bool" where
  "subscribed b r c \<longleftrightarrow> (case br_subs b r of None \<Rightarrow> False | Some m \<Rightarrow> c \<in> set m)"

definition broker_inv :: "broker \<Rightarrow> bool" where
  "broker_inv b \<longleftrightarrow>
     (\<forall>r m. br_subs b r = Some m \<longrightarrow> m \<noteq> [] \<and> distinct m) \<and>
     (\<forall>r c. subscribed b r c \<longrightarrow> c < length (br_chans b) \<and> \<not> ch_closed (br_chans b ! c)) \<and>
     (\<forall>r r' c. subscribed b r c \<longrightarrow> subscribed b r' c \<longrightarrow> r = r') \<and>
     (\<forall>c<length (br_chans b). length (ch_buffer (br_chans b ! c)) \<le> capacity)"

text \<open>What the clients see: for each route, the unread events of each subscribed channel.\<close>

definition mailboxes :: "broker \<Rightarrow> string \<Rightarrow> nat \<rightharpoonup> sse_event list" where
  "mailboxes b r c = (if subscribed b r c then Some (ch_buffer (br_chans b ! c)) else None)"

definition push :: "sse_event \<Rightarrow> sse_event list \<Rightarrow> sse_event list" where
  "push evt q = (if length q < capacity then q @ [evt] else q)"

lemma broker_inv_new [inv_intros]: "broker_inv NewBroker"
  by (simp add: broker_inv_def NewBroker_def subscribed_def)

lemma subscribed_Subscribe:
  "subscribed (fst (Subscribe r b)) r' c \<longleftrightarrow> subscribed b r' c \<or> (r' = r \<and> c = length (br_chans b))"
  by (auto simp: Subscribe_def subscribed_def Let_def split: option.splits)

lemma chans_Subscribe:
  "br_chans (fst (Subscribe r b)) = br_chans b @ [\<lparr>ch_buffer = [], ch_closed = False\<rparr>]"
  by (simp add: Subscribe_def Let_def)

lemma snd_Subscribe: "snd (Subscribe r b) = length (br_chans b)"
  by (simp add: Subscribe_def Let_def)

lemma broker_invD:
  assumes "broker_inv b"
  shows broker_inv_open: "subscribed b r c \<Longrightarrow> c < length (br_chans b) \<and> \<not> ch_closed (br_chans b ! c)"
    and broker_inv_one: "subscribed b r c \<Longrightarrow> subscribed b r' c \<Longrightarrow> r = r'"
    and broker_inv_cap: "c < length (br_chans b) \<Longrightarrow> length (ch_buffer (br_chans b ! c)) \<le> capacity"
    and broker_inv_set: "br_subs b r = Some m \<Longrightarrow> m \<noteq> [] \<and> distinct m"
  using assms unfolding broker_inv_def by metis+

lemma broker_inv_Subscribe [inv_intros]:
  assumes "broker_inv b"
  shows "broker_inv (fst (Subscribe r b))"
proof -
  note D = broker_invD [OF assms]
  have fresh: "\<not> subscribed b r' (length (br_chans b))" for r' using D(1) by blast
  have "m \<noteq> [] \<and> distinct m" if "br_subs (fst (Subscribe r b)) r' = Some m" for r' m
    using that D(4) fresh [of r] by (auto simp: Subscribe_def subscribed_def Let_def split: if_splits option.splits)
  moreover have "c < length (br_chans (fst (Subscribe r b))) \<and> \<not> ch_closed (br_chans (fst (Subscribe r b)) ! c)"
    if "subscribed (fst (Subscribe r b)) r' c" for r' c
    using that D(1) unfolding subscribed_Subscribe chans_Subscribe by (auto simp: nth_append less_Suc_eq)
  ultimately show ?thesis using D(2,3) fresh
    unfolding broker_inv_def by (auto simp: subscribed_Subscribe chans_Subscribe nth_append)
qed

lemma mailboxes_Subscribe:
  assumes "broker_inv b"
  shows "mailboxes (fst (Subscribe r b)) = (mailboxes b)(r := (mailboxes b r)(snd (Subscribe r b) \<mapsto> []))"
    and "mailboxes b r' (snd (Subscribe r b)) = None"
  using broker_inv_open [OF assms]
  by (auto simp: fun_eq_iff mailboxes_def subscribed_Subscribe chans_Subscribe snd_Subscribe nth_append)

section \<open>Ending a subscription\<close>

lemma subscribed_Unsubscribe:
  "subscribed (fst (Unsubscribe r c b)) r' c' \<longleftrightarrow> subscribed b r' c' \<and> \<not> (r' = r \<and> c' = c)"
  by (auto simp: Unsubscribe_def close_channel_def subscribed_def Let_def removeAll_filter_not_eq filter_empty_conv
      split: option.splits)

lemma chans_Unsubscribe:
  "br_chans (fst (Unsubscribe r c b)) = (br_chans b)[c := (br_chans b ! c)\<lparr>ch_closed := True\<rparr>]"
proof (cases "ch_closed (br_chans b ! c)")
  case True
  then have e: "(br_chans b ! c)\<lparr>ch_closed := True\<rparr> = br_chans b ! c" by simp
  from True show ?thesis by (simp add: Unsubscribe_def close_channel_def Let_def e split: option.split)
next
  case False
  then show ?thesis by (simp add: Unsubscribe_def close_channel_def Let_def split: option.split)
qed

lemma panic_Unsubscribe:
  "snd (Unsubscribe r c b) = (if ch_closed (br_chans b ! c) then Some CloseClosed else None)"
  by (simp add: Unsubscribe_def close_channel_def Let_def split: option.split)

lemma broker_inv_Unsubscribe [inv_intros]:
  assumes "broker_inv b" and "subscribed b r c"
  shows "broker_inv (fst (Unsubscribe r c b))"
proof -
  note D = broker_invD [OF assms(1)]
  have "m \<noteq> [] \<and> distinct m" if "br_subs (fst (Unsubscribe r c b)) r' = Some m" for r' m
    using that D(4) by (auto simp: Unsubscribe_def close_channel_def Let_def distinct_removeAll
        split: if_splits option.splits)
  moreover have "c' < length (br_chans (fst (Unsubscribe r c b))) \<and> \<not> ch_closed (br_chans (fst (Unsubscribe r c b)) ! c')"
    if "subscribed (fst (Unsubscribe r c b)) r' c'" for r' c'
  proof -
    have s: "subscribed b r' c'" and ne: "\<not> (r' = r \<and> c' = c)" using that unfolding subscribed_Unsubscribe by blast+
    then have "c' \<noteq> c" using D(2) [OF s] assms(2) by blast
    with D(1) [OF s] show ?thesis unfolding chans_Unsubscribe by simp
  qed
  moreover have "length (ch_buffer (br_chans (fst (Unsubscribe r c b)) ! c')) \<le> capacity"
    if "c' < length (br_chans (fst (Unsubscribe r c b)))" for c'
    using that D(3) unfolding chans_Unsubscribe by (cases "c' = c") auto
  ultimately show ?thesis using D(2) unfolding broker_inv_def by (auto simp: subscribed_Unsubscribe)
qed

lemma mailboxes_Unsubscribe:
  assumes "broker_inv b" and "subscribed b r c"
  shows "mailboxes (fst (Unsubscribe r c b)) = (mailboxes b)(r := (mailboxes b r)(c := None))"
    and "snd (Unsubscribe r c b) = None"
  using broker_inv_open [OF assms] broker_inv_one [OF assms(1,2)]
  by (auto simp: fun_eq_iff mailboxes_def subscribed_Unsubscribe chans_Unsubscribe panic_Unsubscribe nth_list_update)

section \<open>Publishing\<close>

text \<open>On distinct open channels the loop sends to each of them and does not panic.\<close>

lemma publish_loop_open:
  assumes "distinct m" and "\<forall>c\<in>set m. c < length cs \<and> \<not> ch_closed (cs ! c)"
  shows "length (fst (publish_loop evt m cs)) = length cs \<and> snd (publish_loop evt m cs) = None \<and>
    (\<forall>c<length cs. fst (publish_loop evt m cs) ! c =
      (if c \<in> set m then (cs ! c)\<lparr>ch_buffer := push evt (ch_buffer (cs ! c))\<rparr> else cs ! c))"
  using assms
proof (induction m arbitrary: cs)
  case Nil
  then show ?case by simp
next
  case (Cons ch m)
  define c' where "c' = (cs ! ch)\<lparr>ch_buffer := push evt (ch_buffer (cs ! ch))\<rparr>"
  have open': "\<forall>c\<in>set m. c < length (cs[ch := c']) \<and> \<not> ch_closed (cs[ch := c'] ! c)"
    using Cons.prems by (auto simp: nth_list_update)
  have "try_send evt (cs ! ch) = Inr c'"
    using Cons.prems(2) by (simp add: try_send_def c'_def push_def)
  then have "publish_loop evt (ch # m) cs = publish_loop evt m (cs[ch := c'])" by simp
  with Cons.IH [OF _ open'] Cons.prems show ?case by (auto simp: c'_def nth_list_update)
qed

lemma subs_Publish [simp]: "br_subs (fst (Publish r evt b)) = br_subs b"
  by (simp add: Publish_def split_def Let_def)

lemma subscribed_Publish [simp]: "subscribed (fst (Publish r evt b)) = subscribed b"
  by (simp add: fun_eq_iff subscribed_def)

lemma Publish_open:
  assumes "broker_inv b"
  shows "length (br_chans (fst (Publish r evt b))) = length (br_chans b) \<and> snd (Publish r evt b) = None \<and>
    (\<forall>c<length (br_chans b). br_chans (fst (Publish r evt b)) ! c =
      (if subscribed b r c then (br_chans b ! c)\<lparr>ch_buffer := push evt (ch_buffer (br_chans b ! c))\<rparr> else br_chans b ! c))"
proof (cases "br_subs b r")
  case None
  then show ?thesis by (simp add: Publish_def subscribed_def)
next
  case (Some m)
  have "\<forall>c\<in>set m. c < length (br_chans b) \<and> \<not> ch_closed (br_chans b ! c)"
    using broker_inv_open [OF assms, of r] Some by (simp add: subscribed_def)
  from publish_loop_open [OF _ this, of evt] broker_inv_set [OF assms Some] Some
  show ?thesis by (simp add: Publish_def subscribed_def split_def Let_def)
qed

lemma push_length: "length q \<le> capacity \<Longrightarrow> length (push evt q) \<le> capacity"
  by (simp add: push_def)

lemma broker_inv_Publish [inv_intros]:
  assumes "broker_inv b"
  shows "broker_inv (fst (Publish r evt b))"
proof -
  note D = broker_invD [OF assms] and P = Publish_open [OF assms, of r evt]
  have "c < length (br_chans (fst (Publish r evt b))) \<and> \<not> ch_closed (br_chans (fst (Publish r evt b)) ! c)"
    if "subscribed b r' c" for r' c
    using P D(1) [OF that] by (cases "subscribed b r c") auto
  moreover have "length (ch_buffer (br_chans (fst (Publish r evt b)) ! c)) \<le> capacity"
    if "c < length (br_chans (fst (Publish r evt b)))" for c
    using P D(3) [of c] that by (cases "subscribed b r c") (auto intro: push_length)
  ultimately show ?thesis using D(2,4) unfolding broker_inv_def by (simp only: subscribed_Publish subs_Publish) blast
qed

lemma mailboxes_Publish:
  assumes "broker_inv b"
  shows "mailboxes (fst (Publish r evt b)) = (mailboxes b)(r := \<lambda>c. map_option (push evt) (mailboxes b r c))"
    and "snd (Publish r evt b) = None"
proof -
  note P = Publish_open [OF assms, of r evt]
  show "snd (Publish r evt b) = None" using P by blast
  have "mailboxes (fst (Publish r evt b)) r' c = ((mailboxes b)(r := \<lambda>c. map_option (push evt) (mailboxes b r c))) r' c"
    for r' c
  proof (cases "subscribed b r' c")
    case True
    have c: "c < length (br_chans b)" using broker_inv_open [OF assms True] by blast
    show ?thesis
    proof (cases "r' = r")
      case True
      with P c \<open>subscribed b r' c\<close> show ?thesis by (simp add: mailboxes_def)
    next
      case False
      then have "\<not> subscribed b r c" using broker_inv_one [OF assms True] by blast
      with P c False show ?thesis by (simp add: mailboxes_def)
    qed
  next
    case False
    then show ?thesis by (auto simp: mailboxes_def)
  qed
  then show "mailboxes (fst (Publish r evt b)) = (mailboxes b)(r := \<lambda>c. map_option (push evt) (mailboxes b r c))"
    by (simp add: fun_eq_iff)
qed

section \<open>Receiving\<close>

lemma subscribed_receive [simp]: "subscribed (fst (receive c b)) = subscribed b"
  by (simp add: fun_eq_iff receive_def subscribed_def split: list.split)

lemma br_subs_receive [simp]: "br_subs (fst (receive c b)) = br_subs b"
  by (simp add: receive_def split: list.split)

lemma broker_inv_receive [inv_intros]:
  assumes "broker_inv b" and "c < length (br_chans b)"
  shows "broker_inv (fst (receive c b))"
proof (cases "ch_buffer (br_chans b ! c)")
  case Nil
  with assms show ?thesis by (simp add: receive_def)
next
  case (Cons evt q)
  then have ch: "br_chans (fst (receive c b)) = (br_chans b)[c := (br_chans b ! c)\<lparr>ch_buffer := q\<rparr>]"
    by (simp add: receive_def)
  note D = broker_invD [OF assms(1)]
  have "length q \<le> capacity" using D(3) [OF assms(2)] Cons by simp
  then show ?thesis using D assms(2) unfolding broker_inv_def ch by (auto simp: nth_list_update)
qed

lemma mailboxes_receive:
  assumes "broker_inv b" and "subscribed b r c"
  shows "(case mailboxes b r c of
      Some (evt # q) \<Rightarrow> snd (receive c b) = Got evt \<and>
        mailboxes (fst (receive c b)) = (mailboxes b)(r := (mailboxes b r)(c \<mapsto> q))
    | _ \<Rightarrow> snd (receive c b) = Waits \<and> fst (receive c b) = b)"
proof (cases "ch_buffer (br_chans b ! c)")
  case Nil
  then show ?thesis using assms(2) broker_inv_open [OF assms] by (simp add: mailboxes_def receive_def)
next
  case (Cons evt q)
  then have ch: "br_chans (fst (receive c b)) = (br_chans b)[c := (br_chans b ! c)\<lparr>ch_buffer := q\<rparr>]"
    by (simp add: receive_def)
  have "mailboxes (fst (receive c b)) r' c' = ((mailboxes b)(r := (mailboxes b r)(c \<mapsto> q))) r' c'" for r' c'
  proof (cases "c' = c")
    case True
    then show ?thesis using broker_inv_one [OF assms, of r'] broker_inv_open [OF assms] assms(2)
      by (cases "r' = r") (auto simp: mailboxes_def ch)
  next
    case False
    then show ?thesis by (simp add: mailboxes_def ch)
  qed
  with Cons assms(2) show ?thesis by (simp add: mailboxes_def receive_def fun_eq_iff)
qed

section \<open>The interface of an event broker\<close>

text \<open>
  The interface \<^verbatim>\<open>EventBroker\<close> (\<^verbatim>\<open>broker_redis.go\<close>) as a locale: what the three methods promise
  about the mailboxes of the subscribers. The lemmas of the locale are what the streaming handlers rely on.
\<close>

locale event_broker =
  fixes inv :: "'b \<Rightarrow> bool"
    and mail :: "'b \<Rightarrow> string \<Rightarrow> 'c \<rightharpoonup> sse_event list"
    and subscribe :: "string \<Rightarrow> 'b \<Rightarrow> 'b \<times> 'c"
    and unsubscribe :: "string \<Rightarrow> 'c \<Rightarrow> 'b \<Rightarrow> 'b \<times> go_panic option"
    and publish :: "string \<Rightarrow> sse_event \<Rightarrow> 'b \<Rightarrow> 'b \<times> go_panic option"
  assumes inv_subscribe: "inv b \<Longrightarrow> inv (fst (subscribe r b))"
    and mail_subscribe: "inv b \<Longrightarrow> mail (fst (subscribe r b)) = (mail b)(r := (mail b r)(snd (subscribe r b) \<mapsto> []))"
    and fresh_subscribe: "inv b \<Longrightarrow> mail b r' (snd (subscribe r b)) = None"
    and inv_unsubscribe: "inv b \<Longrightarrow> mail b r c \<noteq> None \<Longrightarrow> inv (fst (unsubscribe r c b))"
    and mail_unsubscribe: "inv b \<Longrightarrow> mail b r c \<noteq> None \<Longrightarrow>
      mail (fst (unsubscribe r c b)) = (mail b)(r := (mail b r)(c := None)) \<and> snd (unsubscribe r c b) = None"
    and inv_publish: "inv b \<Longrightarrow> inv (fst (publish r evt b))"
    and mail_publish: "inv b \<Longrightarrow> mail (fst (publish r evt b)) = (mail b)(r := \<lambda>c. map_option (push evt) (mail b r c)) \<and>
      snd (publish r evt b) = None"
begin

text \<open>A list of events published in a row, each to its route.\<close>

definition publish_all :: "(string \<times> sse_event) list \<Rightarrow> 'b \<Rightarrow> 'b" where
  "publish_all es b = foldl (\<lambda>b e. fst (publish (fst e) (snd e) b)) b es"

lemma inv_publish_all: "inv b \<Longrightarrow> inv (publish_all es b)"
  unfolding publish_all_def by (induction es arbitrary: b) (auto intro: inv_publish)

lemma mail_publish_all:
  "inv b \<Longrightarrow> mail (publish_all es b) r c =
    map_option (\<lambda>q. foldl (\<lambda>q evt. push evt q) q (map snd (filter (\<lambda>e. fst e = r) es))) (mail b r c)"
proof (induction es arbitrary: b)
  case Nil
  then show ?case by (simp add: publish_all_def option.map_ident)
next
  case (Cons e es)
  from Cons.IH [OF inv_publish [OF Cons.prems], of "fst e" "snd e"] mail_publish [OF Cons.prems, of "fst e" "snd e"]
  show ?case by (cases "mail b r c") (auto simp: publish_all_def)
qed

text \<open>A subscriber that does not read keeps the oldest events, up to the capacity.\<close>

lemma foldl_push: "length q \<le> capacity \<Longrightarrow> foldl (\<lambda>q evt. push evt q) q es = take capacity (q @ es)"
  by (induction es arbitrary: q) (auto simp: push_def take_Cons' Suc_diff_Suc not_less)

lemma new_subscriber_reads:
  assumes "inv b"
  shows "mail (publish_all es (fst (subscribe r b))) r (snd (subscribe r b)) =
    Some (take capacity (map snd (filter (\<lambda>e. fst e = r) es)))"
  using mail_publish_all [OF inv_subscribe [OF assms], of es r r] mail_subscribe [OF assms, of r]
  by (simp add: foldl_push)

lemma session_round_trip:
  assumes "inv b"
  shows "mail (fst (unsubscribe r (snd (subscribe r b)) (fst (subscribe r b)))) = mail b"
    and "snd (unsubscribe r (snd (subscribe r b)) (fst (subscribe r b))) = None"
  using mail_unsubscribe [OF inv_subscribe [OF assms], of r r "snd (subscribe r b)"]
    mail_subscribe [OF assms, of r] fresh_subscribe [OF assms, of r r] by (auto simp: fun_eq_iff)

end

lemma mailbox_subscribed: "mailboxes b r c \<noteq> None \<longleftrightarrow> subscribed b r c"
  by (simp add: mailboxes_def)

interpretation eb: event_broker broker_inv mailboxes Subscribe Unsubscribe Publish
  by unfold_locales
    (auto simp only: mailbox_subscribed mailboxes_Subscribe mailboxes_Unsubscribe mailboxes_Publish intro: inv_intros)

end
