(* ===== verification/Auth.thy ===== *)
theory Auth
  imports Go_Library
begin

text \<open>
  Bearer tokens, \<^verbatim>\<open>internal/auth/verifier.go\<close>: the development tokens, HS256 tokens under a shared
  secret and RS256 tokens under a key set that is fetched and cached.

  The clock and the reply of the key server during one call are \<open>auth_draws\<close>; the client's time-out is part of that
  reply. The texts of library errors are not modelled, since no caller looks at them.
\<close>

record jwk =
  jk_Kty :: string
  jk_Kid :: string
  jk_N :: string
  jk_E :: string
  jk_Alg :: string

record verifier =
  vf_Mode :: string
  vf_HMACSecret :: string
  vf_JWKSURL :: string
  vf_TenantClaim :: string
  vf_RoleClaim :: string
  vf_DriverClaim :: string
  vf_jwks :: "jwk list"
  vf_lastFetch :: time
  vf_cacheTTL :: duration

record auth_principal =
  ap_Tenant :: string
  ap_Role :: string
  ap_DriverID :: string

definition envOr :: "(string \<Rightarrow> string) \<Rightarrow> string \<Rightarrow> string \<Rightarrow> string" where
  "envOr env k d = (if env k \<noteq> '''' then env k else d)"

definition NewVerifierFromEnv :: "golib \<Rightarrow> (string \<Rightarrow> string) \<Rightarrow> verifier" where
  "NewVerifierFromEnv L env =
     (let mode0 = lib_lower L (trim_space (env ''AUTH_MODE''));
          mode = (if mode0 = '''' then ''dev'' else mode0)
      in \<lparr>vf_Mode = mode, vf_HMACSecret = env ''AUTH_HMAC_SECRET'', vf_JWKSURL = env ''AUTH_JWKS_URL'',
          vf_TenantClaim = envOr env ''AUTH_TENANT_CLAIM'' ''tenant'',
          vf_RoleClaim = envOr env ''AUTH_ROLE_CLAIM'' ''role'',
          vf_DriverClaim = envOr env ''AUTH_DRIVER_CLAIM'' ''sub'',
          vf_jwks = [], vf_lastFetch = 0, vf_cacheTTL = 10 * minute\<rparr>)"

section \<open>The key set\<close>

record auth_draws =
  ad_now :: time
  ad_fetched :: time
  ad_url_ok :: "string \<Rightarrow> bool"
  ad_get :: "string \<Rightarrow> jwk list result"

text \<open>
  \<^verbatim>\<open>http.NewRequest\<close> fails on a malformed URL; its error is dropped and the client dereferences
  the nil request.
\<close>

definition fetchJWKS :: "auth_draws \<Rightarrow> verifier \<Rightarrow> verifier \<times> unit outcome" where
  "fetchJWKS D v =
     (if vf_JWKSURL v = '''' then (v, Err (ErrText ''AUTH_JWKS_URL not set''))
      else if \<not> ad_url_ok D (vf_JWKSURL v) then (v, Panic NilDeref)
      else case ad_get D (vf_JWKSURL v) of
             Inl e \<Rightarrow> (v, Err e)
           | Inr j \<Rightarrow> (v\<lparr>vf_jwks := j, vf_lastFetch := ad_fetched D\<rparr>, Ret ()))"

definition bytesToInt :: "string \<Rightarrow> int" where
  "bytesToInt b = foldl (\<lambda>x c. wrap64 (x * 256) + of_char c) 0 b"

definition big_of_bytes :: "string \<Rightarrow> nat" where
  "big_of_bytes b = foldl (\<lambda>x c. x * 256 + of_char c) 0 b"

fun jwks_lookup :: "golib \<Rightarrow> string \<Rightarrow> jwk list \<Rightarrow> (nat \<times> int) outcome" where
  "jwks_lookup L kid [] = Err (ErrText ''kid not found in JWKS'')"
| "jwks_lookup L kid (k # ks) =
     (if jk_Kid k = kid \<and> lib_equal_fold L (jk_Kty k) ''RSA'' then
        (case b64_decode (jk_N k) of
           None \<Rightarrow> Err (ErrText ''illegal base64 data'')
         | Some nBytes \<Rightarrow>
             (case b64_decode (jk_E k) of
                None \<Rightarrow> Err (ErrText ''illegal base64 data'')
              | Some eBytes \<Rightarrow> Ret (big_of_bytes nBytes, bytesToInt eBytes)))
      else jwks_lookup L kid ks)"

definition getRSAPublicKey :: "golib \<Rightarrow> auth_draws \<Rightarrow> verifier \<Rightarrow> string \<Rightarrow> verifier \<times> (nat \<times> int) outcome" where
  "getRSAPublicKey L D v kid =
     (let stale = ad_now D - vf_lastFetch v > vf_cacheTTL v in
      if vf_jwks v = [] \<or> stale then
        (case fetchJWKS D v of
           (v', Ret _) \<Rightarrow> (v', jwks_lookup L kid (vf_jwks v'))
         | (v', Err e) \<Rightarrow> (v', Err e)
         | (v', Panic p) \<Rightarrow> (v', Panic p))
      else (v, jwks_lookup L kid (vf_jwks v)))"

section \<open>Verification\<close>

text \<open>A type assertion \<^verbatim>\<open>x, _ := m[k].(string)\<close>: the empty string when the value is missing or no string.\<close>

definition text_at :: "obj \<Rightarrow> string \<Rightarrow> string" where
  "text_at m k = (case m k of Some (AStr s) \<Rightarrow> s | _ \<Rightarrow> '''')"

definition check_signature :: "golib \<Rightarrow> auth_draws \<Rightarrow> verifier \<Rightarrow> obj \<Rightarrow> string \<Rightarrow> string \<Rightarrow> verifier \<times> unit outcome" where
  "check_signature L D v hdr signingInput sig =
     (let alg = text_at hdr ''alg''; kid = text_at hdr ''kid'' in
      if vf_Mode v = ''hmac'' then
        (if alg \<noteq> ''HS256'' then (v, Err (ErrText ''unsupported alg for hmac''))
         else if lib_hmac L (vf_HMACSecret v) signingInput \<noteq> sig then (v, Err (ErrText ''bad signature''))
         else (v, Ret ()))
      else if vf_Mode v = ''jwks'' then
        (if alg \<noteq> ''RS256'' then (v, Err (ErrText ''unsupported alg for jwks''))
         else case getRSAPublicKey L D v kid of
                (v', Err e) \<Rightarrow> (v', Err e)
              | (v', Panic p) \<Rightarrow> (v', Panic p)
              | (v', Ret (n, e)) \<Rightarrow>
                  if lib_rsa_verify L n e (lib_sha256 L signingInput) sig then (v', Ret ())
                  else (v', Err (ErrText ''bad signature'')))
      else (v, Err (ErrText ''unsupported auth mode'')))"

definition claimed_principal :: "golib \<Rightarrow> verifier \<Rightarrow> obj \<Rightarrow> auth_principal outcome" where
  "claimed_principal L v claims =
     (let tenant = text_at claims (vf_TenantClaim v);
          role = text_at claims (vf_RoleClaim v);
          driver = text_at claims (vf_DriverClaim v)
      in if tenant = '''' then Err (ErrText ''missing tenant claim'')
         else Ret \<lparr>ap_Tenant = tenant, ap_Role = lib_lower L (if role = '''' then ''user'' else role), ap_DriverID = driver\<rparr>)"

definition Verify :: "golib \<Rightarrow> auth_draws \<Rightarrow> verifier \<Rightarrow> string \<Rightarrow> verifier \<times> auth_principal outcome" where
  "Verify L D v token =
     (if vf_Mode v = ''dev'' then
        (let parts = split_on CHR '':'' token in
         if 2 \<le> length parts then (v, Ret \<lparr>ap_Tenant = parts ! 0, ap_Role = parts ! 1, ap_DriverID = ''''\<rparr>)
         else (v, Err (ErrText ''invalid dev token; expected tenant:role'')))
      else
        (let segs = split_on CHR ''.'' token in
         if length segs \<noteq> 3 then (v, Err (ErrText ''invalid JWT''))
         else case (b64_decode (segs ! 0), b64_decode (segs ! 1), b64_decode (segs ! 2)) of
             (Some headerJSON, Some payloadJSON, Some sig) \<Rightarrow>
               (case (lib_parse_obj L headerJSON, lib_parse_obj L payloadJSON) of
                  (Some hdr, Some claims) \<Rightarrow>
                    (case check_signature L D v hdr (segs ! 0 @ ''.'' @ segs ! 1) sig of
                       (v', Ret _) \<Rightarrow> (v', claimed_principal L v claims)
                     | (v', Err e) \<Rightarrow> (v', Err e)
                     | (v', Panic p) \<Rightarrow> (v', Panic p))
                | _ \<Rightarrow> (v, Err (ErrText ''invalid JSON'')))
           | _ \<Rightarrow> (v, Err (ErrText ''illegal base64 data''))))"

section \<open>What an accepted token says\<close>

text \<open>The content of a token in compact form.\<close>

definition token_parts :: "golib \<Rightarrow> string \<Rightarrow> string \<Rightarrow> string \<Rightarrow> string \<Rightarrow> obj \<Rightarrow> obj \<Rightarrow> bool" where
  "token_parts L token h c sig hdr claims \<longleftrightarrow>
     (\<exists>s H C. token = h @ CHR ''.'' # c @ CHR ''.'' # s \<and> CHR ''.'' \<notin> set h \<and> CHR ''.'' \<notin> set c \<and> CHR ''.'' \<notin> set s \<and>
       b64_decode h = Some H \<and> b64_decode c = Some C \<and> b64_decode s = Some sig \<and>
       lib_parse_obj L H = Some hdr \<and> lib_parse_obj L C = Some claims)"

lemma length_three: "length xs = 3 \<longleftrightarrow> (\<exists>a b c. xs = [a, b, c])"
  by (auto simp: numeral_3_eq_3 length_Suc_conv)

lemma Verify_token:
  assumes "vf_Mode v \<noteq> ''dev''"
  shows "Verify L D v token = (v', Ret p) \<longleftrightarrow>
    (\<exists>h c sig hdr claims. token_parts L token h c sig hdr claims \<and>
      check_signature L D v hdr (h @ ''.'' @ c) sig = (v', Ret ()) \<and> claimed_principal L v claims = Ret p)"
    (is "?lhs \<longleftrightarrow> ?rhs")
proof
  assume l: ?lhs
  then have "length (split_on CHR ''.'' token) = 3" using assms by (auto simp: Verify_def Let_def split: if_splits)
  then obtain h c s where sp: "split_on CHR ''.'' token = [h, c, s]" by (auto simp: length_three)
  with l assms obtain H C sig hdr claims where
    "b64_decode h = Some H" "b64_decode c = Some C" "b64_decode s = Some sig" "lib_parse_obj L H = Some hdr"
    "lib_parse_obj L C = Some claims" "check_signature L D v hdr (h @ ''.'' @ c) sig = (v', Ret ())"
    "claimed_principal L v claims = Ret p"
    by (auto simp: Verify_def Let_def split: option.splits prod.splits outcome.splits)
  moreover have "token = h @ CHR ''.'' # c @ CHR ''.'' # s \<and> CHR ''.'' \<notin> set h \<and> CHR ''.'' \<notin> set c \<and> CHR ''.'' \<notin> set s"
    by (rule iffD1 [OF split_on_three sp])
  ultimately show ?rhs unfolding token_parts_def by blast
next
  assume ?rhs
  then obtain h c sig hdr claims s H C where
    t: "token = h @ CHR ''.'' # c @ CHR ''.'' # s \<and> CHR ''.'' \<notin> set h \<and> CHR ''.'' \<notin> set c \<and> CHR ''.'' \<notin> set s" and
    "b64_decode h = Some H" "b64_decode c = Some C" "b64_decode s = Some sig" "lib_parse_obj L H = Some hdr"
    "lib_parse_obj L C = Some claims" "check_signature L D v hdr (h @ ''.'' @ c) sig = (v', Ret ())"
    "claimed_principal L v claims = Ret p"
    unfolding token_parts_def by blast
  moreover have "split_on CHR ''.'' token = [h, c, s]" by (rule iffD2 [OF split_on_three t])
  ultimately show ?lhs using assms by (simp add: Verify_def)
qed

lemma claimed_principal_iff:
  "claimed_principal L v claims = Ret p \<longleftrightarrow>
    text_at claims (vf_TenantClaim v) \<noteq> '''' \<and> ap_Tenant p = text_at claims (vf_TenantClaim v) \<and>
    ap_Role p = lib_lower L (if text_at claims (vf_RoleClaim v) = '''' then ''user'' else text_at claims (vf_RoleClaim v)) \<and>
    ap_DriverID p = text_at claims (vf_DriverClaim v)"
  by (cases p) (auto simp: claimed_principal_def Let_def)

lemma check_signature_hmac:
  "vf_Mode v = ''hmac'' \<Longrightarrow> check_signature L D v hdr inp sig = (v', Ret ()) \<longleftrightarrow>
    v' = v \<and> text_at hdr ''alg'' = ''HS256'' \<and> lib_hmac L (vf_HMACSecret v) inp = sig"
  by (auto simp: check_signature_def Let_def)

text \<open>The keys a lookup may use: the cache while it is fresh and not empty, else what the server sends.\<close>

definition usable_keys :: "auth_draws \<Rightarrow> verifier \<Rightarrow> jwk list" where
  "usable_keys D v =
     (if vf_jwks v \<noteq> [] \<and> ad_now D - vf_lastFetch v \<le> vf_cacheTTL v then vf_jwks v
      else if vf_JWKSURL v \<noteq> '''' \<and> ad_url_ok D (vf_JWKSURL v)
      then (case ad_get D (vf_JWKSURL v) of Inl _ \<Rightarrow> [] | Inr j \<Rightarrow> j) else [])"

lemma jwks_lookup_Ret:
  "jwks_lookup L kid ks = Ret (n, e) \<Longrightarrow>
    \<exists>k\<in>set ks. jk_Kid k = kid \<and> lib_equal_fold L (jk_Kty k) ''RSA'' \<and>
      (\<exists>N E. b64_decode (jk_N k) = Some N \<and> b64_decode (jk_E k) = Some E \<and> n = big_of_bytes N \<and> e = bytesToInt E)"
  by (induction ks) (auto split: if_splits option.splits)

lemma getRSAPublicKey_Ret:
  "getRSAPublicKey L D v kid = (v', Ret ne) \<Longrightarrow> jwks_lookup L kid (usable_keys D v) = Ret ne"
  by (auto simp: getRSAPublicKey_def fetchJWKS_def usable_keys_def Let_def
      split: if_splits outcome.splits prod.splits sum.splits)

lemma check_signature_jwks:
  assumes "vf_Mode v = ''jwks''" and "check_signature L D v hdr inp sig = (v', Ret ())"
  shows "text_at hdr ''alg'' = ''RS256'' \<and>
    (\<exists>n e. jwks_lookup L (text_at hdr ''kid'') (usable_keys D v) = Ret (n, e) \<and>
      lib_rsa_verify L n e (lib_sha256 L inp) sig)"
  using assms by (auto simp: check_signature_def Let_def split: if_splits outcome.splits prod.splits dest!: getRSAPublicKey_Ret)

text \<open>A fresh cache is used as it is: no request goes out and the verifier keeps its state.\<close>

lemma getRSAPublicKey_cached:
  "vf_jwks v \<noteq> [] \<Longrightarrow> ad_now D - vf_lastFetch v \<le> vf_cacheTTL v \<Longrightarrow>
    getRSAPublicKey L D v kid = (v, jwks_lookup L kid (vf_jwks v))"
  by (simp add: getRSAPublicKey_def)

text \<open>Only the key cache of a verifier changes.\<close>

lemma getRSAPublicKey_keeps: "vf_Mode (fst (getRSAPublicKey L D v kid)) = vf_Mode v"
  by (auto simp: getRSAPublicKey_def fetchJWKS_def Let_def split: outcome.splits prod.splits sum.splits if_splits)

lemma check_signature_keeps:
  "vf_Mode (fst (check_signature L D v hdr inp sig)) = vf_Mode v"
  "vf_Mode v \<noteq> ''jwks'' \<Longrightarrow> fst (check_signature L D v hdr inp sig) = v"
  using getRSAPublicKey_keeps [of L D v "text_at hdr ''kid''"]
  by (auto simp: check_signature_def Let_def split: outcome.splits prod.splits)

lemma Verify_state:
  "fst (Verify L D v token) = v \<or> (\<exists>hdr inp sig. fst (Verify L D v token) = fst (check_signature L D v hdr inp sig))"
  by (auto simp: Verify_def Let_def split: option.splits prod.splits outcome.splits) (metis fst_conv)+

lemma Verify_keeps:
  "vf_Mode (fst (Verify L D v token)) = vf_Mode v"
  "vf_Mode v \<noteq> ''jwks'' \<Longrightarrow> fst (Verify L D v token) = v"
  using Verify_state [of L D v token] check_signature_keeps by metis+

text \<open>The only panic is the nil request of a malformed key URL.\<close>

lemma jwks_lookup_no_panic: "jwks_lookup L kid ks \<noteq> Panic p"
  by (induction ks) (auto split: option.splits)

lemma getRSAPublicKey_panic: "getRSAPublicKey L D v kid = (v', Panic p) \<Longrightarrow> p = NilDeref"
  using jwks_lookup_no_panic
  by (auto simp: getRSAPublicKey_def fetchJWKS_def Let_def split: if_splits outcome.splits prod.splits sum.splits)

lemma check_signature_panic: "check_signature L D v hdr inp sig = (v', Panic p) \<Longrightarrow> p = NilDeref"
  by (auto simp: check_signature_def Let_def split: if_splits outcome.splits prod.splits dest: getRSAPublicKey_panic)

lemma Verify_panic: "Verify L D v token = (v', Panic p) \<Longrightarrow> p = NilDeref"
  by (auto simp: Verify_def claimed_principal_def Let_def split: if_splits option.splits outcome.splits prod.splits
      dest: check_signature_panic)

section \<open>Issuing tokens\<close>

text \<open>The token a client with the shared secret sends for a header and a payload text.\<close>

definition issue_token :: "golib \<Rightarrow> string \<Rightarrow> string \<Rightarrow> string \<Rightarrow> string" where
  "issue_token L secret header payload =
     (let inp = b64_encode header @ ''.'' @ b64_encode payload in inp @ ''.'' @ b64_encode (lib_hmac L secret inp))"

lemma issue_token_parts:
  assumes "lib_parse_obj L header = Some hdr" and "lib_parse_obj L payload = Some claims"
  shows "token_parts L (issue_token L secret header payload) (b64_encode header) (b64_encode payload)
    (lib_hmac L secret (b64_encode header @ ''.'' @ b64_encode payload)) hdr claims"
  unfolding token_parts_def issue_token_def Let_def
  by (rule exI [of _ "b64_encode (lib_hmac L secret (b64_encode header @ ''.'' @ b64_encode payload))"],
      rule exI [of _ header], rule exI [of _ payload]) (simp add: assms b64_roundtrip b64_encode_plain)

end
