(* ===== verification/Api_Types.thy ===== *)
theory Api_Types
  imports Store_Interface Broker Auth Opt_Heuristics
begin

text \<open>
  The server and what it exchanges with its clients: the struct \<^verbatim>\<open>Server\<close> (\<^verbatim>\<open>server.go\<close>),
  requests, responses and the two helpers that write them (\<^verbatim>\<open>json.go\<close>).

  A handler is a function from the server's state to its new state and a reply. The reply says what is handed to
  the JSON encoder, as a value: the text of JSON is the encoder's concern. Reading JSON is the other way round a parameter
  (\<open>json_codec\<close>): for each type a handler decodes into, the function from the body to the value of the variable after
  \<^verbatim>\<open>Decode\<close> and the error, if there is one. A stream reply is a request that stays open on a channel of the broker, an upgrade one that goes on as a websocket. A panic in a handler
  ends the request; \<^verbatim>\<open>net/http\<close> recovers it.
\<close>

section \<open>Requests\<close>

text \<open>\<^verbatim>\<open>r.URL.Query().Get\<close> and \<^verbatim>\<open>r.Header.Get\<close> give the empty string for a missing key.\<close>

text \<open>What the response writer can do besides writing: stream (\<^verbatim>\<open>http.Flusher\<close>), be taken over (\<^verbatim>\<open>http.Hijacker\<close>).\<close>

record writer =
  wr_Flusher :: bool
  wr_Hijacker :: bool

record request =
  hr_Method :: string
  hr_Path :: string
  hr_Query :: "string \<Rightarrow> string"
  hr_Header :: "string \<Rightarrow> string"
  hr_Body :: string
  hr_RemoteAddr :: string
  hr_Writer :: writer

record json_codec =
  jd_orders :: "string \<Rightarrow> (string \<times> order_in list) \<times> go_error option"
  jd_optimize :: "string \<Rightarrow> optimize_request \<times> go_error option"
  jd_config :: "string \<Rightarrow> obj option \<times> go_error option"
  jd_assignment :: "string \<Rightarrow> assignment_request \<times> go_error option"
  jd_advance :: "string \<Rightarrow> advance_request \<times> go_error option"
  jd_events :: "string \<Rightarrow> (string \<times> driver_event list) \<times> go_error option"
  jd_pod :: "string \<Rightarrow> pod_request \<times> go_error option"
  jd_subscription :: "string \<Rightarrow> subscription_request \<times> go_error option"
  jd_object :: "string \<Rightarrow> obj \<times> go_error option"
  jd_geofence :: "string \<Rightarrow> geofence_input \<times> go_error option"
  jd_presign :: "string \<Rightarrow> presign_request \<times> go_error option"
  jd_ids :: "string \<Rightarrow> string list \<times> go_error option"
  jd_ids_hours :: "string \<Rightarrow> (string list \<times> int) \<times> go_error option"
  jd_graphql :: "string \<Rightarrow> (string \<times> obj option) \<times> go_error option"

section \<open>Responses\<close>

record Problem_doc =
  pb_Type :: string
  pb_Title :: string
  pb_Status :: int
  pb_Detail :: string
  pb_Instance :: string

datatype jval =
    JStr string
  | JInt int
  | JBool bool
  | JAny any
  | JObj obj
  | JObjs "obj list"
  | JOrders "order_out list"
  | JRoute route
  | JRoutes "route list"
  | JSub subscription
  | JSubs "subscription list"
  | JGeofence geofence
  | JGeofences "geofence list"
  | JAdvance advance_response
  | JAdvanced "advance_result list"
  | JProblem Problem_doc
  | JMap "string \<Rightarrow> jval option"

datatype payload = NoBody | Json jval | Text string

record response =
  rs_Status :: int
  rs_Header :: "(string \<times> string) list"
  rs_Body :: payload

datatype reply = Reply response | Streams string nat string | Upgrades | Aborts go_panic

definition writeJSON :: "int \<Rightarrow> jval \<Rightarrow> reply" where
  "writeJSON status v =
     Reply \<lparr>rs_Status = status, rs_Header = [(''Content-Type'', ''application/json'')], rs_Body = Json v\<rparr>"

definition writeProblem :: "int \<Rightarrow> string \<Rightarrow> string \<Rightarrow> string \<Rightarrow> reply" where
  "writeProblem status title detail inst =
     writeJSON status (JProblem \<lparr>pb_Type = ''about:blank'', pb_Title = title, pb_Status = status,
       pb_Detail = detail, pb_Instance = inst\<rparr>)"

text \<open>\<^verbatim>\<open>w.WriteHeader(status)\<close> with no body.\<close>

definition writeHeader :: "int \<Rightarrow> reply" where
  "writeHeader status = Reply \<lparr>rs_Status = status, rs_Header = [], rs_Body = NoBody\<rparr>"

definition status_of :: "reply \<Rightarrow> int option" where
  "status_of p = (case p of Reply r \<Rightarrow> Some (rs_Status r) | _ \<Rightarrow> None)"

lemma status_simps [simp]:
  "status_of (writeJSON s v) = Some s" "status_of (writeProblem s a b c) = Some s" "status_of (writeHeader s) = Some s"
  by (simp_all add: status_of_def writeJSON_def writeProblem_def writeHeader_def)

section \<open>The server\<close>

text \<open>
  The store's state, the broker and the verifier (a pointer that may be nil). The publisher keeps no state
  of its own. The package-level registry of plan metrics (\<^verbatim>\<open>opt\<close>) is written by the store that plans; what
  it holds is read from the store's state by \<open>en_registry\<close>.
\<close>

record 's server =
  sv_store :: 's
  sv_broker :: broker
  sv_auth :: "verifier option"

text \<open>
  What does not change while the server runs: the methods of its store, the library, the codec,
  \<^verbatim>\<open>Ping\<close>, which only some stores have, the handshake of the websocket library (a response when it
  refuses), the OpenAPI document and the page of the Prometheus collectors.
\<close>

record 's env =
  en_M :: "'s store"
  en_L :: golib
  en_J :: json_codec
  en_ping :: "('s \<Rightarrow> go_error option) option"
  en_registry :: "'s \<Rightarrow> registry"
  en_upgrade :: "request \<Rightarrow> response option"
  en_ReadFile :: "string \<Rightarrow> string result"
  en_metrics :: "request \<Rightarrow> response"

text \<open>What one request draws: readings of the clock in order, and orders of ranging over Go maps.\<close>

record draws =
  dr_auth :: auth_draws
  dr_now :: "nat \<Rightarrow> time"
  dr_keys :: "string list"
  dr_registry :: "registry \<Rightarrow> registry"

type_synonym 's handler = "'s env \<Rightarrow> draws \<Rightarrow> request \<Rightarrow> 's server \<Rightarrow> 's server \<times> reply"

text \<open>A call of a store method from a handler: a panic ends the request.\<close>

definition on_store :: "('s, 'a) call \<Rightarrow> 's server \<Rightarrow> ('s server \<Rightarrow> 'a result \<Rightarrow> 's server \<times> reply) \<Rightarrow> 's server \<times> reply" where
  "on_store f sv k =
     (case f (sv_store sv) of
        (s, Ret a) \<Rightarrow> k (sv\<lparr>sv_store := s\<rparr>) (Inr a)
      | (s, Err e) \<Rightarrow> k (sv\<lparr>sv_store := s\<rparr>) (Inl e)
      | (s, Panic p) \<Rightarrow> (sv\<lparr>sv_store := s\<rparr>, Aborts p))"

definition on_publish :: "string \<Rightarrow> sse_event \<Rightarrow> 's server \<Rightarrow> ('s server \<Rightarrow> 's server \<times> reply) \<Rightarrow> 's server \<times> reply" where
  "on_publish r evt sv k =
     (case Publish r evt (sv_broker sv) of
        (b, None) \<Rightarrow> k (sv\<lparr>sv_broker := b\<rparr>)
      | (b, Some p) \<Rightarrow> (sv\<lparr>sv_broker := b\<rparr>, Aborts p))"

text \<open>\<^verbatim>\<open>s.Pub.Emit\<close>; \<open>now\<close> is the publisher's reading of the clock.\<close>

definition emit_event :: "'s env \<Rightarrow> time \<Rightarrow> string \<Rightarrow> string \<Rightarrow> obj \<Rightarrow> 's server \<Rightarrow> 's server" where
  "emit_event E now tenant evt data sv =
     sv\<lparr>sv_store := Emit (publisher_of (en_M E)) (lib_marshal (en_L E)) (lib_format (en_L E)) now (\<lambda>_. (now, ''''))
       (sv_store sv) tenant evt (AObj data)\<rparr>"

end
