(* ===== verification/Api_Access.thy ===== *)
theory Api_Access
  imports Api_Types
begin

text \<open>
  Who asks and whether the request is well-formed: the principal and the tenant of a request
  (\<^verbatim>\<open>internal/api/auth.go\<close>, \<^verbatim>\<open>withTenant\<close> of \<^verbatim>\<open>server.go\<close>) and the check of an optimization
  request (\<^verbatim>\<open>validate.go\<close>).
\<close>

section \<open>Principal and tenant\<close>

record principal =
  pn_Tenant :: string
  pn_Role :: string
  pn_DriverID :: string

definition fromAuthPrincipal :: "auth_principal \<Rightarrow> principal" where
  "fromAuthPrincipal p = \<lparr>pn_Tenant = ap_Tenant p, pn_Role = ap_Role p, pn_DriverID = ap_DriverID p\<rparr>"

definition IsAdmin :: "principal \<Rightarrow> bool" where
  "IsAdmin p \<longleftrightarrow> pn_Role p = ''admin''"

definition header_principal :: "request \<Rightarrow> principal" where
  "header_principal r =
     (let tenant = hr_Header r ''X-Tenant-Id''; role = hr_Header r ''X-Role''; driverID = hr_Header r ''X-Driver-Id''
      in \<lparr>pn_Tenant = (if tenant = '''' then ''t_demo'' else tenant),
          pn_Role = (if role = '''' then ''admin'' else role), pn_DriverID = driverID\<rparr>)"

definition is_bearer :: "golib \<Rightarrow> string \<Rightarrow> bool" where
  "is_bearer L authz \<longleftrightarrow> has_prefix ''bearer '' (lib_lower L authz)"

definition getPrincipal :: "golib \<Rightarrow> auth_draws \<Rightarrow> request \<Rightarrow> 's server \<Rightarrow> 's server \<times> (go_panic + principal)" where
  "getPrincipal L D r sv =
     (let authz = hr_Header r ''Authorization'' in
      case (if is_bearer L authz then sv_auth sv else None) of
        None \<Rightarrow> (sv, Inr (header_principal r))
      | Some v \<Rightarrow>
          if length authz < 7 then (sv, Inl SliceBounds)
          else
            (case Verify L D v (trim_space (drop 7 authz)) of
               (v', Ret pr) \<Rightarrow> (sv\<lparr>sv_auth := Some v'\<rparr>, Inr (fromAuthPrincipal pr))
             | (v', Err _) \<Rightarrow> (sv\<lparr>sv_auth := Some v'\<rparr>, Inr (header_principal r))
             | (v', Panic p) \<Rightarrow> (sv\<lparr>sv_auth := Some v'\<rparr>, Inl p)))"

definition withTenant :: "request \<Rightarrow> string" where
  "withTenant r = (let tenant = hr_Header r ''X-Tenant-Id'' in if tenant = '''' then ''t_demo'' else tenant)"

definition with_principal :: "'s env \<Rightarrow> draws \<Rightarrow> request \<Rightarrow> 's server \<Rightarrow> ('s server \<Rightarrow> principal \<Rightarrow> 's server \<times> reply)
    \<Rightarrow> 's server \<times> reply" where
  "with_principal E D r sv k =
     (case getPrincipal (en_L E) (dr_auth D) r sv of
        (sv', Inl p) \<Rightarrow> (sv', Aborts p)
      | (sv', Inr pr) \<Rightarrow> k sv' pr)"

text \<open>Reading the principal touches nothing but the key cache of the verifier.\<close>

lemma getPrincipal_frame:
  "sv_store (fst (getPrincipal L D r sv)) = sv_store sv"
  "sv_broker (fst (getPrincipal L D r sv)) = sv_broker sv"
  by (simp_all add: getPrincipal_def Let_def split: option.split prod.split outcome.split)

lemma header_principal_tenant: "pn_Tenant (header_principal r) = withTenant r"
  by (simp add: header_principal_def withTenant_def Let_def)

text \<open>A request without a token, or with one that is not accepted, is what its headers say it is.\<close>

lemma getPrincipal_headers:
  assumes "\<not> is_bearer L (hr_Header r ''Authorization'')"
  shows "getPrincipal L D r sv = (sv, Inr (header_principal r))"
  using assms by (simp add: getPrincipal_def)

lemma getPrincipal_rejected:
  assumes "sv_auth sv = Some v" and "length (hr_Header r ''Authorization'') \<ge> 7"
    and "snd (Verify L D v (trim_space (drop 7 (hr_Header r ''Authorization'')))) = Err e"
  shows "snd (getPrincipal L D r sv) = Inr (header_principal r)"
  using assms by (auto simp: getPrincipal_def Let_def split: prod.splits)

lemma getPrincipal_accepted:
  assumes "is_bearer L (hr_Header r ''Authorization'')" and "sv_auth sv = Some v"
    and "length (hr_Header r ''Authorization'') \<ge> 7"
    and "snd (Verify L D v (trim_space (drop 7 (hr_Header r ''Authorization'')))) = Ret pr"
  shows "snd (getPrincipal L D r sv) = Inr (fromAuthPrincipal pr)"
  using assms by (auto simp: getPrincipal_def Let_def split: prod.splits)

lemma getPrincipal_panic: "snd (getPrincipal L D r sv) = Inl p \<Longrightarrow> p = SliceBounds \<or> p = NilDeref"
  by (auto simp: getPrincipal_def Let_def split: if_splits option.splits outcome.splits prod.splits dest: Verify_panic)

section \<open>Checking an optimization request\<close>

definition allowed_objectives :: "string list" where
  "allowed_objectives = [''drivetime'', ''lateness'', ''failed'', ''distance'']"

text \<open>The loop over the objectives; \<open>keys\<close> is the order in which Go ranges over the map.\<close>

fun check_objectives :: "golib \<Rightarrow> (string \<rightharpoonup> f64) \<Rightarrow> string list \<Rightarrow> go_error option" where
  "check_objectives L obj [] = None"
| "check_objectives L obj (k # ks) =
     (case obj k of
        None \<Rightarrow> check_objectives L obj ks
      | Some v \<Rightarrow>
          if v < 0 then Some (ErrText (''objective '' @ k @ '' must be >= 0''))
          else if lib_lower L k \<notin> set allowed_objectives
          then Some (ErrText (''unknown objective key: '' @ k @ '' (allowed: driveTime,lateness,failed,distance)''))
          else check_objectives L obj ks)"

definition validateOptimizeRequest :: "golib \<Rightarrow> string list \<Rightarrow> optimize_request \<Rightarrow> go_error option" where
  "validateOptimizeRequest L keys req =
     (if or_Algorithm req \<noteq> '''' \<and> or_Algorithm req \<noteq> ''greedy'' \<and> or_Algorithm req \<noteq> ''alns''
      then Some (ErrText (''invalid algorithm: '' @ or_Algorithm req))
      else if or_TimeBudgetMs req < 0 then Some (ErrText ''timeBudgetMs must be >= 0'')
      else if or_MaxIterations req < 0 then Some (ErrText ''maxIterations must be >= 0'')
      else if or_Cooling req \<noteq> 0 \<and> (or_Cooling req \<le> 0 \<or> 1 \<le> or_Cooling req) then Some (ErrText ''cooling must be in (0,1)'')
      else if 0 < length (or_RemovalWeights req) \<and> length (or_RemovalWeights req) \<noteq> 2
      then Some (ErrText ''removalWeights must have length 2'')
      else if 0 < length (or_InsertionWeights req) \<and> length (or_InsertionWeights req) \<noteq> 2
      then Some (ErrText ''insertionWeights must have length 2'')
      else case or_Objectives req of None \<Rightarrow> None | Some obj \<Rightarrow> check_objectives L obj keys)"

lemma check_objectives_None:
  "check_objectives L obj keys = None \<longleftrightarrow>
    (\<forall>k\<in>set keys. \<forall>v. obj k = Some v \<longrightarrow> \<not> v < 0 \<and> lib_lower L k \<in> set allowed_objectives)"
  by (induction keys) (auto split: option.splits)

text \<open>What an accepted request looks like, whatever order the map is ranged over in.\<close>

definition optimize_request_ok :: "golib \<Rightarrow> optimize_request \<Rightarrow> bool" where
  "optimize_request_ok L req \<longleftrightarrow>
     or_Algorithm req \<in> {'''', ''greedy'', ''alns''} \<and> 0 \<le> or_TimeBudgetMs req \<and> 0 \<le> or_MaxIterations req \<and>
     (or_Cooling req = 0 \<or> \<not> or_Cooling req \<le> 0 \<and> \<not> 1 \<le> or_Cooling req) \<and>
     length (or_RemovalWeights req) \<in> {0, 2} \<and> length (or_InsertionWeights req) \<in> {0, 2} \<and>
     (\<forall>obj k v. or_Objectives req = Some obj \<longrightarrow> obj k = Some v \<longrightarrow>
        \<not> v < 0 \<and> lib_lower L k \<in> {''drivetime'', ''lateness'', ''failed'', ''distance''})"

lemma validate_iff:
  assumes "\<And>obj. or_Objectives req = Some obj \<Longrightarrow> set keys = dom obj"
  shows "validateOptimizeRequest L keys req = None \<longleftrightarrow> optimize_request_ok L req"
proof (cases "or_Objectives req")
  case None
  then show ?thesis by (auto simp: validateOptimizeRequest_def optimize_request_ok_def)
next
  case (Some obj)
  with assms have k: "set keys = dom obj" by simp
  have "check_objectives L obj keys = None \<longleftrightarrow>
      (\<forall>k v. obj k = Some v \<longrightarrow> \<not> v < 0 \<and> lib_lower L k \<in> {''drivetime'', ''lateness'', ''failed'', ''distance''})"
    unfolding check_objectives_None k by (auto simp: allowed_objectives_def)
  with Some show ?thesis by (auto simp: validateOptimizeRequest_def optimize_request_ok_def)
qed

end
