(* ===== verification/Api_Handlers.thy ===== *)
theory Api_Handlers
  imports Api_Access
begin

text \<open>
  The handlers of \<^verbatim>\<open>internal/api/handlers.go\<close> for orders, optimization, driver events, proofs of
  delivery, subscriptions, driver shifts, geofences, media, estimated arrivals and health. Routes and their
  streams are in \<open>Api_Routes\<close>, the handlers of the administrator in \<open>Api_Admin\<close>.

  A handler reads top-down like the code; \<open>with_principal\<close>, \<open>with_body\<close> and \<open>on_result\<close> are the recurring
  steps with their early returns. \<open>dr_now D 0\<close> is the handler's reading of the clock, \<open>dr_now D (i + 1)\<close> that
  of the \<open>i\<close>-th emission of an event.
\<close>

section \<open>Recurring steps\<close>

text \<open>\<^verbatim>\<open>json.NewDecoder(r.Body).Decode(&x)\<close> and the reply to an error.\<close>

definition with_body :: "(string \<Rightarrow> 'a \<times> go_error option) \<Rightarrow> request \<Rightarrow> 's server \<Rightarrow> ('a \<Rightarrow> 's server \<times> reply)
    \<Rightarrow> 's server \<times> reply" where
  "with_body decode r sv k =
     (case decode (hr_Body r) of
        (_, Some e) \<Rightarrow> (sv, writeProblem 400 ''Invalid JSON'' (error_text e) (hr_Path r))
      | (x, None) \<Rightarrow> k x)"

text \<open>A call of the store and the reply to an error.\<close>

definition on_result :: "('s, 'a) call \<Rightarrow> request \<Rightarrow> int \<Rightarrow> string \<Rightarrow> 's server \<Rightarrow> ('s server \<Rightarrow> 'a \<Rightarrow> 's server \<times> reply)
    \<Rightarrow> 's server \<times> reply" where
  "on_result f r status title sv k =
     on_store f sv (\<lambda>sv res. case res of
         Inl e \<Rightarrow> (sv, writeProblem status title (error_text e) (hr_Path r))
       | Inr a \<Rightarrow> k sv a)"

text \<open>\<^verbatim>\<open>x := d; if v := q.Get(k); v != "" { fmt.Sscanf(v, "%d", &x) }\<close>.\<close>

definition query_int :: "request \<Rightarrow> string \<Rightarrow> int \<Rightarrow> int" where
  "query_int r k d = (let v = hr_Query r k in if v \<noteq> '''' then sscanf_d v d else d)"

definition dispatcher :: "principal \<Rightarrow> bool" where
  "dispatcher p \<longleftrightarrow> IsAdmin p \<or> pn_Role p = ''dispatcher''"

text \<open>Events published one after the other.\<close>

fun publish_seq :: "(string \<times> sse_event) list \<Rightarrow> 's server \<Rightarrow> ('s server \<Rightarrow> 's server \<times> reply) \<Rightarrow> 's server \<times> reply" where
  "publish_seq [] sv k = k sv"
| "publish_seq (e # es) sv k = on_publish (fst e) (snd e) sv (\<lambda>sv. publish_seq es sv k)"

definition page_reply :: "jval \<Rightarrow> string \<Rightarrow> reply" where
  "page_reply items next = writeJSON 200 (JMap [''items'' \<mapsto> items, ''nextCursor'' \<mapsto> JStr next])"

section \<open>Orders\<close>

definition OrdersHandler :: "'s handler" where
  "OrdersHandler E D r sv =
     (if hr_Method r = ''POST'' then
        with_body (jd_orders (en_J E)) r sv (\<lambda>(tenantID0, ords).
          let tenantID = (if tenantID0 = '''' then withTenant r else tenantID0) in
          on_result (st_CreateOrders (en_M E) tenantID ords) r 500 ''Create orders failed'' sv
            (\<lambda>sv (imp, created, skipped). (sv, writeJSON 202
               (JMap [''importId'' \<mapsto> JStr imp, ''created'' \<mapsto> JInt created, ''skipped'' \<mapsto> JInt skipped]))))
      else if hr_Method r = ''GET'' then
        on_result (st_ListOrders (en_M E) (withTenant r) (hr_Query r ''status'') (hr_Query r ''cursor'') (query_int r ''limit'' 100))
          r 500 ''List orders failed'' sv (\<lambda>sv (items, next). (sv, page_reply (JOrders items) next))
      else (sv, writeHeader 405))"

section \<open>Optimization\<close>

text \<open>The events of \<^verbatim>\<open>OptimizeHandler\<close>: one for each planned break, in the order of the nested loops.\<close>

definition break_event :: "route \<Rightarrow> leg \<Rightarrow> sse_event" where
  "break_event rt lg = \<lparr>ev_Type = ''hos.break.planned'',
     ev_Data = [''routeId'' \<mapsto> AStr (rt_ID rt), ''breakSec'' \<mapsto> AInt (leg_BreakSec lg),
                ''etaStart'' \<mapsto> AStr (leg_ETAArrival lg), ''etaEnd'' \<mapsto> AStr (leg_ETADeparture lg)]\<rparr>"

definition planned_breaks :: "golib \<Rightarrow> route list \<Rightarrow> (string \<times> sse_event) list" where
  "planned_breaks L rts =
     concat (map (\<lambda>rt. map (\<lambda>lg. (rt_ID rt, break_event rt lg))
       (filter (\<lambda>lg. lib_lower L (leg_Kind lg) = ''break'' \<and> 0 < leg_BreakSec lg) (rt_Legs rt))) rts)"

definition OptimizeHandler :: "'s handler" where
  "OptimizeHandler E D r sv =
     (if hr_Method r \<noteq> ''POST'' then (sv, writeHeader 405)
      else with_principal E D r sv (\<lambda>sv p.
        if \<not> dispatcher p then (sv, writeProblem 403 ''Forbidden'' ''dispatcher or admin required'' (hr_Path r))
        else with_body (jd_optimize (en_J E)) r sv (\<lambda>req0.
          case validateOptimizeRequest (en_L E) (dr_keys D) req0 of
            Some e \<Rightarrow> (sv, writeProblem 400 ''Invalid optimize request'' (error_text e) (hr_Path r))
          | None \<Rightarrow>
              let req = (if or_TenantID req0 = '''' then req0\<lparr>or_TenantID := withTenant r\<rparr> else req0) in
              on_result (st_PlanRoutes (en_M E) req) r 500 ''Plan routes failed'' sv
                (\<lambda>sv (rts, batchID). publish_seq (planned_breaks (en_L E) rts) sv
                  (\<lambda>sv. (sv, writeJSON 200 (JMap [''batchId'' \<mapsto> JStr batchID, ''routes'' \<mapsto> JRoutes rts])))))))"

definition default_config :: obj where
  "default_config = [''algorithm'' \<mapsto> AStr ''alns'', ''timeBudgetMs'' \<mapsto> AInt 300, ''maxIterations'' \<mapsto> AInt 0,
     ''initTemp'' \<mapsto> AFloat 1, ''cooling'' \<mapsto> AFloat (lit (995 / 1000)), ''removalWeights'' \<mapsto> AFloats [1, 1],
     ''insertionWeights'' \<mapsto> AFloats [1, 1],
     ''objectives'' \<mapsto> AObj [''driveTime'' \<mapsto> AFloat (lit 1), ''lateness'' \<mapsto> AFloat (lit 4), ''failed'' \<mapsto> AFloat (lit 50),
                             ''distance'' \<mapsto> AFloat (lit (1 / 10))],
     ''latencyBuckets'' \<mapsto> AInts [100, 500, 1000]]"

definition OptimizerConfigHandler :: "'s handler" where
  "OptimizerConfigHandler E D r sv =
     (if hr_Path r \<noteq> ''/v1/optimizer/config'' \<or> hr_Method r \<noteq> ''GET'' then (sv, writeProblem 404 ''Not Found'' '''' (hr_Path r))
      else with_principal E D r sv (\<lambda>sv p.
        on_store (st_GetOptimizerConfig (en_M E) (pn_Tenant p)) sv (\<lambda>sv res.
          let defaults = (case res of Inr (Some cfg) \<Rightarrow> default_config ++ cfg | _ \<Rightarrow> default_config)
          in (sv, writeJSON 200 (JMap [''defaults'' \<mapsto> JObj defaults])))))"

section \<open>Driver events\<close>

definition advanced_data :: "advance_result \<Rightarrow> obj" where
  "advanced_data res = [''routeId'' \<mapsto> AStr (ad_RouteID res), ''fromStopId'' \<mapsto> AStr (ad_FromStopID res),
     ''toStopId'' \<mapsto> AStr (ad_ToStopID res), ''ts'' \<mapsto> AStr (ad_TS res)]"

definition event_reason :: "string \<Rightarrow> string" where
  "event_reason ty =
     (let reason1 = (if ty = ''pod'' then ''pod_ack'' else ty)
      in if reason1 = ''arrive'' then ''geofence_arrive'' else reason1)"

text \<open>The first event that advances its route ends the loop.\<close>

fun advance_by_events :: "'s env \<Rightarrow> draws \<Rightarrow> string \<Rightarrow> driver_event list \<Rightarrow> 's server
    \<Rightarrow> ('s server \<Rightarrow> advance_result option \<Rightarrow> 's server \<times> reply) \<Rightarrow> 's server \<times> reply" where
  "advance_by_events E D tenant [] sv k = k sv None"
| "advance_by_events E D tenant (e # es) sv k =
     (if de_Type e = ''pod'' \<or> de_Type e = ''depart'' \<or> de_Type e = ''arrive'' then
        on_store (st_AdvanceRoute (en_M E) tenant (de_RouteID e) \<lparr>av_Reason = event_reason (de_Type e), av_Force = False\<rparr>) sv
          (\<lambda>sv res. case res of
             Inr resp \<Rightarrow>
               if ad_Changed (resp_Result resp)
               then k (emit_event E (dr_now D 1) tenant ''stop.advanced'' (advanced_data (resp_Result resp)) sv)
                      (Some (resp_Result resp))
               else advance_by_events E D tenant es sv k
           | Inl _ \<Rightarrow> advance_by_events E D tenant es sv k)
      else advance_by_events E D tenant es sv k)"

definition DriverEventsHandler :: "'s handler" where
  "DriverEventsHandler E D r sv =
     (if hr_Method r \<noteq> ''POST'' then (sv, writeHeader 405)
      else with_principal E D r sv (\<lambda>sv pr.
        if \<not> (IsAdmin pr \<or> pn_Role pr = ''driver'' \<or> pn_Role pr = ''dispatcher'')
        then (sv, writeProblem 403 ''Forbidden'' ''driver, dispatcher or admin required'' (hr_Path r))
        else with_body (jd_events (en_J E)) r sv (\<lambda>(tenantID0, events).
          let tenantID = (if tenantID0 = '''' then withTenant r else tenantID0) in
          on_result (st_InsertDriverEvents (en_M E) tenantID events) r 500 ''Insert events failed'' sv (\<lambda>sv n.
            advance_by_events E D tenantID events sv (\<lambda>sv adv.
              let resp = [''accepted'' \<mapsto> JInt n, ''rejected'' \<mapsto> JInt 0];
                  resp1 = (case adv of None \<Rightarrow> resp | Some a \<Rightarrow> resp(''advanced'' \<mapsto> JAdvanced [a]))
              in (sv, writeJSON 202 (JMap resp1)))))))"

section \<open>Proofs of delivery\<close>

definition PoDHandler :: "'s handler" where
  "PoDHandler E D r sv =
     (if hr_Method r \<noteq> ''POST'' then (sv, writeHeader 405)
      else with_body (jd_pod (en_J E)) r sv (\<lambda>req.
        on_result (st_CreatePoD (en_M E) req) r 500 ''Create PoD failed'' sv (\<lambda>sv (podId, status).
          on_store (st_FindRoutesByStop (en_M E) (pr_TenantID req) (pr_StopID req)) sv (\<lambda>sv res.
            let rids = (case res of Inr rids \<Rightarrow> rids | Inl _ \<Rightarrow> []);
                data = [''orderId'' \<mapsto> AStr (pr_OrderID req), ''stopId'' \<mapsto> AStr (pr_StopID req), ''podId'' \<mapsto> AStr podId,
                        ''ts'' \<mapsto> AStr (lib_format (en_L E) (dr_now D 0))]
            in publish_seq (map (\<lambda>rid. (rid, \<lparr>ev_Type = ''pod.captured'', ev_Data = data\<rparr>)) rids) sv
              (\<lambda>sv. (sv, writeJSON 201 (JMap [''podId'' \<mapsto> JStr podId, ''status'' \<mapsto> JStr status])))))))"

section \<open>Subscriptions\<close>

definition SubscriptionsHandler :: "'s handler" where
  "SubscriptionsHandler E D r sv =
     (if hr_Method r = ''POST'' then
        with_principal E D r sv (\<lambda>sv p.
          if \<not> IsAdmin p then (sv, writeProblem 403 ''Forbidden'' ''admin required'' (hr_Path r))
          else with_body (jd_subscription (en_J E)) r sv (\<lambda>req.
            on_result (st_CreateSubscription (en_M E) req) r 500 ''Create subscription failed'' sv
              (\<lambda>sv sub. (sv, writeJSON 201 (JSub sub)))))
      else if hr_Method r = ''GET'' then
        with_principal E D r sv (\<lambda>sv p.
          if \<not> IsAdmin p then (sv, writeProblem 403 ''Forbidden'' ''admin required'' (hr_Path r))
          else on_result (st_ListSubscriptions (en_M E) (pn_Tenant p) (hr_Query r ''cursor'') (query_int r ''limit'' 100))
            r 500 ''List subscriptions failed'' sv (\<lambda>sv (items, next). (sv, page_reply (JSubs items) next)))
      else (sv, writeHeader 405))"

definition SubscriptionByIDHandler :: "'s handler" where
  "SubscriptionByIDHandler E D r sv =
     (if \<not> has_prefix ''/v1/subscriptions/'' (hr_Path r) then (sv, writeProblem 404 ''Not Found'' '''' (hr_Path r))
      else if hr_Method r \<noteq> ''DELETE'' then (sv, writeHeader 405)
      else with_principal E D r sv (\<lambda>sv p.
        if \<not> IsAdmin p then (sv, writeProblem 403 ''Forbidden'' ''admin required'' (hr_Path r))
        else on_result (st_DeleteSubscription (en_M E) (pn_Tenant p) (trim_prefix ''/v1/subscriptions/'' (hr_Path r)))
          r 500 ''Delete subscription failed'' sv (\<lambda>sv _. (sv, writeHeader 204))))"

section \<open>Shifts and breaks\<close>

definition actionToHOSAction :: "string \<Rightarrow> string" where
  "actionToHOSAction path =
     (if path = ''shift/start'' then ''shift_start''
      else if path = ''shift/end'' then ''shift_end''
      else if path = ''breaks/start'' then ''break_start''
      else if path = ''breaks/end'' then ''break_end''
      else path)"

text \<open>The time, note and break type of the body; a body that is no JSON object is ignored.\<close>

definition hos_body :: "golib \<Rightarrow> json_codec \<Rightarrow> request \<Rightarrow> (time \<times> string) option \<times> string \<times> string" where
  "hos_body L J r =
     (if hr_Method r = ''POST'' then
        (case jd_object J (hr_Body r) of
           (body, None) \<Rightarrow>
             (case body ''ts'' of
                Some (AStr v) \<Rightarrow> (case lib_parse_time L v of Some (t, s) \<Rightarrow> if t \<noteq> 0 then Some (t, s) else None | None \<Rightarrow> None)
              | _ \<Rightarrow> None, text_at body ''note'', text_at body ''type'')
         | (_, Some _) \<Rightarrow> (None, '''', ''''))
      else (None, '''', ''''))"

text \<open>For each active route of the driver: an event on its stream, then the webhooks.\<close>

fun broadcast :: "'s env \<Rightarrow> draws \<Rightarrow> string \<Rightarrow> string \<Rightarrow> obj \<Rightarrow> nat \<Rightarrow> string list \<Rightarrow> 's server
    \<Rightarrow> ('s server \<Rightarrow> 's server \<times> reply) \<Rightarrow> 's server \<times> reply" where
  "broadcast E D tenant evtType data i [] sv k = k sv"
| "broadcast E D tenant evtType data i (rid # rids) sv k =
     (let d = [''routeId'' \<mapsto> AStr rid] ++ data in
      on_publish rid \<lparr>ev_Type = evtType, ev_Data = d\<rparr> sv (\<lambda>sv.
        broadcast E D tenant evtType data (i + 1) rids (emit_event E (dr_now D (i + 1)) tenant evtType d sv) k))"

definition DriversHandler :: "'s handler" where
  "DriversHandler E D r sv =
     (if \<not> has_prefix ''/v1/drivers/'' (hr_Path r) then (sv, writeProblem 404 ''Not Found'' '''' (hr_Path r))
      else
        let parts = split_on CHR ''/'' (trim_prefix ''/v1/drivers/'' (hr_Path r)) in
        if length parts < 2 then (sv, writeProblem 404 ''Not Found'' '''' (hr_Path r))
        else
          let driverID = parts ! 0;
              action = join_with CHR ''/'' (drop 1 parts);
              (ts0, note, breakType) = hos_body (en_L E) (en_J E) r;
              ts = (case ts0 of Some (_, s) \<Rightarrow> s | None \<Rightarrow> lib_format (en_L E) (dr_now D 0));
              tenant = withTenant r;
              upd = \<lparr>hu_Action = actionToHOSAction action, hu_TS = ts, hu_Type = breakType, hu_Note = note\<rparr>
          in on_result (st_UpdateHOS (en_M E) tenant driverID upd) r 500 ''HOS update failed'' sv (\<lambda>sv (status, st).
            let reply = writeJSON 200 (JMap [''driverId'' \<mapsto> JStr driverID, ''status'' \<mapsto> JStr status, ''hosState'' \<mapsto> JObj st])
            in if hu_Action upd = ''break_start'' \<or> hu_Action upd = ''break_end'' then
                 on_store (st_ListActiveRoutesForDriver (en_M E) tenant driverID) sv (\<lambda>sv res.
                   let rids = (case res of Inr rids \<Rightarrow> rids | Inl _ \<Rightarrow> []);
                       evtType = (if hu_Action upd = ''break_end'' then ''hos.break.ended'' else ''hos.break.started'');
                       data = [''driverId'' \<mapsto> AStr driverID, ''ts'' \<mapsto> AStr ts]
                   in broadcast E D tenant evtType data 0 rids sv (\<lambda>sv. (sv, reply)))
               else (sv, reply)))"

section \<open>Geofences\<close>

definition GeofencesHandler :: "'s handler" where
  "GeofencesHandler E D r sv =
     with_principal E D r sv (\<lambda>sv pr.
       let tenant = withTenant r in
       if hr_Method r = ''GET'' then
         (if \<not> dispatcher pr then (sv, writeProblem 403 ''Forbidden'' ''dispatcher or admin required'' (hr_Path r))
          else on_result (st_ListGeofences (en_M E) tenant (hr_Query r ''cursor'') (query_int r ''limit'' 100))
            r 500 ''List geofences failed'' sv (\<lambda>sv (items, next). (sv, page_reply (JGeofences items) next)))
       else if hr_Method r = ''POST'' then
         (if \<not> dispatcher pr then (sv, writeProblem 403 ''Forbidden'' ''dispatcher or admin required'' (hr_Path r))
          else with_body (jd_geofence (en_J E)) r sv (\<lambda>inp.
            on_result (st_CreateGeofence (en_M E) tenant inp) r 500 ''Create geofence failed'' sv
              (\<lambda>sv gf. (sv, writeJSON 201 (JGeofence gf)))))
       else (sv, writeHeader 405))"

definition GeofenceByIDHandler :: "'s handler" where
  "GeofenceByIDHandler E D r sv =
     (if \<not> has_prefix ''/v1/geofences/'' (hr_Path r) then (sv, writeProblem 404 ''Not Found'' '''' (hr_Path r))
      else
        let k = trim_prefix ''/v1/geofences/'' (hr_Path r); tenant = withTenant r in
        with_principal E D r sv (\<lambda>sv pr.
          if hr_Method r = ''GET'' then
            (if \<not> dispatcher pr then (sv, writeProblem 403 ''Forbidden'' ''dispatcher or admin required'' (hr_Path r))
             else on_result (st_GetGeofence (en_M E) tenant k) r 404 ''Not Found'' sv
               (\<lambda>sv gf. (sv, writeJSON 200 (JGeofence gf))))
          else if hr_Method r = ''PATCH'' then
            (if \<not> dispatcher pr then (sv, writeProblem 403 ''Forbidden'' ''dispatcher or admin required'' (hr_Path r))
             else with_body (jd_geofence (en_J E)) r sv (\<lambda>inp.
               on_result (st_PatchGeofence (en_M E) tenant k inp) r 500 ''Update geofence failed'' sv
                 (\<lambda>sv gf. (sv, writeJSON 200 (JGeofence gf)))))
          else if hr_Method r = ''DELETE'' then
            (if \<not> dispatcher pr then (sv, writeProblem 403 ''Forbidden'' ''dispatcher or admin required'' (hr_Path r))
             else on_result (st_DeleteGeofence (en_M E) tenant k) r 500 ''Delete geofence failed'' sv
               (\<lambda>sv _. (sv, writeHeader 204)))
          else (sv, writeHeader 405)))"

section \<open>Media, estimated arrivals, health and documentation\<close>

definition MediaPresignHandler :: "'s handler" where
  "MediaPresignHandler E D r sv =
     (if hr_Method r \<noteq> ''POST'' then (sv, writeHeader 405)
      else with_body (jd_presign (en_J E)) r sv (\<lambda>inp.
        (sv, writeJSON 200 (JMap
          [''uploadUrl'' \<mapsto> JStr (''https://upload.example/'' @ ps_FileName inp @ ''?token=demo''),
           ''method'' \<mapsto> JStr ''PUT'',
           ''headers'' \<mapsto> JObj [''Content-Type'' \<mapsto> AStr (ps_ContentType inp)],
           ''expireAt'' \<mapsto> JStr (lib_format_local (en_L E) (dr_now D 0 + 15 * minute))]))))"

definition stream_headers :: "(string \<times> string) list" where
  "stream_headers = [(''Content-Type'', ''text/event-stream''), (''Cache-Control'', ''no-cache''), (''Connection'', ''keep-alive'')]"

definition ETAStreamHandler :: "'s handler" where
  \<open>ETAStreamHandler E D r sv =
     (if hr_Method r \<noteq> ''GET'' then (sv, writeHeader 405)
      else
        let routeID = hr_Query r ''routeId'' in
        if routeID = '''' then (sv, writeProblem 400 ''Missing routeId'' '''' (hr_Path r))
        else (sv, Reply \<lparr>rs_Status = 200, rs_Header = stream_headers, rs_Body = Text
          (''event: eta.updated'' @ [CHR 0x0A] @ ''data: {"routeId":"'' @ routeID @ ''","eta":"'' @
           lib_format_local (en_L E) (dr_now D 0 + 5 * minute) @ ''"}'' @ [CHR 0x0A, CHR 0x0A])\<rparr>))\<close>

definition HealthHandler :: "'s handler" where
  "HealthHandler E D r sv = (sv, writeJSON 200 (JMap [''status'' \<mapsto> JStr ''ok'']))"

definition ReadyHandler :: "'s handler" where
  "ReadyHandler E D r sv =
     (case (case en_ping E of None \<Rightarrow> None | Some ping \<Rightarrow> ping (sv_store sv)) of
        Some e \<Rightarrow> (sv, writeProblem 503 ''Not Ready'' (error_text e) (hr_Path r))
      | None \<Rightarrow> (sv, writeJSON 200 (JMap [''status'' \<mapsto> JStr ''ready''])))"

text \<open>
  \<^verbatim>\<open>docs.go\<close>. The specification is read from the file (\<^verbatim>\<open>docs_dev.go\<close>); a build with the tag
  \<^verbatim>\<open>embed_openapi\<close> has the bytes of the file in the program instead (\<^verbatim>\<open>docs_embed.go\<close>), which is a
  file that can always be read.
\<close>

definition openAPILoad :: "'s env \<Rightarrow> string result" where
  "openAPILoad E = en_ReadFile E ''openapi/openapi.yaml''"

definition openAPILoad_embedded :: "string \<Rightarrow> string result" where
  "openAPILoad_embedded openAPIEmbedded = Inr openAPIEmbedded"

definition OpenAPIHandler :: "'s handler" where
  "OpenAPIHandler E D r sv =
     (case openAPILoad E of
        Inl e \<Rightarrow> (sv, writeProblem 500 ''OpenAPI not available'' (error_text e) (hr_Path r))
      | Inr b \<Rightarrow> (sv, Reply \<lparr>rs_Status = 200, rs_Header = [(''Content-Type'', ''application/yaml'')], rs_Body = Text b\<rparr>))"

definition docs_html :: string where
  \<open>docs_html =
     (let nl = [CHR 0x0A] in
      ''<!DOCTYPE html><html><head><title>API Docs</title>'' @ nl @
      ''    <meta charset="utf-8"/>'' @ nl @
      ''    <meta name="viewport" content="width=device-width, initial-scale=1">'' @ nl @
      ''    <script src="https://cdn.jsdelivr.net/npm/redoc@next/bundles/redoc.standalone.js"></script>'' @ nl @
      ''    </head><body>'' @ nl @
      ''    <redoc spec-url="/openapi.yaml"></redoc>'' @ nl @
      ''    </body></html>'')\<close>

definition DocsHandler :: "'s handler" where
  "DocsHandler E D r sv =
     (sv, Reply \<lparr>rs_Status = 200, rs_Header = [(''Content-Type'', ''text/html; charset=utf-8'')], rs_Body = Text docs_html\<rparr>)"

end
