(* ===== verification/Api_Routes.thy ===== *)
theory Api_Routes
  imports Api_Handlers
begin

text \<open>
  The handlers of \<^verbatim>\<open>internal/api/handlers.go\<close> under \<^verbatim>\<open>/v1/routes\<close>: reading, assigning, advancing
  and updating a route, and the stream of its events (server-sent events).

  \<^verbatim>\<open>RouteByIDHandler\<close> decides by the parts of the path; each branch is a definition of its own. A
  stream is opened by the request (\<open>Streams\<close> with the route, the channel and the text written so far) and then
  goes on in single steps, one for each case of its \<^verbatim>\<open>select\<close> (\<open>stream_event\<close>, \<open>stream_heartbeat\<close>, \<open>stream_done\<close>).
\<close>

section \<open>The parts of the path\<close>

definition route_parts :: "string \<Rightarrow> string list option" where
  "route_parts path =
     (let rest = trim_prefix ''/v1/routes/'' path
      in if rest = path \<or> rest = '''' then None else Some (split_on CHR ''/'' rest))"

section \<open>Streams\<close>

text \<open>Administrators and dispatchers may watch every route, a driver the routes assigned to them.\<close>

definition assigned_driver :: "principal \<Rightarrow> route \<Rightarrow> bool" where
  "assigned_driver pr rt \<longleftrightarrow> \<not> (pn_Role pr \<noteq> ''driver'' \<or> pn_DriverID pr = '''' \<or> rt_DriverID rt = '''' \<or>
     pn_DriverID pr \<noteq> rt_DriverID rt)"

definition event_text :: "string \<Rightarrow> string \<Rightarrow> string" where
  "event_text ty data = ''event: '' @ ty @ [CHR 0x0A] @ ''data: '' @ data @ [CHR 0x0A, CHR 0x0A]"

definition heartbeat_text :: "golib \<Rightarrow> time \<Rightarrow> string \<Rightarrow> string" where
  \<open>heartbeat_text L now route_id =
     event_text ''heartbeat'' (''{"routeId":"'' @ route_id @ ''","ts":"'' @ lib_format_local L now @ ''"}'')\<close>

definition open_stream :: "'s env \<Rightarrow> draws \<Rightarrow> request \<Rightarrow> string \<Rightarrow> 's server \<Rightarrow> 's server \<times> reply" where
  "open_stream E D r route_id sv =
     (if \<not> wr_Flusher (hr_Writer r) then (sv, writeProblem 500 ''Streaming unsupported'' '''' (hr_Path r))
      else let (b, ch) = Subscribe route_id (sv_broker sv)
        in (sv\<lparr>sv_broker := b\<rparr>, Streams route_id ch (heartbeat_text (en_L E) (dr_now D 0) route_id)))"

definition stream_route :: "'s env \<Rightarrow> draws \<Rightarrow> request \<Rightarrow> string \<Rightarrow> 's server \<Rightarrow> 's server \<times> reply" where
  "stream_route E D r route_id sv =
     (if hr_Method r \<noteq> ''GET'' then (sv, writeHeader 405)
      else with_principal E D r sv (\<lambda>sv pr.
        if \<not> dispatcher pr then
          on_result (st_GetRoute (en_M E) (withTenant r) route_id) r 404 ''Route not found'' sv (\<lambda>sv rt.
            if \<not> assigned_driver pr rt
            then (sv, writeProblem 403 ''Forbidden'' ''not authorized for route events'' (hr_Path r))
            else open_stream E D r route_id sv)
        else open_stream E D r route_id sv))"

text \<open>
  One turn of the stream loop: an event is taken from the channel and written, the timer writes a
  heartbeat, or the client has gone and the deferred \<^verbatim>\<open>Unsubscribe\<close> runs. A receive on a closed
  channel gives the zero event.
\<close>

definition stream_event :: "golib \<Rightarrow> nat \<Rightarrow> broker \<Rightarrow> (broker \<times> string) option" where
  "stream_event L ch b =
     (case receive ch b of
        (b', Got evt) \<Rightarrow> Some (b', event_text (ev_Type evt) (lib_marshal L (ev_Data evt)))
      | (b', Closed) \<Rightarrow> Some (b', event_text '''' (''null''))
      | (b', Waits) \<Rightarrow> None)"

definition stream_heartbeat :: "golib \<Rightarrow> time \<Rightarrow> string \<Rightarrow> string" where
  "stream_heartbeat L now route_id = heartbeat_text L now route_id"

definition stream_done :: "string \<Rightarrow> nat \<Rightarrow> broker \<Rightarrow> broker \<times> go_panic option" where
  "stream_done route_id ch b = Unsubscribe route_id ch b"

section \<open>Assigning and advancing\<close>

definition assign_route :: "'s env \<Rightarrow> draws \<Rightarrow> request \<Rightarrow> string \<Rightarrow> 's server \<Rightarrow> 's server \<times> reply" where
  "assign_route E D r route_id sv =
     (if hr_Method r \<noteq> ''POST'' then (sv, writeHeader 405)
      else with_body (jd_assignment (en_J E)) r sv (\<lambda>req.
        with_principal E D r sv (\<lambda>sv pr.
          if \<not> dispatcher pr then (sv, writeProblem 403 ''Forbidden'' ''dispatcher or admin required'' (hr_Path r))
          else on_result (st_AssignRoute (en_M E) (withTenant r) route_id (ar_DriverID req) (ar_VehicleID req) (dr_now D 0))
            r 500 ''Assign route failed'' sv (\<lambda>sv rt. (sv, writeJSON 200 (JRoute rt))))))"

definition alert_event :: "string \<Rightarrow> policy_alert \<Rightarrow> string \<times> sse_event" where
  "alert_event route_id a = (route_id, \<lparr>ev_Type = ''policy.alert'',
     ev_Data = [''routeId'' \<mapsto> AStr route_id, ''reason'' \<mapsto> AStr (pa_Reason a), ''ts'' \<mapsto> AStr (pa_TS a)]\<rparr>)"

text \<open>The body is optional: a decoding error leaves what was decoded before it.\<close>

definition advance_route :: "'s env \<Rightarrow> draws \<Rightarrow> request \<Rightarrow> string \<Rightarrow> 's server \<Rightarrow> 's server \<times> reply" where
  "advance_route E D r route_id sv =
     (if hr_Method r \<noteq> ''POST'' then (sv, writeHeader 405)
      else
        let req = fst (jd_advance (en_J E) (hr_Body r)); tenant = withTenant r in
        on_result (st_AdvanceRoute (en_M E) tenant route_id req) r 500 ''Advance route failed'' sv (\<lambda>sv resp.
          let data = advanced_data (resp_Result resp);
              sv1 = (if ad_Changed (resp_Result resp)
                     then emit_event E (dr_now D 1) tenant ''stop.advanced'' data sv else sv);
              events = (if ad_Changed (resp_Result resp) then [(route_id, \<lparr>ev_Type = ''stop.advanced'', ev_Data = data\<rparr>)] else [])
                @ map (alert_event route_id) (resp_Alerts resp)
          in publish_seq events sv1 (\<lambda>sv. (sv, writeJSON 200 (JAdvance resp)))))"

section \<open>Reading and updating\<close>

definition get_route :: "'s env \<Rightarrow> request \<Rightarrow> string \<Rightarrow> 's server \<Rightarrow> 's server \<times> reply" where
  "get_route E r route_id sv =
     on_result (st_GetRoute (en_M E) (withTenant r) route_id) r 404 ''Route not found'' sv (\<lambda>sv rt.
       let inc = hr_Query r ''includeBreaks'';
           rt' = (if lib_equal_fold (en_L E) inc ''false'' \<or> inc = ''0''
                  then rt\<lparr>rt_Legs := filter (\<lambda>l. lib_lower (en_L E) (leg_Kind l) \<noteq> ''break'') (rt_Legs rt)\<rparr> else rt)
       in (sv, writeJSON 200 (JRoute rt')))"

definition update_route :: "'s env \<Rightarrow> request \<Rightarrow> string \<Rightarrow> 's server \<Rightarrow> 's server \<times> reply" where
  "update_route E r route_id sv =
     on_result (st_PatchRoute (en_M E) (withTenant r) route_id
         \<lparr>rp_Status = ''updated'', rp_LockedUntil = '''', rp_AutoAdvance = None\<rparr>)
       r 500 ''Update route failed'' sv (\<lambda>sv rt. (sv, writeJSON 200 (JRoute rt)))"

definition RouteByIDHandler :: "'s handler" where
  "RouteByIDHandler E D r sv =
     (case route_parts (hr_Path r) of
        None \<Rightarrow> (sv, writeProblem 404 ''Not Found'' ''missing id'' (hr_Path r))
      | Some parts \<Rightarrow>
          let route_id = parts ! 0 in
          if length parts > 1 \<and> parts ! 1 = ''events'' \<and> length parts > 2 \<and> parts ! 2 = ''stream''
          then stream_route E D r route_id sv
          else if length parts > 1 \<and> parts ! 1 = ''assign'' then assign_route E D r route_id sv
          else if length parts > 1 \<and> parts ! 1 = ''advance'' then advance_route E D r route_id sv
          else if hr_Method r = ''GET'' then get_route E r route_id sv
          else if hr_Method r = ''PATCH'' then update_route E r route_id sv
          else (sv, writeHeader 405))"

definition RoutesIndexHandler :: "'s handler" where
  "RoutesIndexHandler E D r sv =
     (if hr_Path r \<noteq> ''/v1/routes'' then (sv, writeProblem 404 ''Not Found'' '''' (hr_Path r))
      else if hr_Method r \<noteq> ''GET'' then (sv, writeHeader 405)
      else on_result (st_ListRoutes (en_M E) (withTenant r) (hr_Query r ''cursor'') (query_int r ''limit'' 100))
        r 500 ''List routes failed'' sv (\<lambda>sv (items, next). (sv, page_reply (JRoutes items) next)))"

section \<open>Which part of the path decides\<close>

lemma route_parts_iff:
  "route_parts path = Some parts \<longleftrightarrow> (\<exists>rest. rest \<noteq> '''' \<and> path = ''/v1/routes/'' @ rest \<and> parts = split_on CHR ''/'' rest)"
proof
  assume r: "route_parts path = Some parts"
  define rest where "rest = trim_prefix ''/v1/routes/'' path"
  have rp: "rest \<noteq> path" "rest \<noteq> ''''" "parts = split_on CHR ''/'' rest"
    using r by (auto simp: route_parts_def Let_def rest_def split: if_splits)
  then have "has_prefix ''/v1/routes/'' path" by (auto simp: rest_def trim_prefix_def split: if_splits)
  then obtain t where t: "path = ''/v1/routes/'' @ t" unfolding has_prefix_iff by blast
  then have "rest = t" unfolding rest_def by (simp only: trim_prefix_append)
  with t rp show "\<exists>rest. rest \<noteq> '''' \<and> path = ''/v1/routes/'' @ rest \<and> parts = split_on CHR ''/'' rest" by blast
next
  assume "\<exists>rest. rest \<noteq> '''' \<and> path = ''/v1/routes/'' @ rest \<and> parts = split_on CHR ''/'' rest"
  then obtain rest where p: "rest \<noteq> ''''" "path = ''/v1/routes/'' @ rest" "parts = split_on CHR ''/'' rest" by blast
  have "trim_prefix ''/v1/routes/'' path = rest" unfolding p(2) by (rule trim_prefix_append)
  moreover have "rest \<noteq> path" unfolding p(2) by simp
  ultimately show "route_parts path = Some parts" using p by (simp add: route_parts_def)
qed

text \<open>For an identifier without a slash each branch has its path.\<close>

definition route_path :: "string \<Rightarrow> string \<Rightarrow> string" where
  "route_path k suffix = ''/v1/routes/'' @ k @ suffix"

lemma route_parts_path:
  assumes "k \<noteq> ''''" and "CHR ''/'' \<notin> set k"
  shows "route_parts (route_path k '''') = Some [k]"
    and "route_parts (route_path k (CHR ''/'' # s)) = Some (k # split_on CHR ''/'' s)"
  using assms unfolding route_parts_iff route_path_def
  by (auto intro!: exI [of _ k] exI [of _ "k @ CHR ''/'' # s"] simp: split_on_plain split_on_append)

lemma RouteByID_branches:
  assumes "k \<noteq> ''''" and "CHR ''/'' \<notin> set k"
  shows "hr_Path r = route_path k ''/events/stream'' \<Longrightarrow> RouteByIDHandler E D r sv = stream_route E D r k sv"
    and "hr_Path r = route_path k ''/assign'' \<Longrightarrow> RouteByIDHandler E D r sv = assign_route E D r k sv"
    and "hr_Path r = route_path k ''/advance'' \<Longrightarrow> RouteByIDHandler E D r sv = advance_route E D r k sv"
    and "hr_Path r = route_path k '''' \<Longrightarrow> RouteByIDHandler E D r sv =
      (if hr_Method r = ''GET'' then get_route E r k sv
       else if hr_Method r = ''PATCH'' then update_route E r k sv else (sv, writeHeader 405))"
  by (simp_all add: RouteByIDHandler_def route_parts_path [OF assms] Let_def)

end
