(* ===== verification/Api_Graphql.thy ===== *)
theory Api_Graphql
  imports Api_Routes
begin

text \<open>
  The GraphQL endpoints: queries over HTTP (\<^verbatim>\<open>graphql_http.go\<close>) and subscriptions over a websocket
  (\<^verbatim>\<open>graphql_ws.go\<close>).

  A websocket handler is a read loop with one goroutine for each subscription that forwards the events
  of its channel, and one for each \<^verbatim>\<open>connection_init\<close> that writes pings. The state of a connection is the
  record \<open>ws_conn\<close>: the handler's local map, its goroutines and the frames written so far. The loop's body
  is \<open>ws_message\<close>, one turn of a forwarding goroutine \<open>ws_forward\<close>, the code after the loop \<open>ws_cleanup\<close>; a write that
  fails because the client has gone is ignored by the code and leaves no frame behind.
\<close>

section \<open>Queries over HTTP\<close>

definition variable_text :: "obj option \<Rightarrow> string \<Rightarrow> string" where
  "variable_text vars k = (case vars of None \<Rightarrow> '''' | Some m \<Rightarrow> text_at m k)"

definition GraphQLHTTPHandler :: "'s handler" where
  "GraphQLHTTPHandler E D r sv =
     (if hr_Method r \<noteq> ''POST'' then (sv, writeHeader 405)
      else with_body (jd_graphql (en_J E)) r sv (\<lambda>(query, vars).
        let q = lib_lower (en_L E) query; tenant = withTenant r in
        if contains ''route('' q then
          (let k = variable_text vars ''id'' in
           if k = '''' then (sv, writeProblem 400 ''Missing id'' '''' (hr_Path r))
           else on_result (st_GetRoute (en_M E) tenant k) r 404 ''Not Found'' sv (\<lambda>sv rt.
             (sv, writeJSON 200 (JMap [''data'' \<mapsto> JMap [''route'' \<mapsto> JRoute rt]]))))
        else if contains ''routes'' q then
          on_result (st_ListRoutes (en_M E) tenant '''' 100) r 500 ''List routes failed'' sv (\<lambda>sv (items, next).
            (sv, writeJSON 200 (JMap [''data'' \<mapsto> JMap [''routes'' \<mapsto> JRoutes items, ''nextCursor'' \<mapsto> JStr next]])))
        else (sv, writeProblem 400 ''Unsupported query'' '''' (hr_Path r))))"

section \<open>Subscriptions over a websocket\<close>

record ws_in =
  wi_Type :: string
  wi_ID :: string
  wi_Payload :: string

record ws_frame =
  wf_Type :: string
  wf_ID :: string
  wf_Payload :: string

text \<open>A forwarding goroutine: the id of its subscription, its channel and the requested field.\<close>

record ws_fan =
  fn_id :: string
  fn_chan :: nat
  fn_field :: string

record ws_conn =
  wc_request :: request
  wc_subs :: "string \<rightharpoonup> string \<times> nat"
  wc_fans :: "ws_fan list"
  wc_pingers :: nat
  wc_frames :: "ws_frame list"

definition ws_open :: "request \<Rightarrow> ws_conn" where
  "ws_open r = \<lparr>wc_request = r, wc_subs = Map.empty, wc_fans = [], wc_pingers = 0, wc_frames = []\<rparr>"

definition GraphQLWSHandler :: "'s handler" where
  "GraphQLWSHandler E D r sv = (case en_upgrade E r of Some resp \<Rightarrow> (sv, Reply resp) | None \<Rightarrow> (sv, Upgrades))"

definition ws_write :: "ws_frame list \<Rightarrow> ws_conn \<Rightarrow> ws_conn" where
  "ws_write fs c = c\<lparr>wc_frames := wc_frames c @ fs\<rparr>"

definition plain_frame :: "string \<Rightarrow> string \<Rightarrow> string \<Rightarrow> ws_frame" where
  "plain_frame ty k payload = \<lparr>wf_Type = ty, wf_ID = k, wf_Payload = payload\<rparr>"

definition ws_field :: "golib \<Rightarrow> string \<Rightarrow> string" where
  "ws_field L query =
     (let ql = lib_lower L query;
          field0 = ''routeEvents'';
          field1 = (if contains ''policyalerts'' ql then ''policyAlerts'' else field0);
          field2 = (if contains ''podcaptured'' ql then ''podCaptured'' else field1)
      in if contains ''breakevents'' ql then ''breakEvents'' else field2)"

definition ws_forbidden :: "string \<Rightarrow> ws_conn \<Rightarrow> ws_conn" where
  \<open>ws_forbidden k c = ws_write [plain_frame ''error'' k (''{"message":"forbidden"}''), plain_frame ''complete'' k ''''] c\<close>

definition ws_start :: "string \<Rightarrow> string \<Rightarrow> string \<Rightarrow> ws_conn \<Rightarrow> 's server \<Rightarrow> ws_conn \<times> 's server" where
  "ws_start k rid field c sv =
     (let (b, ch) = Subscribe rid (sv_broker sv)
      in (c\<lparr>wc_subs := (wc_subs c)(k \<mapsto> (rid, ch)), wc_fans := wc_fans c @ [\<lparr>fn_id = k, fn_chan = ch, fn_field = field\<rparr>]\<rparr>,
          sv\<lparr>sv_broker := b\<rparr>))"

definition ws_subscribe :: "'s env \<Rightarrow> draws \<Rightarrow> ws_in \<Rightarrow> ws_conn \<Rightarrow> 's server \<Rightarrow> ws_conn \<times> 's server \<times> go_panic option" where
  "ws_subscribe E D msg c sv =
     (let (query, vars) = fst (jd_graphql (en_J E) (wi_Payload msg));
          rid = variable_text vars ''routeId'';
          r = wc_request c;
          go = (\<lambda>sv. let (c', sv') = ws_start (wi_ID msg) rid (ws_field (en_L E) query) c sv in (c', sv', None))
      in case getPrincipal (en_L E) (dr_auth D) r sv of
           (sv, Inl p) \<Rightarrow> (c, sv, Some p)
         | (sv, Inr pr) \<Rightarrow>
             if dispatcher pr then go sv
             else
               (case st_GetRoute (en_M E) (withTenant r) rid (sv_store sv) of
                  (s, Ret rt) \<Rightarrow>
                    if assigned_driver pr rt then go (sv\<lparr>sv_store := s\<rparr>)
                    else (ws_forbidden (wi_ID msg) c, sv\<lparr>sv_store := s\<rparr>, None)
                | (s, Err _) \<Rightarrow> (ws_forbidden (wi_ID msg) c, sv\<lparr>sv_store := s\<rparr>, None)
                | (s, Panic p) \<Rightarrow> (c, sv\<lparr>sv_store := s\<rparr>, Some p)))"

definition ws_complete :: "string \<Rightarrow> ws_conn \<Rightarrow> 's server \<Rightarrow> ws_conn \<times> 's server \<times> go_panic option" where
  "ws_complete k c sv =
     (case wc_subs c k of
        None \<Rightarrow> (c, sv, None)
      | Some (rid, ch) \<Rightarrow>
          (case Unsubscribe rid ch (sv_broker sv) of
             (b, None) \<Rightarrow> (c\<lparr>wc_subs := (wc_subs c)(k := None)\<rparr>, sv\<lparr>sv_broker := b\<rparr>, None)
           | (b, Some p) \<Rightarrow> (c, sv\<lparr>sv_broker := b\<rparr>, Some p)))"

definition ws_message :: "'s env \<Rightarrow> draws \<Rightarrow> ws_in \<Rightarrow> ws_conn \<Rightarrow> 's server \<Rightarrow> ws_conn \<times> 's server \<times> go_panic option" where
  "ws_message E D msg c sv =
     (if wi_Type msg = ''connection_init'' then
        (ws_write [plain_frame ''connection_ack'' '''' ''''] c\<lparr>wc_pingers := wc_pingers c + 1\<rparr>, sv, None)
      else if wi_Type msg = ''ping'' then (ws_write [plain_frame ''pong'' '''' ''''] c, sv, None)
      else if wi_Type msg = ''subscribe'' then ws_subscribe E D msg c sv
      else if wi_Type msg = ''complete'' then ws_complete (wi_ID msg) c sv
      else (c, sv, None))"

text \<open>The code after the read loop; \<open>ids\<close> is the order in which Go ranges over the map.\<close>

fun ws_cleanup :: "string list \<Rightarrow> ws_conn \<Rightarrow> 's server \<Rightarrow> ws_conn \<times> 's server \<times> go_panic option" where
  "ws_cleanup [] c sv = (c, sv, None)"
| "ws_cleanup (k # ids) c sv =
     (case ws_complete k c sv of
        (c, sv, None) \<Rightarrow> ws_cleanup ids c sv
      | (c, sv, Some p) \<Rightarrow> (c, sv, Some p))"

section \<open>Forwarding\<close>

definition wanted :: "string \<Rightarrow> sse_event \<Rightarrow> bool" where
  "wanted field evt \<longleftrightarrow>
     \<not> (field = ''policyAlerts'' \<and> ev_Type evt \<noteq> ''policy.alert'') \<and>
     \<not> (field = ''podCaptured'' \<and> ev_Type evt \<noteq> ''pod.captured'') \<and>
     \<not> (field = ''breakEvents'' \<and> \<not> has_prefix ''hos.break.'' (ev_Type evt))"

definition next_frame :: "golib \<Rightarrow> ws_fan \<Rightarrow> sse_event \<Rightarrow> ws_frame" where
  "next_frame L f evt =
     plain_frame ''next'' (fn_id f) (lib_marshal L [''data'' \<mapsto> AObj [fn_field f \<mapsto> AObj (ev_Data evt)]])"

text \<open>
  One turn of the goroutine \<open>i\<close>: an event is forwarded or filtered out; when the channel is closed the
  goroutine writes \<^verbatim>\<open>complete\<close> and ends; with nothing to read it waits (\<open>None\<close>).
\<close>

definition ws_forward :: "golib \<Rightarrow> nat \<Rightarrow> ws_conn \<Rightarrow> broker \<Rightarrow> (ws_conn \<times> broker) option" where
  "ws_forward L i c b =
     (let f = wc_fans c ! i in
      case receive (fn_chan f) b of
        (b', Got evt) \<Rightarrow> Some (if wanted (fn_field f) evt then ws_write [next_frame L f evt] c else c, b')
      | (b', Closed) \<Rightarrow> Some (ws_write [plain_frame ''complete'' (fn_id f) '''']
            (c\<lparr>wc_fans := take i (wc_fans c) @ drop (i + 1) (wc_fans c)\<rparr>), b')
      | (b', Waits) \<Rightarrow> None)"

definition ws_ping :: "ws_conn \<Rightarrow> ws_conn" where
  "ws_ping c = ws_write [plain_frame ''ping'' '''' ''''] c"

end
