(* ===== verification/Api_Admin.thy ===== *)
theory Api_Admin
  imports Api_Handlers
begin

text \<open>
  The handlers of the administrator in \<^verbatim>\<open>internal/api/handlers.go\<close>: the optimizer configuration of a
  tenant, webhook deliveries and their metrics, route statistics, plan metrics and the dead-letter
  queue.
\<close>

definition forbidden_admin :: "request \<Rightarrow> reply" where
  "forbidden_admin r = writeProblem 403 ''Forbidden'' ''admin required'' (hr_Path r)"

section \<open>Configuration\<close>

definition AdminOptimizerConfigHandler :: "'s handler" where
  "AdminOptimizerConfigHandler E D r sv =
     (if hr_Path r \<noteq> ''/v1/admin/optimizer/config'' then (sv, writeProblem 404 ''Not Found'' '''' (hr_Path r))
      else with_principal E D r sv (\<lambda>sv p.
        if \<not> IsAdmin p then (sv, forbidden_admin r)
        else if hr_Method r = ''GET'' then
          on_store (st_GetOptimizerConfig (en_M E) (pn_Tenant p)) sv (\<lambda>sv res.
            let cfg = (case res of Inr (Some cfg) \<Rightarrow> cfg | _ \<Rightarrow> Map.empty)
            in (sv, writeJSON 200 (JMap [''config'' \<mapsto> JObj cfg])))
        else if hr_Method r = ''PUT'' then
          with_body (jd_config (en_J E)) r sv (\<lambda>config.
            case config of
              None \<Rightarrow> (sv, writeProblem 400 ''Missing config'' '''' (hr_Path r))
            | Some cfg \<Rightarrow>
                on_result (st_SaveOptimizerConfig (en_M E) (pn_Tenant p) cfg) r 500 ''Save failed'' sv
                  (\<lambda>sv _. (sv, writeJSON 200 (JMap [''ok'' \<mapsto> JBool True]))))
        else (sv, writeHeader 405)))"

section \<open>Webhook deliveries\<close>

definition WebhookDeliveriesHandler :: "'s handler" where
  "WebhookDeliveriesHandler E D r sv =
     (if hr_Path r \<noteq> ''/v1/admin/webhook-deliveries'' then (sv, writeProblem 404 ''Not Found'' '''' (hr_Path r))
      else with_principal E D r sv (\<lambda>sv p.
        if \<not> IsAdmin p then (sv, forbidden_admin r)
        else if hr_Method r \<noteq> ''GET'' then (sv, writeHeader 405)
        else on_result (st_ListWebhookDeliveries (en_M E) (pn_Tenant p) (hr_Query r ''status'') (hr_Query r ''cursor'')
            (query_int r ''limit'' 100))
          r 500 ''List deliveries failed'' sv (\<lambda>sv (items, next). (sv, page_reply (JObjs items) next))))"

definition WebhookDeliveryRetryHandler :: "'s handler" where
  "WebhookDeliveryRetryHandler E D r sv =
     (if \<not> has_prefix ''/v1/admin/webhook-deliveries/'' (hr_Path r) \<or> \<not> has_suffix ''/retry'' (hr_Path r)
      then (sv, writeProblem 404 ''Not Found'' '''' (hr_Path r))
      else if hr_Method r \<noteq> ''POST'' then (sv, writeHeader 405)
      else with_principal E D r sv (\<lambda>sv p.
        if \<not> IsAdmin p then (sv, forbidden_admin r)
        else
          let k = trim_suffix ''/retry'' (trim_prefix ''/v1/admin/webhook-deliveries/'' (hr_Path r)) in
          on_result (st_RetryWebhookDelivery (en_M E) (pn_Tenant p) k) r 500 ''Retry delivery failed'' sv
            (\<lambda>sv _. (sv, writeJSON 202 (JMap [''accepted'' \<mapsto> JInt 1])))))"

text \<open>The range of response codes: two numbers, or the shorthand for a class of codes.\<close>

definition code_range :: "request \<Rightarrow> int \<times> int" where
  "code_range r =
     (let codeMin = query_int r ''responseCodeMin'' 0;
          codeMax = query_int r ''responseCodeMax'' 0;
          v = hr_Query r ''codeClass''
      in if v \<noteq> '''' \<and> codeMin = 0 \<and> codeMax = 0 then
           (if v = ''2xx'' then (200, 299) else if v = ''3xx'' then (300, 399)
            else if v = ''4xx'' then (400, 499) else if v = ''5xx'' then (500, 599) else (codeMin, codeMax))
         else (codeMin, codeMax))"

text \<open>The configured buckets: of a list of JSON values, the numbers, truncated.\<close>

definition config_buckets :: "obj option \<Rightarrow> int list" where
  "config_buckets cfg =
     (case cfg of
        None \<Rightarrow> []
      | Some c \<Rightarrow>
          (case c ''latencyBuckets'' of
             Some (AList lst) \<Rightarrow> List.map_filter (\<lambda>x. case x of AFloat f \<Rightarrow> Some (f_to_int f) | _ \<Rightarrow> None) lst
           | _ \<Rightarrow> []))"

text \<open>\<^verbatim>\<open>time.Duration(h) * time.Hour\<close> wraps around like every 64-bit product.\<close>

definition hours_before :: "time \<Rightarrow> int \<Rightarrow> time" where
  "hours_before now h = now + wrap64 (- h * hour)"

definition WebhookMetricsHandler :: "'s handler" where
  "WebhookMetricsHandler E D r sv =
     (if hr_Path r \<noteq> ''/v1/admin/webhook-metrics'' \<or> hr_Method r \<noteq> ''GET'' then (sv, writeProblem 404 ''Not Found'' '''' (hr_Path r))
      else with_principal E D r sv (\<lambda>sv p.
        if \<not> IsAdmin p then (sv, forbidden_admin r)
        else
          let sinceHours = query_int r ''sinceHours'' 24; (codeMin, codeMax) = code_range r in
          on_store (st_GetOptimizerConfig (en_M E) (pn_Tenant p)) sv (\<lambda>sv res.
            let buckets = config_buckets (case res of Inr cfg \<Rightarrow> cfg | Inl _ \<Rightarrow> None);
                since = hours_before (dr_now D 0) sinceHours
            in on_result (st_WebhookMetrics (en_M E)
                 \<lparr>mq_tenant = pn_Tenant p, mq_since = since, mq_eventType = hr_Query r ''eventType'',
                  mq_status = hr_Query r ''status'', mq_codeMin = codeMin, mq_codeMax = codeMax\<rparr> buckets)
               r 500 ''Metrics failed'' sv (\<lambda>sv items. (sv, writeJSON 200 (JMap [''items'' \<mapsto> JObjs items]))))))"

section \<open>Statistics and plan metrics\<close>

definition RouteStatsHandler :: "'s handler" where
  "RouteStatsHandler E D r sv =
     (if hr_Path r \<noteq> ''/v1/admin/routes/stats'' \<or> hr_Method r \<noteq> ''GET'' then (sv, writeProblem 404 ''Not Found'' '''' (hr_Path r))
      else with_principal E D r sv (\<lambda>sv p.
        if \<not> IsAdmin p then (sv, forbidden_admin r)
        else
          let planDate = hr_Query r ''planDate'' in
          if planDate = '''' then (sv, writeProblem 400 ''Missing planDate'' '''' (hr_Path r))
          else on_result (st_RouteStats (en_M E) (pn_Tenant p) planDate) r 500 ''Stats failed'' sv
            (\<lambda>sv stats. (sv, writeJSON 200 (JObj stats)))))"

text \<open>
  What the registry of the optimizer has on a plan, as rows; used when the store has none. \<open>algos\<close> is the
  order in which Go ranges over the map. The selects of an algorithm are an array of two.
\<close>

definition metrics_item :: "string \<Rightarrow> Metrics \<Rightarrow> obj" where
  "metrics_item a m = [''algo'' \<mapsto> AStr a, ''iterations'' \<mapsto> AInt (mx_Iterations m), ''improvements'' \<mapsto> AInt (mx_Improvements m),
     ''acceptedWorse'' \<mapsto> AInt (mx_AcceptedWorse m), ''bestCost'' \<mapsto> AFloat (mx_BestCost m), ''finalCost'' \<mapsto> AFloat (mx_FinalCost m),
     ''removalSelects'' \<mapsto> AInts [mx_RemovalSelects m ! 0, mx_RemovalSelects m ! 1],
     ''insertSelects'' \<mapsto> AInts [mx_InsertSelects m ! 0, mx_InsertSelects m ! 1]]"

definition registry_items :: "string list \<Rightarrow> (string \<rightharpoonup> Metrics) \<Rightarrow> string \<Rightarrow> obj list" where
  "registry_items algos ms algo =
     List.map_filter (\<lambda>a. case ms a of
        None \<Rightarrow> None
      | Some m \<Rightarrow> if algo \<noteq> '''' \<and> a \<noteq> algo then None else Some (metrics_item a m)) algos"

text \<open>Weight snapshots are attached to the rows that name an algorithm and have some.\<close>

fun attach_weights :: "'s env \<Rightarrow> string \<Rightarrow> string \<Rightarrow> obj list \<Rightarrow> obj list \<Rightarrow> 's server
    \<Rightarrow> ('s server \<Rightarrow> obj list \<Rightarrow> 's server \<times> reply) \<Rightarrow> 's server \<times> reply" where
  "attach_weights E tenant planDate [] items sv k = k sv items"
| "attach_weights E tenant planDate (it # rest) items sv k =
     (let a = text_at it ''algo'' in
      if a = '''' then attach_weights E tenant planDate rest (items @ [it]) sv k
      else on_store (st_ListPlanMetricsWeights (en_M E) tenant planDate a) sv (\<lambda>sv res.
        let it' = (case res of Inr (w # ws) \<Rightarrow> it(''weights'' \<mapsto> AList (map AObj (w # ws))) | _ \<Rightarrow> it)
        in attach_weights E tenant planDate rest (items @ [it']) sv k))"

definition PlanMetricsHandler :: "'s handler" where
  "PlanMetricsHandler E D r sv =
     (if hr_Path r \<noteq> ''/v1/admin/plan-metrics'' \<or> hr_Method r \<noteq> ''GET'' then (sv, writeProblem 404 ''Not Found'' '''' (hr_Path r))
      else with_principal E D r sv (\<lambda>sv p.
        if \<not> IsAdmin p then (sv, forbidden_admin r)
        else
          let planDate = hr_Query r ''planDate'' in
          if planDate = '''' then (sv, writeProblem 400 ''Missing planDate'' '''' (hr_Path r))
          else
            let algo = hr_Query r ''algo'';
                v = hr_Query r ''includeWeights'';
                includeWeights = (lib_equal_fold (en_L E) v ''true'' \<or> v = ''1'')
            in on_store (st_ListPlanMetrics (en_M E) (pn_Tenant p) planDate algo) sv (\<lambda>sv res.
              let items = (case res of
                    Inr (it # rest) \<Rightarrow> it # rest
                  | _ \<Rightarrow> registry_items (dr_keys D) (GetMetrics (dr_registry D) (pn_Tenant p) planDate (en_registry E (sv_store sv))) algo)
              in if includeWeights
                 then attach_weights E (pn_Tenant p) planDate items [] sv
                   (\<lambda>sv items. (sv, writeJSON 200 (JMap [''items'' \<mapsto> JObjs items])))
                 else (sv, writeJSON 200 (JMap [''items'' \<mapsto> JObjs items])))))"

definition PlanMetricsWeightsHandler :: "'s handler" where
  "PlanMetricsWeightsHandler E D r sv =
     (if hr_Path r \<noteq> ''/v1/admin/plan-metrics/weights'' \<or> hr_Method r \<noteq> ''GET'' then (sv, writeProblem 404 ''Not Found'' '''' (hr_Path r))
      else with_principal E D r sv (\<lambda>sv p.
        if \<not> IsAdmin p then (sv, forbidden_admin r)
        else
          let planDate = hr_Query r ''planDate''; algo = hr_Query r ''algo'' in
          if planDate = '''' \<or> algo = '''' then (sv, writeProblem 400 ''Missing parameters'' ''planDate and algo required'' (hr_Path r))
          else on_result (st_ListPlanMetricsWeights (en_M E) (pn_Tenant p) planDate algo) r 500 ''Metrics weights failed'' sv
            (\<lambda>sv items. (sv, writeJSON 200 (JMap [''items'' \<mapsto> JObjs items])))))"

section \<open>The dead-letter queue\<close>

definition dlq_list :: "'s env \<Rightarrow> draws \<Rightarrow> request \<Rightarrow> principal \<Rightarrow> 's server \<Rightarrow> 's server \<times> reply" where
  "dlq_list E D r p sv =
     (let limit = query_int r ''limit'' 100;
          olderThanHours = query_int r ''olderThanHours'' 0;
          older = (if 0 < olderThanHours then hours_before (dr_now D 0) olderThanHours else 0)
      in on_result (st_ListWebhookDLQ (en_M E) (pn_Tenant p)
           \<lparr>dq_eventType = hr_Query r ''eventType'', dq_olderThan = older, dq_codeMin = query_int r ''responseCodeMin'' 0,
            dq_codeMax = query_int r ''responseCodeMax'' 0, dq_errorQuery = hr_Query r ''errorQuery''\<rparr> (hr_Query r ''cursor'') limit)
         r 500 ''List DLQ failed'' sv (\<lambda>sv (items, next). (sv, page_reply (JObjs items) next)))"

definition dlq_requeue :: "'s env \<Rightarrow> request \<Rightarrow> principal \<Rightarrow> 's server \<Rightarrow> 's server \<times> reply" where
  "dlq_requeue E r p sv =
     with_body (jd_ids (en_J E)) r sv (\<lambda>ids.
       if length ids = 0 then (sv, writeProblem 400 ''Missing ids'' '''' (hr_Path r))
       else on_result (st_RequeueWebhookDLQBulk (en_M E) (pn_Tenant p) ids) r 500 ''Bulk requeue failed'' sv
         (\<lambda>sv _. (sv, writeJSON 202 (JMap [''accepted'' \<mapsto> JInt (int (length ids))]))))"

definition dlq_delete :: "'s env \<Rightarrow> draws \<Rightarrow> request \<Rightarrow> principal \<Rightarrow> 's server \<Rightarrow> 's server \<times> reply" where
  "dlq_delete E D r p sv =
     with_body (jd_ids_hours (en_J E)) r sv (\<lambda>(ids, olderThanHours).
       let older = (if 0 < olderThanHours then hours_before (dr_now D 0) olderThanHours else 0) in
       on_result (st_DeleteWebhookDLQBulk (en_M E) (pn_Tenant p) ids older) r 500 ''Bulk delete failed'' sv
         (\<lambda>sv _. (sv, writeJSON 202 (JMap [''accepted'' \<mapsto> JInt 1]))))"

definition WebhookDLQHandler :: "'s handler" where
  "WebhookDLQHandler E D r sv =
     with_principal E D r sv (\<lambda>sv p.
       if \<not> IsAdmin p then (sv, forbidden_admin r)
       else if hr_Path r = ''/v1/admin/webhook-dlq'' \<and> hr_Method r = ''GET'' then dlq_list E D r p sv
       else if hr_Path r = ''/v1/admin/webhook-dlq'' \<and> hr_Method r = ''POST'' then dlq_requeue E r p sv
       else if hr_Path r = ''/v1/admin/webhook-dlq'' \<and> hr_Method r = ''DELETE'' then dlq_delete E D r p sv
       else if has_prefix ''/v1/admin/webhook-dlq/'' (hr_Path r) \<and> has_suffix ''/requeue'' (hr_Path r) \<and> hr_Method r = ''POST'' then
         (let k = trim_suffix ''/requeue'' (trim_prefix ''/v1/admin/webhook-dlq/'' (hr_Path r)) in
          on_result (st_RequeueWebhookDLQ (en_M E) (pn_Tenant p) k) r 500 ''Requeue failed'' sv
            (\<lambda>sv _. (sv, writeJSON 202 (JMap [''accepted'' \<mapsto> JInt 1]))))
       else (sv, writeProblem 404 ''Not Found'' '''' (hr_Path r)))"

end
