(* ===== verification/Http_Metrics.thy ===== *)
theory Http_Metrics
  imports Opt_Eval Webhooks
begin

text \<open>
  The Prometheus collectors of \<^verbatim>\<open>internal/metrics/metrics.go\<close> and the two places that write to them: the
  logging middleware (requests) and the webhook worker (deliveries).

  \<^verbatim>\<open>client_golang\<close> is the parameter \<open>prom_lib\<close>, over a type \<open>'v\<close> of vectors: \<^verbatim>\<open>WithLabelValues\<close> panics on
  labels it refuses (\<open>None\<close>), \<^verbatim>\<open>MustRegister\<close> on a collector that does not fit those registered. What its
  documentation promises of a counter is the hypothesis \<open>counter_laws\<close>.
\<close>

section \<open>The collectors\<close>

text \<open>The variables of the package, and the two collectors of the library. The registry holds pointers to them.\<close>

datatype collector = HTTPRequests | HTTPDuration | WebhookDeliveries | WebhookLatency | GoCollector | ProcessCollector

record 'v prom_lib =
  pl_NewCounterVec :: "string \<Rightarrow> string \<Rightarrow> string list \<Rightarrow> 'v"
  pl_NewHistogramVec :: "string \<Rightarrow> string \<Rightarrow> f64 list \<Rightarrow> string list \<Rightarrow> 'v"
  pl_DefBuckets :: "f64 list"
  pl_Inc :: "string list \<Rightarrow> 'v \<Rightarrow> 'v option"
  pl_Observe :: "string list \<Rightarrow> f64 \<Rightarrow> 'v \<Rightarrow> 'v option"
  pl_registrable :: "collector list \<Rightarrow> collector \<Rightarrow> bool"

record 'v metrics =
  mt_HTTPRequests :: 'v
  mt_HTTPDuration :: 'v
  mt_WebhookDeliveries :: 'v
  mt_WebhookLatency :: 'v
  mt_Registry :: "collector list"
  mt_regOnce :: bool

definition new_metrics :: "'v prom_lib \<Rightarrow> 'v metrics" where
  "new_metrics P =
     \<lparr>mt_HTTPRequests = pl_NewCounterVec P ''http_requests_total'' ''Total HTTP requests.'' [''method'', ''path'', ''status''],
      mt_HTTPDuration = pl_NewHistogramVec P ''http_request_duration_seconds'' ''HTTP request duration in seconds.'' (pl_DefBuckets P)
        [''method'', ''path'', ''status''],
      mt_WebhookDeliveries = pl_NewCounterVec P ''webhook_deliveries_total'' ''Webhook deliveries by event type and status.''
        [''event_type'', ''status''],
      mt_WebhookLatency = pl_NewHistogramVec P ''webhook_delivery_latency_ms'' ''Webhook delivery latency in ms.''
        [lit 10, lit 50, lit 100, lit 200, lit 500, lit 1000, lit 2000, lit 5000] [''event_type'', ''status''],
      mt_Registry = [], mt_regOnce = False\<rparr>"

definition MustRegister :: "'v prom_lib \<Rightarrow> collector \<Rightarrow> 'v metrics \<Rightarrow> go_panic + 'v metrics" where
  "MustRegister P c m = (if pl_registrable P (mt_Registry m) c then Inr (m\<lparr>mt_Registry := mt_Registry m @ [c]\<rparr>) else Inl Rejected)"

fun register_all :: "'v prom_lib \<Rightarrow> collector list \<Rightarrow> 'v metrics \<Rightarrow> go_panic + 'v metrics" where
  "register_all P [] m = Inr m"
| "register_all P (c # cs) m = (case MustRegister P c m of Inl p \<Rightarrow> Inl p | Inr m' \<Rightarrow> register_all P cs m')"

definition RegisterDefault :: "'v prom_lib \<Rightarrow> 'v metrics \<Rightarrow> go_panic + 'v metrics" where
  "RegisterDefault P m =
     (if mt_regOnce m then Inr m
      else register_all P [HTTPRequests, HTTPDuration, WebhookDeliveries, WebhookLatency, GoCollector, ProcessCollector]
             (m\<lparr>mt_regOnce := True\<rparr>))"

lemma register_all_effect:
  "register_all P cs m = Inr m' \<Longrightarrow> m' = m\<lparr>mt_Registry := mt_Registry m @ cs\<rparr>"
proof (induction cs arbitrary: m)
  case (Cons c cs)
  then show ?case using Cons.IH [of "m\<lparr>mt_Registry := mt_Registry m @ [c]\<rparr>"] by (auto simp: MustRegister_def split: if_splits)
qed simp

text \<open>Registering is done once: a second call changes nothing, and neither touches a collector.\<close>

lemma RegisterDefault_once:
  assumes "RegisterDefault P m = Inr m'"
  shows "RegisterDefault P m' = Inr m'" and "mt_HTTPRequests m' = mt_HTTPRequests m" and "mt_HTTPDuration m' = mt_HTTPDuration m"
  using assms by (auto simp: RegisterDefault_def simp del: register_all.simps dest: register_all_effect split: if_splits)

section \<open>What is recorded\<close>

text \<open>
  A request, by the logging middleware: the counter first, then the histogram. The second component is the panic, if
  there is one; what was counted before it stays counted.
\<close>

definition record_request :: "'v prom_lib \<Rightarrow> string list \<Rightarrow> duration \<Rightarrow> 'v metrics \<Rightarrow> 'v metrics \<times> go_panic option" where
  "record_request P labels dur m =
     (case pl_Inc P labels (mt_HTTPRequests m) of
        None \<Rightarrow> (m, Some Rejected)
      | Some v \<Rightarrow>
          let m1 = m\<lparr>mt_HTTPRequests := v\<rparr> in
          case pl_Observe P labels (seconds dur) (mt_HTTPDuration m1) of
            None \<Rightarrow> (m1, Some Rejected)
          | Some h \<Rightarrow> (m1\<lparr>mt_HTTPDuration := h\<rparr>, None))"

text \<open>
  The deliveries of one tick of the worker: \<open>processOnce\<close> of \<open>Webhooks\<close> lists them in their order, and nothing
  reads the collectors in between. With valid labels no call panics (\<open>record_deliveries_count\<close>), so recording them does not
  end the tick.
\<close>

definition record_delivery :: "'v prom_lib \<Rightarrow> delivery_metric \<Rightarrow> 'v metrics \<Rightarrow> 'v metrics \<times> go_panic option" where
  "record_delivery P d m =
     (case d of (eventType, status, latency) \<Rightarrow>
        case pl_Inc P [eventType, status] (mt_WebhookDeliveries m) of
          None \<Rightarrow> (m, Some Rejected)
        | Some v \<Rightarrow>
            let m1 = m\<lparr>mt_WebhookDeliveries := v\<rparr> in
            case pl_Observe P [eventType, status] (f_of_int latency) (mt_WebhookLatency m1) of
              None \<Rightarrow> (m1, Some Rejected)
            | Some h \<Rightarrow> (m1\<lparr>mt_WebhookLatency := h\<rparr>, None))"

fun record_deliveries :: "'v prom_lib \<Rightarrow> delivery_metric list \<Rightarrow> 'v metrics \<Rightarrow> 'v metrics \<times> go_panic option" where
  "record_deliveries P [] m = (m, None)"
| "record_deliveries P (d # ds) m =
     (case record_delivery P d m of (m', Some p) \<Rightarrow> (m', Some p) | (m', None) \<Rightarrow> record_deliveries P ds m')"

section \<open>What the library promises\<close>

text \<open>
  A vector has as many labels as it was made with and counts each combination of label values from 0. A combination is
  accepted when it has that many values and each of them is valid (\<open>ok\<close>: valid UTF-8).
\<close>

definition counter_laws :: "'v prom_lib \<Rightarrow> ('v \<Rightarrow> string list \<Rightarrow> nat) \<Rightarrow> ('v \<Rightarrow> nat) \<Rightarrow> (string \<Rightarrow> bool) \<Rightarrow> bool" where
  "counter_laws P tally arity ok \<longleftrightarrow>
     (\<forall>n h ls. tally (pl_NewCounterVec P n h ls) = (\<lambda>_. 0) \<and> arity (pl_NewCounterVec P n h ls) = length ls) \<and>
     (\<forall>n h bs ls. arity (pl_NewHistogramVec P n h bs ls) = length ls) \<and>
     (\<forall>ls v. if arity v = length ls \<and> list_all ok ls
        then \<exists>v'. pl_Inc P ls v = Some v' \<and> arity v' = arity v \<and> tally v' = (tally v)(ls := Suc (tally v ls))
        else pl_Inc P ls v = None) \<and>
     (\<forall>ls x v. if arity v = length ls \<and> list_all ok ls
        then \<exists>v'. pl_Observe P ls x v = Some v' \<and> arity v' = arity v else pl_Observe P ls x v = None)"

lemma counter_laws_new:
  assumes "counter_laws P tally arity ok"
  shows "tally (pl_NewCounterVec P n h ls) = (\<lambda>_. 0)" and "arity (pl_NewCounterVec P n h ls) = length ls"
    and "arity (pl_NewHistogramVec P n h bs ls) = length ls"
  using assms unfolding counter_laws_def by blast+

lemma counter_laws_inc:
  assumes "counter_laws P tally arity ok" and "arity v = length ls" and "list_all ok ls"
  obtains v' where "pl_Inc P ls v = Some v'" and "arity v' = length ls" and "tally v' = (tally v)(ls := Suc (tally v ls))"
  using assms unfolding counter_laws_def by metis

lemma counter_laws_observe:
  assumes "counter_laws P tally arity ok" and "arity v = length ls" and "list_all ok ls"
  obtains v' where "pl_Observe P ls x v = Some v'" and "arity v' = length ls"
  using assms unfolding counter_laws_def by metis

lemma counter_laws_refused:
  assumes "counter_laws P tally arity ok" and "\<not> list_all ok ls"
  shows "pl_Inc P ls v = None"
  using assms unfolding counter_laws_def by metis

lemma record_request_effect:
  assumes "counter_laws P tally arity ok" and "length ls = 3"
    and "arity (mt_HTTPRequests m) = 3" and "arity (mt_HTTPDuration m) = 3"
  shows "list_all ok ls \<Longrightarrow> \<exists>m'. record_request P ls dur m = (m', None) \<and> arity (mt_HTTPRequests m') = 3 \<and> arity (mt_HTTPDuration m') = 3 \<and>
      tally (mt_HTTPRequests m') = (tally (mt_HTTPRequests m))(ls := Suc (tally (mt_HTTPRequests m) ls))"
    and "\<not> list_all ok ls \<Longrightarrow> record_request P ls dur m = (m, Some Rejected)"
proof -
  assume ok: "list_all ok ls"
  obtain v where v: "pl_Inc P ls (mt_HTTPRequests m) = Some v" "arity v = length ls"
    "tally v = (tally (mt_HTTPRequests m))(ls := Suc (tally (mt_HTTPRequests m) ls))"
    using counter_laws_inc [OF assms(1) _ ok] assms(2,3) by metis
  obtain h where "pl_Observe P ls (seconds dur) (mt_HTTPDuration m) = Some h" "arity h = length ls"
    using counter_laws_observe [OF assms(1) _ ok] assms(2,4) by metis
  with v assms(2) show "\<exists>m'. record_request P ls dur m = (m', None) \<and> arity (mt_HTTPRequests m') = 3 \<and> arity (mt_HTTPDuration m') = 3 \<and>
      tally (mt_HTTPRequests m') = (tally (mt_HTTPRequests m))(ls := Suc (tally (mt_HTTPRequests m) ls))"
    by (simp add: record_request_def)
next
  assume "\<not> list_all ok ls"
  from counter_laws_refused [OF assms(1) this] show "record_request P ls dur m = (m, Some Rejected)"
    by (simp add: record_request_def)
qed

lemma record_delivery_effect:
  assumes "counter_laws P tally arity ok" and "arity (mt_WebhookDeliveries m) = 2" and "arity (mt_WebhookLatency m) = 2"
    and "ok (fst d)" and "ok (fst (snd d))"
  shows "\<exists>m'. record_delivery P d m = (m', None) \<and> arity (mt_WebhookDeliveries m') = 2 \<and> arity (mt_WebhookLatency m') = 2 \<and>
      tally (mt_WebhookDeliveries m') =
        (tally (mt_WebhookDeliveries m))([fst d, fst (snd d)] := Suc (tally (mt_WebhookDeliveries m) [fst d, fst (snd d)]))"
proof -
  obtain ev st lat where d: "d = (ev, st, lat)" by (cases d)
  have ok: "list_all ok [ev, st]" using assms(4,5) by (simp add: d)
  obtain v where v: "pl_Inc P [ev, st] (mt_WebhookDeliveries m) = Some v" "arity v = length [ev, st]"
    "tally v = (tally (mt_WebhookDeliveries m))([ev, st] := Suc (tally (mt_WebhookDeliveries m) [ev, st]))"
    using counter_laws_inc [OF assms(1) _ ok] assms(2) by (metis One_nat_def Suc_1 length_Cons list.size(3))
  obtain h where "pl_Observe P [ev, st] (f_of_int lat) (mt_WebhookLatency m) = Some h" "arity h = length [ev, st]"
    using counter_laws_observe [OF assms(1) _ ok] assms(3) by (metis One_nat_def Suc_1 length_Cons list.size(3))
  with v show ?thesis by (simp add: record_delivery_def d)
qed

text \<open>The deliveries recorded are counted, each under its event type and status.\<close>

lemma record_deliveries_count:
  assumes "counter_laws P tally arity ok" and "arity (mt_WebhookDeliveries m) = 2" and "arity (mt_WebhookLatency m) = 2"
    and "\<forall>d\<in>set ds. ok (fst d) \<and> ok (fst (snd d))"
  shows "\<exists>m'. record_deliveries P ds m = (m', None) \<and>
    (\<forall>ev st. tally (mt_WebhookDeliveries m') [ev, st] =
       tally (mt_WebhookDeliveries m) [ev, st] + count_list (map (\<lambda>d. (fst d, fst (snd d))) ds) (ev, st))"
  using assms(2-)
proof (induction ds arbitrary: m)
  case Nil
  then show ?case by simp
next
  case (Cons d ds)
  then obtain m1 where one: "record_delivery P d m = (m1, None)" "arity (mt_WebhookDeliveries m1) = 2" "arity (mt_WebhookLatency m1) = 2"
    "tally (mt_WebhookDeliveries m1) =
        (tally (mt_WebhookDeliveries m))([fst d, fst (snd d)] := Suc (tally (mt_WebhookDeliveries m) [fst d, fst (snd d)]))"
    using record_delivery_effect [OF assms(1), of m d] by auto
  from Cons.IH [OF one(2,3)] Cons.prems(3) one show ?case by fastforce
qed

end
