(* ===== verification/Redis_Broker.thy ===== *)
theory Redis_Broker
  imports Broker
begin

text \<open>
  The broker over Redis, \<^verbatim>\<open>internal/api/broker_redis.go\<close>. The Redis server and its client are parameters:
  what arrives on a subscription of it is an argument of the step of the goroutine that reads it, and a
  publication is the message that is handed to the client.

  The state is the heap of Go channels and, for each goroutine started by \<^verbatim>\<open>Subscribe\<close>, the Redis channel
  it reads and the Go channel it feeds. \<^verbatim>\<open>Unsubscribe\<close> closes the Go channel and leaves the goroutine running.
\<close>

record redis_fan =
  rf_name :: string
  rf_chan :: nat

record redis_broker =
  rb_chans :: "channel list"
  rb_fans :: "redis_fan list"

text \<open>\<^verbatim>\<open>redis.ParseURL\<close> is a parameter; the client it configures is not opened before it is used.\<close>

definition NewRedisBroker :: "(string \<Rightarrow> 'o result) \<Rightarrow> (string \<Rightarrow> string) \<Rightarrow> redis_broker result" where
  "NewRedisBroker ParseURL env =
     (case ParseURL (env ''REDIS_URL'') of Inl e \<Rightarrow> Inl e | Inr opt \<Rightarrow> Inr \<lparr>rb_chans = [], rb_fans = []\<rparr>)"

definition chanName :: "string \<Rightarrow> string" where
  "chanName routeID = ''route:'' @ routeID"

text \<open>The capacity in \<^verbatim>\<open>make(chan SSEEvent, 16)\<close>.\<close>

definition redis_capacity :: nat where
  "redis_capacity = 16"

definition redis_Subscribe :: "string \<Rightarrow> redis_broker \<Rightarrow> redis_broker \<times> nat" where
  "redis_Subscribe routeID b =
     (let ch = length (rb_chans b)
      in (\<lparr>rb_chans = rb_chans b @ [\<lparr>ch_buffer = [], ch_closed = False\<rparr>],
           rb_fans = rb_fans b @ [\<lparr>rf_name = chanName routeID, rf_chan = ch\<rparr>]\<rparr>, ch))"

definition redis_close :: "nat \<Rightarrow> redis_broker \<Rightarrow> redis_broker \<times> go_panic option" where
  "redis_close ch b =
     (if ch_closed (rb_chans b ! ch) then (b, Some CloseClosed)
      else (b\<lparr>rb_chans := (rb_chans b)[ch := (rb_chans b ! ch)\<lparr>ch_closed := True\<rparr>]\<rparr>, None))"

definition redis_Unsubscribe :: "string \<Rightarrow> nat \<Rightarrow> redis_broker \<Rightarrow> redis_broker \<times> go_panic option" where
  "redis_Unsubscribe routeID ch b = redis_close ch b"

text \<open>The message for Redis: its channel and its text.\<close>

definition redis_Publish :: "(sse_event \<Rightarrow> string) \<Rightarrow> string \<Rightarrow> sse_event \<Rightarrow> string \<times> string" where
  "redis_Publish marshal routeID evt = (chanName routeID, marshal evt)"

text \<open>One turn of the goroutine: a message that is no event is skipped, a full channel drops the event.\<close>

definition fan_message :: "(string \<Rightarrow> sse_event option) \<Rightarrow> redis_fan \<Rightarrow> string \<Rightarrow> redis_broker \<Rightarrow> redis_broker \<times> go_panic option" where
  "fan_message unmarshal f payload b =
     (case unmarshal payload of
        None \<Rightarrow> (b, None)
      | Some evt \<Rightarrow>
          let c = rb_chans b ! rf_chan f in
          if ch_closed c then (b, Some SendClosed)
          else if length (ch_buffer c) < redis_capacity
          then (b\<lparr>rb_chans := (rb_chans b)[rf_chan f := c\<lparr>ch_buffer := ch_buffer c @ [evt]\<rparr>]\<rparr>, None)
          else (b, None))"

text \<open>The subscription of the client ends: the deferred \<^verbatim>\<open>close\<close> runs and the goroutine is gone.\<close>

definition fan_end :: "nat \<Rightarrow> redis_broker \<Rightarrow> redis_broker \<times> go_panic option" where
  "fan_end i b = redis_close (rf_chan (rb_fans b ! i)) (b\<lparr>rb_fans := take i (rb_fans b) @ drop (i + 1) (rb_fans b)\<rparr>)"

text \<open>A published event that arrives while the subscriber is there is in its channel.\<close>

lemma redis_delivers:
  assumes "redis_Subscribe r b = (b1, ch)" and "redis_Publish marshal r evt = (name, payload)" and "unmarshal (marshal evt) = Some evt"
  shows "name = rf_name (last (rb_fans b1)) \<and> snd (fan_message unmarshal (last (rb_fans b1)) payload b1) = None \<and>
    ch_buffer (rb_chans (fst (fan_message unmarshal (last (rb_fans b1)) payload b1)) ! ch) = [evt]"
  using assms by (auto simp: redis_Subscribe_def redis_Publish_def fan_message_def redis_capacity_def Let_def)

text \<open>After \<^verbatim>\<open>Unsubscribe\<close> the goroutine is still there, and both things it can do next panic.\<close>

lemma redis_after_Unsubscribe:
  assumes "redis_Subscribe r b = (b1, ch)" and "redis_Unsubscribe r ch b1 = (b2, p)"
  shows "p = None \<and> rb_fans b2 = rb_fans b @ [\<lparr>rf_name = chanName r, rf_chan = ch\<rparr>] \<and>
    (unmarshal payload = Some evt \<longrightarrow> snd (fan_message unmarshal (last (rb_fans b2)) payload b2) = Some SendClosed) \<and>
    snd (fan_end (length (rb_fans b)) b2) = Some CloseClosed"
  using assms by (auto simp: redis_Subscribe_def redis_Unsubscribe_def redis_close_def fan_message_def fan_end_def Let_def nth_append)

end
