(* ===== verification/Http_Server.thy ===== *)
theory Http_Server
  imports Api_Graphql Api_Admin Http_Metrics Redis_Broker
begin

text \<open>
  \<^verbatim>\<open>cmd/api/main.go\<close>: the table of routes of its \<^verbatim>\<open>http.ServeMux\<close>, the chain of middleware around
  it, and the start of the process.

  The mux takes the longest pattern that matches: a pattern that ends in a slash matches every path it is a
  prefix of, any other pattern only itself. A path that is not in canonical form is redirected before any
  handler sees it, and so is \<^verbatim>\<open>/v1/drivers\<close>, for which only the pattern with the slash is registered. Paths are
  compared unescaped. The token bucket of \<^verbatim>\<open>golang.org/x/time/rate\<close> is a parameter.
\<close>

section \<open>The mux\<close>

definition clean_path :: "string \<Rightarrow> bool" where
  "clean_path p \<longleftrightarrow>
     (case split_on CHR ''/'' p of
        [] \<Rightarrow> False
      | first # segs \<Rightarrow> first = '''' \<and> segs \<noteq> [] \<and> list_all (\<lambda>s. s \<noteq> '''') (butlast segs) \<and>
          list_all (\<lambda>s. s \<noteq> ''.'' \<and> s \<noteq> ''..'') segs)"

definition matches :: "string \<Rightarrow> string \<Rightarrow> bool" where
  "matches pat path \<longleftrightarrow> (if has_suffix ''/'' pat then has_prefix pat path else pat = path)"

text \<open>\<^verbatim>\<open>http.Error\<close> and \<^verbatim>\<open>http.NotFound\<close>.\<close>

definition http_error :: "int \<Rightarrow> string \<Rightarrow> reply" where
  "http_error status msg = Reply \<lparr>rs_Status = status,
     rs_Header = [(''Content-Type'', ''text/plain; charset=utf-8''), (''X-Content-Type-Options'', ''nosniff'')],
     rs_Body = Text (msg @ [CHR 0x0A])\<rparr>"

definition index_html :: string where
  \<open>index_html =
     (let nl = [CHR 0x0A] in
      ''<!DOCTYPE html><html><head><title>GPSNav API</title><meta charset="utf-8"/></head>'' @ nl @
      ''        <body style="font-family: system-ui, -apple-system, Segoe UI, Roboto, sans-serif; padding: 2rem;">'' @ nl @
      ''        <h1>GPSNav API</h1>'' @ nl @
      ''        <ul>'' @ nl @
      ''          <li><a href="/healthz">/healthz</a> '' @ [CHR 0xE2, CHR 0x80, CHR 0x94] @ '' health check</li>'' @ nl @
      ''          <li><a href="/readyz">/readyz</a> '' @ [CHR 0xE2, CHR 0x80, CHR 0x94] @ '' readiness</li>'' @ nl @
      ''          <li><a href="/docs">/docs</a> '' @ [CHR 0xE2, CHR 0x80, CHR 0x94] @ '' OpenAPI docs</li>'' @ nl @
      ''          <li><a href="/metrics">/metrics</a> '' @ [CHR 0xE2, CHR 0x80, CHR 0x94] @ '' Prometheus metrics</li>'' @ nl @
      ''        </ul>'' @ nl @
      ''        </body></html>'')\<close>

definition index_page :: "'s handler" where
  "index_page E D r sv =
     (if hr_Path r \<noteq> ''/'' then (sv, http_error 404 ''404 page not found'')
      else (sv, Reply \<lparr>rs_Status = 200, rs_Header = [(''Content-Type'', ''text/html; charset=utf-8'')],
                      rs_Body = Text index_html\<rparr>))"

text \<open>The bridge rewrites the path and delegates to the stream of the route.\<close>

definition bridged :: "request \<Rightarrow> request" where
  "bridged r = r\<lparr>hr_Path := ''/v1/routes/'' @ hr_Query r ''routeId'' @ ''/events/stream''\<rparr>"

definition route_events_bridge :: "'s handler" where
  "route_events_bridge E D r sv =
     (let k = hr_Query r ''routeId'' in
      if k = '''' then (sv, http_error 400 ''routeId required'')
      else RouteByIDHandler E D (bridged r) sv)"

definition metrics_page :: "'s handler" where
  "metrics_page E D r sv = (sv, Reply (en_metrics E r))"

definition mux_table :: "(string \<times> 's handler) list" where
  "mux_table =
     [(''/v1/orders'', OrdersHandler), (''/v1/optimize'', OptimizeHandler),
      (''/v1/optimizer/config'', OptimizerConfigHandler), (''/v1/admin/optimizer/config'', AdminOptimizerConfigHandler),
      (''/v1/routes'', RoutesIndexHandler), (''/v1/routes/'', RouteByIDHandler), (''/v1/eta/stream'', ETAStreamHandler),
      (''/v1/driver-events'', DriverEventsHandler), (''/v1/pod'', PoDHandler), (''/v1/subscriptions'', SubscriptionsHandler),
      (''/v1/subscriptions/'', SubscriptionByIDHandler), (''/v1/drivers/'', DriversHandler), (''/v1/geofences'', GeofencesHandler),
      (''/v1/geofences/'', GeofenceByIDHandler), (''/v1/media/presign'', MediaPresignHandler), (''/healthz'', HealthHandler),
      (''/readyz'', ReadyHandler), (''/openapi.yaml'', OpenAPIHandler), (''/docs'', DocsHandler), (''/'', index_page), (''/metrics'', metrics_page),
      (''/v1/admin/webhook-deliveries'', WebhookDeliveriesHandler), (''/v1/admin/webhook-deliveries/'', WebhookDeliveryRetryHandler),
      (''/v1/admin/routes/stats'', RouteStatsHandler), (''/v1/admin/plan-metrics'', PlanMetricsHandler),
      (''/v1/admin/plan-metrics/weights'', PlanMetricsWeightsHandler), (''/v1/admin/webhook-metrics'', WebhookMetricsHandler),
      (''/v1/admin/webhook-dlq'', WebhookDLQHandler), (''/v1/admin/webhook-dlq/'', WebhookDLQHandler),
      (''/graphql/subscriptions/route-events'', route_events_bridge), (''/graphql/ws'', GraphQLWSHandler),
      (''/graphql'', GraphQLHTTPHandler)]"

fun best_match :: "string \<Rightarrow> (string \<times> 'h) list \<Rightarrow> (string \<times> 'h) option \<Rightarrow> (string \<times> 'h) option" where
  "best_match path [] best = best"
| "best_match path ((pat, h) # rest) best =
     best_match path rest
       (if matches pat path \<and> (case best of None \<Rightarrow> True | Some (p, _) \<Rightarrow> length p < length pat) then Some (pat, h) else best)"

definition moved :: reply where
  "moved = Reply \<lparr>rs_Status = 301, rs_Header = [(''Content-Type'', ''text/html; charset=utf-8'')], rs_Body = NoBody\<rparr>"

definition serve :: "'s handler" where
  "serve E D r sv =
     (let path = hr_Path r in
      if \<not> clean_path path then (sv, moved)
      else case best_match path mux_table None of
             None \<Rightarrow> (sv, http_error 404 ''404 page not found'')
           | Some (pat, h) \<Rightarrow>
               if pat \<noteq> path \<and> \<not> has_suffix ''/'' path \<and> (path @ ''/'') \<in> fst ` set (mux_table :: (string \<times> 's handler) list) then (sv, moved)
               else h E D r sv)"

section \<open>Start\<close>

text \<open>
  \<^verbatim>\<open>NewServer\<close> (\<^verbatim>\<open>server.go\<close>): the in-memory store unless the environment names a database, and the
  in-process broker unless it names a Redis server for which \<^verbatim>\<open>NewRedisBroker\<close> works: then the answer is \<open>None\<close>, since that
  broker is not one of this state. Opening the database, with or without migrations, is a parameter.
\<close>

definition NewServer :: "golib \<Rightarrow> (string \<Rightarrow> string) \<Rightarrow> 's \<Rightarrow> (string \<Rightarrow> bool \<Rightarrow> 's result) \<Rightarrow> (string \<Rightarrow> 'o result)
    \<Rightarrow> 's server option result" where
  "NewServer L env memory postgres ParseURL =
     (let dsn = env ''DATABASE_URL'' in
      case (if trim_space dsn = '''' then Inr memory else postgres dsn (env ''DB_MIGRATE'' \<noteq> ''false'')) of
        Inl e \<Rightarrow> Inl e
      | Inr s \<Rightarrow>
          Inr (if env ''REDIS_URL'' \<noteq> '''' \<and> \<not> isl (NewRedisBroker ParseURL env) then None
               else Some \<lparr>sv_store = s, sv_broker = NewBroker, sv_auth = Some (NewVerifierFromEnv L env)\<rparr>))"

lemma NewServer_default:
  assumes "\<And>k. env k = ''''"
  shows "\<exists>sv v. NewServer L env memory postgres ParseURL = Inr (Some sv) \<and> sv_store sv = memory \<and> sv_broker sv = NewBroker \<and>
    sv_auth sv = Some v \<and> vf_TenantClaim v = ''tenant''"
proof -
  have "trim_space '''' = ''''" by code_simp
  then show ?thesis by (simp add: NewServer_def assms NewVerifierFromEnv_def envOr_def Let_def)
qed

section \<open>Middleware\<close>

text \<open>What a request draws besides: its id, the time at the rate limiter and how long it takes.\<close>

record app_draws =
  xd_draws :: draws
  xd_uuid :: string
  xd_now :: time
  xd_dur :: duration

text \<open>The rate limiter library and the parsers of the configuration.\<close>

record 'l rate_lib =
  rl_new :: "f64 \<Rightarrow> int \<Rightarrow> 'l"
  rl_allow :: "time \<Rightarrow> 'l \<Rightarrow> 'l \<times> bool"
  rl_parse_float :: "string \<Rightarrow> f64 option"
  rl_split_host :: "string \<Rightarrow> string option"

record 'l rlStore =
  rl_m :: "string \<rightharpoonup> 'l"
  rl_r :: f64
  rl_b :: int

definition newRLStore :: "f64 \<Rightarrow> int \<Rightarrow> 'l rlStore" where
  "newRLStore rps burst = \<lparr>rl_m = Map.empty, rl_r = rps, rl_b = burst\<rparr>"

definition limiter :: "'l rate_lib \<Rightarrow> string \<Rightarrow> 'l rlStore \<Rightarrow> 'l rlStore \<times> 'l" where
  "limiter R key s =
     (case rl_m s key of
        Some lm \<Rightarrow> (s, lm)
      | None \<Rightarrow> let lm = rl_new R (rl_r s) (rl_b s) in (s\<lparr>rl_m := (rl_m s)(key \<mapsto> lm)\<rparr>, lm))"

definition rate_config :: "'l rate_lib \<Rightarrow> (string \<Rightarrow> string) \<Rightarrow> f64 \<times> int" where
  "rate_config R env =
     (let rps = (if env ''RATE_RPS'' \<noteq> '''' then
                   (case rl_parse_float R (env ''RATE_RPS'') of Some x \<Rightarrow> if 0 < x then x else lit 20 | None \<Rightarrow> lit 20) else lit 20);
          burst = (if env ''RATE_BURST'' \<noteq> '''' then
                   (case atoi (env ''RATE_BURST'') of Some x \<Rightarrow> if 0 < x then x else 40 | None \<Rightarrow> 40) else 40)
      in (rps, burst))"

definition clientIP :: "'l rate_lib \<Rightarrow> request \<Rightarrow> string" where
  "clientIP R r =
     (let xf = hr_Header r ''X-Forwarded-For'' in
      if xf \<noteq> '''' then trim_space (split_on CHR '','' xf ! 0)
      else case rl_split_host R (hr_RemoteAddr r) of Some host \<Rightarrow> host | None \<Rightarrow> hr_RemoteAddr r)"

text \<open>A line of the log, \<^verbatim>\<open>http_request\<close>: the values handed to \<^verbatim>\<open>slog\<close>.\<close>

record log_line =
  ln_method :: string
  ln_path :: string
  ln_client :: string
  ln_status :: int
  ln_dur :: duration
  ln_request_id :: string

record ('s, 'l, 'v) app =
  app_server :: "'s server"
  app_limits :: "'l rlStore"
  app_metrics :: "'v metrics"
  app_log :: "log_line list"

text \<open>
  All handlers of a request share one pointer to it, so a handler also gives the request as it leaves it. Of the
  handlers of the mux only the bridge writes to it.
\<close>

type_synonym ('s, 'l, 'v) app_handler = "app_draws \<Rightarrow> request \<Rightarrow> ('s, 'l, 'v) app \<Rightarrow> ('s, 'l, 'v) app \<times> request \<times> reply"

definition handled_request :: "request \<Rightarrow> request" where
  "handled_request r =
     (if hr_Path r = ''/graphql/subscriptions/route-events'' \<and> hr_Query r ''routeId'' \<noteq> '''' then bridged r else r)"

definition mux_handler :: "'s env \<Rightarrow> ('s, 'l, 'v) app_handler" where
  "mux_handler E X r a = (let (sv, p) = serve E (xd_draws X) r (app_server a) in (a\<lparr>app_server := sv\<rparr>, handled_request r, p))"

definition rateLimitMiddleware :: "'l rate_lib \<Rightarrow> ('s, 'l, 'v) app_handler \<Rightarrow> ('s, 'l, 'v) app_handler" where
  "rateLimitMiddleware R next X r a =
     (let ip = clientIP R r;
          (s, lm) = limiter R ip (app_limits a);
          (lm', ok) = rl_allow R (xd_now X) lm;
          a' = a\<lparr>app_limits := s\<lparr>rl_m := (rl_m s)(ip \<mapsto> lm')\<rparr>\<rparr>
      in if \<not> ok then (a', r, http_error 429 ''Too Many Requests'') else next X r a')"

text \<open>Headers set before the next handler runs.\<close>

definition add_headers :: "(string \<times> string) list \<Rightarrow> reply \<Rightarrow> reply" where
  "add_headers hs p = (case p of Reply rs \<Rightarrow> Reply (rs\<lparr>rs_Header := hs @ rs_Header rs\<rparr>) | _ \<Rightarrow> p)"

record cors =
  co_all :: bool
  co_origins :: "string list"

definition cors_config :: "(string \<Rightarrow> string) \<Rightarrow> cors" where
  "cors_config env =
     (let origins = filter (\<lambda>o1. o1 \<noteq> '''') (map trim_space (split_on CHR '','' (trim_space (env ''ALLOW_ORIGINS''))))
      in \<lparr>co_all = (''*'' \<in> set origins), co_origins = origins\<rparr>)"

definition cors_headers :: "cors \<Rightarrow> string \<Rightarrow> (string \<times> string) list" where
  "cors_headers C origin =
     (if co_all C \<and> origin \<noteq> '''' then [(''Access-Control-Allow-Origin'', origin)]
      else if \<not> co_all C \<and> origin \<in> set (co_origins C) \<and> origin \<noteq> '''' then [(''Access-Control-Allow-Origin'', origin)]
      else []) @ [(''Vary'', ''Origin'')]"

definition corsMiddleware :: "cors \<Rightarrow> ('s, 'l, 'v) app_handler \<Rightarrow> ('s, 'l, 'v) app_handler" where
  "corsMiddleware C next X r a =
     (let hs = cors_headers C (hr_Header r ''Origin'') in
      if hr_Method r = ''OPTIONS'' then
        (a, r, Reply \<lparr>rs_Status = 204, rs_Header = hs @
          [(''Access-Control-Allow-Methods'', ''GET,POST,PUT,PATCH,DELETE,OPTIONS''),
           (''Access-Control-Allow-Headers'', ''Content-Type,Authorization,X-Request-Id,X-Tenant-Id,X-Role,X-Driver-Id'')],
          rs_Body = NoBody\<rparr>)
      else let (a', r', p) = next X r a in (a', r', add_headers hs p))"

definition requestIDMiddleware :: "('s, 'l, 'v) app_handler \<Rightarrow> ('s, 'l, 'v) app_handler" where
  "requestIDMiddleware next X r a =
     (let rid = (if hr_Header r ''X-Request-Id'' = '''' then xd_uuid X else hr_Header r ''X-Request-Id'');
          (a', r', p) = next X (r\<lparr>hr_Header := (hr_Header r)(''X-Request-Id'' := rid)\<rparr>) a
      in (a', r', add_headers [(''X-Request-Id'', rid)] p))"

text \<open>
  The logging middleware hands its own \<^verbatim>\<open>statusWriter\<close> to the next handler: a struct that embeds
  the interface \<^verbatim>\<open>http.ResponseWriter\<close> has that interface's methods and no others. When the handler has
  returned it logs and counts the request as the handler left it. When the handler panics it does neither: the panic passes through. A stream or a
  websocket would be logged when it ends; through this writer there are none.
\<close>

definition statusWriter :: writer where
  "statusWriter = \<lparr>wr_Flusher = False, wr_Hijacker = False\<rparr>"

definition request_line :: "'l rate_lib \<Rightarrow> app_draws \<Rightarrow> request \<Rightarrow> int \<Rightarrow> log_line" where
  "request_line R X r status =
     \<lparr>ln_method = hr_Method r, ln_path = hr_Path r, ln_client = clientIP R r, ln_status = status, ln_dur = xd_dur X,
      ln_request_id = hr_Header r ''X-Request-Id''\<rparr>"

definition line_labels :: "log_line \<Rightarrow> string list" where
  "line_labels l = [ln_method l, ln_path l, int_text (ln_status l)]"

definition logMiddleware :: "'v prom_lib \<Rightarrow> 'l rate_lib \<Rightarrow> ('s, 'l, 'v) app_handler \<Rightarrow> ('s, 'l, 'v) app_handler" where
  "logMiddleware P R next X r a =
     (case next X (r\<lparr>hr_Writer := statusWriter\<rparr>) a of
        (a1, r1, Reply rs) \<Rightarrow>
          let line = request_line R X r1 (rs_Status rs);
              a2 = a1\<lparr>app_log := app_log a1 @ [line]\<rparr>;
              (m, panicked) = record_request P (line_labels line) (xd_dur X) (app_metrics a2)
          in (a2\<lparr>app_metrics := m\<rparr>, r1, case panicked of None \<Rightarrow> Reply rs | Some p \<Rightarrow> Aborts p)
      | (a1, r1, p) \<Rightarrow> (a1, r1, p))"

definition app_handler :: "'v prom_lib \<Rightarrow> 'l rate_lib \<Rightarrow> cors \<Rightarrow> 's env \<Rightarrow> ('s, 'l, 'v) app_handler" where
  "app_handler P R C E = logMiddleware P R (requestIDMiddleware (corsMiddleware C (rateLimitMiddleware R (mux_handler E))))"

section \<open>The process\<close>

text \<open>
  \<^verbatim>\<open>main\<close> up to \<^verbatim>\<open>ListenAndServe\<close>: the flag \<^verbatim>\<open>-migrate\<close>, the server, the collectors, the
  address, the handler with its configuration and the worker. The server's publisher is never nil, so the worker
  always starts.
\<close>

record ('s, 'l, 'v) api_process =
  ps_Addr :: string
  ps_ReadHeaderTimeout :: duration
  ps_cors :: cors
  ps_app :: "('s, 'l, 'v) app"
  ps_worker :: worker

datatype ('s, 'l, 'v) start_result = Fatal go_error | Crashed go_panic | OnRedis | Serves "('s, 'l, 'v) api_process"

definition startup_env :: "bool \<Rightarrow> (string \<Rightarrow> string) \<Rightarrow> string \<Rightarrow> string" where
  "startup_env migrate env = (if migrate then env else env(''DB_MIGRATE'' := ''false''))"

definition listen_addr :: "(string \<Rightarrow> string) \<Rightarrow> string" where
  "listen_addr env = (if env ''PORT'' \<noteq> '''' then '':'' @ env ''PORT'' else '':8080'')"

definition start_process :: "golib \<Rightarrow> 'l rate_lib \<Rightarrow> 'v prom_lib \<Rightarrow> (string \<Rightarrow> string \<Rightarrow> string) \<Rightarrow> (string \<Rightarrow> bool)
    \<Rightarrow> 's \<Rightarrow> (string \<Rightarrow> bool \<Rightarrow> 's result) \<Rightarrow> (string \<Rightarrow> 'o result) \<Rightarrow> bool \<Rightarrow> (string \<Rightarrow> string) \<Rightarrow> ('s, 'l, 'v) start_result" where
  "start_process L R P hmac url_ok memory postgres ParseURL migrate env0 =
     (let env = startup_env migrate env0 in
      case NewServer L env memory postgres ParseURL of
        Inl e \<Rightarrow> Fatal e
      | Inr None \<Rightarrow> OnRedis
      | Inr (Some sv) \<Rightarrow>
          (case RegisterDefault P (new_metrics P) of
             Inl p \<Rightarrow> Crashed p
           | Inr m \<Rightarrow>
               let (rps, burst) = rate_config R env
               in Serves \<lparr>ps_Addr = listen_addr env, ps_ReadHeaderTimeout = 5 * second, ps_cors = cors_config env,
                    ps_app = \<lparr>app_server = sv, app_limits = newRLStore rps burst, app_metrics = m, app_log = []\<rparr>,
                    ps_worker = NewWorker hmac url_ok (env ''WEBHOOK_MAX_ATTEMPTS'')\<rparr>))"

text \<open>Without the flag the environment decides on the migrations, with \<^verbatim>\<open>-migrate=false\<close> there are none.\<close>

lemma start_process_migrates:
  assumes "start_process L R P hmac url_ok memory postgres ParseURL migrate env = Serves ps" and "trim_space (env ''DATABASE_URL'') \<noteq> ''''"
  shows "postgres (env ''DATABASE_URL'') (migrate \<and> env ''DB_MIGRATE'' \<noteq> ''false'') = Inr (sv_store (app_server (ps_app ps)))"
  using assms by (auto simp: start_process_def startup_env_def NewServer_def Let_def split: sum.splits option.splits prod.splits if_splits)

text \<open>The requests a process answers, one after the other.\<close>

fun serve_all :: "('s, 'l, 'v) app_handler \<Rightarrow> (app_draws \<times> request) list \<Rightarrow> ('s, 'l, 'v) app \<Rightarrow> ('s, 'l, 'v) app \<times> reply list" where
  "serve_all h [] a = (a, [])"
| "serve_all h ((X, r) # reqs) a =
     (let (a1, _, p) = h X r a; (a2, ps) = serve_all h reqs a1 in (a2, p # ps))"

section \<open>Lemmas on the mux\<close>

lemma best_match_from:
  "best_match path tab best = Some ph \<Longrightarrow> best = Some ph \<or> (ph \<in> set tab \<and> matches (fst ph) path)"
proof (induction path tab best rule: best_match.induct)
  case (2 path pat h rest best)
  then show ?case by (auto split: if_splits)
qed simp

lemma serve_cases:
  obtains (moved) "serve E D r sv = (sv, moved)"
  | (none) "serve E D r sv = (sv, http_error 404 ''404 page not found'')"
  | (handler) pat h where "(pat, h) \<in> set mux_table" "matches pat (hr_Path r)" "serve E D r sv = h E D r sv"
proof (cases "best_match (hr_Path r) (mux_table :: (string \<times> 'a handler) list) None")
  case None
  then show ?thesis using that(1,2) by (cases "clean_path (hr_Path r)") (auto simp: serve_def Let_def)
next
  case (Some ph)
  have "ph \<in> set mux_table \<and> matches (fst ph) (hr_Path r)" using best_match_from [OF Some] by simp
  moreover obtain pat h where ph: "ph = (pat, h)" by (cases ph)
  moreover have "serve E D r sv = (sv, moved) \<or> serve E D r sv = h E D r sv"
    using Some by (auto simp: serve_def Let_def ph)
  ultimately show ?thesis using that(1,3) by auto
qed

lemma best_match_append:
  "best_match path (xs @ ys) best = best_match path ys (best_match path xs best)"
  by (induction path xs best rule: best_match.induct) auto

text \<open>An exact pattern without a slash at its end is served by its handler.\<close>

lemma best_match_keep:
  "\<forall>(pat, h)\<in>set tab. matches pat path \<longrightarrow> length pat \<le> length (fst ph) \<Longrightarrow> best_match path tab (Some ph) = Some ph"
proof (induction tab)
  case Nil
  then show ?case by simp
next
  case (Cons x tab)
  then show ?case by (cases x; cases ph) auto
qed

end
