(* ===== verification/Store_Memory.thy ===== *)
theory Store_Memory
  imports Store_Interface Memory_Store
begin

text \<open>
  The in-memory store behind the interface: \<open>memory_store\<close> fills the record of methods with the
  operations of the \<open>Memory_*\<close> theories, and the locale \<open>store_contract\<close> says what a server relies on when it calls the
  methods in any order. What a call draws (identifiers, the clock, orders of ranging over maps) comes from an
  oracle, indexed by the number of the call.
\<close>

record mem_oracle =
  mo_uuid :: "nat \<Rightarrow> nat \<Rightarrow> string"
  mo_now :: "nat \<Rightarrow> time"
  mo_fmt :: "time \<Rightarrow> string"
  mo_routes :: "nat \<Rightarrow> memory \<Rightarrow> string list"
  mo_tenants :: "nat \<Rightarrow> memory \<Rightarrow> string list"

record mem_world =
  mw_mem :: memory
  mw_calls :: nat

definition start_world :: mem_world where
  "start_world = \<lparr>mw_mem = NewMemory, mw_calls = 0\<rparr>"

definition draw :: "(nat \<Rightarrow> memory \<Rightarrow> memory \<times> 'a outcome) \<Rightarrow> (mem_world, 'a) call" where
  "draw f w = (let (m', res) = f (mw_calls w) (mw_mem w) in (\<lparr>mw_mem = m', mw_calls = mw_calls w + 1\<rparr>, res))"

definition outcome_of :: "'a result \<Rightarrow> 'a outcome" where
  "outcome_of res = (case res of Inl e \<Rightarrow> Err e | Inr a \<Rightarrow> Ret a)"

definition memory_store :: "mem_oracle \<Rightarrow> mem_world store" where
  "memory_store R =
     \<lparr>st_CreateOrders = (\<lambda>t ords. draw (\<lambda>n m. apsnd Ret (mem_CreateOrders (mo_uuid R n) m t ords))),
      st_ListOrders = (\<lambda>t status cursor limit. draw (\<lambda>n m. (m, Ret (mem_ListOrders m t status cursor limit)))),
      st_GetRoute = (\<lambda>t k. draw (\<lambda>n m. (m, outcome_of (mem_GetRoute m t k)))),
      st_ListRoutes = (\<lambda>t cursor limit. draw (\<lambda>n m. (m, Ret (mem_ListRoutes m t cursor limit)))),
      st_AssignRoute = (\<lambda>t k d v startAt. draw (\<lambda>n m. apsnd Ret (mem_AssignRoute m t k d v))),
      st_PatchRoute = (\<lambda>t k p. draw (\<lambda>n m. apsnd Ret (mem_PatchRoute m t k p))),
      st_PlanRoutes = (\<lambda>req. draw (\<lambda>n m. apsnd Ret (mem_PlanRoutes (mo_uuid R n) m req))),
      st_InsertDriverEvents = (\<lambda>t evs. draw (\<lambda>n m. (m, Ret (mem_InsertDriverEvents m t evs)))),
      st_CreatePoD = (\<lambda>req. draw (\<lambda>n m. (m, Ret (mem_CreatePoD (mo_uuid R n 0) m req)))),
      st_CreateSubscription = (\<lambda>req. draw (\<lambda>n m. apsnd Ret (mem_CreateSubscription (mo_uuid R n 0) m req))),
      st_GetSubscriptionsForEvent = (\<lambda>t ev. draw (\<lambda>n m. (m, Ret (mem_GetSubscriptionsForEvent m t ev)))),
      st_ListSubscriptions = (\<lambda>t cursor limit. draw (\<lambda>n m. (m, case mem_ListSubscriptions m t cursor limit of
         Inl p \<Rightarrow> Panic p | Inr page \<Rightarrow> Ret page))),
      st_DeleteSubscription = (\<lambda>t k. draw (\<lambda>n m. (mem_DeleteSubscription m t k, Ret ()))),
      st_AdvanceRoute = (\<lambda>t k req. draw (\<lambda>n m. apsnd outcome_of (mem_AdvanceRoute (mo_fmt R) (mo_now R n) m t k req))),
      st_UpdateHOS = (\<lambda>t d upd. draw (\<lambda>n m. case mem_UpdateHOS m t d upd of
         Inl p \<Rightarrow> (m, Panic p) | Inr (m', status, st) \<Rightarrow> (m', Ret (status, st)))),
      st_CreateGeofence = (\<lambda>t inp. draw (\<lambda>n m. apsnd Ret (mem_CreateGeofence (mo_uuid R n 0) m t inp))),
      st_ListGeofences = (\<lambda>t cursor limit. draw (\<lambda>n m. (m, Ret (mem_ListGeofences m t cursor limit)))),
      st_GetGeofence = (\<lambda>t k. draw (\<lambda>n m. (m, outcome_of (mem_GetGeofence m t k)))),
      st_PatchGeofence = (\<lambda>t k inp. draw (\<lambda>n m. apsnd outcome_of (mem_PatchGeofence m t k inp))),
      st_DeleteGeofence = (\<lambda>t k. draw (\<lambda>n m. apsnd outcome_of (mem_DeleteGeofence m t k))),
      st_EnqueueWebhook = (\<lambda>t sid ev url sec pl. draw (\<lambda>n m.
         apsnd Ret (mem_EnqueueWebhook (mo_now R n) (mo_uuid R n 0) m t sid ev url sec pl))),
      st_FetchDueWebhookDeliveries = (\<lambda>limit. draw (\<lambda>n m.
         (m, Ret (mem_FetchDueWebhookDeliveries (mo_tenants R n m) (mo_now R n) m limit)))),
      st_MarkWebhookDelivery = (\<lambda>k ok nxt err code lat. draw (\<lambda>n m.
         (mem_MarkWebhookDelivery (mo_now R n) m k ok nxt err code lat, Ret ()))),
      st_FailWebhookDelivery = (\<lambda>k err code lat. draw (\<lambda>n m. (mem_FailWebhookDelivery m k err code lat, Ret ()))),
      st_ListWebhookDeliveries = (\<lambda>t status cursor limit. draw (\<lambda>n m. (m, Ret (mem_ListWebhookDeliveries m t status cursor limit)))),
      st_RetryWebhookDelivery = (\<lambda>t k. draw (\<lambda>n m. (mem_RetryWebhookDelivery (mo_now R n) m t k, Ret ()))),
      st_RouteStats = (\<lambda>t planDate. draw (\<lambda>n m. (m, Ret (mem_RouteStats m t planDate)))),
      st_WebhookMetrics = (\<lambda>q buckets. draw (\<lambda>n m. (m, Ret (map metrics_obj (mem_WebhookMetrics (mo_tenants R n m) m q buckets))))),
      st_SavePlanMetrics = (\<lambda>t d a mx. draw (\<lambda>n m. (mem_SavePlanMetrics m t d a mx, Ret ()))),
      st_ListPlanMetrics = (\<lambda>t d a. draw (\<lambda>n m. (m, Ret (mem_ListPlanMetrics m t d a)))),
      st_SavePlanMetricsWeights = (\<lambda>t d a snaps. draw (\<lambda>n m. (mem_SavePlanMetricsWeights m t d a snaps, Ret ()))),
      st_ListPlanMetricsWeights = (\<lambda>t d a. draw (\<lambda>n m. (m, Ret (mem_ListPlanMetricsWeights m t d a)))),
      st_GetOptimizerConfig = (\<lambda>t. draw (\<lambda>n m. (m, Ret (mem_GetOptimizerConfig m t)))),
      st_SaveOptimizerConfig = (\<lambda>t cfg. draw (\<lambda>n m. (mem_SaveOptimizerConfig m t cfg, Ret ()))),
      st_FindRoutesByStop = (\<lambda>t stop. draw (\<lambda>n m. (m, Ret (mem_FindRoutesByStop m t stop)))),
      st_ListActiveRoutesForDriver = (\<lambda>t d. draw (\<lambda>n m. (m, Ret (mem_ListActiveRoutesForDriver (mo_routes R n m) m t d)))),
      st_ListWebhookDLQ = (\<lambda>t q cursor limit. draw (\<lambda>n m. (m, Ret (mem_ListWebhookDLQ m)))),
      st_RequeueWebhookDLQ = (\<lambda>t k. draw (\<lambda>n m. (mem_RequeueWebhookDLQ m t k, Ret ()))),
      st_RequeueWebhookDLQBulk = (\<lambda>t ks. draw (\<lambda>n m. (mem_RequeueWebhookDLQBulk m t ks, Ret ()))),
      st_DeleteWebhookDLQBulk = (\<lambda>t ks older. draw (\<lambda>n m. (mem_DeleteWebhookDLQBulk m t ks older, Ret ())))\<rparr>"

section \<open>Identifiers in use\<close>

definition used_ids :: "memory \<Rightarrow> string set" where
  "used_ids m = dom (orders m) \<union> dom (routes m) \<union> dom (gfs m) \<union> dom (deliveries m) \<union>
     {k. \<exists>t s. s \<in> set (subs m t) \<and> k = sub_ID s}"

text \<open>\<^verbatim>\<open>uuid.New\<close>: never empty, never the same twice.\<close>

definition oracle_ok :: "mem_oracle \<Rightarrow> bool" where
  "oracle_ok R \<longleftrightarrow> (\<forall>n i. mo_uuid R n i \<noteq> '''') \<and> (\<forall>n i n' i'. mo_uuid R n i = mo_uuid R n' i' \<longrightarrow> n = n' \<and> i = i')"

text \<open>An identifier that no later call will draw, and a store whose identifiers are all of that kind.\<close>

definition undrawn :: "mem_oracle \<Rightarrow> mem_world \<Rightarrow> string \<Rightarrow> bool" where
  "undrawn R w x \<longleftrightarrow> (\<forall>n\<ge>mw_calls w. \<forall>i. mo_uuid R n i \<noteq> x)"

definition good_world :: "mem_oracle \<Rightarrow> mem_world \<Rightarrow> bool" where
  "good_world R w \<longleftrightarrow> oracle_ok R \<and> mem_reachable (mw_mem w) \<and> (\<forall>x\<in>used_ids (mw_mem w). undrawn R w x)"

lemma good_start: "oracle_ok R \<Longrightarrow> good_world R start_world"
  by (auto simp: good_world_def start_world_def used_ids_def NewMemory_def intro: mem_reachable.start [unfolded NewMemory_def])

lemma good_fresh:
  assumes "good_world R w"
  shows "mo_uuid R (mw_calls w) i \<notin> used_ids (mw_mem w)"
  using assms by (auto simp: good_world_def undrawn_def)

text \<open>A step that uses the identifiers it draws itself, and no others that a later call may draw.\<close>

lemma good_draw:
  assumes "good_world R w"
    and "mem_step (mw_mem w) (fst (f (mw_calls w) (mw_mem w))) \<or> fst (f (mw_calls w) (mw_mem w)) = mw_mem w"
    and "used_ids (fst (f (mw_calls w) (mw_mem w))) \<subseteq> used_ids (mw_mem w) \<union> range (mo_uuid R (mw_calls w)) \<union> A"
    and "\<forall>x\<in>A. undrawn R w x"
  shows "good_world R (fst (draw f w))"
proof -
  obtain m' res where f: "f (mw_calls w) (mw_mem w) = (m', res)" by (cases "f (mw_calls w) (mw_mem w)")
  have "mem_reachable m'" using assms(1,2) f by (auto simp: good_world_def intro: mem_reachable.step)
  moreover have "undrawn R (fst (draw f w)) x" if "x \<in> used_ids m'" for x
  proof -
    have "x \<in> used_ids (mw_mem w) \<union> range (mo_uuid R (mw_calls w)) \<union> A" using that subsetD [OF assms(3)] by (simp add: f)
    then consider "undrawn R w x" | i where "x = mo_uuid R (mw_calls w) i"
      using assms(1,4) unfolding good_world_def by blast
    then show ?thesis
    proof cases
      case 1
      then show ?thesis by (simp add: undrawn_def draw_def f)
    next
      case 2
      with assms(1) show ?thesis by (fastforce simp: good_world_def undrawn_def draw_def f oracle_ok_def)
    qed
  qed
  ultimately show ?thesis using assms(1) by (simp add: good_world_def draw_def f)
qed

lemma good_read: "good_world R w \<Longrightarrow> (\<And>n m. fst (f n m) = m) \<Longrightarrow> good_world R (fst (draw f w))"
  by (auto simp: good_world_def draw_def split_def undrawn_def)

section \<open>The identifiers an operation adds\<close>

named_theorems used_intros \<open>which identifiers an operation uses\<close>

lemma used_create_orders [used_intros]: "used_ids (fst (mem_CreateOrders uuids m t ords)) \<subseteq> used_ids m \<union> range uuids"
proof -
  have "used_ids (fst (create_orders_loop uuids t ords c m)) \<subseteq> used_ids m \<union> range uuids" for c
  proof (induction ords arbitrary: c m)
    case Nil
    then show ?case by simp
  next
    case (Cons a ords)
    have "used_ids (m\<lparr>orders := (orders m)(uuids c \<mapsto> v), byTen := b\<rparr>) \<subseteq> used_ids m \<union> range uuids" for v b
      by (auto simp: used_ids_def)
    with Cons.IH [of "Suc c" "m\<lparr>orders := (orders m)(uuids c \<mapsto> new_order t (uuids c) a), byTen := (byTen m)(t := byTen m t @ [uuids c])\<rparr>"]
    show ?case by (auto simp: Let_def)
  qed
  then show ?thesis by (simp add: mem_CreateOrders_def split_def Let_def)
qed

lemma used_creations [used_intros]:
  "used_ids (fst (mem_CreateSubscription u m req)) \<subseteq> used_ids m \<union> {u}"
  "used_ids (fst (mem_CreateGeofence u m t inp)) \<subseteq> used_ids m \<union> {u}"
  "used_ids (fst (mem_PlanRoutes us m oreq)) \<subseteq> used_ids m \<union> {us 0}"
  "used_ids (fst (mem_EnqueueWebhook now u m t sid ev url sec pl)) \<subseteq> used_ids m \<union> {u}"
  by (auto simp: used_ids_def mem_CreateSubscription_def mem_CreateGeofence_def mem_PlanRoutes_def mem_EnqueueWebhook_def Let_def
      split: if_splits)

lemma used_route_writes [used_intros]:
  "used_ids (fst (mem_AssignRoute m t k d v)) \<subseteq> insert k (used_ids m)"
  "used_ids (fst (mem_PatchRoute m t k p)) \<subseteq> insert k (used_ids m)"
  by (auto simp: used_ids_def mem_AssignRoute_def mem_PatchRoute_def Let_def)

lemma used_changes [used_intros]:
  "used_ids (mem_DeleteSubscription m t k) \<subseteq> used_ids m"
  "used_ids (fst (mem_AdvanceRoute fmt now m t k req)) \<subseteq> used_ids m"
  "used_ids (fst (mem_PatchGeofence m t k inp)) \<subseteq> used_ids m"
  "used_ids (fst (mem_DeleteGeofence m t k)) \<subseteq> used_ids m"
  "used_ids (mem_RetryWebhookDelivery now m t k) \<subseteq> used_ids m"
  "used_ids (mem_SaveOptimizerConfig m t cfg) \<subseteq> used_ids m"
  "mem_UpdateHOS m t d upd = Inr (m', status, st) \<Longrightarrow> used_ids m' \<subseteq> used_ids m"
  subgoal by (auto simp: used_ids_def mem_DeleteSubscription_def split: if_splits)
  subgoal by (auto simp: used_ids_def mem_AdvanceRoute_def Let_def split: option.splits)
  subgoal by (auto simp: used_ids_def mem_PatchGeofence_def Let_def split: option.splits if_splits)
  subgoal by (auto simp: used_ids_def mem_DeleteGeofence_def Let_def split: option.splits if_splits)
  subgoal by (auto simp: used_ids_def mem_RetryWebhookDelivery_def split: option.splits if_splits)
  subgoal by (auto simp: used_ids_def mem_SaveOptimizerConfig_def)
  subgoal by (drule only_hos_ops, drule only_hosD) (simp add: used_ids_def)
  done

section \<open>The in-memory store keeps the contract\<close>

lemma snd_draw: "snd (draw f w) = snd (f (mw_calls w) (mw_mem w))"
  by (simp add: draw_def split_def Let_def)

lemma keeps_read:
  "(\<And>n m. fst (f n m) = m) \<Longrightarrow> (\<And>n m. snd (f n m) \<noteq> Panic CloseClosed \<and> snd (f n m) \<noteq> Panic SendClosed) \<Longrightarrow>
    keeps (good_world R) (draw f)"
  by (auto simp: keeps_def good_read snd_draw)

lemma keeps_write:
  assumes "\<And>n m. oracle_ok R \<Longrightarrow> (\<And>i. mo_uuid R n i \<notin> used_ids m) \<Longrightarrow>
      mem_step m (fst (f n m)) \<or> fst (f n m) = m"
    and "\<And>n m. used_ids (fst (f n m)) \<subseteq> used_ids m \<union> range (mo_uuid R n)"
    and "\<And>n m. snd (f n m) \<noteq> Panic CloseClosed \<and> snd (f n m) \<noteq> Panic SendClosed"
  shows "keeps (good_world R) (draw f)"
  unfolding keeps_def snd_draw
proof (intro allI impI conjI)
  fix w
  assume w: "good_world R w"
  then have "oracle_ok R" by (simp add: good_world_def)
  from assms(1) [OF this good_fresh [OF w]] assms(2) show "good_world R (fst (draw f w))"
    by (intro good_draw [OF w, of f "{}"]) auto
qed (use assms(3) in blast)+

lemma fresh_ids_drawn:
  "oracle_ok R \<Longrightarrow> (\<And>i. mo_uuid R n i \<notin> used_ids m) \<Longrightarrow> fresh_ids (mo_uuid R n) (orders m) k"
  by (auto simp: fresh_ids_def inj_on_def oracle_ok_def used_ids_def domIff)

lemma drawn_unused:
  assumes "oracle_ok R" and "\<And>i. mo_uuid R n i \<notin> used_ids m"
  shows "mo_uuid R n i \<noteq> ''''" "orders m (mo_uuid R n i) = None" "routes m (mo_uuid R n i) = None"
    "gfs m (mo_uuid R n i) = None" "deliveries m (mo_uuid R n i) = None" "\<forall>t. mo_uuid R n i \<notin> sub_ID ` set (subs m t)"
  using assms(1) assms(2) [of i] by (auto simp: oracle_ok_def used_ids_def)

lemma outcome_of_no_panic [simp]: "outcome_of res \<noteq> Panic p"
  by (simp add: outcome_of_def split: sum.split)

lemma mem_UpdateHOS_panic: "mem_UpdateHOS m t d upd = Inl p \<Longrightarrow> p = TypeAssertion"
  by (auto simp: mem_UpdateHOS_def Let_def split: option.splits any.splits if_splits)

lemma mem_ListSubscriptions_panic: "mem_ListSubscriptions m t c l = Inl p \<Longrightarrow> p = SliceBounds"
  by (auto simp: mem_ListSubscriptions_def slice_page_def Let_def split: if_splits)

lemma used_drawn: "used_ids m' \<subseteq> used_ids m \<union> {mo_uuid R n 0} \<Longrightarrow> used_ids m' \<subseteq> used_ids m \<union> range (mo_uuid R n)"
  by blast

lemma used_same: "used_ids m' \<subseteq> used_ids m \<Longrightarrow> used_ids m' \<subseteq> used_ids m \<union> A"
  by blast

lemma hos_call:
  defines "f \<equiv> \<lambda>m t d upd. case mem_UpdateHOS m t d upd of Inl p \<Rightarrow> (m, Panic p) | Inr (m', status, st) \<Rightarrow> (m', Ret (status, st))"
  shows "mem_step m (fst (f m t d upd)) \<or> fst (f m t d upd) = m"
    and "used_ids (fst (f m t d upd)) \<subseteq> used_ids m \<union> A"
    and "snd (f m t d upd) \<noteq> Panic CloseClosed" and "snd (f m t d upd) \<noteq> Panic SendClosed"
  using mem_step.update_hos [of m t d upd] used_changes(7) [of m t d upd] mem_UpdateHOS_panic [of m t d upd]
  unfolding f_def by (cases "mem_UpdateHOS m t d upd"; auto)+

text \<open>The two writes under an identifier of the caller.\<close>

lemma good_route_write:
  assumes "good_world R w" and "undrawn R w k"
    and "\<And>n m. mem_step m (fst (f n m))" and "\<And>n m. used_ids (fst (f n m)) \<subseteq> insert k (used_ids m)"
  shows "good_world R (fst (draw f w))"
  using good_draw [OF assms(1), of f "{k}"] assms(2-4) by (simp, blast)

lemma drawn_steps:
  assumes "oracle_ok R" and "\<And>i. mo_uuid R n i \<notin> used_ids m"
  shows "mem_step m (fst (mem_PlanRoutes (mo_uuid R n) m req))"
    and "mem_step m (fst (mem_CreateSubscription (mo_uuid R n 0) m sub))"
    and "mem_step m (fst (mem_CreateGeofence (mo_uuid R n 0) m t inp))"
    and "mem_step m (fst (mem_EnqueueWebhook now (mo_uuid R n 0) m t sid ev url sec pl))"
  by (intro mem_step.plan_routes mem_step.create_subscription mem_step.create_geofence mem_step.enqueue
      drawn_unused [OF assms])+

lemma drawn_used:
  "used_ids (fst (mem_PlanRoutes (mo_uuid R n) m req)) \<subseteq> used_ids m \<union> range (mo_uuid R n)"
  "used_ids (fst (mem_CreateSubscription (mo_uuid R n 0) m sub)) \<subseteq> used_ids m \<union> range (mo_uuid R n)"
  "used_ids (fst (mem_CreateGeofence (mo_uuid R n 0) m t inp)) \<subseteq> used_ids m \<union> range (mo_uuid R n)"
  "used_ids (fst (mem_EnqueueWebhook now (mo_uuid R n 0) m t sid ev url sec pl)) \<subseteq> used_ids m \<union> range (mo_uuid R n)"
  by (rule subset_trans [OF used_creations(3)], blast) (rule used_drawn, rule used_creations)+

interpretation mc: store_contract "memory_store R" "good_world R" "undrawn R" for R
proof
  show "keeps (good_world R) (st_CreateOrders (memory_store R) t ords)" for R t ords
    by (simp add: memory_store_def) (rule keeps_write; simp add: mem_step.create_orders fresh_ids_drawn used_intros)
  show "keeps (good_world R) (st_ListOrders (memory_store R) t status cursor limit)" for R t status cursor limit
    by (simp add: memory_store_def) (rule keeps_read; simp add: mem_RequeueWebhookDLQ_def mem_RequeueWebhookDLQBulk_def mem_DeleteWebhookDLQBulk_def)
  show "keeps (good_world R) (st_GetRoute (memory_store R) t k)" for R t k
    by (simp add: memory_store_def) (rule keeps_read; simp add: mem_RequeueWebhookDLQ_def mem_RequeueWebhookDLQBulk_def mem_DeleteWebhookDLQBulk_def)
  show "keeps (good_world R) (st_ListRoutes (memory_store R) t cursor limit)" for R t cursor limit
    by (simp add: memory_store_def) (rule keeps_read; simp add: mem_RequeueWebhookDLQ_def mem_RequeueWebhookDLQBulk_def mem_DeleteWebhookDLQBulk_def)
  show "keeps (good_world R) (st_PlanRoutes (memory_store R) req)" for R req
    by (simp add: memory_store_def) (rule keeps_write; simp add: drawn_steps drawn_used)
  show "keeps (good_world R) (st_InsertDriverEvents (memory_store R) t evs)" for R t evs
    by (simp add: memory_store_def) (rule keeps_read; simp add: mem_RequeueWebhookDLQ_def mem_RequeueWebhookDLQBulk_def mem_DeleteWebhookDLQBulk_def)
  show "keeps (good_world R) (st_CreatePoD (memory_store R) pod)" for R pod
    by (simp add: memory_store_def) (rule keeps_read; simp add: mem_RequeueWebhookDLQ_def mem_RequeueWebhookDLQBulk_def mem_DeleteWebhookDLQBulk_def)
  show "keeps (good_world R) (st_CreateSubscription (memory_store R) sub)" for R sub
    by (simp add: memory_store_def) (rule keeps_write; simp add: drawn_steps drawn_used)
  show "keeps (good_world R) (st_ListSubscriptions (memory_store R) t cursor limit)" for R t cursor limit
    by (simp add: memory_store_def) (rule keeps_read; auto dest: mem_ListSubscriptions_panic split: sum.split)
  show "keeps (good_world R) (st_DeleteSubscription (memory_store R) t k)" for R t k
    by (simp add: memory_store_def) (rule keeps_write; simp add: mem_step.delete_subscription used_same used_intros)
  show "keeps (good_world R) (st_AdvanceRoute (memory_store R) t k adv)" for R t k adv
    by (simp add: memory_store_def) (rule keeps_write; simp add: mem_step.advance_route used_same used_intros)
  show "keeps (good_world R) (st_UpdateHOS (memory_store R) t d upd)" for R t d upd
    by (simp add: memory_store_def) (rule keeps_write; simp add: hos_call)
  show "keeps (good_world R) (st_CreateGeofence (memory_store R) t inp)" for R t inp
    by (simp add: memory_store_def) (rule keeps_write; simp add: drawn_steps drawn_used)
  show "keeps (good_world R) (st_ListGeofences (memory_store R) t cursor limit)" for R t cursor limit
    by (simp add: memory_store_def) (rule keeps_read; simp add: mem_RequeueWebhookDLQ_def mem_RequeueWebhookDLQBulk_def mem_DeleteWebhookDLQBulk_def)
  show "keeps (good_world R) (st_GetGeofence (memory_store R) t k)" for R t k
    by (simp add: memory_store_def) (rule keeps_read; simp add: mem_RequeueWebhookDLQ_def mem_RequeueWebhookDLQBulk_def mem_DeleteWebhookDLQBulk_def)
  show "keeps (good_world R) (st_PatchGeofence (memory_store R) t k inp)" for R t k inp
    by (simp add: memory_store_def) (rule keeps_write; simp add: mem_step.patch_geofence used_same used_intros)
  show "keeps (good_world R) (st_DeleteGeofence (memory_store R) t k)" for R t k
    by (simp add: memory_store_def) (rule keeps_write; simp add: mem_step.delete_geofence used_same used_intros)
  show "keeps (good_world R) (st_EnqueueWebhook (memory_store R) t sid ev url sec pl)" for R t sid ev url sec pl
    by (simp add: memory_store_def) (rule keeps_write; simp add: drawn_steps drawn_used)
  show "keeps (good_world R) (st_ListWebhookDeliveries (memory_store R) t status cursor limit)" for R t status cursor limit
    by (simp add: memory_store_def) (rule keeps_read; simp add: mem_RequeueWebhookDLQ_def mem_RequeueWebhookDLQBulk_def mem_DeleteWebhookDLQBulk_def)
  show "keeps (good_world R) (st_RetryWebhookDelivery (memory_store R) t k)" for R t k
    by (simp add: memory_store_def) (rule keeps_write; simp add: mem_step.retry used_same used_intros)
  show "keeps (good_world R) (st_RouteStats (memory_store R) t planDate)" for R t planDate
    by (simp add: memory_store_def) (rule keeps_read; simp add: mem_RequeueWebhookDLQ_def mem_RequeueWebhookDLQBulk_def mem_DeleteWebhookDLQBulk_def)
  show "keeps (good_world R) (st_WebhookMetrics (memory_store R) q buckets)" for R q buckets
    by (simp add: memory_store_def) (rule keeps_read; simp add: mem_RequeueWebhookDLQ_def mem_RequeueWebhookDLQBulk_def mem_DeleteWebhookDLQBulk_def)
  show "keeps (good_world R) (st_ListPlanMetrics (memory_store R) t planDate algo)" for R t planDate algo
    by (simp add: memory_store_def) (rule keeps_read; simp add: mem_RequeueWebhookDLQ_def mem_RequeueWebhookDLQBulk_def mem_DeleteWebhookDLQBulk_def)
  show "keeps (good_world R) (st_ListPlanMetricsWeights (memory_store R) t planDate algo)" for R t planDate algo
    by (simp add: memory_store_def) (rule keeps_read; simp add: mem_RequeueWebhookDLQ_def mem_RequeueWebhookDLQBulk_def mem_DeleteWebhookDLQBulk_def)
  show "keeps (good_world R) (st_GetOptimizerConfig (memory_store R) t)" for R t
    by (simp add: memory_store_def) (rule keeps_read; simp add: mem_RequeueWebhookDLQ_def mem_RequeueWebhookDLQBulk_def mem_DeleteWebhookDLQBulk_def)
  show "keeps (good_world R) (st_SaveOptimizerConfig (memory_store R) t cfg)" for R t cfg
    by (simp add: memory_store_def) (rule keeps_write; simp add: mem_step.save_config used_same used_intros)
  show "keeps (good_world R) (st_FindRoutesByStop (memory_store R) t stop)" for R t stop
    by (simp add: memory_store_def) (rule keeps_read; simp add: mem_RequeueWebhookDLQ_def mem_RequeueWebhookDLQBulk_def mem_DeleteWebhookDLQBulk_def)
  show "keeps (good_world R) (st_ListActiveRoutesForDriver (memory_store R) t d)" for R t d
    by (simp add: memory_store_def) (rule keeps_read; simp add: mem_RequeueWebhookDLQ_def mem_RequeueWebhookDLQBulk_def mem_DeleteWebhookDLQBulk_def)
  show "keeps (good_world R) (st_ListWebhookDLQ (memory_store R) t dq cursor limit)" for R t dq cursor limit
    by (simp add: memory_store_def) (rule keeps_read; simp add: mem_RequeueWebhookDLQ_def mem_RequeueWebhookDLQBulk_def mem_DeleteWebhookDLQBulk_def)
  show "keeps (good_world R) (st_RequeueWebhookDLQ (memory_store R) t k)" for R t k
    by (simp add: memory_store_def) (rule keeps_read; simp add: mem_RequeueWebhookDLQ_def mem_RequeueWebhookDLQBulk_def mem_DeleteWebhookDLQBulk_def)
  show "keeps (good_world R) (st_RequeueWebhookDLQBulk (memory_store R) t ks)" for R t ks
    by (simp add: memory_store_def) (rule keeps_read; simp add: mem_RequeueWebhookDLQ_def mem_RequeueWebhookDLQBulk_def mem_DeleteWebhookDLQBulk_def)
  show "keeps (good_world R) (st_DeleteWebhookDLQBulk (memory_store R) t ks older)" for R t ks older
    by (simp add: memory_store_def) (rule keeps_read; simp add: mem_RequeueWebhookDLQ_def mem_RequeueWebhookDLQBulk_def mem_DeleteWebhookDLQBulk_def)
  show "good_world R s \<Longrightarrow> undrawn R s k \<Longrightarrow> good_world R (fst (st_AssignRoute (memory_store R) t k d v now s)) \<and>
      snd (st_AssignRoute (memory_store R) t k d v now s) \<noteq> Panic CloseClosed \<and> snd (st_AssignRoute (memory_store R) t k d v now s) \<noteq> Panic SendClosed"
    for R s t k d v now
    by (simp add: memory_store_def snd_draw) (rule good_route_write, assumption+, (simp, rule mem_step.assign_route), (simp, rule used_route_writes))
  show "good_world R s \<Longrightarrow> undrawn R s k \<Longrightarrow> good_world R (fst (st_PatchRoute (memory_store R) t k p s)) \<and>
      snd (st_PatchRoute (memory_store R) t k p s) \<noteq> Panic CloseClosed \<and> snd (st_PatchRoute (memory_store R) t k p s) \<noteq> Panic SendClosed"
    for R s t k p
    by (simp add: memory_store_def snd_draw) (rule good_route_write, assumption+, (simp, rule mem_step.patch_route), (simp, rule used_route_writes))
qed

section \<open>The publisher over the interface\<close>

text \<open>
  The publisher over the whole interface does what it does over the two methods it uses: the identifiers
  and the clock are those of the calls that follow.
\<close>

definition next_draws :: "mem_oracle \<Rightarrow> nat \<Rightarrow> nat \<Rightarrow> time \<times> string" where
  "next_draws R n i = (mo_now R (n + i), mo_uuid R (n + i) 0)"

lemma emit_loop_world:
  "mw_calls w = n + i \<Longrightarrow> mw_mem (emit_loop (publisher_of (memory_store R)) t ev body dr j ss w) =
    emit_loop memory_publish_store t ev body (next_draws R n) i ss (mw_mem w)"
proof (induction ss arbitrary: w i j)
  case Nil
  then show ?case by simp
next
  case (Cons s ss)
  obtain m' k where e: "mem_EnqueueWebhook (mo_now R (n + i)) (mo_uuid R (n + i) 0) (mw_mem w) t (sub_ID s) ev (sub_URL s) (sub_Secret s) body = (m', k)"
    by (cases "mem_EnqueueWebhook (mo_now R (n + i)) (mo_uuid R (n + i) 0) (mw_mem w) t (sub_ID s) ev (sub_URL s) (sub_Secret s) body")
  have "emit_loop (publisher_of (memory_store R)) t ev body dr j (s # ss) w =
      emit_loop (publisher_of (memory_store R)) t ev body dr (j + 1) ss \<lparr>mw_mem = m', mw_calls = mw_calls w + 1\<rparr>"
    by (simp add: publisher_of_def memory_store_def draw_def Cons.prems e)
  with Cons.IH [of "\<lparr>mw_mem = m', mw_calls = mw_calls w + 1\<rparr>" "i + 1"] Cons.prems e show ?case
    by (simp add: memory_publish_store_def next_draws_def)
qed

lemma Emit_world:
  "mw_mem (Emit (publisher_of (memory_store R)) marshal fmt now dr w t ev data) =
    Emit memory_publish_store marshal fmt now (next_draws R (mw_calls w)) (mw_mem w) t ev data"
proof -
  have "pb_subscriptions (publisher_of (memory_store R)) w t ev = pb_subscriptions memory_publish_store (mw_mem w) t ev"
    by (simp add: publisher_of_def memory_store_def memory_publish_store_def draw_def)
  with emit_loop_world [of w "mw_calls w" 0 R] show ?thesis by (simp add: Emit_def split: sum.split)
qed

lemma next_draws_fresh:
  assumes "good_world R w"
  shows "fresh_draws (mw_mem w) (next_draws R (mw_calls w)) 0 n"
proof -
  have inj: "mo_uuid R n i = mo_uuid R n' i' \<Longrightarrow> n = n'" and ne: "mo_uuid R n i \<noteq> ''''" for n i n' i'
    using assms unfolding good_world_def oracle_ok_def by blast+
  have "deliveries (mw_mem w) (mo_uuid R (mw_calls w + j) 0) = None" for j
  proof (rule ccontr)
    assume "deliveries (mw_mem w) (mo_uuid R (mw_calls w + j) 0) \<noteq> None"
    then have "mo_uuid R (mw_calls w + j) 0 \<in> used_ids (mw_mem w)" by (auto simp: used_ids_def)
    with assms show False using le_add1 [of "mw_calls w" j] unfolding good_world_def undrawn_def by blast
  qed
  with ne inj show ?thesis by (fastforce simp: fresh_draws_def next_draws_def distinct_map inj_on_def)
qed

text \<open>An emitted event reaches every subscription to it, also through the whole interface.\<close>

lemma Emit_world_reaches:
  assumes "good_world R w" and "s \<in> set (subs (mw_mem w) t)" and "ev \<in> set (sub_Events s)"
  shows "\<exists>d. delivery_view (mw_mem (Emit (publisher_of (memory_store R)) marshal fmt now dr w t ev data)) d =
    Some (pending_delivery d t ev (marshal (emit_payload fmt now t ev data)) s)"
proof -
  define ss where "ss = filter (subscribes ev) (subs (mw_mem w) t)"
  have inv: "deliveries_inv (mw_mem w)" using assms(1) mem_reachable_inv by (auto simp: good_world_def store_inv_def)
  have "s \<in> set ss" using assms(2,3) by (simp add: ss_def subscribes_iff)
  then obtain j where j: "j < length ss" "ss ! j = s" by (meson in_set_conv_nth)
  then have "Emit memory_publish_store marshal fmt now (next_draws R (mw_calls w)) (mw_mem w) t ev data =
      emit_loop memory_publish_store t ev (marshal (emit_payload fmt now t ev data)) (next_draws R (mw_calls w)) 0 ss (mw_mem w)"
    by (auto simp: Emit_def memory_publish_store_def mem_GetSubscriptionsForEvent_def ss_def)
  with emit_loop_memory [OF inv next_draws_fresh [OF assms(1), of "length ss"], of t ev] j
  have "delivery_view (Emit memory_publish_store marshal fmt now (next_draws R (mw_calls w)) (mw_mem w) t ev data)
      (snd (next_draws R (mw_calls w) j)) = Some (pending_delivery (snd (next_draws R (mw_calls w) j)) t ev
        (marshal (emit_payload fmt now t ev data)) s)"
    by (auto simp: Let_def)
  then show ?thesis unfolding Emit_world by blast
qed

end
