(* ===== verification/Api_Safety.thy ===== *)
theory Api_Safety
  imports Http_Server Store_Memory
begin

text \<open>
  What every handler guarantees over a store that keeps its contract (\<open>store_contract\<close>): the store and
  the broker stay well-formed, the channels of the clients stay as they are (but for the one a stream opens),
  no operation of the broker panics, and replies are well-typed.

  \<open>fine good b out\<close> says this of the result of a handler that started with the broker \<open>b\<close>. There is one rule for
  each step a handler is made of (\<open>fine_rules\<close>), so that the proof for a handler follows its text.
\<close>

section \<open>Well-typed replies\<close>

text \<open>A JSON body comes with its content type; a problem document is an error and repeats the status.\<close>

definition typed_response :: "response \<Rightarrow> bool" where
  "typed_response rs \<longleftrightarrow>
     (case rs_Body rs of
        Json v \<Rightarrow> (''Content-Type'', ''application/json'') \<in> set (rs_Header rs) \<and>
          (case v of JProblem p \<Rightarrow> pb_Status p = rs_Status rs \<and> 400 \<le> rs_Status rs \<and> pb_Type p = ''about:blank'' | _ \<Rightarrow> True)
      | _ \<Rightarrow> True)"

definition typed_reply :: "reply \<Rightarrow> bool" where
  "typed_reply p \<longleftrightarrow> (case p of Reply rs \<Rightarrow> typed_response rs | _ \<Rightarrow> True)"

lemma typed_writers [simp]:
  "(\<And>p. v \<noteq> JProblem p) \<Longrightarrow> typed_reply (writeJSON s v)"
  "400 \<le> s \<Longrightarrow> typed_reply (writeProblem s a b c)"
  "typed_reply (writeHeader s)"
  "typed_reply (http_error s msg)"
  "typed_reply moved"
  by (auto simp: typed_reply_def typed_response_def writeJSON_def writeProblem_def writeHeader_def http_error_def moved_def
      split: jval.splits)

lemma typed_page [simp]: "(\<And>p. v \<noteq> JProblem p) \<Longrightarrow> typed_reply (page_reply v next)"
  by (simp add: page_reply_def)

definition env_typed :: "'s env \<Rightarrow> bool" where
  "env_typed E \<longleftrightarrow> (\<forall>r. typed_response (en_metrics E r)) \<and> (\<forall>r rs. en_upgrade E r = Some rs \<longrightarrow> typed_response rs)"

section \<open>Results of handlers\<close>

definition later :: "('s \<Rightarrow> bool) \<Rightarrow> broker \<Rightarrow> 's server \<Rightarrow> bool" where
  "later good b sv \<longleftrightarrow> good (sv_store sv) \<and> broker_inv (sv_broker sv) \<and> subscribed (sv_broker sv) = subscribed b \<and>
     length (br_chans (sv_broker sv)) = length (br_chans b)"

definition is_reply :: "reply \<Rightarrow> bool" where
  "is_reply p \<longleftrightarrow> (case p of Reply _ \<Rightarrow> True | Upgrades \<Rightarrow> True | _ \<Rightarrow> False)"

definition fine :: "('s \<Rightarrow> bool) \<Rightarrow> broker \<Rightarrow> 's server \<times> reply \<Rightarrow> bool" where
  "fine good b out \<longleftrightarrow>
     (case snd out of
        Streams r c txt \<Rightarrow> good (sv_store (fst out)) \<and> broker_inv (sv_broker (fst out)) \<and> c = length (br_chans b) \<and>
          (\<forall>r' c'. subscribed (sv_broker (fst out)) r' c' \<longleftrightarrow> subscribed b r' c' \<or> r' = r \<and> c' = c) \<and>
          length (br_chans (sv_broker (fst out))) = length (br_chans b) + 1
      | Aborts p \<Rightarrow> later good b (fst out) \<and> p \<noteq> CloseClosed \<and> p \<noteq> SendClosed
      | _ \<Rightarrow> later good b (fst out) \<and> typed_reply (snd out))"

named_theorems fine_rules \<open>one rule for each kind of step of a handler\<close>

lemma fine_reply [fine_rules]: "later good b sv \<Longrightarrow> is_reply p \<Longrightarrow> typed_reply p \<Longrightarrow> fine good b (sv, p)"
  by (auto simp: fine_def is_reply_def split: reply.splits)

lemma is_reply_simps [simp]:
  "is_reply (writeJSON s v)" "is_reply (writeProblem s a x y)" "is_reply (writeHeader s)" "is_reply (http_error s msg)"
  "is_reply moved" "is_reply (page_reply v next)" "is_reply (Reply rs)" "is_reply Upgrades"
  by (simp_all add: is_reply_def writeJSON_def writeProblem_def writeHeader_def http_error_def moved_def page_reply_def)

lemma fine_if [fine_rules]: "(c \<Longrightarrow> fine good b x) \<Longrightarrow> (\<not> c \<Longrightarrow> fine good b y) \<Longrightarrow> fine good b (if c then x else y)"
  by simp

lemma fine_prod [fine_rules]: "(\<And>x y. z = (x, y) \<Longrightarrow> fine good b (f x y)) \<Longrightarrow> fine good b (case z of (x, y) \<Rightarrow> f x y)"
  by (cases z) simp

lemma fine_option [fine_rules]:
  "(z = None \<Longrightarrow> fine good b x) \<Longrightarrow> (\<And>y. z = Some y \<Longrightarrow> fine good b (f y)) \<Longrightarrow>
    fine good b (case z of None \<Rightarrow> x | Some y \<Rightarrow> f y)"
  by (cases z) simp_all

lemma fine_sum [fine_rules]:
  "(\<And>x. z = Inl x \<Longrightarrow> fine good b (f x)) \<Longrightarrow> (\<And>y. z = Inr y \<Longrightarrow> fine good b (g y)) \<Longrightarrow>
    fine good b (case z of Inl x \<Rightarrow> f x | Inr y \<Rightarrow> g y)"
  by (cases z) simp_all

lemma fine_with_body [fine_rules]:
  "later good b sv \<Longrightarrow> (\<And>x. fine good b (k x)) \<Longrightarrow> fine good b (with_body decode r sv k)"
  unfolding with_body_def by (rule fine_prod, rule fine_option) (auto intro: fine_reply)

lemma fine_on_store [fine_rules]:
  assumes "keeps good f" and "later good b sv" and "\<And>sv res. later good b sv \<Longrightarrow> fine good b (k sv res)"
  shows "fine good b (on_store f sv k)"
proof -
  have g: "good (fst (f (sv_store sv)))" "snd (f (sv_store sv)) \<noteq> Panic CloseClosed" "snd (f (sv_store sv)) \<noteq> Panic SendClosed"
    using assms(1,2) by (auto simp: keeps_def later_def)
  have "later good b (sv\<lparr>sv_store := s\<rparr>)" if "good s" for s using assms(2) that by (simp add: later_def)
  with g assms(3) show ?thesis
    unfolding on_store_def by (cases "f (sv_store sv)"; cases "snd (f (sv_store sv))") (auto simp: fine_def)
qed

lemma fine_on_result [fine_rules]:
  "keeps good f \<Longrightarrow> later good b sv \<Longrightarrow> 400 \<le> status \<Longrightarrow> (\<And>sv x. later good b sv \<Longrightarrow> fine good b (k sv x)) \<Longrightarrow>
    fine good b (on_result f r status title sv k)"
  unfolding on_result_def by (rule fine_on_store, assumption+, rule fine_sum, rule fine_reply) auto

lemma fine_with_principal:
  assumes "later good b sv" and "\<And>sv' pr. later good b sv' \<Longrightarrow> sv_store sv' = sv_store sv \<Longrightarrow> fine good b (k sv' pr)"
  shows "fine good b (with_principal E D r sv k)"
proof -
  obtain sv' res where gp: "getPrincipal (en_L E) (dr_auth D) r sv = (sv', res)" by (cases "getPrincipal (en_L E) (dr_auth D) r sv")
  have f: "sv_store sv' = sv_store sv" "sv_broker sv' = sv_broker sv"
    using getPrincipal_frame(1,2) [of "en_L E" "dr_auth D" r sv] by (simp_all add: gp)
  have l: "later good b sv'" using assms(1) by (simp add: later_def f)
  show ?thesis
  proof (cases res)
    case (Inl p)
    have "p = SliceBounds \<or> p = NilDeref" using getPrincipal_panic [of "en_L E" "dr_auth D" r sv p] by (simp add: gp Inl)
    with l show ?thesis by (auto simp: with_principal_def gp Inl fine_def)
  next
    case (Inr pr)
    with assms(2) [OF l f(1)] show ?thesis by (simp add: with_principal_def gp)
  qed
qed

lemma fine_with_principal' [fine_rules]:
  "later good b sv \<Longrightarrow> (\<And>sv pr. later good b sv \<Longrightarrow> fine good b (k sv pr)) \<Longrightarrow> fine good b (with_principal E D r sv k)"
  by (rule fine_with_principal)

lemma fine_on_publish [fine_rules]:
  assumes "later good b sv" and "\<And>sv. later good b sv \<Longrightarrow> fine good b (k sv)"
  shows "fine good b (on_publish r evt sv k)"
proof -
  have inv: "broker_inv (sv_broker sv)" using assms(1) by (simp add: later_def)
  obtain b' p where pb: "Publish r evt (sv_broker sv) = (b', p)" by (cases "Publish r evt (sv_broker sv)")
  have "p = None" using mailboxes_Publish(2) [OF inv, of r evt] by (simp add: pb)
  moreover have "later good b (sv\<lparr>sv_broker := b'\<rparr>)"
    using assms(1) broker_inv_Publish [OF inv, of r evt] Publish_open [OF inv, of r evt] subscribed_Publish [of r evt "sv_broker sv"]
    by (simp add: later_def pb)
  ultimately show ?thesis using assms(2) by (simp add: on_publish_def pb)
qed

lemma fine_publish_seq [fine_rules]:
  "later good b sv \<Longrightarrow> (\<And>sv. later good b sv \<Longrightarrow> fine good b (k sv)) \<Longrightarrow> fine good b (publish_seq es sv k)"
  by (induction es arbitrary: sv) (simp_all add: fine_on_publish)

section \<open>Over a store that keeps its contract\<close>

context store_contract
begin

lemma good_emit_loop: "good s \<Longrightarrow> good (emit_loop (publisher_of M) t ev body draws i ss s)"
proof (induction ss arbitrary: i s)
  case Nil
  then show ?case by simp
next
  case (Cons sub ss)
  with keepsD [OF keeps_EnqueueWebhook] show ?case by (simp add: publisher_of_def)
qed

lemma later_emit [fine_rules]:
  assumes "later good b sv" and "en_M E = M"
  shows "later good b (emit_event E now t ev data sv)"
  using assms(1) unfolding later_def emit_event_def Emit_def assms(2) by (auto intro: good_emit_loop split: sum.splits)

lemma fine_advance_by_events [fine_rules]:
  assumes "en_M E = M" and "later good b sv" and "\<And>sv adv. later good b sv \<Longrightarrow> fine good b (k sv adv)"
  shows "fine good b (advance_by_events E D t es sv k)"
  using assms(2)
proof (induction es arbitrary: sv)
  case Nil
  then show ?case by (simp add: assms(3))
next
  case (Cons e es)
  then show ?case
    by (auto simp: assms(1) intro!: fine_on_store keeps_AdvanceRoute fine_if fine_sum assms(3) later_emit)
qed

lemma fine_broadcast [fine_rules]:
  assumes "en_M E = M" and "later good b sv" and "\<And>sv. later good b sv \<Longrightarrow> fine good b (k sv)"
  shows "fine good b (broadcast E D t ty data i rids sv k)"
  using assms(2)
proof (induction rids arbitrary: i sv)
  case Nil
  then show ?case by (simp add: assms(3))
next
  case (Cons rid rids)
  then show ?case by (auto simp: Let_def intro!: fine_on_publish later_emit assms(1))
qed

lemma fine_attach_weights [fine_rules]:
  assumes "en_M E = M" and "later good b sv" and "\<And>sv items. later good b sv \<Longrightarrow> fine good b (k sv items)"
  shows "fine good b (attach_weights E t d its items sv k)"
  using assms(2)
proof (induction its arbitrary: items sv)
  case Nil
  then show ?case by (simp add: assms(3))
next
  case (Cons it its)
  then show ?case by (auto simp: assms(1) Let_def intro!: fine_on_store keeps_ListPlanMetricsWeights)
qed

text \<open>The steps of each handler, in order.\<close>

lemma fine_text: "later good b sv \<Longrightarrow> fine good b (sv, Reply \<lparr>rs_Status = n, rs_Header = hs, rs_Body = Text s\<rparr>)"
  by (simp add: fine_reply typed_reply_def typed_response_def)

lemma fine_OrdersHandler:
  assumes e: "en_M E = M" and l: "later good b sv"
  shows "fine good b (OrdersHandler E D r sv)"
  unfolding OrdersHandler_def Let_def
  by (rule fine_rules kept [folded e] fine_text e l | assumption | simp)+

lemma fine_OptimizeHandler:
  assumes e: "en_M E = M" and l: "later good b sv"
  shows "fine good b (OptimizeHandler E D r sv)"
  unfolding OptimizeHandler_def Let_def
  by (rule fine_rules kept [folded e] fine_text e l | assumption | simp)+

lemma fine_OptimizerConfigHandler:
  assumes e: "en_M E = M" and l: "later good b sv"
  shows "fine good b (OptimizerConfigHandler E D r sv)"
  unfolding OptimizerConfigHandler_def Let_def
  by (rule fine_rules kept [folded e] fine_text e l | assumption | simp)+

lemma fine_DriverEventsHandler:
  assumes e: "en_M E = M" and l: "later good b sv"
  shows "fine good b (DriverEventsHandler E D r sv)"
  unfolding DriverEventsHandler_def Let_def
  by (rule fine_rules kept [folded e] fine_text e l | assumption | simp)+

lemma fine_PoDHandler:
  assumes e: "en_M E = M" and l: "later good b sv"
  shows "fine good b (PoDHandler E D r sv)"
  unfolding PoDHandler_def Let_def
  by (rule fine_rules kept [folded e] fine_text e l | assumption | simp)+

lemma fine_SubscriptionsHandler:
  assumes e: "en_M E = M" and l: "later good b sv"
  shows "fine good b (SubscriptionsHandler E D r sv)"
  unfolding SubscriptionsHandler_def Let_def
  by (rule fine_rules kept [folded e] fine_text e l | assumption | simp)+

lemma fine_SubscriptionByIDHandler:
  assumes e: "en_M E = M" and l: "later good b sv"
  shows "fine good b (SubscriptionByIDHandler E D r sv)"
  unfolding SubscriptionByIDHandler_def Let_def
  by (rule fine_rules kept [folded e] fine_text e l | assumption | simp)+

lemma fine_DriversHandler:
  assumes e: "en_M E = M" and l: "later good b sv"
  shows "fine good b (DriversHandler E D r sv)"
  unfolding DriversHandler_def Let_def
  by (rule fine_rules kept [folded e] fine_text e l | assumption | simp)+

lemma fine_GeofencesHandler:
  assumes e: "en_M E = M" and l: "later good b sv"
  shows "fine good b (GeofencesHandler E D r sv)"
  unfolding GeofencesHandler_def Let_def
  by (rule fine_rules kept [folded e] fine_text e l | assumption | simp)+

lemma fine_GeofenceByIDHandler:
  assumes e: "en_M E = M" and l: "later good b sv"
  shows "fine good b (GeofenceByIDHandler E D r sv)"
  unfolding GeofenceByIDHandler_def Let_def
  by (rule fine_rules kept [folded e] fine_text e l | assumption | simp)+

lemma fine_MediaPresignHandler:
  assumes e: "en_M E = M" and l: "later good b sv"
  shows "fine good b (MediaPresignHandler E D r sv)"
  unfolding MediaPresignHandler_def Let_def
  by (rule fine_rules kept [folded e] fine_text e l | assumption | simp)+

lemma fine_ETAStreamHandler:
  assumes e: "en_M E = M" and l: "later good b sv"
  shows "fine good b (ETAStreamHandler E D r sv)"
  unfolding ETAStreamHandler_def Let_def
  by (rule fine_rules kept [folded e] fine_text e l | assumption | simp)+

lemma fine_HealthHandler:
  assumes e: "en_M E = M" and l: "later good b sv"
  shows "fine good b (HealthHandler E D r sv)"
  unfolding HealthHandler_def Let_def
  by (rule fine_rules kept [folded e] fine_text e l | assumption | simp)+

lemma fine_ReadyHandler:
  assumes e: "en_M E = M" and l: "later good b sv"
  shows "fine good b (ReadyHandler E D r sv)"
  unfolding ReadyHandler_def Let_def
  by (rule fine_rules kept [folded e] fine_text e l | assumption | simp)+

lemma fine_OpenAPIHandler:
  assumes e: "en_M E = M" and l: "later good b sv"
  shows "fine good b (OpenAPIHandler E D r sv)"
  unfolding OpenAPIHandler_def Let_def
  by (rule fine_rules kept [folded e] fine_text e l | assumption | simp)+

lemma fine_DocsHandler:
  assumes e: "en_M E = M" and l: "later good b sv"
  shows "fine good b (DocsHandler E D r sv)"
  unfolding DocsHandler_def Let_def
  by (rule fine_rules kept [folded e] fine_text e l | assumption | simp)+

lemma fine_RoutesIndexHandler:
  assumes e: "en_M E = M" and l: "later good b sv"
  shows "fine good b (RoutesIndexHandler E D r sv)"
  unfolding RoutesIndexHandler_def Let_def
  by (rule fine_rules kept [folded e] fine_text e l | assumption | simp)+

lemma fine_AdminOptimizerConfigHandler:
  assumes e: "en_M E = M" and l: "later good b sv"
  shows "fine good b (AdminOptimizerConfigHandler E D r sv)"
  unfolding AdminOptimizerConfigHandler_def forbidden_admin_def Let_def
  by (rule fine_rules kept [folded e] fine_text e l | assumption | simp)+

lemma fine_WebhookDeliveriesHandler:
  assumes e: "en_M E = M" and l: "later good b sv"
  shows "fine good b (WebhookDeliveriesHandler E D r sv)"
  unfolding WebhookDeliveriesHandler_def forbidden_admin_def Let_def
  by (rule fine_rules kept [folded e] fine_text e l | assumption | simp)+

lemma fine_WebhookDeliveryRetryHandler:
  assumes e: "en_M E = M" and l: "later good b sv"
  shows "fine good b (WebhookDeliveryRetryHandler E D r sv)"
  unfolding WebhookDeliveryRetryHandler_def forbidden_admin_def Let_def
  by (rule fine_rules kept [folded e] fine_text e l | assumption | simp)+

lemma fine_WebhookMetricsHandler:
  assumes e: "en_M E = M" and l: "later good b sv"
  shows "fine good b (WebhookMetricsHandler E D r sv)"
  unfolding WebhookMetricsHandler_def forbidden_admin_def Let_def
  by (rule fine_rules kept [folded e] fine_text e l | assumption | simp)+

lemma fine_RouteStatsHandler:
  assumes e: "en_M E = M" and l: "later good b sv"
  shows "fine good b (RouteStatsHandler E D r sv)"
  unfolding RouteStatsHandler_def forbidden_admin_def Let_def
  by (rule fine_rules kept [folded e] fine_text e l | assumption | simp)+

lemma fine_PlanMetricsHandler:
  assumes e: "en_M E = M" and l: "later good b sv"
  shows "fine good b (PlanMetricsHandler E D r sv)"
  unfolding PlanMetricsHandler_def forbidden_admin_def Let_def
  by (rule fine_rules kept [folded e] fine_text e l | assumption | simp)+

lemma fine_PlanMetricsWeightsHandler:
  assumes e: "en_M E = M" and l: "later good b sv"
  shows "fine good b (PlanMetricsWeightsHandler E D r sv)"
  unfolding PlanMetricsWeightsHandler_def forbidden_admin_def Let_def
  by (rule fine_rules kept [folded e] fine_text e l | assumption | simp)+

lemma fine_GraphQLHTTPHandler:
  assumes e: "en_M E = M" and l: "later good b sv"
  shows "fine good b (GraphQLHTTPHandler E D r sv)"
  unfolding GraphQLHTTPHandler_def Let_def
  by (rule fine_rules kept [folded e] fine_text e l | assumption | simp)+

lemma fine_index_page:
  assumes e: "en_M E = M" and l: "later good b sv"
  shows "fine good b (index_page E D r sv)"
  unfolding index_page_def Let_def
  by (rule fine_rules kept [folded e] fine_text e l | assumption | simp)+

lemma fine_dlq:
  assumes e: "en_M E = M" and l: "later good b sv"
  shows "fine good b (dlq_list E D r p sv)" and "fine good b (dlq_requeue E r p sv)" and "fine good b (dlq_delete E D r p sv)"
  unfolding dlq_list_def dlq_requeue_def dlq_delete_def Let_def
  by (rule fine_rules kept [folded e] fine_text e l | assumption | simp)+

lemma fine_WebhookDLQHandler:
  assumes e: "en_M E = M" and l: "later good b sv"
  shows "fine good b (WebhookDLQHandler E D r sv)"
  unfolding WebhookDLQHandler_def forbidden_admin_def Let_def
  by (rule fine_dlq fine_rules kept [folded e] fine_text e l | assumption | simp)+

lemma fine_upgrade:
  "env_typed E \<Longrightarrow> later good b sv \<Longrightarrow> fine good b (GraphQLWSHandler E D r sv)"
  "env_typed E \<Longrightarrow> later good b sv \<Longrightarrow> fine good b (metrics_page E D r sv)"
  unfolding GraphQLWSHandler_def metrics_page_def
  by (rule fine_rules | assumption | simp add: env_typed_def typed_reply_def)+

text \<open>Streams: the one reply that leaves a new channel behind.\<close>

lemma fine_open_stream:
  assumes "later good b sv"
  shows "fine good b (open_stream E D r k sv)"
proof (cases "wr_Flusher (hr_Writer r)")
  case True
  have inv: "broker_inv (sv_broker sv)" using assms by (simp add: later_def)
  obtain b' c where sub: "Subscribe k (sv_broker sv) = (b', c)" by (cases "Subscribe k (sv_broker sv)")
  with True assms broker_inv_Subscribe [OF inv, of k] subscribed_Subscribe [of k "sv_broker sv"] snd_Subscribe [of k "sv_broker sv"]
    chans_Subscribe [of k "sv_broker sv"] show ?thesis
    by (simp add: open_stream_def fine_def later_def)
next
  case False
  with assms show ?thesis by (simp add: open_stream_def fine_reply)
qed

lemma fine_stream_route:
  assumes e: "en_M E = M" and l: "later good b sv"
  shows "fine good b (stream_route E D r k sv)"
  unfolding stream_route_def Let_def
  by (rule fine_open_stream fine_rules kept [folded e] e l | assumption | simp)+

lemma fine_route_handlers:
  assumes e: "en_M E = M" and l: "later good b sv"
  shows "fine good b (advance_route E D r k sv)" and "fine good b (get_route E r k sv)"
  unfolding advance_route_def get_route_def Let_def
  by (rule fine_rules kept [folded e] e l | assumption | simp add: l later_emit [OF _ e] split: if_split)+

lemma fine_on_store_free:
  assumes "\<And>s. good s \<Longrightarrow> free s x \<Longrightarrow> good (fst (f s)) \<and> snd (f s) \<noteq> Panic CloseClosed \<and> snd (f s) \<noteq> Panic SendClosed"
    and "later good b sv" and "free (sv_store sv) x" and "400 \<le> status" and "\<And>sv y. later good b sv \<Longrightarrow> fine good b (k sv y)"
  shows "fine good b (on_result f r status title sv k)"
proof -
  have "good (sv_store sv)" using assms(2) by (simp add: later_def)
  with assms(1,3) have g: "good (fst (f (sv_store sv)))" "snd (f (sv_store sv)) \<noteq> Panic CloseClosed" "snd (f (sv_store sv)) \<noteq> Panic SendClosed"
    by auto
  have l: "later good b (sv\<lparr>sv_store := s\<rparr>)" if "good s" for s using assms(2) that by (simp add: later_def)
  from g l assms(4,5) show ?thesis
    unfolding on_result_def on_store_def
    by (cases "f (sv_store sv)"; cases "snd (f (sv_store sv))") (auto simp: fine_def [of _ _ "(_, Aborts _)"] intro: fine_reply)
qed

lemma fine_assign_route:
  assumes e: "en_M E = M" and l: "later good b sv" and "free (sv_store sv) k"
  shows "fine good b (assign_route E D r k sv)"
  unfolding assign_route_def e
  by (rule fine_if fine_with_body fine_with_principal l fine_on_store_free [OF good_AssignRoute] fine_reply
      | assumption | simp add: assms(3) l)+

lemma fine_update_route:
  assumes e: "en_M E = M" and l: "later good b sv" and "free (sv_store sv) k"
  shows "fine good b (update_route E r k sv)"
  unfolding update_route_def e
  by (rule fine_on_store_free [OF good_PatchRoute] l fine_reply | assumption | simp add: assms(3))+

lemma fine_RouteByIDHandler:
  assumes e: "en_M E = M" and l: "later good b sv"
    and "\<And>parts. route_parts (hr_Path r) = Some parts \<Longrightarrow> free (sv_store sv) (parts ! 0)"
  shows "fine good b (RouteByIDHandler E D r sv)"
  unfolding RouteByIDHandler_def Let_def
  by (rule fine_option fine_if fine_reply fine_stream_route fine_route_handlers fine_assign_route fine_update_route e l
      | assumption | simp add: l | erule assms(3))+

text \<open>The routes a request may name: by its path, and by the query of the bridge.\<close>

end

definition route_ids :: "request \<Rightarrow> string set" where
  "route_ids r = {k. \<exists>path parts. route_parts path = Some parts \<and> k = parts ! 0 \<and>
     (path = hr_Path r \<or> path = ''/v1/routes/'' @ hr_Query r ''routeId'' @ ''/events/stream'')}"

context store_contract
begin

lemma fine_bridge:
  assumes e: "en_M E = M" and l: "later good b sv" and "\<forall>k\<in>route_ids r. free (sv_store sv) k"
  shows "fine good b (route_events_bridge E D r sv)"
  unfolding route_events_bridge_def bridged_def Let_def
proof (rule fine_if)
  show "fine good b (sv, http_error 400 ''routeId required'')" using l by (simp add: fine_reply)
  show "fine good b (RouteByIDHandler E D (r\<lparr>hr_Path := ''/v1/routes/'' @ hr_Query r ''routeId'' @ ''/events/stream''\<rparr>) sv)"
    using assms(3) by (intro fine_RouteByIDHandler e l) (auto simp: route_ids_def)
qed

lemmas fine_handlers = fine_OrdersHandler fine_OptimizeHandler fine_OptimizerConfigHandler fine_DriverEventsHandler
  fine_PoDHandler fine_SubscriptionsHandler fine_SubscriptionByIDHandler fine_DriversHandler fine_GeofencesHandler
  fine_GeofenceByIDHandler fine_MediaPresignHandler fine_ETAStreamHandler fine_HealthHandler fine_ReadyHandler
  fine_OpenAPIHandler fine_DocsHandler fine_RoutesIndexHandler fine_AdminOptimizerConfigHandler
  fine_WebhookDeliveriesHandler fine_WebhookDeliveryRetryHandler fine_WebhookMetricsHandler fine_RouteStatsHandler
  fine_PlanMetricsHandler fine_PlanMetricsWeightsHandler fine_GraphQLHTTPHandler fine_index_page fine_WebhookDLQHandler

lemma fine_mux_table:
  assumes e: "en_M E = M" and l: "later good b sv" and "env_typed E" and "\<forall>k\<in>route_ids r. free (sv_store sv) k"
    and "(pat, h) \<in> set mux_table"
  shows "fine good b (h E D r sv)"
proof -
  have "fine good b (RouteByIDHandler E D r sv)"
    using assms(4) by (intro fine_RouteByIDHandler e l) (auto simp: route_ids_def)
  moreover note fine_handlers [OF e l] fine_upgrade [OF assms(3) l] fine_bridge [OF e l assms(4)]
  ultimately have "list_all (\<lambda>(pat, h). fine good b (h E D r sv)) mux_table" by (simp add: mux_table_def)
  with assms(5) show ?thesis by (auto simp: list_all_iff)
qed

theorem fine_serve:
  assumes "en_M E = M" and "env_typed E" and "good (sv_store sv)" and "broker_inv (sv_broker sv)"
    and "\<forall>k\<in>route_ids r. free (sv_store sv) k"
  shows "fine good (sv_broker sv) (serve E D r sv)"
proof -
  have l: "later good (sv_broker sv) sv" using assms(3,4) by (simp add: later_def)
  show ?thesis
  proof (cases E D r sv rule: serve_cases)
    case handler
    with fine_mux_table [OF assms(1) l assms(2,5)] show ?thesis by simp
  qed (use l in \<open>simp_all add: fine_reply\<close>)
qed

end

end
