(* ===== verification/Api_System.thy ===== *)
theory Api_System
  imports Api_Safety
begin

text \<open>
  The running server: requests, open event streams and websockets interleave. A step is one request, one
  turn of a stream's loop, one message on a websocket, one turn of a forwarding goroutine, or the end of a
  stream or a websocket. The relation is over any store; the invariant is proved from its contract.

  Panics of the broker are logged in \<open>sy_panics\<close>; that the log stays empty is part of the invariant.
\<close>

record stream =
  sm_route :: string
  sm_chan :: nat
  sm_text :: string

record 's system =
  sy_server :: "'s server"
  sy_streams :: "stream list"
  sy_sockets :: "ws_conn list"
  sy_panics :: "go_panic list"

definition log_panic :: "go_panic option \<Rightarrow> go_panic list \<Rightarrow> go_panic list" where
  "log_panic p ps = (case p of None \<Rightarrow> ps | Some p \<Rightarrow> ps @ [p])"

definition set_broker :: "broker \<Rightarrow> 's server \<Rightarrow> 's server" where
  "set_broker b sv = sv\<lparr>sv_broker := b\<rparr>"

text \<open>
  \<open>free\<close> says of a request that the routes it names are none that the store will draw later. A websocket
  handler that panics ends without its cleanup; one whose client goes runs it.
\<close>

inductive sys_step :: "'s env \<Rightarrow> ('s \<Rightarrow> string \<Rightarrow> bool) \<Rightarrow> 's system \<Rightarrow> 's system \<Rightarrow> bool" for E free where
  replied: "serve E D r (sy_server sy) = (sv, Reply rs) \<Longrightarrow> \<forall>k\<in>route_ids r. free (sv_store (sy_server sy)) k \<Longrightarrow>
    sys_step E free sy (sy\<lparr>sy_server := sv\<rparr>)"
| aborted: "serve E D r (sy_server sy) = (sv, Aborts p) \<Longrightarrow> \<forall>k\<in>route_ids r. free (sv_store (sy_server sy)) k \<Longrightarrow>
    sys_step E free sy (sy\<lparr>sy_server := sv, sy_panics := (if p = CloseClosed \<or> p = SendClosed then sy_panics sy @ [p] else sy_panics sy)\<rparr>)"
| opened: "serve E D r (sy_server sy) = (sv, Streams k c txt) \<Longrightarrow> \<forall>k\<in>route_ids r. free (sv_store (sy_server sy)) k \<Longrightarrow>
    sys_step E free sy (sy\<lparr>sy_server := sv, sy_streams := sy_streams sy @ [\<lparr>sm_route = k, sm_chan = c, sm_text = txt\<rparr>]\<rparr>)"
| upgraded: "serve E D r (sy_server sy) = (sv, Upgrades) \<Longrightarrow> \<forall>k\<in>route_ids r. free (sv_store (sy_server sy)) k \<Longrightarrow>
    sys_step E free sy (sy\<lparr>sy_server := sv, sy_sockets := sy_sockets sy @ [ws_open r]\<rparr>)"
| event: "sy_streams sy = xs @ sm # ys \<Longrightarrow>
    stream_event (en_L E) (sm_chan sm) (sv_broker (sy_server sy)) = Some (b, txt) \<Longrightarrow>
    sys_step E free sy (sy\<lparr>sy_server := set_broker b (sy_server sy), sy_streams := xs @ sm\<lparr>sm_text := sm_text sm @ txt\<rparr> # ys\<rparr>)"
| heartbeat: "sy_streams sy = xs @ sm # ys \<Longrightarrow>
    sys_step E free sy (sy\<lparr>sy_streams := xs @ sm\<lparr>sm_text := sm_text sm @ stream_heartbeat (en_L E) now (sm_route sm)\<rparr> # ys\<rparr>)"
| stream_end: "sy_streams sy = xs @ sm # ys \<Longrightarrow>
    stream_done (sm_route sm) (sm_chan sm) (sv_broker (sy_server sy)) = (b, p) \<Longrightarrow>
    sys_step E free sy (sy\<lparr>sy_server := set_broker b (sy_server sy), sy_streams := xs @ ys, sy_panics := log_panic p (sy_panics sy)\<rparr>)"
| message: "sy_sockets sy = xs @ c # ys \<Longrightarrow> ws_message E D msg c (sy_server sy) = (c', sv, None) \<Longrightarrow>
    sys_step E free sy (sy\<lparr>sy_server := sv, sy_sockets := xs @ c' # ys\<rparr>)"
| message_panic: "sy_sockets sy = xs @ c # ys \<Longrightarrow> ws_message E D msg c (sy_server sy) = (c', sv, Some p) \<Longrightarrow>
    sys_step E free sy (sy\<lparr>sy_server := sv, sy_sockets := xs @ ys,
      sy_panics := (if p = CloseClosed \<or> p = SendClosed then sy_panics sy @ [p] else sy_panics sy)\<rparr>)"
| forward: "sy_sockets sy = xs @ c # ys \<Longrightarrow> i < length (wc_fans c) \<Longrightarrow>
    ws_forward (en_L E) i c (sv_broker (sy_server sy)) = Some (c', b) \<Longrightarrow>
    sys_step E free sy (sy\<lparr>sy_server := set_broker b (sy_server sy), sy_sockets := xs @ c' # ys\<rparr>)"
| ping: "sy_sockets sy = xs @ c # ys \<Longrightarrow> 0 < wc_pingers c \<Longrightarrow> sys_step E free sy (sy\<lparr>sy_sockets := xs @ ws_ping c # ys\<rparr>)"
| closed: "sy_sockets sy = xs @ c # ys \<Longrightarrow> set ids = dom (wc_subs c) \<Longrightarrow> distinct ids \<Longrightarrow>
    ws_cleanup ids c (sy_server sy) = (c', sv, p) \<Longrightarrow>
    sys_step E free sy (sy\<lparr>sy_server := sv, sy_sockets := xs @ ys, sy_panics := log_panic p (sy_panics sy)\<rparr>)"

text \<open>A server has just started: nobody is connected.\<close>

definition sys_start :: "'s server \<Rightarrow> 's system" where
  "sys_start sv = \<lparr>sy_server = sv, sy_streams = [], sy_sockets = [], sy_panics = []\<rparr>"

inductive sys_reachable :: "'s env \<Rightarrow> ('s \<Rightarrow> string \<Rightarrow> bool) \<Rightarrow> 's \<Rightarrow> 's system \<Rightarrow> bool" for E free s0 where
  start: "sv_store sv = s0 \<Longrightarrow> sv_broker sv = NewBroker \<Longrightarrow> sys_reachable E free s0 (sys_start sv)"
| step: "sys_reachable E free s0 sy \<Longrightarrow> sys_step E free sy sy' \<Longrightarrow> sys_reachable E free s0 sy'"

section \<open>Who holds which channel\<close>

definition map_values :: "(string \<rightharpoonup> 'a) \<Rightarrow> 'a multiset" where
  "map_values m = image_mset (the \<circ> m) (mset_set (dom m))"

lemma map_values_empty [simp]: "map_values Map.empty = {#}"
  by (simp add: map_values_def)

lemma map_values_update:
  assumes "finite (dom m)" and "m k = None"
  shows "map_values (m(k \<mapsto> v)) = add_mset v (map_values m)"
proof -
  have "image_mset (the \<circ> m(k \<mapsto> v)) (mset_set (dom m)) = image_mset (the \<circ> m) (mset_set (dom m))"
    using assms by (intro image_mset_cong) (auto simp: domIff)
  then show ?thesis using assms by (simp add: map_values_def domIff)
qed

lemma map_values_remove:
  assumes "finite (dom m)" and "m k = Some v"
  shows "map_values m = add_mset v (map_values (m(k := None)))"
proof -
  have "m = (m(k := None))(k \<mapsto> v)" using assms(2) by (simp add: fun_eq_iff)
  then have "map_values m = map_values ((m(k := None))(k \<mapsto> v))" by simp
  also have "\<dots> = add_mset v (map_values (m(k := None)))" using assms(1) by (intro map_values_update) auto
  finally show ?thesis .
qed

definition held_by_streams :: "stream list \<Rightarrow> (string \<times> nat) multiset" where
  "held_by_streams sms = mset (map (\<lambda>sm. (sm_route sm, sm_chan sm)) sms)"

definition held_by_sockets :: "ws_conn list \<Rightarrow> (string \<times> nat) multiset" where
  "held_by_sockets cs = sum_list (map (\<lambda>c. map_values (wc_subs c)) cs)"

lemma held_simps [simp]:
  "held_by_streams (xs @ ys) = held_by_streams xs + held_by_streams ys"
  "held_by_streams (sm # ys) = add_mset (sm_route sm, sm_chan sm) (held_by_streams ys)" "held_by_streams [] = {#}"
  "held_by_sockets (us @ vs) = held_by_sockets us + held_by_sockets vs"
  "held_by_sockets (c # vs) = map_values (wc_subs c) + held_by_sockets vs" "held_by_sockets [] = {#}"
  by (simp_all add: held_by_streams_def held_by_sockets_def)

text \<open>A multiset of channels that are all registered, each held once.\<close>

definition hold_ok :: "broker \<Rightarrow> (string \<times> nat) multiset \<Rightarrow> bool" where
  "hold_ok b H \<longleftrightarrow> broker_inv b \<and> (\<forall>x. count H x \<le> 1) \<and> (\<forall>x\<in>#H. subscribed b (fst x) (snd x))"

lemma hold_ok_distinct:
  assumes "hold_ok b (held_by_streams xs + H)"
  shows "distinct (map (\<lambda>sm. (sm_route sm, sm_chan sm)) xs)"
proof -
  have c: "count (held_by_streams xs) x \<le> 1" for x using assms unfolding hold_ok_def by (metis add_leD1 count_union)
  have "count (held_by_streams xs) x = (if x \<in># held_by_streams xs then 1 else 0)" for x
    using c [of x] count_greater_zero_iff [of "held_by_streams xs" x] by (auto simp: not_in_iff simp del: count_greater_zero_iff)
  then show ?thesis unfolding held_by_streams_def distinct_count_atmost_1 set_mset_mset by blast
qed

lemma held_by_socket:
  assumes "c \<in> set cs" and "wc_subs c k = Some v" and "finite (dom (wc_subs c))"
  shows "v \<in># held_by_sockets cs"
proof -
  have "v \<in># map_values (wc_subs c)" using map_values_remove [OF assms(3,2)] by simp
  with assms(1) show ?thesis by (induction cs) auto
qed

lemma hold_ok_sub: "hold_ok b H \<Longrightarrow> H' \<subseteq># H \<Longrightarrow> hold_ok b H'"
  unfolding hold_ok_def by (meson le_trans mset_subset_eqD subseteq_mset_def)

lemma hold_ok_same: "hold_ok b H \<Longrightarrow> broker_inv b' \<Longrightarrow> subscribed b' = subscribed b \<Longrightarrow> hold_ok b' H"
  by (simp add: hold_ok_def)

lemma hold_ok_add:
  assumes "hold_ok b H" and "broker_inv b'" and "c = length (br_chans b)"
    and "\<And>r' c'. subscribed b' r' c' \<longleftrightarrow> subscribed b r' c' \<or> r' = r \<and> c' = c"
  shows "hold_ok b' (add_mset (r, c) H)"
proof -
  have "(r, c) \<notin># H" using assms(1,3) broker_inv_open [of b r c] by (fastforce simp: hold_ok_def)
  with assms show ?thesis by (auto simp: hold_ok_def not_in_iff)
qed

lemma hold_ok_Subscribe: "hold_ok b H \<Longrightarrow> hold_ok (fst (Subscribe r b)) (add_mset (r, snd (Subscribe r b)) H)"
  by (rule hold_ok_add) (auto simp: snd_Subscribe subscribed_Subscribe hold_ok_def intro: broker_inv_Subscribe)

lemma hold_ok_Unsubscribe:
  assumes "hold_ok b (add_mset (r, c) H)"
  shows "hold_ok (fst (Unsubscribe r c b)) H" and "snd (Unsubscribe r c b) = None"
proof -
  have "count (add_mset (r, c) H) (r, c) \<le> 1" using assms unfolding hold_ok_def by blast
  then have n: "(r, c) \<notin># H" by (simp add: not_in_iff)
  have inv: "broker_inv b" and s: "subscribed b r c" using assms by (simp_all add: hold_ok_def)
  show "snd (Unsubscribe r c b) = None" by (rule mailboxes_Unsubscribe(2) [OF inv s])
  have "count H x \<le> 1" for x using assms unfolding hold_ok_def by (metis count_add_mset le_SucI nle_le not_less_eq_eq)
  moreover have "subscribed (fst (Unsubscribe r c b)) (fst x) (snd x)" if "x \<in># H" for x
    using assms that n unfolding subscribed_Unsubscribe hold_ok_def by (metis insertCI prod.collapse set_mset_add_mset_insert)
  ultimately show "hold_ok (fst (Unsubscribe r c b)) H"
    using broker_inv_Unsubscribe [OF inv s] by (simp add: hold_ok_def)
qed

section \<open>Websockets\<close>

text \<open>A connection beside the channels \<open>H\<close> that others hold.\<close>

definition conn_ok :: "broker \<Rightarrow> (string \<times> nat) multiset \<Rightarrow> ws_conn \<Rightarrow> bool" where
  "conn_ok b H c \<longleftrightarrow> finite (dom (wc_subs c)) \<and> hold_ok b (H + map_values (wc_subs c)) \<and>
     (\<forall>f\<in>set (wc_fans c). fn_chan f < length (br_chans b))"

lemma conn_ok_open: "hold_ok b H \<Longrightarrow> conn_ok b H (ws_open r)"
  by (simp add: conn_ok_def ws_open_def)

lemma conn_ok_write [simp]: "conn_ok b H (ws_write fs c) = conn_ok b H c"
  by (simp add: conn_ok_def ws_write_def)

lemma conn_ok_start:
  assumes "conn_ok (sv_broker sv) H c" and "ws_start k rid field c sv = (c', sv')"
  shows "conn_ok (sv_broker sv') H c'" and "sv_store sv' = sv_store sv"
    and "length (br_chans (sv_broker sv)) \<le> length (br_chans (sv_broker sv'))"
proof -
  obtain b' ch where sub: "Subscribe rid (sv_broker sv) = (b', ch)" by (cases "Subscribe rid (sv_broker sv)")
  define m where "m = (wc_subs c)(k := None)"
  have fin: "finite (dom m)" using assms(1) by (simp add: conn_ok_def m_def)
  have le: "map_values m \<subseteq># map_values (wc_subs c)"
  proof (cases "wc_subs c k")
    case None
    then have "m = wc_subs c" by (simp add: m_def fun_eq_iff)
    then show ?thesis by simp
  next
    case (Some v)
    with map_values_remove [of "wc_subs c" k v] assms(1) show ?thesis by (simp add: conn_ok_def m_def)
  qed
  have "hold_ok (sv_broker sv) (H + map_values m)"
    using assms(1) le by (auto simp: conn_ok_def intro: hold_ok_sub subset_mset.add_left_mono)
  from hold_ok_Subscribe [OF this, of rid] map_values_update [OF fin, of k "(rid, ch)"]
  have "hold_ok b' (H + map_values ((wc_subs c)(k \<mapsto> (rid, ch))))" by (simp add: sub m_def)
  moreover have "length (br_chans b') = length (br_chans (sv_broker sv)) + 1" "ch = length (br_chans (sv_broker sv))"
    using chans_Subscribe [of rid "sv_broker sv"] snd_Subscribe [of rid "sv_broker sv"] by (simp_all add: sub)
  ultimately show "conn_ok (sv_broker sv') H c'" "sv_store sv' = sv_store sv"
    "length (br_chans (sv_broker sv)) \<le> length (br_chans (sv_broker sv'))"
    using assms by (auto simp: ws_start_def sub conn_ok_def less_Suc_eq)
qed

lemma conn_ok_complete:
  assumes "conn_ok (sv_broker sv) H c" and "ws_complete k c sv = (c', sv', p)"
  shows "conn_ok (sv_broker sv') H c' \<and> p = None \<and> sv_store sv' = sv_store sv \<and>
    length (br_chans (sv_broker sv')) = length (br_chans (sv_broker sv)) \<and> dom (wc_subs c') = dom (wc_subs c) - {k}"
proof (cases "wc_subs c k")
  case None
  with assms show ?thesis by (auto simp: ws_complete_def)
next
    case (Some v)
    obtain rid ch where v: "v = (rid, ch)" by (cases v)
    obtain b q where u: "Unsubscribe rid ch (sv_broker sv) = (b, q)" by (cases "Unsubscribe rid ch (sv_broker sv)")
    have "map_values (wc_subs c) = add_mset (rid, ch) (map_values ((wc_subs c)(k := None)))"
      using assms(1) Some v by (intro map_values_remove) (auto simp: conn_ok_def)
    with assms(1) have "hold_ok (sv_broker sv) (add_mset (rid, ch) (H + map_values ((wc_subs c)(k := None))))"
      by (simp add: conn_ok_def)
    from hold_ok_Unsubscribe [OF this] chans_Unsubscribe [of rid ch "sv_broker sv"]
    have "hold_ok b (H + map_values ((wc_subs c)(k := None)))" "q = None" "length (br_chans b) = length (br_chans (sv_broker sv))"
      by (simp_all add: u)
  with assms Some v u show ?thesis by (auto simp: ws_complete_def conn_ok_def split: if_splits)
qed

lemma conn_ok_cleanup:
  assumes "conn_ok (sv_broker sv) H c" and "ws_cleanup ids c sv = (c', sv', p)"
  shows "conn_ok (sv_broker sv') H c' \<and> p = None \<and> sv_store sv' = sv_store sv \<and>
    length (br_chans (sv_broker sv')) = length (br_chans (sv_broker sv)) \<and> dom (wc_subs c') = dom (wc_subs c) - set ids"
  using assms
proof (induction ids arbitrary: c sv)
  case Nil
  then show ?case by simp
next
  case (Cons k ids)
  obtain c1 sv1 p1 where one: "ws_complete k c sv = (c1, sv1, p1)" by (cases "ws_complete k c sv") auto
  note c = conn_ok_complete [OF Cons.prems(1) one]
  then have "ws_cleanup ids c1 sv1 = (c', sv', p)" using Cons.prems(2) by (simp add: one)
  from Cons.IH [OF _ this] c show ?case by auto
qed

section \<open>The invariant\<close>

definition sys_inv :: "('s \<Rightarrow> bool) \<Rightarrow> 's system \<Rightarrow> bool" where
  "sys_inv good sy \<longleftrightarrow> good (sv_store (sy_server sy)) \<and>
     hold_ok (sv_broker (sy_server sy)) (held_by_streams (sy_streams sy) + held_by_sockets (sy_sockets sy)) \<and>
     (\<forall>c\<in>set (sy_sockets sy). finite (dom (wc_subs c)) \<and>
        (\<forall>f\<in>set (wc_fans c). fn_chan f < length (br_chans (sv_broker (sy_server sy))))) \<and>
     sy_panics sy = []"

text \<open>The other sockets do not notice that one socket is served, as long as channels are only added.\<close>

definition fans_ok :: "broker \<Rightarrow> ws_conn list \<Rightarrow> bool" where
  "fans_ok b cs \<longleftrightarrow> (\<forall>c\<in>set cs. finite (dom (wc_subs c)) \<and> (\<forall>f\<in>set (wc_fans c). fn_chan f < length (br_chans b)))"

lemma sys_inv_fans: "sys_inv good sy \<longleftrightarrow> good (sv_store (sy_server sy)) \<and>
   hold_ok (sv_broker (sy_server sy)) (held_by_streams (sy_streams sy) + held_by_sockets (sy_sockets sy)) \<and>
   fans_ok (sv_broker (sy_server sy)) (sy_sockets sy) \<and> sy_panics sy = []"
  by (simp add: sys_inv_def fans_ok_def)

lemma fans_ok_simps [simp]:
  "fans_ok b []" "fans_ok b (xs @ ys) \<longleftrightarrow> fans_ok b xs \<and> fans_ok b ys"
  "fans_ok b (c # ys) \<longleftrightarrow> (finite (dom (wc_subs c)) \<and> (\<forall>f\<in>set (wc_fans c). fn_chan f < length (br_chans b))) \<and> fans_ok b ys"
  by (auto simp: fans_ok_def)

lemma fans_ok_mono: "fans_ok b cs \<Longrightarrow> length (br_chans b) \<le> length (br_chans b') \<Longrightarrow> fans_ok b' cs"
  unfolding fans_ok_def by (meson order_less_le_trans)

lemma length_chans_receive [simp]: "length (br_chans (fst (receive c b))) = length (br_chans b)"
  by (simp add: receive_def split: list.split)

lemma stream_event_broker:
  "stream_event L ch b = Some (b', txt) \<Longrightarrow> b' = fst (receive ch b)"
  by (auto simp: stream_event_def split: prod.splits received.splits)

lemma ws_forward_broker:
  "ws_forward L i c b = Some (c', b') \<Longrightarrow> b' = fst (receive (fn_chan (wc_fans c ! i)) b) \<and> wc_subs c' = wc_subs c \<and>
    set (wc_fans c') \<subseteq> set (wc_fans c)"
  by (auto simp: ws_forward_def Let_def ws_write_def split: prod.splits received.splits if_splits dest: in_set_takeD in_set_dropD)

lemma hold_ok_receive:
  "hold_ok b H \<Longrightarrow> c < length (br_chans b) \<Longrightarrow> hold_ok (fst (receive c b)) H"
  by (rule hold_ok_same) (auto simp: hold_ok_def intro: broker_inv_receive)

text \<open>One socket served: what is left to show is that its own connection is fine.\<close>

lemma sys_inv_socket:
  assumes "sys_inv good sy" and "sy_sockets sy = xs @ c # ys"
  shows "conn_ok (sv_broker (sy_server sy)) (held_by_streams (sy_streams sy) + held_by_sockets xs + held_by_sockets ys) c"
  using assms by (simp add: sys_inv_fans conn_ok_def ac_simps)

lemma sys_inv_socket':
  assumes "sys_inv good sy" and "sy_sockets sy = xs @ c # ys" and "good (sv_store sv)"
    and "conn_ok (sv_broker sv) (held_by_streams (sy_streams sy) + held_by_sockets xs + held_by_sockets ys) c'"
    and "length (br_chans (sv_broker (sy_server sy))) \<le> length (br_chans (sv_broker sv))"
  shows "sys_inv good (sy\<lparr>sy_server := sv, sy_sockets := xs @ c' # ys\<rparr>)"
    and "sys_inv good (sy\<lparr>sy_server := sv, sy_sockets := xs @ ys\<rparr>)"
proof -
  have f: "fans_ok (sv_broker sv) (xs @ ys)"
    by (rule fans_ok_mono [OF _ assms(5)]) (use assms(1,2) in \<open>simp add: sys_inv_fans\<close>)
  show "sys_inv good (sy\<lparr>sy_server := sv, sy_sockets := xs @ c' # ys\<rparr>)"
    using assms(1,3,4) f by (simp add: sys_inv_fans conn_ok_def ac_simps)
  have "hold_ok (sv_broker sv) (held_by_streams (sy_streams sy) + held_by_sockets xs + held_by_sockets ys)"
    by (rule hold_ok_sub [of _ "held_by_streams (sy_streams sy) + held_by_sockets xs + held_by_sockets ys + map_values (wc_subs c')"])
      (use assms(4) in \<open>simp_all add: conn_ok_def\<close>)
  then show "sys_inv good (sy\<lparr>sy_server := sv, sy_sockets := xs @ ys\<rparr>)"
    using assms(1,3) f by (simp add: sys_inv_fans ac_simps)
qed

text \<open>A request answered.\<close>

lemma sys_inv_later:
  assumes "sys_inv good sy" and "later good (sv_broker (sy_server sy)) sv"
  shows "sys_inv good (sy\<lparr>sy_server := sv\<rparr>)"
proof -
  have "fans_ok (sv_broker sv) (sy_sockets sy)"
    by (rule fans_ok_mono [of "sv_broker (sy_server sy)"]) (use assms in \<open>simp_all add: sys_inv_fans later_def\<close>)
  with assms show ?thesis by (auto simp: sys_inv_fans later_def intro: hold_ok_same)
qed

lemma sys_inv_opened:
  assumes "sys_inv good sy" and "fine good (sv_broker (sy_server sy)) (sv, Streams k c txt)"
  shows "sys_inv good (sy\<lparr>sy_server := sv, sy_streams := sy_streams sy @ [\<lparr>sm_route = k, sm_chan = c, sm_text = txt\<rparr>]\<rparr>)"
proof -
  have "hold_ok (sv_broker sv) (add_mset (k, c) (held_by_streams (sy_streams sy) + held_by_sockets (sy_sockets sy)))"
    by (rule hold_ok_add) (use assms in \<open>auto simp: sys_inv_fans fine_def\<close>)
  moreover have "fans_ok (sv_broker sv) (sy_sockets sy)"
    by (rule fans_ok_mono [of "sv_broker (sy_server sy)"]) (use assms in \<open>simp_all add: sys_inv_fans fine_def\<close>)
  ultimately show ?thesis using assms by (simp add: sys_inv_fans fine_def)
qed

text \<open>What the invariant says of those who are connected.\<close>

definition connected :: "'s system \<Rightarrow> bool" where
  "connected sy \<longleftrightarrow> broker_inv (sv_broker (sy_server sy)) \<and>
     distinct (map (\<lambda>sm. (sm_route sm, sm_chan sm)) (sy_streams sy)) \<and>
     (\<forall>sm\<in>set (sy_streams sy). subscribed (sv_broker (sy_server sy)) (sm_route sm) (sm_chan sm)) \<and>
     (\<forall>c\<in>set (sy_sockets sy). \<forall>k rid ch. wc_subs c k = Some (rid, ch) \<longrightarrow> subscribed (sv_broker (sy_server sy)) rid ch) \<and>
     sy_panics sy = []"

lemma sys_inv_connected:
  assumes "sys_inv good sy"
  shows "connected sy"
proof -
  have h: "hold_ok (sv_broker (sy_server sy)) (held_by_streams (sy_streams sy) + held_by_sockets (sy_sockets sy))"
    using assms by (simp add: sys_inv_def)
  have "subscribed (sv_broker (sy_server sy)) rid ch" if "c \<in> set (sy_sockets sy)" "wc_subs c k = Some (rid, ch)" for c k rid ch
  proof -
    have "(rid, ch) \<in># held_by_sockets (sy_sockets sy)"
      by (rule held_by_socket [OF that]) (use assms that(1) in \<open>simp add: sys_inv_def\<close>)
    with h show ?thesis by (force simp: hold_ok_def)
  qed
  moreover have "\<forall>sm\<in>set (sy_streams sy). subscribed (sv_broker (sy_server sy)) (sm_route sm) (sm_chan sm)"
    using h by (force simp: hold_ok_def held_by_streams_def)
  ultimately show ?thesis using assms h hold_ok_distinct [OF h] by (simp add: connected_def sys_inv_def hold_ok_def)
qed

text \<open>The end of a stream and a turn of a forwarding goroutine, which need no store.\<close>

lemma sys_inv_stream_end:
  assumes "sys_inv good sy" and "sy_streams sy = xs @ sm # ys"
    and "stream_done (sm_route sm) (sm_chan sm) (sv_broker (sy_server sy)) = (b, p)"
  shows "sys_inv good (sy\<lparr>sy_server := set_broker b (sy_server sy), sy_streams := xs @ ys, sy_panics := log_panic p (sy_panics sy)\<rparr>)"
proof -
  have "hold_ok (sv_broker (sy_server sy)) (add_mset (sm_route sm, sm_chan sm)
      (held_by_streams (xs @ ys) + held_by_sockets (sy_sockets sy)))"
    using assms(1) assms(2) by (simp add: sys_inv_def)
  note u = hold_ok_Unsubscribe [OF this]
  have b: "b = fst (Unsubscribe (sm_route sm) (sm_chan sm) (sv_broker (sy_server sy)))" "p = snd (Unsubscribe (sm_route sm) (sm_chan sm) (sv_broker (sy_server sy)))"
    using assms(3) by (simp_all add: stream_done_def)
  with u assms(1) chans_Unsubscribe [of "sm_route sm" "sm_chan sm" "sv_broker (sy_server sy)"] show ?thesis
    unfolding sys_inv_fans by (auto simp: set_broker_def log_panic_def intro: fans_ok_mono)
qed

lemma sys_inv_forward:
  assumes "sys_inv good sy" and "sy_sockets sy = xs @ c # ys" and "i < length (wc_fans c)"
    and "ws_forward L i c (sv_broker (sy_server sy)) = Some (c', b)"
  shows "sys_inv good (sy\<lparr>sy_server := set_broker b (sy_server sy), sy_sockets := xs @ c' # ys\<rparr>)"
proof -
  have g: "good (sv_store (sy_server sy))" using assms(1) by (simp add: sys_inv_def)
  have conn: "conn_ok (sv_broker (sy_server sy)) (held_by_streams (sy_streams sy) + held_by_sockets xs + held_by_sockets ys) c"
    by (rule sys_inv_socket [OF assms(1,2)])
  have "fn_chan (wc_fans c ! i) < length (br_chans (sv_broker (sy_server sy)))" using conn assms(3) by (simp add: conn_ok_def)
  with conn ws_forward_broker [OF assms(4)]
  have "conn_ok b (held_by_streams (sy_streams sy) + held_by_sockets xs + held_by_sockets ys) c'"
    by (auto simp: conn_ok_def intro: hold_ok_receive)
  from sys_inv_socket'(1) [OF assms(1) assms(2), of "set_broker b (sy_server sy)" c'] this g ws_forward_broker [OF assms(4)]
  show ?thesis by (simp add: set_broker_def)
qed

context store_contract
begin

lemma ws_message_ok:
  assumes "en_M E = M" and "good (sv_store sv)" and "conn_ok (sv_broker sv) H c"
    and "ws_message E D msg c sv = (c', sv', p)"
  shows "good (sv_store sv') \<and> conn_ok (sv_broker sv') H c' \<and> length (br_chans (sv_broker sv)) \<le> length (br_chans (sv_broker sv')) \<and>
    p \<noteq> Some CloseClosed \<and> p \<noteq> Some SendClosed"
proof -
  have sub: ?thesis if "ws_subscribe E D msg c sv = (c', sv', p)"
  proof -
    obtain query vars where pl: "fst (jd_graphql (en_J E) (wi_Payload msg)) = (query, vars)"
      by (cases "fst (jd_graphql (en_J E) (wi_Payload msg))")
    define rid where "rid = variable_text vars ''routeId''"
    have start: "good (sv_store sv'') \<and> conn_ok (sv_broker sv'') H c'' \<and> length (br_chans (sv_broker sv)) \<le> length (br_chans (sv_broker sv''))"
      if "ws_start (wi_ID msg) rid (ws_field (en_L E) query) c sv1 = (c'', sv'')" "sv_broker sv1 = sv_broker sv" "good (sv_store sv1)"
      for sv1 c'' sv''
      using conn_ok_start [OF _ that(1), of H] assms(3) that(2,3) by simp
    obtain sv1 res where gp: "getPrincipal (en_L E) (dr_auth D) (wc_request c) sv = (sv1, res)"
      by (cases "getPrincipal (en_L E) (dr_auth D) (wc_request c) sv")
    have frame: "sv_store sv1 = sv_store sv" "sv_broker sv1 = sv_broker sv"
      using getPrincipal_frame(1,2) [of "en_L E" "dr_auth D" "wc_request c" sv] by (simp_all add: gp)
    note get = keepsD [OF keeps_GetRoute assms(2), of "withTenant (wc_request c)" rid]
    obtain s o1 where gr: "st_GetRoute M (withTenant (wc_request c)) rid (sv_store sv) = (s, o1)"
      by (cases "st_GetRoute M (withTenant (wc_request c)) rid (sv_store sv)")
    show ?thesis
    proof (cases res)
      case (Inl q)
      have "q = SliceBounds \<or> q = NilDeref"
        using getPrincipal_panic [of "en_L E" "dr_auth D" "wc_request c" sv q] by (simp add: gp Inl)
      with that assms(2,3) frame show ?thesis by (auto simp: ws_subscribe_def pl gp Inl)
    next
      case (Inr pr)
      with that assms(1-3) frame get gr start show ?thesis
        by (auto simp: ws_subscribe_def pl gp rid_def [symmetric] Let_def ws_forbidden_def
            split: if_splits prod.splits outcome.splits)
    qed
  qed
  show ?thesis
  proof (cases "wi_Type msg = ''complete''")
    case True
    with assms(4) have "ws_complete (wi_ID msg) c sv = (c', sv', p)" by (simp add: ws_message_def)
    from conn_ok_complete [OF assms(3) this] assms(2) show ?thesis by simp
  next
    case False
    with assms sub show ?thesis by (auto simp: ws_message_def conn_ok_def ws_write_def split: if_splits)
  qed
qed

lemma sys_inv_step:
  assumes "en_M E = M" and "env_typed E" and "sys_step E free sy sy'" and "sys_inv good sy"
  shows "sys_inv good sy'"
proof -
  have served: "fine good (sv_broker (sy_server sy)) (serve E D r (sy_server sy))"
    if "\<forall>k\<in>route_ids r. free (sv_store (sy_server sy)) k" for D r
    using assms(1,2,4) that by (intro fine_serve) (simp_all add: sys_inv_def hold_ok_def)
  have g: "good (sv_store (sy_server sy))" using assms(4) by (simp add: sys_inv_def)
  from assms(3) show ?thesis
  proof cases
    case (replied D r sv rs)
    with served [of r D] sys_inv_later [OF assms(4), of sv] show ?thesis by (simp add: fine_def)
  next
    case (aborted D r sv p)
    with served [of r D] sys_inv_later [OF assms(4), of sv] show ?thesis by (auto simp: fine_def)
  next
    case (opened D r sv k c tx)
    with served [of r D] sys_inv_opened [OF assms(4), of sv k c tx] show ?thesis by simp
  next
    case (upgraded D r sv)
    with served [of r D] sys_inv_later [OF assms(4), of sv] show ?thesis by (simp add: fine_def sys_inv_fans ws_open_def)
  next
    case (event xs sm ys b tx)
    have "sm_chan sm < length (br_chans (sv_broker (sy_server sy)))"
      using assms(4) event(2) broker_inv_open by (auto simp: sys_inv_def hold_ok_def)
    with assms(4) event(2) stream_event_broker [OF event(3)] show ?thesis
      unfolding event(1) sys_inv_fans by (auto simp: set_broker_def intro: hold_ok_receive fans_ok_mono)
  next
    case (heartbeat xs sm ys now)
    with assms(4) show ?thesis by (simp add: sys_inv_def)
  next
    case (stream_end xs sm ys b p)
    with sys_inv_stream_end [OF assms(4) stream_end(2,3)] show ?thesis by simp
  next
    case (message xs c ys D msg c' sv)
    with ws_message_ok [OF assms(1) g sys_inv_socket [OF assms(4) message(2)] message(3)]
      sys_inv_socket'(1) [OF assms(4) message(2), of sv c'] show ?thesis by simp
  next
    case (message_panic xs c ys D msg c' sv p)
    with ws_message_ok [OF assms(1) g sys_inv_socket [OF assms(4) message_panic(2)] message_panic(3)]
      sys_inv_socket'(2) [OF assms(4) message_panic(2), of sv c'] show ?thesis by (auto simp: sys_inv_def)
  next
    case (forward xs c ys i c' b)
    with sys_inv_forward [OF assms(4) forward(2-4)] show ?thesis by simp
  next
    case (ping xs c ys)
    with assms(4) show ?thesis by (simp add: sys_inv_fans ws_ping_def ws_write_def)
  next
    case (closed xs c ys ids c' sv p)
    note e = conn_ok_cleanup [OF sys_inv_socket [OF assms(4) closed(2)] closed(5)]
    from sys_inv_socket'(2) [OF assms(4) closed(2), of sv c'] e g show ?thesis
      unfolding closed(1) by (simp add: log_panic_def sys_inv_def)
  qed
qed

lemma sys_inv_reachable:
  assumes "en_M E = M" and "env_typed E" and "good s0" and "sys_reachable E free s0 sy"
  shows "sys_inv good sy"
  using assms(4)
proof induction
  case (start sv)
  with assms(3) show ?case by (simp add: sys_inv_def sys_start_def hold_ok_def broker_inv_new)
next
  case (step sy sy')
  with sys_inv_step [OF assms(1,2)] show ?case by blast
qed

end

end
