(* ===== verification/Api_Streams.thy ===== *)
theory Api_Streams
  imports Http_Server
begin

text \<open>
  Which requests leave a stream or a websocket open, and for whom. \<open>gives P U out\<close> says of the result of a handler
  that it opens a stream only on a route with \<open>P\<close> and becomes a websocket only when \<open>U\<close>. Most handlers do neither: the
  rules \<open>gives_rules\<close> follow their text. The two that do are \<open>stream_route\<close> and \<open>GraphQLWSHandler\<close>.
\<close>

definition gives :: "(string \<Rightarrow> bool) \<Rightarrow> bool \<Rightarrow> 's server \<times> reply \<Rightarrow> bool" where
  "gives P U out \<longleftrightarrow> (case snd out of Streams k c txt \<Rightarrow> P k | Upgrades \<Rightarrow> U | _ \<Rightarrow> True)"

named_theorems gives_rules \<open>one rule for each kind of step of a handler\<close>

lemma gives_reply [gives_rules]:
  "gives P U (sv, writeJSON s v)" "gives P U (sv, writeProblem s a x y)" "gives P U (sv, writeHeader s)" "gives P U (sv, http_error s msg)"
  "gives P U (sv, moved)" "gives P U (sv, page_reply v next)" "gives P U (sv, Reply rs)" "gives P U (sv, forbidden_admin r)"
  by (simp_all add: gives_def writeJSON_def writeProblem_def writeHeader_def http_error_def moved_def page_reply_def forbidden_admin_def)

lemma gives_if [gives_rules]: "(c \<Longrightarrow> gives P U x) \<Longrightarrow> (\<not> c \<Longrightarrow> gives P U y) \<Longrightarrow> gives P U (if c then x else y)"
  by simp

lemma gives_prod [gives_rules]: "(\<And>x y. gives P U (f x y)) \<Longrightarrow> gives P U (case z of (x, y) \<Rightarrow> f x y)"
  by (cases z) simp

lemma gives_option [gives_rules]:
  "gives P U x \<Longrightarrow> (\<And>y. gives P U (f y)) \<Longrightarrow> gives P U (case z of None \<Rightarrow> x | Some y \<Rightarrow> f y)"
  by (cases z) simp_all

lemma gives_sum [gives_rules]:
  "(\<And>x. gives P U (f x)) \<Longrightarrow> (\<And>y. gives P U (g y)) \<Longrightarrow> gives P U (case z of Inl x \<Rightarrow> f x | Inr y \<Rightarrow> g y)"
  by (cases z) simp_all

lemma gives_on_store [gives_rules]: "(\<And>sv res. gives P U (k sv res)) \<Longrightarrow> gives P U (on_store f sv k)"
  unfolding on_store_def by (cases "f (sv_store sv)"; cases "snd (f (sv_store sv))") (auto simp: gives_def [of _ _ "(_, Aborts _)"])

lemma gives_with_body [gives_rules]: "(\<And>x. gives P U (k x)) \<Longrightarrow> gives P U (with_body decode r sv k)"
  unfolding with_body_def by (intro gives_rules)

lemma gives_on_result [gives_rules]: "(\<And>sv x. gives P U (k sv x)) \<Longrightarrow> gives P U (on_result f r status title sv k)"
  unfolding on_result_def by (intro gives_rules)

lemma gives_with_principal [gives_rules]:
  "(\<And>sv pr. gives P U (k sv pr)) \<Longrightarrow> gives P U (with_principal E D r sv k)"
  unfolding with_principal_def
  by (cases "getPrincipal (en_L E) (dr_auth D) r sv"; cases "snd (getPrincipal (en_L E) (dr_auth D) r sv)")
    (auto simp: gives_def [of _ _ "(_, Aborts _)"])

lemma gives_on_publish [gives_rules]: "(\<And>sv. gives P U (k sv)) \<Longrightarrow> gives P U (on_publish rid evt sv k)"
  unfolding on_publish_def
  by (cases "Publish rid evt (sv_broker sv)"; cases "snd (Publish rid evt (sv_broker sv))")
    (auto simp: gives_def [of _ _ "(_, Aborts _)"])

lemma gives_publish_seq [gives_rules]: "(\<And>sv. gives P U (k sv)) \<Longrightarrow> gives P U (publish_seq es sv k)"
  by (induction es arbitrary: sv) (auto intro: gives_on_publish)

lemma gives_advance_by_events [gives_rules]:
  "(\<And>sv adv. gives P U (k sv adv)) \<Longrightarrow> gives P U (advance_by_events E D t evs sv k)"
proof (induction evs arbitrary: sv)
  case (Cons e evs)
  then show ?case unfolding advance_by_events.simps by (intro gives_rules) simp_all
qed simp

lemma gives_broadcast [gives_rules]:
  "(\<And>sv. gives P U (k sv)) \<Longrightarrow> gives P U (broadcast E D t ty data i rids sv k)"
  by (induction rids arbitrary: sv i) (simp_all add: Let_def gives_on_publish)

lemma gives_attach_weights [gives_rules]:
  "(\<And>sv items. gives P U (k sv items)) \<Longrightarrow> gives P U (attach_weights E t d todo items sv k)"
  by (induction todo arbitrary: sv items) (simp_all add: Let_def gives_on_store)

section \<open>Handlers that open nothing\<close>

lemma gives_handlers:
  "gives P U (OrdersHandler E D r sv)" "gives P U (OptimizeHandler E D r sv)" "gives P U (OptimizerConfigHandler E D r sv)"
  "gives P U (DriverEventsHandler E D r sv)" "gives P U (PoDHandler E D r sv)" "gives P U (SubscriptionsHandler E D r sv)"
  "gives P U (SubscriptionByIDHandler E D r sv)" "gives P U (DriversHandler E D r sv)"
  "gives P U (GeofencesHandler E D r sv)" "gives P U (GeofenceByIDHandler E D r sv)" "gives P U (MediaPresignHandler E D r sv)"
  "gives P U (ETAStreamHandler E D r sv)" "gives P U (HealthHandler E D r sv)" "gives P U (ReadyHandler E D r sv)"
  "gives P U (OpenAPIHandler E D r sv)" "gives P U (DocsHandler E D r sv)" "gives P U (RoutesIndexHandler E D r sv)"
  "gives P U (GraphQLHTTPHandler E D r sv)" "gives P U (index_page E D r sv)" "gives P U (metrics_page E D r sv)"
  unfolding OrdersHandler_def OptimizeHandler_def OptimizerConfigHandler_def DriverEventsHandler_def PoDHandler_def
    SubscriptionsHandler_def SubscriptionByIDHandler_def DriversHandler_def GeofencesHandler_def GeofenceByIDHandler_def
    MediaPresignHandler_def ETAStreamHandler_def HealthHandler_def ReadyHandler_def OpenAPIHandler_def DocsHandler_def
    RoutesIndexHandler_def GraphQLHTTPHandler_def index_page_def metrics_page_def Let_def
  by (intro gives_rules)+

lemma gives_admin_handlers:
  "gives P U (AdminOptimizerConfigHandler E D r sv)" "gives P U (WebhookDeliveriesHandler E D r sv)"
  "gives P U (WebhookDeliveryRetryHandler E D r sv)" "gives P U (WebhookMetricsHandler E D r sv)"
  "gives P U (RouteStatsHandler E D r sv)" "gives P U (PlanMetricsHandler E D r sv)"
  "gives P U (PlanMetricsWeightsHandler E D r sv)" "gives P U (WebhookDLQHandler E D r sv)"
  unfolding AdminOptimizerConfigHandler_def WebhookDeliveriesHandler_def WebhookDeliveryRetryHandler_def WebhookMetricsHandler_def
    RouteStatsHandler_def PlanMetricsHandler_def PlanMetricsWeightsHandler_def WebhookDLQHandler_def dlq_list_def dlq_requeue_def
    dlq_delete_def Let_def
  by (intro gives_rules)+

section \<open>Streams and upgrades\<close>

text \<open>Who may watch a route: an administrator, a dispatcher, or the driver it is assigned to.\<close>

definition may_watch :: "'s env \<Rightarrow> draws \<Rightarrow> request \<Rightarrow> 's server \<Rightarrow> string \<Rightarrow> bool" where
  "may_watch E D r sv k \<longleftrightarrow>
     (\<exists>pr. snd (getPrincipal (en_L E) (dr_auth D) r sv) = Inr pr \<and>
       (dispatcher pr \<or> pn_Role pr = ''driver'' \<and>
         (\<exists>rt. snd (st_GetRoute (en_M E) (withTenant r) k (sv_store sv)) = Ret rt \<and>
           pn_DriverID pr \<noteq> '''' \<and> rt_DriverID rt = pn_DriverID pr)))"

lemma may_watch_path [simp]: "may_watch E D (r\<lparr>hr_Path := p\<rparr>) sv = may_watch E D r sv"
proof -
  have "header_principal (r\<lparr>hr_Path := p\<rparr>) = header_principal r" "withTenant (r\<lparr>hr_Path := p\<rparr>) = withTenant r"
    by (simp_all add: header_principal_def withTenant_def)
  then have "getPrincipal L A (r\<lparr>hr_Path := p\<rparr>) sv = getPrincipal L A r sv" for L A
    unfolding getPrincipal_def Let_def by (simp split: option.split prod.split outcome.split)
  with \<open>withTenant (r\<lparr>hr_Path := p\<rparr>) = withTenant r\<close> show ?thesis by (simp add: may_watch_def fun_eq_iff)
qed

lemma gives_open_stream: "(wr_Flusher (hr_Writer r) \<Longrightarrow> P k) \<Longrightarrow> gives P U (open_stream E D r k sv)"
  by (auto simp: open_stream_def gives_def writeProblem_def writeJSON_def split: prod.split)

lemma gives_stream_route:
  assumes "\<And>k. wr_Flusher (hr_Writer r) \<Longrightarrow> may_watch E D r sv k \<Longrightarrow> P k"
  shows "gives P U (stream_route E D r k sv)"
proof -
  obtain sv' res where gp: "getPrincipal (en_L E) (dr_auth D) r sv = (sv', res)" by (cases "getPrincipal (en_L E) (dr_auth D) r sv")
  have st: "sv_store sv' = sv_store sv" using getPrincipal_frame(1) [of "en_L E" "dr_auth D" r sv] by (simp add: gp)
  obtain s o1 where gr: "st_GetRoute (en_M E) (withTenant r) k (sv_store sv) = (s, o1)"
    by (cases "st_GetRoute (en_M E) (withTenant r) k (sv_store sv)")
  have w: "may_watch E D r sv k \<longleftrightarrow> (\<exists>pr. res = Inr pr \<and> (dispatcher pr \<or> pn_Role pr = ''driver'' \<and>
      (\<exists>rt. o1 = Ret rt \<and> pn_DriverID pr \<noteq> '''' \<and> rt_DriverID rt = pn_DriverID pr)))"
    by (simp add: may_watch_def gp gr)
  have o: "gives P U (open_stream E D r k sv0)" if "may_watch E D r sv k" for sv0
    by (rule gives_open_stream) (use assms that in blast)
  have a: "gives P U (sv0, Aborts p)" for sv0 :: "'a server" and p by (simp add: gives_def)
  show ?thesis
    by (cases res; cases o1)
      (auto simp: stream_route_def with_principal_def gp on_result_def on_store_def st gr w assigned_driver_def gives_reply a
        intro: o)
qed

lemma gives_RouteByIDHandler:
  assumes "\<And>k. wr_Flusher (hr_Writer r) \<Longrightarrow> may_watch E D r sv k \<Longrightarrow> P k"
  shows "gives P U (RouteByIDHandler E D r sv)"
proof -
  have "gives P U (assign_route E D r k sv)" "gives P U (advance_route E D r k sv)" "gives P U (get_route E r k sv)"
    "gives P U (update_route E r k sv)" for k
    unfolding assign_route_def advance_route_def get_route_def update_route_def Let_def by (intro gives_rules)+
  moreover have "gives P U (stream_route E D r k sv)" for k by (rule gives_stream_route) (use assms in blast)
  ultimately show ?thesis
    unfolding RouteByIDHandler_def Let_def by (intro gives_rules) simp_all
qed

lemma gives_mux_table:
  assumes "\<And>k. wr_Flusher (hr_Writer r) \<Longrightarrow> may_watch E D r sv k \<Longrightarrow> P k" and "en_upgrade E r = None \<Longrightarrow> U"
    and "(pat, h) \<in> set mux_table"
  shows "gives P U (h E D r sv)"
proof -
  have "gives P U (GraphQLWSHandler E D r sv)"
    using assms(2) by (auto simp: GraphQLWSHandler_def gives_def split: option.split)
  moreover have "gives P U (route_events_bridge E D r sv)"
    unfolding route_events_bridge_def bridged_def Let_def
    by (intro gives_rules gives_RouteByIDHandler) (use assms(1) in \<open>simp_all\<close>)
  moreover have "gives P U (RouteByIDHandler E D r sv)" by (rule gives_RouteByIDHandler) (use assms(1) in blast)
  ultimately have "list_all (\<lambda>(pat, h). gives P U (h E D r sv)) mux_table"
    by (simp add: mux_table_def gives_handlers gives_admin_handlers)
  with assms(3) show ?thesis by (auto simp: list_all_iff)
qed

lemma gives_serve:
  assumes "\<And>k. wr_Flusher (hr_Writer r) \<Longrightarrow> may_watch E D r sv k \<Longrightarrow> P k" and "en_upgrade E r = None \<Longrightarrow> U"
  shows "gives P U (serve E D r sv)"
proof (cases E D r sv rule: serve_cases)
  case (handler pat h)
  have "gives P U (h E D r sv)" by (rule gives_mux_table [OF _ _ handler(1)]) (use assms in blast)+
  with handler(3) show ?thesis by simp
qed (simp_all add: gives_reply)

end
