(* ===== verification/Api_Policy.thy ===== *)
theory Api_Policy
  imports Http_Server
begin

text \<open>
  The access policy of the HTTP interface, read off the handlers: for a path and a method, the role that is
  asked for before anything else happens (\<open>needs\<close>), and the theorem that the mux and the handlers enforce it. The requests
  that ask for no role, or only after the body was read, are not in the table.
\<close>

definition needs :: "string \<Rightarrow> string \<Rightarrow> (principal \<Rightarrow> bool) option" where
  "needs path meth =
     (if path = ''/v1/optimize'' \<and> meth = ''POST'' then Some dispatcher
      else if path = ''/v1/driver-events'' \<and> meth = ''POST'' then Some (\<lambda>p. dispatcher p \<or> pn_Role p = ''driver'')
      else if path = ''/v1/subscriptions'' \<and> meth \<in> {''GET'', ''POST''} \<or> has_prefix ''/v1/subscriptions/'' path \<and> meth = ''DELETE''
      then Some IsAdmin
      else if path = ''/v1/geofences'' \<and> meth \<in> {''GET'', ''POST''} \<or>
              has_prefix ''/v1/geofences/'' path \<and> meth \<in> {''GET'', ''PATCH'', ''DELETE''}
      then Some dispatcher
      else if path = ''/v1/admin/optimizer/config'' \<or> path = ''/v1/admin/webhook-deliveries'' \<or>
              path = ''/v1/admin/webhook-dlq'' \<or> has_prefix ''/v1/admin/webhook-dlq/'' path
      then Some IsAdmin
      else if path \<in> {''/v1/admin/routes/stats'', ''/v1/admin/plan-metrics'', ''/v1/admin/plan-metrics/weights'', ''/v1/admin/webhook-metrics''}
              \<and> meth = ''GET''
      then Some IsAdmin
      else if has_prefix ''/v1/admin/webhook-deliveries/'' path \<and> has_suffix ''/retry'' path \<and> meth = ''POST'' then Some IsAdmin
      else None)"

section \<open>Where the mux sends a request\<close>

lemma serve_at:
  assumes "clean_path (hr_Path r)" and "best_match (hr_Path r) (mux_table :: (string \<times> 's handler) list) None = Some (pat, h)"
    and "pat = hr_Path r \<or> (hr_Path r @ ''/'') \<notin> fst ` set (mux_table :: (string \<times> 's handler) list)"
  shows "serve E D r sv = h E D r sv"
  using assms by (auto simp: serve_def Let_def)

lemmas mux_simps = mux_table_def matches_def has_prefix_def has_suffix_def

lemma mux_exact:
  "best_match ''/v1/optimize'' mux_table None = Some (''/v1/optimize'', OptimizeHandler)"
  "best_match ''/v1/driver-events'' mux_table None = Some (''/v1/driver-events'', DriverEventsHandler)"
  "best_match ''/v1/subscriptions'' mux_table None = Some (''/v1/subscriptions'', SubscriptionsHandler)"
  "best_match ''/v1/geofences'' mux_table None = Some (''/v1/geofences'', GeofencesHandler)"
  by (simp_all add: mux_simps)

lemma mux_admin:
  "best_match ''/v1/admin/optimizer/config'' mux_table None = Some (''/v1/admin/optimizer/config'', AdminOptimizerConfigHandler)"
  "best_match ''/v1/admin/webhook-deliveries'' mux_table None = Some (''/v1/admin/webhook-deliveries'', WebhookDeliveriesHandler)"
  "best_match ''/v1/admin/webhook-dlq'' mux_table None = Some (''/v1/admin/webhook-dlq'', WebhookDLQHandler)"
  "best_match ''/v1/admin/routes/stats'' mux_table None = Some (''/v1/admin/routes/stats'', RouteStatsHandler)"
  "best_match ''/v1/admin/plan-metrics'' mux_table None = Some (''/v1/admin/plan-metrics'', PlanMetricsHandler)"
  "best_match ''/v1/admin/plan-metrics/weights'' mux_table None = Some (''/v1/admin/plan-metrics/weights'', PlanMetricsWeightsHandler)"
  "best_match ''/v1/admin/webhook-metrics'' mux_table None = Some (''/v1/admin/webhook-metrics'', WebhookMetricsHandler)"
  by (simp_all add: mux_simps)

lemma mux_below:
  "best_match (''/v1/subscriptions/'' @ k) mux_table None = Some (''/v1/subscriptions/'', SubscriptionByIDHandler)"
  "best_match (''/v1/geofences/'' @ k) mux_table None = Some (''/v1/geofences/'', GeofenceByIDHandler)"
  "best_match (''/v1/admin/webhook-dlq/'' @ k) mux_table None = Some (''/v1/admin/webhook-dlq/'', WebhookDLQHandler)"
  "best_match (''/v1/admin/webhook-deliveries/'' @ k) mux_table None = Some (''/v1/admin/webhook-deliveries/'', WebhookDeliveryRetryHandler)"
  by (simp_all add: mux_simps)

text \<open>Below these prefixes no pattern is a path with a slash appended, so nothing is redirected.\<close>

lemma no_redirect:
  "(''/v1/subscriptions/'' @ k) @ ''/'' \<notin> fst ` set mux_table" "(''/v1/geofences/'' @ k) @ ''/'' \<notin> fst ` set mux_table"
  "(''/v1/admin/webhook-dlq/'' @ k) @ ''/'' \<notin> fst ` set mux_table"
  "(''/v1/admin/webhook-deliveries/'' @ k) @ ''/'' \<notin> fst ` set mux_table"
  by (simp_all add: mux_table_def)

text \<open>Every route below \<^verbatim>\<open>/v1/routes\<close> goes to one handler.\<close>

lemma mux_route: "best_match (''/v1/routes/'' @ k) mux_table None = Some (''/v1/routes/'', RouteByIDHandler)"
  by (simp add: mux_simps)

lemma no_redirect_route: "(''/v1/routes/'' @ k) @ ''/'' \<notin> fst ` set mux_table"
  by (simp add: mux_table_def)

lemma serve_route:
  assumes "clean_path (''/v1/routes/'' @ k)" and "hr_Path r = ''/v1/routes/'' @ k"
  shows "serve E D r sv = RouteByIDHandler E D r sv"
  by (rule serve_at [of _ "''/v1/routes/''"]) (simp_all only: assms mux_route no_redirect_route simp_thms not_False_eq_True)

section \<open>What the handlers do without the role\<close>

definition refused :: "request \<Rightarrow> 's server \<Rightarrow> 's server \<times> reply \<Rightarrow> bool" where
  "refused r sv' out \<longleftrightarrow> (\<exists>msg. out = (sv', writeProblem 403 ''Forbidden'' msg (hr_Path r)))"

lemma handlers_refuse:
  assumes gp: "getPrincipal (en_L E) (dr_auth D) r sv = (sv', Inr pr)" and "needs (hr_Path r) (hr_Method r) = Some role" and "\<not> role pr"
  shows "hr_Path r = ''/v1/optimize'' \<Longrightarrow> refused r sv' (OptimizeHandler E D r sv)"
    and "hr_Path r = ''/v1/driver-events'' \<Longrightarrow> refused r sv' (DriverEventsHandler E D r sv)"
    and "hr_Path r = ''/v1/subscriptions'' \<Longrightarrow> refused r sv' (SubscriptionsHandler E D r sv)"
    and "hr_Path r = ''/v1/geofences'' \<Longrightarrow> refused r sv' (GeofencesHandler E D r sv)"
    and "hr_Path r = ''/v1/subscriptions/'' @ k \<Longrightarrow> refused r sv' (SubscriptionByIDHandler E D r sv)"
    and "hr_Path r = ''/v1/geofences/'' @ k \<Longrightarrow> refused r sv' (GeofenceByIDHandler E D r sv)"
  using assms(2,3)
  by (auto simp: refused_def needs_def with_principal_def gp OptimizeHandler_def DriverEventsHandler_def SubscriptionsHandler_def
      GeofencesHandler_def SubscriptionByIDHandler_def GeofenceByIDHandler_def Let_def dispatcher_def has_prefix_def
      split: if_splits)

lemma admin_handlers_refuse:
  assumes gp: "getPrincipal (en_L E) (dr_auth D) r sv = (sv', Inr pr)" and "needs (hr_Path r) (hr_Method r) = Some role" and "\<not> role pr"
  shows "hr_Path r = ''/v1/admin/optimizer/config'' \<Longrightarrow> refused r sv' (AdminOptimizerConfigHandler E D r sv)"
    and "hr_Path r = ''/v1/admin/webhook-deliveries'' \<Longrightarrow> refused r sv' (WebhookDeliveriesHandler E D r sv)"
    and "hr_Path r = ''/v1/admin/webhook-dlq'' \<Longrightarrow> refused r sv' (WebhookDLQHandler E D r sv)"
    and "hr_Path r = ''/v1/admin/routes/stats'' \<Longrightarrow> refused r sv' (RouteStatsHandler E D r sv)"
    and "hr_Path r = ''/v1/admin/plan-metrics'' \<Longrightarrow> refused r sv' (PlanMetricsHandler E D r sv)"
    and "hr_Path r = ''/v1/admin/plan-metrics/weights'' \<Longrightarrow> refused r sv' (PlanMetricsWeightsHandler E D r sv)"
    and "hr_Path r = ''/v1/admin/webhook-metrics'' \<Longrightarrow> refused r sv' (WebhookMetricsHandler E D r sv)"
    and "hr_Path r = ''/v1/admin/webhook-dlq/'' @ k \<Longrightarrow> refused r sv' (WebhookDLQHandler E D r sv)"
    and "hr_Path r = ''/v1/admin/webhook-deliveries/'' @ k \<Longrightarrow> refused r sv' (WebhookDeliveryRetryHandler E D r sv)"
  using assms(2,3)
  by (auto simp: refused_def needs_def with_principal_def gp AdminOptimizerConfigHandler_def WebhookDeliveriesHandler_def
      WebhookDLQHandler_def RouteStatsHandler_def PlanMetricsHandler_def PlanMetricsWeightsHandler_def WebhookMetricsHandler_def
      WebhookDeliveryRetryHandler_def forbidden_admin_def Let_def has_prefix_def split: if_splits)

text \<open>The paths of the table.\<close>

lemma needs_paths:
  assumes "needs path meth = Some role"
  shows "path \<in> {''/v1/optimize'', ''/v1/driver-events'', ''/v1/subscriptions'', ''/v1/geofences''} \<or>
      path \<in> {''/v1/admin/optimizer/config'', ''/v1/admin/webhook-deliveries'', ''/v1/admin/webhook-dlq'',
      ''/v1/admin/routes/stats'', ''/v1/admin/plan-metrics'', ''/v1/admin/plan-metrics/weights'', ''/v1/admin/webhook-metrics''} \<or>
      has_prefix ''/v1/subscriptions/'' path \<or> has_prefix ''/v1/geofences/'' path \<or> has_prefix ''/v1/admin/webhook-dlq/'' path \<or>
      has_prefix ''/v1/admin/webhook-deliveries/'' path"
  by (rule ccontr) (use assms in \<open>simp add: needs_def\<close>)

lemma serve_refuses:
  fixes E :: "'s env"
  assumes "clean_path (hr_Path r)" and "needs (hr_Path r) (hr_Method r) = Some role"
    and "getPrincipal (en_L E) (dr_auth D) r sv = (sv', Inr pr)" and "\<not> role pr"
  shows "refused r sv' (serve E D r sv)"
proof -
  note refuse = handlers_refuse [OF assms(3,2,4)] admin_handlers_refuse [OF assms(3,2,4)]
  have exact: "serve E D r sv = h E D r sv" if "best_match (hr_Path r) mux_table None = Some (hr_Path r, h)" for h :: "'s handler"
    by (rule serve_at [OF assms(1) that]) simp
  have below: "serve E D r sv = h E D r sv"
    if "best_match (hr_Path r) mux_table None = Some (pat, h)" "hr_Path r @ ''/'' \<notin> fst ` set (mux_table :: (string \<times> 's handler) list)"
    for h :: "'s handler" and pat
    by (rule serve_at [OF assms(1) that(1)]) (simp add: that(2))
  consider "hr_Path r = ''/v1/optimize''" | "hr_Path r = ''/v1/driver-events''" | "hr_Path r = ''/v1/subscriptions''"
    | "hr_Path r = ''/v1/geofences''" | "hr_Path r = ''/v1/admin/optimizer/config''" | "hr_Path r = ''/v1/admin/webhook-deliveries''"
    | "hr_Path r = ''/v1/admin/webhook-dlq''" | "hr_Path r = ''/v1/admin/routes/stats''" | "hr_Path r = ''/v1/admin/plan-metrics''"
    | "hr_Path r = ''/v1/admin/plan-metrics/weights''" | "hr_Path r = ''/v1/admin/webhook-metrics''"
    | k where "hr_Path r = ''/v1/subscriptions/'' @ k" | k where "hr_Path r = ''/v1/geofences/'' @ k"
    | k where "hr_Path r = ''/v1/admin/webhook-dlq/'' @ k" | k where "hr_Path r = ''/v1/admin/webhook-deliveries/'' @ k"
    using needs_paths [OF assms(2)] unfolding has_prefix_iff insert_iff empty_iff simp_thms by (elim disjE exE) metis+
  then show ?thesis
  proof cases
    case (12 k)
    show ?thesis unfolding below [of _ SubscriptionByIDHandler, unfolded 12, OF mux_below(1) no_redirect(1)] by (rule refuse(5) [OF 12])
  next
    case (13 k)
    show ?thesis unfolding below [of _ GeofenceByIDHandler, unfolded 13, OF mux_below(2) no_redirect(2)] by (rule refuse(6) [OF 13])
  next
    case (14 k)
    show ?thesis unfolding below [of _ WebhookDLQHandler, unfolded 14, OF mux_below(3) no_redirect(3)] by (rule refuse(14) [OF 14])
  next
    case (15 k)
    show ?thesis unfolding below [of _ WebhookDeliveryRetryHandler, unfolded 15, OF mux_below(4) no_redirect(4)] by (rule refuse(15) [OF 15])
  qed (simp_all only: exact mux_exact mux_admin refuse)
qed

end
