(* ===== verification/Api_Demo.thy ===== *)
theory Api_Demo
  imports Api_System Api_Streams Api_Policy Store_Memory Store_Properties
begin

text \<open>
  A concrete instance of every parameter of the HTTP side, for the witnesses of \<open>Api_Properties\<close>: a library, a
  codec, an oracle whose identifiers are new, an environment, a verifier for each mode, a request.
\<close>

section \<open>Library and codec\<close>

definition demo_lib :: golib where
  "demo_lib = \<lparr>lib_lower = map ascii_lower, lib_equal_fold = (\<lambda>a b. map ascii_lower a = map ascii_lower b),
     lib_format = (\<lambda>_. ''ts''), lib_format_local = (\<lambda>_. ''ts''), lib_parse_time = (\<lambda>_. None), lib_marshal = (\<lambda>_. ''{}''),
     lib_parse_obj = (\<lambda>s. if s = ''H'' then Some [''alg'' \<mapsto> AStr ''HS256'']
        else if s = ''R'' then Some [''alg'' \<mapsto> AStr ''RS256'', ''kid'' \<mapsto> AStr ''k1'']
        else if s = ''C'' then Some [''tenant'' \<mapsto> AStr ''t1'', ''role'' \<mapsto> AStr ''dispatcher''] else None),
     lib_hmac = (\<lambda>k s. k @ s), lib_sha256 = (\<lambda>s. s), lib_rsa_verify = (\<lambda>n e h s. s = ''key'' @ h)\<rparr>"

definition demo_codec :: json_codec where
  "demo_codec = \<lparr>jd_orders = (\<lambda>_. (('''', [demo_order]), None)), jd_optimize = (\<lambda>_. (demo_plan_request, None)),
     jd_config = (\<lambda>_. (None, None)), jd_assignment = (\<lambda>_. (\<lparr>ar_DriverID = ''d1'', ar_VehicleID = ''v1'', ar_StartAt = ''''\<rparr>, None)),
     jd_advance = (\<lambda>_. (\<lparr>av_Reason = '''', av_Force = False\<rparr>, None)), jd_events = (\<lambda>_. (('''', []), None)),
     jd_pod = (\<lambda>_. (\<lparr>pr_TenantID = '''', pr_OrderID = '''', pr_StopID = '''', pr_Type = '''', pr_Media = None, pr_Metadata = None\<rparr>, None)),
     jd_subscription = (\<lambda>_. (demo_subscription, None)), jd_object = (\<lambda>_. (Map.empty, Some (ErrText ''eof''))),
     jd_geofence = (\<lambda>_. (demo_geofence_input, None)),
     jd_presign = (\<lambda>_. (\<lparr>ps_TenantID = '''', ps_FileName = '''', ps_ContentType = '''', ps_Bytes = 0, ps_SHA256 = ''''\<rparr>, None)),
     jd_ids = (\<lambda>_. ([], None)), jd_ids_hours = (\<lambda>_. (([], 0), None)), jd_graphql = (\<lambda>_. (('''', None), None))\<rparr>"

section \<open>An oracle with new identifiers\<close>

definition demo_oracle :: mem_oracle where
  "demo_oracle = \<lparr>mo_uuid = (\<lambda>n i. replicate (n + 1) CHR ''a'' @ replicate i CHR ''b''), mo_now = (\<lambda>_. 7), mo_fmt = (\<lambda>_. ''ts''),
     mo_routes = (\<lambda>_ _. []), mo_tenants = (\<lambda>_ _. [])\<rparr>"

lemma demo_uuid_inj:
  assumes "replicate n CHR ''a'' @ replicate i CHR ''b'' = replicate n' CHR ''a'' @ replicate i' CHR ''b''"
  shows "n = n'" and "i = i'"
proof -
  have f: "filter (\<lambda>c. c = CHR ''a'') (replicate n CHR ''a'' @ replicate i CHR ''b'') = replicate n CHR ''a''" for n i
    by (simp add: filter_replicate)
  have "replicate n CHR ''a'' = replicate n' CHR ''a''"
    using arg_cong [OF assms, of "filter (\<lambda>c. c = CHR ''a'')"] by (simp only: f)
  then show n: "n = n'" by (metis length_replicate)
  from arg_cong [OF assms, of length] n show "i = i'" by simp
qed

lemma demo_oracle_ok: "oracle_ok demo_oracle"
  unfolding oracle_ok_def demo_oracle_def mem_oracle.simps
proof (intro conjI allI impI)
  fix n i n' i' :: nat
  assume "replicate (n + 1) CHR ''a'' @ replicate i CHR ''b'' = replicate (n' + 1) CHR ''a'' @ replicate i' CHR ''b''"
  from demo_uuid_inj [OF this] show "n = n'" "i = i'" by simp_all
qed simp

lemma demo_undrawn: "CHR ''a'' \<notin> set x \<Longrightarrow> undrawn demo_oracle w x"
  by (auto simp: undrawn_def demo_oracle_def)

section \<open>Servers and requests\<close>

definition demo_env :: "mem_world env" where
  "demo_env = \<lparr>en_M = memory_store demo_oracle, en_L = demo_lib, en_J = demo_codec, en_ping = None, en_registry = (\<lambda>_. []),
     en_upgrade = (\<lambda>r. if wr_Hijacker (hr_Writer r) then None
        else Some \<lparr>rs_Status = 500, rs_Header = [], rs_Body = Text ''no hijack''\<rparr>),
     en_ReadFile = (\<lambda>_. Inr ''''),
     en_metrics = (\<lambda>_. \<lparr>rs_Status = 200, rs_Header = [], rs_Body = NoBody\<rparr>)\<rparr>"

lemma demo_env_simps [simp]: "en_M demo_env = memory_store demo_oracle" "en_L demo_env = demo_lib" "en_J demo_env = demo_codec"
  by (simp_all add: demo_env_def)

lemma demo_env_typed: "env_typed demo_env"
  by (auto simp: env_typed_def demo_env_def typed_response_def split: if_splits)

definition demo_verifier :: "string \<Rightarrow> verifier" where
  "demo_verifier mode = \<lparr>vf_Mode = mode, vf_HMACSecret = ''key'', vf_JWKSURL = '''', vf_TenantClaim = ''tenant'',
     vf_RoleClaim = ''role'', vf_DriverClaim = ''sub'',
     vf_jwks = [\<lparr>jk_Kty = ''RSA'', jk_Kid = ''k1'', jk_N = b64_encode ''N'', jk_E = b64_encode ''E'', jk_Alg = ''''\<rparr>],
     vf_lastFetch = 0, vf_cacheTTL = 10\<rparr>"

lemma demo_verifier_simps [simp]:
  "vf_Mode (demo_verifier mode) = mode" "vf_HMACSecret (demo_verifier mode) = ''key''"
  "vf_TenantClaim (demo_verifier mode) = ''tenant''" "vf_RoleClaim (demo_verifier mode) = ''role''"
  "vf_DriverClaim (demo_verifier mode) = ''sub''"
  by (simp_all add: demo_verifier_def)

definition demo_draws :: draws where
  "demo_draws = \<lparr>dr_auth = \<lparr>ad_now = 0, ad_fetched = 0, ad_url_ok = (\<lambda>_. True), ad_get = (\<lambda>_. Inl ErrNotFound)\<rparr>,
     dr_now = (\<lambda>_. 7), dr_keys = [], dr_registry = (\<lambda>g. g)\<rparr>"

definition demo_server :: "mem_world \<Rightarrow> verifier option \<Rightarrow> mem_world server" where
  "demo_server w v = \<lparr>sv_store = w, sv_broker = NewBroker, sv_auth = v\<rparr>"

definition demo_request :: "string \<Rightarrow> string \<Rightarrow> (string \<times> string) list \<Rightarrow> request" where
  "demo_request meth path hs = \<lparr>hr_Method = meth, hr_Path = path, hr_Query = (\<lambda>_. ''''),
     hr_Header = (\<lambda>k. case map_of hs k of None \<Rightarrow> '''' | Some v \<Rightarrow> v), hr_Body = '''', hr_RemoteAddr = ''1.2.3.4:5'',
     hr_Writer = \<lparr>wr_Flusher = True, wr_Hijacker = True\<rparr>\<rparr>"

end
