(* ===== verification/Api_Properties.thy ===== *)
theory Api_Properties
  imports Api_Demo Redis_Broker
begin

text \<open>
  The properties of the HTTP side: tokens and roles, the broker, single requests, and the running server. Where a
  statement is about any store it quantifies over the environment; where it is about the running server it is over
  the in-memory store, through the interpretation \<open>mc\<close> of the store's contract.
\<close>

section \<open>Tokens\<close>

text \<open>
  C5: in the mode \<^verbatim>\<open>hmac\<close> a token is accepted exactly when it has three parts in base64, its header names
  \<^verbatim>\<open>HS256\<close>, its signature is the HMAC of the first two parts under the shared secret, and its claims name a tenant; the principal
  is then what the claims say, with the role \<^verbatim>\<open>user\<close> when they say none, and the verifier is left as it was. Nothing
  else is looked at: not the times in the claims, not whether the secret is empty.
\<close>

theorem hmac_tokens_accepted_iff:
  assumes "vf_Mode v = ''hmac''"
  shows "Verify L D v token = (v', Ret p) \<longleftrightarrow>
    v' = v \<and> (\<exists>h c hdr claims. token_parts L token h c (lib_hmac L (vf_HMACSecret v) (h @ ''.'' @ c)) hdr claims \<and>
      text_at hdr ''alg'' = ''HS256'' \<and> text_at claims (vf_TenantClaim v) \<noteq> '''' \<and>
      ap_Tenant p = text_at claims (vf_TenantClaim v) \<and> ap_DriverID p = text_at claims (vf_DriverClaim v) \<and>
      ap_Role p = lib_lower L (if text_at claims (vf_RoleClaim v) = '''' then ''user'' else text_at claims (vf_RoleClaim v)))"
proof -
  have m: "vf_Mode v \<noteq> ''dev''" using assms by simp
  show ?thesis unfolding Verify_token [OF m] check_signature_hmac [OF assms] claimed_principal_iff by blast
qed

theorem hmac_tokens_accepted_iff_witness:
  "Verify demo_lib (dr_auth demo_draws) (demo_verifier ''hmac'') (issue_token demo_lib ''key'' ''H'' ''C'') =
    (demo_verifier ''hmac'', Ret \<lparr>ap_Tenant = ''t1'', ap_Role = ''dispatcher'', ap_DriverID = ''''\<rparr>)"
proof (rule iffD2 [OF hmac_tokens_accepted_iff])
  show "vf_Mode (demo_verifier ''hmac'') = ''hmac''" by simp
  have p: "lib_parse_obj demo_lib ''H'' = Some [''alg'' \<mapsto> AStr ''HS256'']"
    "lib_parse_obj demo_lib ''C'' = Some [''tenant'' \<mapsto> AStr ''t1'', ''role'' \<mapsto> AStr ''dispatcher'']"
    by (simp_all add: demo_lib_def)
  have l: "lib_lower demo_lib ''dispatcher'' = ''dispatcher''" by (simp add: demo_lib_def ascii_lower_def)
  show "demo_verifier ''hmac'' = demo_verifier ''hmac'' \<and>
    (\<exists>h c hdr claims. token_parts demo_lib (issue_token demo_lib ''key'' ''H'' ''C'') h c
        (lib_hmac demo_lib (vf_HMACSecret (demo_verifier ''hmac'')) (h @ ''.'' @ c)) hdr claims \<and>
      text_at hdr ''alg'' = ''HS256'' \<and> text_at claims (vf_TenantClaim (demo_verifier ''hmac'')) \<noteq> '''' \<and>
      ap_Tenant \<lparr>ap_Tenant = ''t1'', ap_Role = ''dispatcher'', ap_DriverID = ''''\<rparr> = text_at claims (vf_TenantClaim (demo_verifier ''hmac'')) \<and>
      ap_DriverID \<lparr>ap_Tenant = ''t1'', ap_Role = ''dispatcher'', ap_DriverID = ''''\<rparr> = text_at claims (vf_DriverClaim (demo_verifier ''hmac'')) \<and>
      ap_Role \<lparr>ap_Tenant = ''t1'', ap_Role = ''dispatcher'', ap_DriverID = ''''\<rparr> =
        lib_lower demo_lib (if text_at claims (vf_RoleClaim (demo_verifier ''hmac'')) = '''' then ''user''
          else text_at claims (vf_RoleClaim (demo_verifier ''hmac''))))"
    using issue_token_parts [OF p, of "''key''"]
    by (intro conjI refl exI [of _ "b64_encode ''H''"] exI [of _ "b64_encode ''C''"] exI [of _ "[''alg'' \<mapsto> AStr ''HS256'']"]
        exI [of _ "[''tenant'' \<mapsto> AStr ''t1'', ''role'' \<mapsto> AStr ''dispatcher'']"]) (simp_all add: text_at_def l)
qed

text \<open>
  C34: a token issued with the shared secret is accepted, whatever other claims it carries, and gives back the tenant,
  the role in lower case and the driver its claims were issued for.
\<close>

theorem issued_token_roundtrip:
  assumes "vf_Mode v = ''hmac''" and "lib_parse_obj L header = Some hdr" and "text_at hdr ''alg'' = ''HS256''"
    and "lib_parse_obj L payload = Some claims" and "claims (vf_TenantClaim v) = Some (AStr t)" and "t \<noteq> ''''"
    and "claims (vf_RoleClaim v) = Some (AStr role)" and "role \<noteq> ''''" and "claims (vf_DriverClaim v) = Some (AStr d)"
  shows "Verify L D v (issue_token L (vf_HMACSecret v) header payload) =
    (v, Ret \<lparr>ap_Tenant = t, ap_Role = lib_lower L role, ap_DriverID = d\<rparr>)"
proof -
  have "vf_Mode v \<noteq> ''dev''" using assms(1) by simp
  moreover have "check_signature L D v hdr (b64_encode header @ ''.'' @ b64_encode payload)
      (lib_hmac L (vf_HMACSecret v) (b64_encode header @ ''.'' @ b64_encode payload)) = (v, Ret ())"
    using assms(1,3) by (simp add: check_signature_hmac)
  moreover have "claimed_principal L v claims = Ret \<lparr>ap_Tenant = t, ap_Role = lib_lower L role, ap_DriverID = d\<rparr>"
    using assms(5-9) by (simp add: claimed_principal_iff text_at_def)
  ultimately show ?thesis using issue_token_parts [OF assms(2,4)] Verify_token by blast
qed

theorem issued_token_roundtrip_witness:
  "Verify demo_lib (dr_auth demo_draws) (demo_verifier ''hmac''\<lparr>vf_DriverClaim := ''tenant''\<rparr>)
     (issue_token demo_lib (vf_HMACSecret (demo_verifier ''hmac''\<lparr>vf_DriverClaim := ''tenant''\<rparr>)) ''H'' ''C'') =
    (demo_verifier ''hmac''\<lparr>vf_DriverClaim := ''tenant''\<rparr>,
     Ret \<lparr>ap_Tenant = ''t1'', ap_Role = lib_lower demo_lib ''dispatcher'', ap_DriverID = ''t1''\<rparr>)"
  by (rule issued_token_roundtrip [of _ _ _ "[''alg'' \<mapsto> AStr ''HS256'']" _ "[''tenant'' \<mapsto> AStr ''t1'', ''role'' \<mapsto> AStr ''dispatcher'']"])
    (simp_all add: demo_lib_def text_at_def)

text \<open>
  In the mode \<^verbatim>\<open>jwks\<close> an accepted token is signed: its header names \<^verbatim>\<open>RS256\<close> and a key of the set that
  may be used now (the cache while it is fresh, otherwise what the key server sends), that key is an RSA key, and the signature of
  the first two parts verifies with its modulus and exponent; the principal is what the claims say.
\<close>

theorem jwks_tokens_signed:
  assumes "vf_Mode v = ''jwks''" and "Verify L D v token = (v', Ret p)"
  shows "\<exists>h c sig hdr claims key N E. token_parts L token h c sig hdr claims \<and> text_at hdr ''alg'' = ''RS256'' \<and>
    key \<in> set (usable_keys D v) \<and> jk_Kid key = text_at hdr ''kid'' \<and> lib_equal_fold L (jk_Kty key) ''RSA'' \<and>
    b64_decode (jk_N key) = Some N \<and> b64_decode (jk_E key) = Some E \<and>
    lib_rsa_verify L (big_of_bytes N) (bytesToInt E) (lib_sha256 L (h @ ''.'' @ c)) sig \<and>
    claimed_principal L v claims = Ret p"
proof -
  have "vf_Mode v \<noteq> ''dev''" using assms(1) by simp
  with assms(2) obtain h c sig hdr claims where t: "token_parts L token h c sig hdr claims"
    "check_signature L D v hdr (h @ ''.'' @ c) sig = (v', Ret ())" "claimed_principal L v claims = Ret p"
    using Verify_token by blast
  from check_signature_jwks [OF assms(1) t(2)] obtain n e where
    r: "text_at hdr ''alg'' = ''RS256''" "jwks_lookup L (text_at hdr ''kid'') (usable_keys D v) = Ret (n, e)"
    "lib_rsa_verify L n e (lib_sha256 L (h @ ''.'' @ c)) sig" by blast
  from jwks_lookup_Ret [OF r(2)] t(1,3) r(1,3) show ?thesis by blast
qed

lemma demo_jwks_token:
  "Verify demo_lib (dr_auth demo_draws) (demo_verifier ''jwks'') (issue_token demo_lib ''key'' ''R'' ''C'') =
    (demo_verifier ''jwks'', Ret \<lparr>ap_Tenant = ''t1'', ap_Role = ''dispatcher'', ap_DriverID = ''''\<rparr>)"
proof -
  have p: "lib_parse_obj demo_lib ''R'' = Some [''alg'' \<mapsto> AStr ''RS256'', ''kid'' \<mapsto> AStr ''k1'']"
    "lib_parse_obj demo_lib ''C'' = Some [''tenant'' \<mapsto> AStr ''t1'', ''role'' \<mapsto> AStr ''dispatcher'']"
    by (simp_all add: demo_lib_def)
  have l: "lib_lower demo_lib ''dispatcher'' = ''dispatcher''" by (simp add: demo_lib_def ascii_lower_def)
  have j: "jwks_lookup demo_lib ''k1'' (vf_jwks (demo_verifier ''jwks'')) = Ret (big_of_bytes ''N'', bytesToInt ''E'')"
    by (simp add: demo_verifier_def demo_lib_def b64_roundtrip del: b64_encode.simps)
  have "getRSAPublicKey demo_lib (dr_auth demo_draws) (demo_verifier ''jwks'') ''k1'' =
      (demo_verifier ''jwks'', Ret (big_of_bytes ''N'', bytesToInt ''E''))"
    by (subst getRSAPublicKey_cached) (simp_all add: j, simp_all add: demo_verifier_def demo_draws_def)
  then have "check_signature demo_lib (dr_auth demo_draws) (demo_verifier ''jwks'') [''alg'' \<mapsto> AStr ''RS256'', ''kid'' \<mapsto> AStr ''k1'']
      inp (lib_hmac demo_lib ''key'' inp) = (demo_verifier ''jwks'', Ret ())" for inp
    by (simp add: check_signature_def text_at_def Let_def) (simp add: demo_lib_def)
  moreover have "claimed_principal demo_lib (demo_verifier ''jwks'') [''tenant'' \<mapsto> AStr ''t1'', ''role'' \<mapsto> AStr ''dispatcher''] =
      Ret \<lparr>ap_Tenant = ''t1'', ap_Role = ''dispatcher'', ap_DriverID = ''''\<rparr>"
    by (simp add: claimed_principal_iff text_at_def l)
  moreover have "vf_Mode (demo_verifier ''jwks'') \<noteq> ''dev''" by simp
  ultimately show ?thesis using issue_token_parts [OF p, of "''key''"] Verify_token by blast
qed

theorem jwks_tokens_signed_witness:
  "\<exists>h c sig hdr claims key N E. token_parts demo_lib (issue_token demo_lib ''key'' ''R'' ''C'') h c sig hdr claims \<and>
    text_at hdr ''alg'' = ''RS256'' \<and>
    key \<in> set (usable_keys (dr_auth demo_draws) (demo_verifier ''jwks'')) \<and> jk_Kid key = text_at hdr ''kid'' \<and>
    lib_equal_fold demo_lib (jk_Kty key) ''RSA'' \<and> b64_decode (jk_N key) = Some N \<and> b64_decode (jk_E key) = Some E \<and>
    lib_rsa_verify demo_lib (big_of_bytes N) (bytesToInt E) (lib_sha256 demo_lib (h @ ''.'' @ c)) sig \<and>
    claimed_principal demo_lib (demo_verifier ''jwks'') claims = Ret \<lparr>ap_Tenant = ''t1'', ap_Role = ''dispatcher'', ap_DriverID = ''''\<rparr>"
  by (rule jwks_tokens_signed [OF _ demo_jwks_token]) simp

section \<open>Roles\<close>

text \<open>
  C35: a request whose bearer token is rejected is not refused by \<open>getPrincipal\<close>: the tenant, the role and the driver of its
  principal are what its headers say, whatever the mode of the verifier, so a client that sends no role header is an administrator of
  the tenant it names in a header. (The header is at least seven bytes long, as everything is that \<open>strings.ToLower\<close> maps to a
  text starting with \<open>bearer\<close> and a space; for a shorter one the slice would panic.)
\<close>

theorem rejected_token_is_admin:
  assumes "is_bearer L (hr_Header r ''Authorization'')" and "7 \<le> length (hr_Header r ''Authorization'')"
    and "sv_auth sv = Some v" and "snd (Verify L D v (trim_space (drop 7 (hr_Header r ''Authorization'')))) = Err e"
  shows "\<exists>pr. snd (getPrincipal L D r sv) = Inr pr \<and> pn_Tenant pr = withTenant r \<and>
    pn_Role pr = (if hr_Header r ''X-Role'' = '''' then ''admin'' else hr_Header r ''X-Role'') \<and>
    pn_DriverID pr = hr_Header r ''X-Driver-Id'' \<and> (hr_Header r ''X-Role'' = '''' \<longrightarrow> IsAdmin pr)"
  using getPrincipal_rejected [OF assms(3,2,4)] header_principal_tenant [of r]
  by (simp add: IsAdmin_def header_principal_def Let_def withTenant_def)

definition rejected_request :: "request" where
  "rejected_request = demo_request ''GET'' ''/v1/admin/webhook-dlq''
     [(''Authorization'', ''bearer x''), (''X-Tenant-Id'', ''t1''), (''X-Role'', ''dispatcher''), (''X-Driver-Id'', ''d1'')]"

theorem rejected_token_is_admin_witness:
  "\<exists>pr. snd (getPrincipal demo_lib (dr_auth demo_draws) rejected_request (demo_server start_world (Some (demo_verifier ''hmac'')))) = Inr pr \<and>
    pn_Tenant pr = withTenant rejected_request \<and>
    pn_Role pr = (if hr_Header rejected_request ''X-Role'' = '''' then ''admin'' else hr_Header rejected_request ''X-Role'') \<and>
    pn_DriverID pr = hr_Header rejected_request ''X-Driver-Id'' \<and> (hr_Header rejected_request ''X-Role'' = '''' \<longrightarrow> IsAdmin pr)"
proof (rule rejected_token_is_admin)
  show "sv_auth (demo_server start_world (Some (demo_verifier ''hmac''))) = Some (demo_verifier ''hmac'')"
    by (simp add: demo_server_def)
  show "snd (Verify demo_lib (dr_auth demo_draws) (demo_verifier ''hmac'')
      (trim_space (drop 7 (hr_Header rejected_request ''Authorization'')))) =
      Err (ErrText ''invalid JWT'')"
    by (simp add: rejected_request_def demo_request_def Verify_def) code_simp
qed (simp_all add: rejected_request_def demo_request_def is_bearer_def demo_lib_def ascii_lower_def has_prefix_def)

text \<open>
  C4: the guarded endpoints are guarded. A request whose path and method are in the table \<open>needs\<close> and whose principal does
  not have the role is answered with 403, or with the redirect 301 if its path is not in canonical form (a double slash, a dot
  segment), since the mux redirects such paths before it calls any handler. In both cases it changes nothing: not the store (and so not
  the registry of metrics), not the broker; only the key cache of the verifier may have been refreshed.
\<close>

theorem unauthorised_requests_refused:
  assumes "needs (hr_Path r) (hr_Method r) = Some role"
    and "snd (getPrincipal (en_L E) (dr_auth D) r sv) = Inr pr" and "\<not> role pr"
  shows "status_of (snd (serve E D r sv)) = Some (if clean_path (hr_Path r) then 403 else 301) \<and> sv_store (fst (serve E D r sv)) = sv_store sv \<and>
    sv_broker (fst (serve E D r sv)) = sv_broker sv"
proof (cases "clean_path (hr_Path r)")
  case True
  have gp: "getPrincipal (en_L E) (dr_auth D) r sv = (fst (getPrincipal (en_L E) (dr_auth D) r sv), Inr pr)"
    using assms(2) by (metis prod.collapse)
  show ?thesis
    using serve_refuses [OF True assms(1) gp assms(3)] getPrincipal_frame [of "en_L E" "dr_auth D" r sv] True by (auto simp: refused_def)
next
  case False
  then show ?thesis by (simp add: serve_def Let_def moved_def status_of_def)
qed

definition driver_request :: "request" where
  "driver_request = demo_request ''DELETE'' ''/v1/subscriptions/s1'' [(''X-Role'', ''driver'')]"

theorem unauthorised_requests_refused_witness:
  "status_of (snd (serve demo_env demo_draws driver_request (demo_server start_world None))) =
      Some (if clean_path (hr_Path driver_request) then 403 else 301) \<and>
    sv_store (fst (serve demo_env demo_draws driver_request (demo_server start_world None))) = sv_store (demo_server start_world None) \<and>
    sv_broker (fst (serve demo_env demo_draws driver_request (demo_server start_world None))) = sv_broker (demo_server start_world None)"
proof (rule unauthorised_requests_refused)
  show "needs (hr_Path driver_request) (hr_Method driver_request) = Some IsAdmin"
    by (simp add: driver_request_def demo_request_def needs_def has_prefix_def)
  show "snd (getPrincipal (en_L demo_env) (dr_auth demo_draws) driver_request
      (demo_server start_world None)) = Inr \<lparr>pn_Tenant = ''t_demo'', pn_Role = ''driver'', pn_DriverID = ''''\<rparr>"
    by (simp add: getPrincipal_def demo_server_def driver_request_def demo_request_def header_principal_def)
qed (simp add: IsAdmin_def)

section \<open>Streams\<close>

text \<open>
  C7: a stream of events opens only on a route the requester may watch: the principal is an administrator or a
  dispatcher, or a driver with an identifier who is the driver of the stored route. This covers both ways in, the path of the route
  and the bridge with its query parameter.
\<close>

theorem streams_only_for_watchers:
  assumes "snd (serve E D r sv) = Streams k c tx"
  shows "\<exists>pr. snd (getPrincipal (en_L E) (dr_auth D) r sv) = Inr pr \<and>
    (IsAdmin pr \<or> pn_Role pr = ''dispatcher'' \<or> pn_Role pr = ''driver'' \<and>
      (\<exists>rt. snd (st_GetRoute (en_M E) (withTenant r) k (sv_store sv)) = Ret rt \<and>
        pn_DriverID pr \<noteq> '''' \<and> rt_DriverID rt = pn_DriverID pr))"
proof -
  have "gives (may_watch E D r sv) True (serve E D r sv)" by (rule gives_serve) simp_all
  with assms show ?thesis by (auto simp: gives_def may_watch_def dispatcher_def)
qed

definition watch_request :: "bool \<Rightarrow> request" where
  "watch_request flusher = (demo_request ''GET'' (route_path ''r0'' ''/events/stream'') [(''X-Role'', ''dispatcher'')])
     \<lparr>hr_Writer := \<lparr>wr_Flusher = flusher, wr_Hijacker = flusher\<rparr>\<rparr>"

lemma demo_stream: "snd (serve demo_env demo_draws (watch_request True) (demo_server start_world None)) =
    Streams ''r0'' 0 (heartbeat_text demo_lib 7 ''r0'')"
  and demo_stream_store: "sv_store (fst (serve demo_env demo_draws (watch_request True) (demo_server start_world None))) = start_world"
proof -
  have p: "hr_Path (watch_request True) = route_path ''r0'' ''/events/stream''" by (simp add: watch_request_def demo_request_def)
  have "serve demo_env demo_draws (watch_request True) (demo_server start_world None) =
      RouteByIDHandler demo_env demo_draws (watch_request True) (demo_server start_world None)"
    by (rule serve_route [of "''r0/events/stream''"]) (simp_all add: p route_path_def clean_path_def)
  also have "\<dots> = stream_route demo_env demo_draws (watch_request True) ''r0'' (demo_server start_world None)"
    by (rule RouteByID_branches(1)) (simp_all add: p)
  finally show "snd (serve demo_env demo_draws (watch_request True) (demo_server start_world None)) =
      Streams ''r0'' 0 (heartbeat_text demo_lib 7 ''r0'')"
    "sv_store (fst (serve demo_env demo_draws (watch_request True) (demo_server start_world None))) = start_world"
    by (simp_all add: stream_route_def watch_request_def demo_request_def with_principal_def getPrincipal_def demo_server_def
        header_principal_def dispatcher_def open_stream_def Subscribe_def NewBroker_def demo_draws_def)
qed

theorem streams_only_for_watchers_witness:
  "\<exists>pr. snd (getPrincipal (en_L demo_env) (dr_auth demo_draws) (watch_request True) (demo_server start_world None)) = Inr pr \<and>
    (IsAdmin pr \<or> pn_Role pr = ''dispatcher'' \<or> pn_Role pr = ''driver'' \<and>
      (\<exists>rt. snd (st_GetRoute (en_M demo_env) (withTenant (watch_request True)) ''r0'' (sv_store (demo_server start_world None))) = Ret rt \<and>
        pn_DriverID pr \<noteq> '''' \<and> rt_DriverID rt = pn_DriverID pr))"
  by (rule streams_only_for_watchers [OF demo_stream])

text \<open>Through the writer of the logging middleware a request is answered or aborted.\<close>

lemma app_handler_ends:
  assumes "\<And>r. \<not> wr_Hijacker (hr_Writer r) \<Longrightarrow> en_upgrade E r \<noteq> None"
  shows "\<exists>rs p. snd (snd (app_handler P R C E X r a)) = Reply rs \<or> snd (snd (app_handler P R C E X r a)) = Aborts p"
proof -
  define ends where "ends q \<longleftrightarrow> (\<exists>rs p. q = Reply rs \<or> q = Aborts p)" for q
  have g: "ends (snd out)" if "gives (\<lambda>_. False) False out" for out :: "'a server \<times> reply"
    using that by (cases "snd out") (auto simp: gives_def ends_def)
  have m: "ends (snd (snd (mux_handler E X r a)))" if w: "hr_Writer r = statusWriter" for X r and a :: "('a, 'b, 'c) app"
  proof -
    have "gives (\<lambda>_. False) False (serve E (xd_draws X) r (app_server a))"
      by (rule gives_serve) (use assms [of r] w in \<open>auto simp: statusWriter_def\<close>)
    from g [OF this] show ?thesis by (simp add: mux_handler_def split_def Let_def)
  qed
  have l: "ends (snd (snd (rateLimitMiddleware R (mux_handler E) X r a)))" if "hr_Writer r = statusWriter" for X r and a :: "('a, 'b, 'c) app"
    using m [OF that] by (simp add: rateLimitMiddleware_def http_error_def split_def Let_def ends_def)
  have h: "ends (add_headers hs q)" if "ends q" for hs q using that by (auto simp: add_headers_def ends_def)
  have c: "ends (snd (snd (corsMiddleware C (rateLimitMiddleware R (mux_handler E)) X r a)))" if "hr_Writer r = statusWriter" for X r and a :: "('a, 'b, 'c) app"
    using h [OF l [OF that]] by (simp add: corsMiddleware_def split_def Let_def) (simp add: ends_def)
  have i: "ends (snd (snd (requestIDMiddleware (corsMiddleware C (rateLimitMiddleware R (mux_handler E))) X r a)))"
    if "hr_Writer r = statusWriter" for X r and a :: "('a, 'b, 'c) app"
    unfolding requestIDMiddleware_def Let_def split_def snd_conv by (rule h, rule c) (simp add: that)
  have "ends (snd (snd (app_handler P R C E X r a)))"
    using i [of "r\<lparr>hr_Writer := statusWriter\<rparr>" X a]
    by (auto simp: app_handler_def logMiddleware_def ends_def Let_def split: prod.split reply.split option.split)
  then show ?thesis by (simp add: ends_def)
qed

text \<open>
  C36: through the whole chain of middleware no stream ever opens and no websocket is ever established: the logging
  middleware hands its own response writer to the handlers, and that writer can neither flush nor be taken over. The
  hypothesis is what a websocket library does with a writer that cannot be taken over: it answers with an error.
\<close>

theorem no_streams_through_the_server:
  assumes "\<And>r. \<not> wr_Hijacker (hr_Writer r) \<Longrightarrow> en_upgrade E r \<noteq> None"
  shows "\<exists>rs p. snd (snd (app_handler P R C E X r a)) = Reply rs \<or> snd (snd (app_handler P R C E X r a)) = Aborts p"
  by (rule app_handler_ends [OF assms])

definition demo_rate_lib :: "nat rate_lib" where
  "demo_rate_lib = \<lparr>rl_new = (\<lambda>_ _. 0), rl_allow = (\<lambda>_ n. (n + 1, n < 40)), rl_parse_float = (\<lambda>_. None), rl_split_host = (\<lambda>_. None)\<rparr>"

text \<open>A library of collectors: a vector is its number of labels and the label values it has counted.\<close>

definition demo_prom_lib :: "(nat \<times> string list list) prom_lib" where
  "demo_prom_lib = \<lparr>pl_NewCounterVec = (\<lambda>_ _ ls. (length ls, [])), pl_NewHistogramVec = (\<lambda>_ _ _ ls. (length ls, [])), pl_DefBuckets = [],
     pl_Inc = (\<lambda>ls (n, seen). if n = length ls \<and> list_all (list_all (\<lambda>c. of_char c < (128::nat))) ls then Some (n, ls # seen) else None),
     pl_Observe = (\<lambda>ls _ (n, seen). if n = length ls \<and> list_all (list_all (\<lambda>c. of_char c < (128::nat))) ls then Some (n, ls # seen) else None),
     pl_registrable = (\<lambda>cs c. c \<notin> set cs)\<rparr>"

definition demo_app :: "(mem_world, nat, nat \<times> string list list) app" where
  "demo_app = \<lparr>app_server = demo_server start_world None, app_limits = newRLStore (lit 20) 40,
     app_metrics = new_metrics demo_prom_lib, app_log = []\<rparr>"

definition demo_app_draws :: app_draws where
  "demo_app_draws = \<lparr>xd_draws = demo_draws, xd_uuid = ''u'', xd_now = 0, xd_dur = 0\<rparr>"

theorem no_streams_through_the_server_witness:
  "\<exists>rs p. snd (snd (app_handler demo_prom_lib demo_rate_lib (cors_config (\<lambda>_. '''')) demo_env demo_app_draws (watch_request True) demo_app)) = Reply rs \<or>
    snd (snd (app_handler demo_prom_lib demo_rate_lib (cors_config (\<lambda>_. '''')) demo_env demo_app_draws (watch_request True) demo_app)) = Aborts p"
  by (rule no_streams_through_the_server) (simp add: demo_env_def)

section \<open>The broker\<close>

text \<open>
  C6: the broker is a table of mailboxes. Seen through \<open>mailboxes\<close> (for each route the unread events of each subscribed
  channel), \<^verbatim>\<open>Subscribe\<close> adds one empty mailbox that nobody has, \<^verbatim>\<open>Publish\<close> pushes the event to
  every mailbox of its route and to no other, \<^verbatim>\<open>Unsubscribe\<close> of a subscribed channel removes that mailbox alone; none of
  them panics, and all keep the invariant.
\<close>

theorem broker_refines_mailboxes:
  assumes "broker_inv b"
  shows "broker_inv (fst (Subscribe r b)) \<and> mailboxes b r' (snd (Subscribe r b)) = None \<and>
    mailboxes (fst (Subscribe r b)) = (mailboxes b)(r := (mailboxes b r)(snd (Subscribe r b) \<mapsto> [])) \<and>
    broker_inv (fst (Publish r evt b)) \<and> snd (Publish r evt b) = None \<and>
    mailboxes (fst (Publish r evt b)) = (mailboxes b)(r := \<lambda>c. map_option (push evt) (mailboxes b r c)) \<and>
    (mailboxes b r c \<noteq> None \<longrightarrow> broker_inv (fst (Unsubscribe r c b)) \<and> snd (Unsubscribe r c b) = None \<and>
      mailboxes (fst (Unsubscribe r c b)) = (mailboxes b)(r := (mailboxes b r)(c := None)))"
  using eb.inv_subscribe [OF assms] eb.fresh_subscribe [OF assms] eb.mail_subscribe [OF assms] eb.inv_publish [OF assms]
    eb.mail_publish [OF assms] eb.inv_unsubscribe [OF assms] eb.mail_unsubscribe [OF assms]
  by (simp del: not_None_eq)

theorem broker_refines_mailboxes_witness:
  "mailboxes (fst (Subscribe ''r'' (fst (Subscribe ''q'' NewBroker)))) ''r'' 1 = Some [] \<and>
    mailboxes (fst (Subscribe ''r'' (fst (Subscribe ''q'' NewBroker)))) ''q'' 0 = Some [] \<and>
    snd (Unsubscribe ''q'' 0 (fst (Subscribe ''q'' NewBroker))) = None"
proof -
  have s: "snd (Subscribe ''q'' NewBroker) = 0" "snd (Subscribe ''r'' (fst (Subscribe ''q'' NewBroker))) = 1"
    by (simp_all add: Subscribe_def NewBroker_def)
  note b0 = broker_refines_mailboxes [OF broker_inv_new, of "''q''", unfolded s]
  then have q: "mailboxes (fst (Subscribe ''q'' NewBroker)) ''q'' 0 = Some []" and i: "broker_inv (fst (Subscribe ''q'' NewBroker))"
    by simp_all
  show ?thesis using broker_refines_mailboxes [OF i, of "''r''" _ _ 0, unfolded s] broker_refines_mailboxes [OF i, of "''q''" _ _ 0] q by simp
qed

text \<open>
  A subscriber that does not read loses the newest events, not the oldest: after any run of publications its
  channel holds the events published to its route in their order, cut off after the first eight.
\<close>

theorem slow_subscriber_keeps_the_oldest:
  assumes "broker_inv b"
  shows "mailboxes (foldl (\<lambda>b e. fst (Publish (fst e) (snd e) b)) (fst (Subscribe r b)) es) r (snd (Subscribe r b)) =
    Some (take 8 (map snd (filter (\<lambda>e. fst e = r) es)))"
  using eb.new_subscriber_reads [OF assms, of es r] by (simp add: eb.publish_all_def capacity_def)

theorem slow_subscriber_keeps_the_oldest_witness:
  "mailboxes (foldl (\<lambda>b e. fst (Publish (fst e) (snd e) b)) (fst (Subscribe ''r'' NewBroker))
      (replicate 9 (''r'', \<lparr>ev_Type = ''x'', ev_Data = Map.empty\<rparr>))) ''r'' (snd (Subscribe ''r'' NewBroker)) =
    Some (take 8 (map snd (filter (\<lambda>e. fst e = ''r'') (replicate 9 (''r'', \<lparr>ev_Type = ''x'', ev_Data = Map.empty\<rparr>)))))"
  by (rule slow_subscriber_keeps_the_oldest) (rule broker_inv_new)

text \<open>
  The broker over Redis panics after a disconnection: \<^verbatim>\<open>Unsubscribe\<close> closes the channel of the subscriber but leaves
  the goroutine that feeds it, so the next event of the route is sent on a closed channel, and when the subscription of the client
  ends the channel is closed a second time. Either panic is in a goroutine of its own, where nothing recovers it.
\<close>

theorem redis_unsubscribe_panics:
  assumes "redis_Subscribe r b = (b1, ch)" and "redis_Unsubscribe r ch b1 = (b2, p)" and "unmarshal (marshal evt) = Some evt"
    and "redis_Publish marshal r evt = (name, payload)"
  shows "\<exists>i. rf_name (rb_fans b2 ! i) = name \<and> rf_chan (rb_fans b2 ! i) = ch \<and>
    snd (fan_message unmarshal (rb_fans b2 ! i) payload b2) = Some SendClosed \<and> snd (fan_end i b2) = Some CloseClosed"
proof -
  have pl: "payload = marshal evt" "name = chanName r" using assms(4) by (simp_all add: redis_Publish_def)
  note u = redis_after_Unsubscribe [OF assms(1,2), of unmarshal payload evt]
  then have "rb_fans b2 ! length (rb_fans b) = \<lparr>rf_name = chanName r, rf_chan = ch\<rparr>"
    "last (rb_fans b2) = \<lparr>rf_name = chanName r, rf_chan = ch\<rparr>" by simp_all
  with u assms(3) show ?thesis by (intro exI [of _ "length (rb_fans b)"]) (auto simp: pl)
qed

theorem redis_unsubscribe_panics_witness:
  "\<exists>b1 ch b2 p i. redis_Subscribe ''r'' \<lparr>rb_chans = [], rb_fans = []\<rparr> = (b1, ch) \<and> redis_Unsubscribe ''r'' ch b1 = (b2, p) \<and>
    rf_name (rb_fans b2 ! i) = ''route:r'' \<and> rf_chan (rb_fans b2 ! i) = ch \<and>
    snd (fan_message (\<lambda>s. Some \<lparr>ev_Type = s, ev_Data = Map.empty\<rparr>) (rb_fans b2 ! i) ''x'' b2) = Some SendClosed \<and>
    snd (fan_end i b2) = Some CloseClosed"
proof -
  obtain b1 ch where s: "redis_Subscribe ''r'' \<lparr>rb_chans = [], rb_fans = []\<rparr> = (b1, ch)" by fastforce
  obtain b2 p where u: "redis_Unsubscribe ''r'' ch b1 = (b2, p)" by fastforce
  from redis_unsubscribe_panics [OF s u, of "\<lambda>s. Some \<lparr>ev_Type = s, ev_Data = Map.empty\<rparr>" ev_Type
      "\<lparr>ev_Type = ''x'', ev_Data = Map.empty\<rparr>" "''route:r''" "''x''"] s u
  show ?thesis by (simp add: redis_Publish_def chanName_def)
qed

section \<open>Websockets\<close>

text \<open>
  A client that subscribes twice under one identifier leaks the first channel. When a connection that holds a
  channel under \<open>k\<close> starts another subscription under \<open>k\<close>, and later ends with its cleanup over all its
  subscriptions, the first channel is still registered: it receives events for ever and nobody reads or closes it.
\<close>

theorem resubscribing_leaks_a_channel:
  assumes "conn_ok (sv_broker sv) H c" and "wc_subs c k = Some (rid, ch)"
    and "ws_start k rid' field c sv = (c1, sv1)" and "set ids = dom (wc_subs c1)"
    and "ws_cleanup ids c1 sv1 = (c2, sv2, p)"
  shows "subscribed (sv_broker sv2) rid ch \<and> wc_subs c2 = Map.empty"
proof -
  define c0 where "c0 = c\<lparr>wc_subs := (wc_subs c)(k := None)\<rparr>"
  have fin: "finite (dom (wc_subs c))" using assms(1) by (simp add: conn_ok_def)
  have "conn_ok (sv_broker sv) (add_mset (rid, ch) H) c0"
    using assms(1) map_values_remove [OF fin assms(2)] by (simp add: conn_ok_def c0_def)
  moreover have "ws_start k rid' field c0 sv = (c1, sv1)" using assms(3) by (simp add: ws_start_def c0_def split_def)
  ultimately have "conn_ok (sv_broker sv1) (add_mset (rid, ch) H) c1" by (rule conn_ok_start(1))
  from conn_ok_cleanup [OF this assms(5)] assms(4) show ?thesis by (auto simp: conn_ok_def hold_ok_def)
qed

theorem resubscribing_leaks_a_channel_witness:
  "\<exists>c (sv :: mem_world server) c1 sv1 c2 sv2 p. conn_ok (sv_broker sv) {#} c \<and> wc_subs c ''1'' = Some (''r0'', 0) \<and>
    ws_start ''1'' ''r1'' ''routeEvents'' c sv = (c1, sv1) \<and> ws_cleanup [''1''] c1 sv1 = (c2, sv2, p) \<and>
    subscribed (sv_broker sv2) ''r0'' 0 \<and> wc_subs c2 = Map.empty"
proof -
  define c0 where "c0 = ws_open (watch_request True)"
  define sv0 where "sv0 = demo_server start_world None"
  obtain c sv where s0: "ws_start ''1'' ''r0'' ''routeEvents'' c0 sv0 = (c, sv)" by fastforce
  have "conn_ok (sv_broker sv0) {#} c0"
    unfolding c0_def by (rule conn_ok_open) (simp add: sv0_def demo_server_def hold_ok_def broker_inv_new)
  then have ok: "conn_ok (sv_broker sv) {#} c" using s0 by (rule conn_ok_start(1))
  have k: "wc_subs c ''1'' = Some (''r0'', 0)"
    using s0 by (auto simp: ws_start_def c0_def sv0_def ws_open_def demo_server_def Subscribe_def NewBroker_def)
  obtain c1 sv1 where s1: "ws_start ''1'' ''r1'' ''routeEvents'' c sv = (c1, sv1)" by fastforce
  obtain c2 sv2 p where s2: "ws_cleanup [''1''] c1 sv1 = (c2, sv2, p)" by (metis prod_cases3)
  have "set [''1''] = dom (wc_subs c1)"
    using s0 s1 by (auto simp: ws_start_def c0_def ws_open_def split_def Let_def split: if_splits)
  note leak = resubscribing_leaks_a_channel [OF ok k s1 this s2]
  show ?thesis
    by (rule exI [of _ c], rule exI [of _ sv], rule exI [of _ c1], rule exI [of _ sv1], rule exI [of _ c2], rule exI [of _ sv2],
        rule exI [of _ p]) (use leak ok k s1 s2 in simp)
qed

section \<open>Requests\<close>

text \<open>
  The check of an optimization request accepts exactly the requests that are in order, whatever order Go ranges
  over the objectives in: a known algorithm or none, no negative budget, a cooling factor strictly between zero and one or none,
  two weights or none, and every objective known (in any case) and not negative.
\<close>

theorem optimize_requests_checked:
  assumes "\<And>obj. or_Objectives req = Some obj \<Longrightarrow> set keys = dom obj"
  shows "validateOptimizeRequest L keys req = None \<longleftrightarrow> optimize_request_ok L req"
  by (rule validate_iff) (rule assms)

theorem optimize_requests_checked_witness:
  "validateOptimizeRequest demo_lib [''driveTime''] (demo_plan_request\<lparr>or_Objectives := Some [''driveTime'' \<mapsto> lit 1]\<rparr>) = None \<longleftrightarrow>
    optimize_request_ok demo_lib (demo_plan_request\<lparr>or_Objectives := Some [''driveTime'' \<mapsto> lit 1]\<rparr>)"
  by (rule optimize_requests_checked) auto

lemma publish_seq_open:
  "broker_inv (sv_broker sv) \<Longrightarrow>
    \<exists>b. publish_seq es sv f = f (sv\<lparr>sv_broker := b\<rparr>) \<and> broker_inv b \<and>
      (\<forall>r c. mailboxes b r c = map_option (\<lambda>q. foldl (\<lambda>q evt. push evt q) q (map snd (filter (\<lambda>e. fst e = r) es))) (mailboxes (sv_broker sv) r c))"
proof (induction es arbitrary: sv)
  case Nil
  then show ?case by (intro exI [of _ "sv_broker sv"]) (simp add: option.map_ident)
next
  case (Cons e es)
  obtain b p where pb: "Publish (fst e) (snd e) (sv_broker sv) = (b, p)" by (cases "Publish (fst e) (snd e) (sv_broker sv)")
  have b: "broker_inv b" "p = None"
    "mailboxes b = (mailboxes (sv_broker sv))(fst e := \<lambda>c. map_option (push (snd e)) (mailboxes (sv_broker sv) (fst e) c))"
    using eb.inv_publish [OF Cons.prems, of "fst e" "snd e"] eb.mail_publish [OF Cons.prems, of "fst e" "snd e"] by (simp_all add: pb)
  from Cons.IH [of "sv\<lparr>sv_broker := b\<rparr>"] b(1) obtain b' where b':
    "publish_seq es (sv\<lparr>sv_broker := b\<rparr>) f = f (sv\<lparr>sv_broker := b'\<rparr>)" "broker_inv b'"
    "\<forall>r c. mailboxes b' r c = map_option (\<lambda>q. foldl (\<lambda>q evt. push evt q) q (map snd (filter (\<lambda>e. fst e = r) es))) (mailboxes b r c)"
    by auto
  have "publish_seq (e # es) sv f = f (sv\<lparr>sv_broker := b'\<rparr>)" using b'(1) b(2) by (simp add: on_publish_def pb)
  moreover have "mailboxes b' r c = map_option (\<lambda>q. foldl (\<lambda>q evt. push evt q) q (map snd (filter (\<lambda>e. fst e = r) (e # es))))
      (mailboxes (sv_broker sv) r c)" for r c
    using b'(3) b(3) by (cases "mailboxes (sv_broker sv) r c") auto
  ultimately show ?case using b'(2) by blast
qed

text \<open>The events a successful advance puts on the stream of its route.\<close>

definition advance_events :: "string \<Rightarrow> advance_response \<Rightarrow> sse_event list" where
  "advance_events k resp = \<lparr>ev_Type = ''stop.advanced'', ev_Data = advanced_data (resp_Result resp)\<rparr> #
     map (\<lambda>a. snd (alert_event k a)) (resp_Alerts resp)"

text \<open>
  C3: end to end, \<^verbatim>\<open>POST /v1/routes/{id}/advance\<close> notifies everyone. When the store advances the route, the answer is 200 with
  the store's response, every client that watches the route finds the advance (and the policy alerts after it) at the
  end of its channel as far as there is room, clients of other routes notice nothing, and for every subscription of the tenant to
  \<^verbatim>\<open>stop.advanced\<close> a delivery is pending with that subscription's URL and secret and the event as its body.
\<close>

theorem advance_request_notifies:
  assumes "hr_Method r = ''POST''" and "hr_Path r = ''/v1/routes/'' @ k @ ''/advance''" and "clean_path (hr_Path r)"
    and "k \<noteq> ''''" and "CHR ''/'' \<notin> set k"
    and "en_M E = memory_store R" and "good_world R (sv_store sv)" and "broker_inv (sv_broker sv)"
    and "mem_AdvanceRoute (mo_fmt R) (mo_now R (mw_calls (sv_store sv))) (mw_mem (sv_store sv)) (withTenant r) k
      (fst (jd_advance (en_J E) (hr_Body r))) = (m', Inr resp)"
    and "ad_Changed (resp_Result resp)"
  shows "\<exists>sv'. serve E D r sv = (sv', writeJSON 200 (JAdvance resp)) \<and>
    (\<forall>r' c. mailboxes (sv_broker sv') r' c = (if r' = k then map_option (\<lambda>q. foldl (\<lambda>q evt. push evt q) q (advance_events k resp))
        (mailboxes (sv_broker sv) r' c) else mailboxes (sv_broker sv) r' c)) \<and>
    (\<forall>s\<in>set (subs m' (withTenant r)). ''stop.advanced'' \<in> set (sub_Events s) \<longrightarrow>
      (\<exists>d. delivery_view (mw_mem (sv_store sv')) d = Some (pending_delivery d (withTenant r) ''stop.advanced''
        (lib_marshal (en_L E) (emit_payload (lib_format (en_L E)) (dr_now D 1) (withTenant r) ''stop.advanced''
          (AObj (advanced_data (resp_Result resp))))) s)))"
proof -
  define w where "w = \<lparr>mw_mem = m', mw_calls = mw_calls (sv_store sv) + 1\<rparr>"
  define data where "data = advanced_data (resp_Result resp)"
  define sv1 where "sv1 = emit_event E (dr_now D 1) (withTenant r) ''stop.advanced'' data (sv\<lparr>sv_store := w\<rparr>)"
  define es where "es = (k, \<lparr>ev_Type = ''stop.advanced'', ev_Data = data\<rparr>) # map (alert_event k) (resp_Alerts resp)"
  have call: "st_AdvanceRoute (memory_store R) (withTenant r) k (fst (jd_advance (en_J E) (hr_Body r))) (sv_store sv) = (w, Ret resp)"
    using assms(9) by (simp add: memory_store_def draw_def w_def outcome_of_def)
  have w: "good_world R w"
    using mc.keepsD [OF mc.keeps_AdvanceRoute assms(7), of "withTenant r" k "fst (jd_advance (en_J E) (hr_Body r))"] by (simp add: call)
  have "serve E D r sv = RouteByIDHandler E D r sv" by (rule serve_route [of "k @ ''/advance''"]) (use assms(2,3) in simp_all)
  also have "\<dots> = advance_route E D r k sv"
    by (rule RouteByID_branches(3) [OF assms(4,5)]) (use assms(2) in \<open>simp add: route_path_def\<close>)
  also have "\<dots> = publish_seq es sv1 (\<lambda>sv. (sv, writeJSON 200 (JAdvance resp)))"
    using assms(1,6,10) by (simp add: advance_route_def on_result_def on_store_def call Let_def sv1_def es_def data_def)
  finally have srv: "serve E D r sv = publish_seq es sv1 (\<lambda>sv. (sv, writeJSON 200 (JAdvance resp)))" .
  have b1: "sv_broker sv1 = sv_broker sv" by (simp add: sv1_def emit_event_def)
  obtain b where b: "publish_seq es sv1 (\<lambda>sv. (sv, writeJSON 200 (JAdvance resp))) = (sv1\<lparr>sv_broker := b\<rparr>, writeJSON 200 (JAdvance resp))"
    "\<forall>r c. mailboxes b r c = map_option (\<lambda>q. foldl (\<lambda>q evt. push evt q) q (map snd (filter (\<lambda>e. fst e = r) es))) (mailboxes (sv_broker sv) r c)"
    using publish_seq_open [of sv1 es] assms(8) b1 by metis
  have "map snd (filter (\<lambda>e. fst e = r') es) = (if r' = k then advance_events k resp else [])" for r'
    by (auto simp: es_def advance_events_def data_def alert_event_def filter_map o_def)
  with b(2) have m: "mailboxes b r' c = (if r' = k then map_option (\<lambda>q. foldl (\<lambda>q evt. push evt q) q (advance_events k resp))
        (mailboxes (sv_broker sv) r' c) else mailboxes (sv_broker sv) r' c)" for r' c
    by (simp add: option.map_ident)
  have "sv_store sv1 = Emit (publisher_of (memory_store R)) (lib_marshal (en_L E)) (lib_format (en_L E)) (dr_now D 1)
      (\<lambda>_. (dr_now D 1, '''')) w (withTenant r) ''stop.advanced'' (AObj data)"
    by (simp add: sv1_def emit_event_def assms(6))
  with Emit_world_reaches [OF w] have "\<exists>d. delivery_view (mw_mem (sv_store sv1)) d = Some (pending_delivery d (withTenant r) ''stop.advanced''
        (lib_marshal (en_L E) (emit_payload (lib_format (en_L E)) (dr_now D 1) (withTenant r) ''stop.advanced'' (AObj data))) s)"
    if "s \<in> set (subs m' (withTenant r))" "''stop.advanced'' \<in> set (sub_Events s)" for s
    using that by (simp add: w_def)
  with m show ?thesis unfolding srv b(1) data_def by (intro exI [of _ "sv1\<lparr>sv_broker := b\<rparr>"]) simp
qed

text \<open>A world with one planned route (its identifier is the first one drawn) and one subscription of the tenant.\<close>

definition demo_world :: mem_world where
  "demo_world = fst (st_CreateSubscription (memory_store demo_oracle) demo_subscription
     (fst (st_PlanRoutes (memory_store demo_oracle) demo_plan_request start_world)))"

lemma demo_world_good: "good_world demo_oracle demo_world"
  unfolding demo_world_def
  using mc.keepsD [OF mc.keeps_CreateSubscription] mc.keepsD [OF mc.keeps_PlanRoutes] good_start [OF demo_oracle_ok] by blast

lemma demo_world_fields:
  "mw_calls demo_world = 2" "routes (mw_mem demo_world) ''a'' = Some (demo_route (mo_uuid demo_oracle 0) ''day'')"
  "subs (mw_mem demo_world) ''t1'' = [\<lparr>sub_ID = ''aa'', sub_TenantID = ''t1'', sub_URL = ''http://u'',
     sub_Events = [''stop.advanced''], sub_Secret = ''k''\<rparr>]"
  by (simp_all add: demo_world_def memory_store_def draw_def start_world_def mem_PlanRoutes_def mem_CreateSubscription_def Let_def
      NewMemory_def demo_plan_request_def demo_subscription_def demo_oracle_def numeral_2_eq_2)

definition advance_post :: request where
  "advance_post = demo_request ''POST'' ''/v1/routes/a/advance'' [(''X-Tenant-Id'', ''t1'')]"

lemma advance_post_simps:
  "hr_Method advance_post = ''POST''" "hr_Path advance_post = ''/v1/routes/'' @ ''a'' @ ''/advance''"
  "withTenant advance_post = ''t1''" "fst (jd_advance demo_codec b) = \<lparr>av_Reason = '''', av_Force = False\<rparr>"
  by (simp_all add: advance_post_def demo_request_def withTenant_def demo_codec_def)

theorem advance_request_notifies_witness:
  "\<exists>sv' resp d wd. serve demo_env demo_draws advance_post (demo_server demo_world None) = (sv', writeJSON 200 (JAdvance resp)) \<and>
    ad_Changed (resp_Result resp) \<and> delivery_view (mw_mem (sv_store sv')) d = Some wd \<and> wd_URL wd = ''http://u'' \<and> wd_Status wd = ''pending''"
proof -
  have l: "legs_at 0 (rt_Legs (demo_route u dt))" for u dt
    by (simp add: legs_at_def demo_route_def zero_route_def zero_leg_def leg_status_at_def)
  obtain m' resp where adv: "mem_AdvanceRoute (mo_fmt demo_oracle) (mo_now demo_oracle (mw_calls demo_world)) (mw_mem demo_world) ''t1'' ''a''
      \<lparr>av_Reason = '''', av_Force = False\<rparr> = (m', Inr resp)" "ad_Changed (resp_Result resp)" "subs m' = subs (mw_mem demo_world)"
    unfolding mem_AdvanceRoute_cases [OF demo_world_fields(2) l]
    by (auto simp: advance_blocked_def demo_route_def zero_route_def Let_def)
  obtain sv' where sv': "serve demo_env demo_draws advance_post (demo_server demo_world None) = (sv', writeJSON 200 (JAdvance resp))"
    "\<forall>s\<in>set (subs m' ''t1''). ''stop.advanced'' \<in> set (sub_Events s) \<longrightarrow> (\<exists>d. delivery_view (mw_mem (sv_store sv')) d =
      Some (pending_delivery d ''t1'' ''stop.advanced'' (lib_marshal demo_lib (emit_payload (lib_format demo_lib) (dr_now demo_draws 1) ''t1''
        ''stop.advanced'' (AObj (advanced_data (resp_Result resp))))) s))"
    using advance_request_notifies [of advance_post "''a''" demo_env demo_oracle "demo_server demo_world None" m' resp demo_draws]
      adv demo_world_good by (auto simp: advance_post_simps clean_path_def demo_server_def broker_inv_new)
  then obtain d where "delivery_view (mw_mem (sv_store sv')) d = Some (pending_delivery d ''t1'' ''stop.advanced''
      (lib_marshal demo_lib (emit_payload (lib_format demo_lib) (dr_now demo_draws 1) ''t1''
        ''stop.advanced'' (AObj (advanced_data (resp_Result resp))))) (hd (subs (mw_mem demo_world) ''t1'')))"
    by (auto simp: adv(3) demo_world_fields)
  with sv'(1) adv(2) show ?thesis by (force simp: pending_delivery_def demo_world_fields)
qed

section \<open>The running server\<close>

text \<open>
  C1: whatever requests, streams, websockets and disconnections the server sees, in whatever interleaving, from an empty store on:
  the store stays well-formed, the broker too, every open stream and every subscription of a websocket has a channel that is
  registered under its route, no two streams share one, and no channel was ever closed twice or written to after it was closed.
  Assumed of the requests is only that none names a route by an identifier the store will draw later, a guessed UUID.
\<close>

theorem running_server_safe:
  assumes "oracle_ok R" and "en_M E = memory_store R" and "env_typed E" and "sys_reachable E (undrawn R) start_world sy"
  shows "store_inv (mw_mem (sv_store (sy_server sy))) \<and> broker_inv (sv_broker (sy_server sy)) \<and>
    distinct (map (\<lambda>sm. (sm_route sm, sm_chan sm)) (sy_streams sy)) \<and>
    (\<forall>sm\<in>set (sy_streams sy). subscribed (sv_broker (sy_server sy)) (sm_route sm) (sm_chan sm)) \<and>
    (\<forall>c\<in>set (sy_sockets sy). \<forall>k rid ch. wc_subs c k = Some (rid, ch) \<longrightarrow> subscribed (sv_broker (sy_server sy)) rid ch) \<and>
    sy_panics sy = []"
proof -
  have i: "sys_inv (good_world R) sy" by (rule mc.sys_inv_reachable [OF assms(2,3) good_start [OF assms(1)] assms(4)])
  then have "store_inv (mw_mem (sv_store (sy_server sy)))" using mem_reachable_inv by (simp add: sys_inv_def good_world_def)
  with sys_inv_connected [OF i] show ?thesis by (simp add: connected_def)
qed

text \<open>The server after one client has opened a stream.\<close>

definition streaming_system :: "mem_world system" where
  "streaming_system = (sys_start (demo_server start_world None))
     \<lparr>sy_server := fst (serve demo_env demo_draws (watch_request True) (demo_server start_world None)),
      sy_streams := [\<lparr>sm_route = ''r0'', sm_chan = 0, sm_text = heartbeat_text demo_lib 7 ''r0''\<rparr>]\<rparr>"

lemma demo_ids_undrawn:
  assumes "hr_Path r = route_path k suffix" and "k \<noteq> ''''" and "CHR ''/'' \<notin> set k" and "suffix = '''' \<or> hd suffix = CHR ''/''"
    and "hr_Query r ''routeId'' = ''''" and "CHR ''a'' \<notin> set k"
  shows "\<forall>x\<in>route_ids r. undrawn demo_oracle w x"
proof
  fix x assume "x \<in> route_ids r"
  then obtain path parts where p: "route_parts path = Some parts" "x = parts ! 0"
    "path = hr_Path r \<or> path = ''/v1/routes/'' @ hr_Query r ''routeId'' @ ''/events/stream''"
    by (auto simp: route_ids_def)
  obtain rest where r: "rest \<noteq> ''''" "path = ''/v1/routes/'' @ rest" "parts = split_on CHR ''/'' rest"
    using p(1) unfolding route_parts_iff by blast
  have "rest = k @ suffix \<or> rest = ''/events/stream''"
    using p(3) r(2) assms(1,5) by (auto simp: route_path_def)
  moreover have "split_on CHR ''/'' (k @ suffix) ! 0 = k"
    using assms(3,4) by (cases suffix) (auto simp: split_on_append split_on_plain)
  ultimately have "x = k \<or> x = ''''" using p(2) r(3) by auto
  with assms(6) show "undrawn demo_oracle w x" by (auto intro: demo_undrawn)
qed

lemma streaming_reachable: "sys_reachable demo_env (undrawn demo_oracle) start_world streaming_system"
proof -
  have s: "sys_reachable demo_env (undrawn demo_oracle) start_world (sys_start (demo_server start_world None))"
    by (rule sys_reachable.start) (simp_all add: demo_server_def)
  have "\<forall>x\<in>route_ids (watch_request True). undrawn demo_oracle start_world x"
    by (rule demo_ids_undrawn [of _ "''r0''" "''/events/stream''"]) (simp_all add: watch_request_def demo_request_def)
  with sys_step.opened [of demo_env demo_draws "watch_request True" "sys_start (demo_server start_world None)"
      "fst (serve demo_env demo_draws (watch_request True) (demo_server start_world None))" "''r0''" 0 "heartbeat_text demo_lib 7 ''r0''"
      "undrawn demo_oracle"] demo_stream
  have "sys_step demo_env (undrawn demo_oracle) (sys_start (demo_server start_world None)) streaming_system"
    by (simp add: streaming_system_def sys_start_def demo_server_def prod_eq_iff)
  with s show ?thesis by (rule sys_reachable.step)
qed

theorem running_server_safe_witness:
  "broker_inv (sv_broker (sy_server streaming_system)) \<and> subscribed (sv_broker (sy_server streaming_system)) ''r0'' 0 \<and>
    store_inv (mw_mem (sv_store (sy_server streaming_system))) \<and> sy_panics streaming_system = []"
  using running_server_safe [OF demo_oracle_ok demo_env_simps(1) demo_env_typed streaming_reachable]
  by (simp add: streaming_system_def)

text \<open>
  C33: every answer of the running server is well-typed: a JSON body comes with the JSON content type, a problem document is an
  error, repeats the status of the response and has the type \<^verbatim>\<open>about:blank\<close>; and no request ends in a panic of a channel.
\<close>

theorem running_server_replies_typed:
  assumes "oracle_ok R" and "en_M E = memory_store R" and "env_typed E" and "sys_reachable E (undrawn R) start_world sy"
    and "\<forall>k\<in>route_ids r. undrawn R (sv_store (sy_server sy)) k"
  shows "case snd (serve E D r (sy_server sy)) of
      Reply rs \<Rightarrow> typed_response rs
    | Aborts p \<Rightarrow> p \<noteq> CloseClosed \<and> p \<noteq> SendClosed
    | _ \<Rightarrow> True"
proof -
  have "sys_inv (good_world R) sy" by (rule mc.sys_inv_reachable [OF assms(2,3) good_start [OF assms(1)] assms(4)])
  then have "fine (good_world R) (sv_broker (sy_server sy)) (serve E D r (sy_server sy))"
    by (intro mc.fine_serve [OF assms(2,3)]) (use assms(5) in \<open>simp_all add: sys_inv_def hold_ok_def\<close>)
  then show ?thesis by (auto simp: fine_def typed_reply_def split: reply.splits)
qed

definition missing_route :: request where
  "missing_route = demo_request ''GET'' (route_path ''r0'' '''') []"

theorem running_server_replies_typed_witness:
  "\<exists>rs. snd (serve demo_env demo_draws missing_route (sy_server streaming_system)) = Reply rs \<and> rs_Status rs = 404 \<and> typed_response rs"
proof -
  have p: "hr_Path missing_route = route_path ''r0'' ''''" "hr_Method missing_route = ''GET''"
    by (simp_all add: missing_route_def demo_request_def)
  have "\<forall>x\<in>route_ids missing_route. undrawn demo_oracle (sv_store (sy_server streaming_system)) x"
    by (rule demo_ids_undrawn [of _ "''r0''" "''''"]) (simp_all add: missing_route_def demo_request_def)
  note t = running_server_replies_typed [OF demo_oracle_ok demo_env_simps(1) demo_env_typed streaming_reachable this, of demo_draws]
  have st: "mw_mem (sv_store (sy_server streaming_system)) = NewMemory"
    using demo_stream_store by (simp add: streaming_system_def start_world_def)
  have "serve demo_env demo_draws missing_route (sy_server streaming_system) =
      RouteByIDHandler demo_env demo_draws missing_route (sy_server streaming_system)"
    by (rule serve_route [of "''r0''"]) (simp_all add: p route_path_def clean_path_def)
  also have "\<dots> = get_route demo_env missing_route ''r0'' (sy_server streaming_system)"
    using RouteByID_branches(4) [of "''r0''" missing_route demo_env demo_draws "sy_server streaming_system"] p by simp
  finally have "snd (serve demo_env demo_draws missing_route (sy_server streaming_system)) =
      writeProblem 404 ''Route not found'' ''not found'' (hr_Path missing_route)"
    by (simp add: get_route_def on_result_def on_store_def memory_store_def draw_def mem_GetRoute_def st NewMemory_def outcome_of_def
        error_text_def)
  with t show ?thesis by (simp add: writeProblem_def writeJSON_def)
qed

end
