(* ===== verification/Http_Properties.thy ===== *)
theory Http_Properties
  imports Api_Properties
begin

text \<open>
  The log and the request counters of the running process agree with the answers it gives.
\<close>

section \<open>What the inner handlers leave alone\<close>

text \<open>Below the logging middleware nothing writes to the log or to the collectors, nor to the method and the headers of the request.\<close>

definition quiet :: "('s, 'l, 'v) app_handler \<Rightarrow> bool" where
  "quiet h \<longleftrightarrow> (\<forall>X r a a' r' p. h X r a = (a', r', p) \<longrightarrow>
     app_metrics a' = app_metrics a \<and> app_log a' = app_log a \<and> hr_Method r' = hr_Method r \<and> hr_Header r' = hr_Header r)"

lemma quiet_mux: "quiet (mux_handler E)"
  by (auto simp: quiet_def mux_handler_def handled_request_def bridged_def split: prod.splits)

lemma quiet_rate_limit: "quiet h \<Longrightarrow> quiet (rateLimitMiddleware R h)"
  by (fastforce simp: quiet_def rateLimitMiddleware_def Let_def split: prod.splits if_splits)

lemma quiet_cors: "quiet h \<Longrightarrow> quiet (corsMiddleware C h)"
  by (fastforce simp: quiet_def corsMiddleware_def Let_def split: prod.splits if_splits)

text \<open>The path of the bridge is served by the bridge, so what \<open>handled_request\<close> says of the path is what that handler did to it.\<close>

lemma serve_bridge:
  assumes "hr_Path r = ''/graphql/subscriptions/route-events''"
  shows "serve E D r sv = route_events_bridge E D r sv"
proof (rule serve_at [of _ "''/graphql/subscriptions/route-events''"])
  show "clean_path (hr_Path r)" unfolding assms by code_simp
qed (simp_all add: assms mux_table_def matches_def has_suffix_def)

text \<open>The request id that the answer carries is the one the request has afterwards.\<close>

lemma request_id:
  assumes "quiet h" and "requestIDMiddleware h X r a = (a', r', p)"
  shows "app_metrics a' = app_metrics a" and "app_log a' = app_log a" and "hr_Method r' = hr_Method r"
    and "p = Reply rs \<Longrightarrow> map_of (rs_Header rs) ''X-Request-Id'' = Some (hr_Header r' ''X-Request-Id'')"
proof -
  define rid where "rid = (if hr_Header r ''X-Request-Id'' = '''' then xd_uuid X else hr_Header r ''X-Request-Id'')"
  obtain q where n: "h X (r\<lparr>hr_Header := (hr_Header r)(''X-Request-Id'' := rid)\<rparr>) a = (a', r', q)" "p = add_headers [(''X-Request-Id'', rid)] q"
    using assms(2) by (auto simp: requestIDMiddleware_def rid_def Let_def split: prod.splits)
  with assms(1) have q: "app_metrics a' = app_metrics a \<and> app_log a' = app_log a \<and> hr_Method r' = hr_Method r \<and>
      hr_Header r' = (hr_Header r)(''X-Request-Id'' := rid)"
    unfolding quiet_def by fastforce
  then show "app_metrics a' = app_metrics a" "app_log a' = app_log a" "hr_Method r' = hr_Method r" by simp_all
  show "map_of (rs_Header rs) ''X-Request-Id'' = Some (hr_Header r' ''X-Request-Id'')" if "p = Reply rs"
    using that n(2) q by (auto simp: add_headers_def split: reply.splits)
qed

section \<open>One request\<close>

definition counted :: "('v \<Rightarrow> string list \<Rightarrow> nat) \<Rightarrow> ('v \<Rightarrow> nat) \<Rightarrow> (string \<Rightarrow> bool) \<Rightarrow> ('s, 'l, 'v) app \<Rightarrow> bool" where
  "counted tally arity ok a \<longleftrightarrow> arity (mt_HTTPRequests (app_metrics a)) = 3 \<and> arity (mt_HTTPDuration (app_metrics a)) = 3 \<and>
     (\<forall>ls. tally (mt_HTTPRequests (app_metrics a)) ls =
        length (filter (\<lambda>l. list_all ok (line_labels l) \<and> line_labels l = ls) (app_log a)))"

text \<open>What the client of a request gets to know: its method, the status and the request id of the answer.\<close>

definition answer :: "request \<Rightarrow> reply \<Rightarrow> (string \<times> int \<times> string option) list" where
  "answer r p = (case p of Reply rs \<Rightarrow> [(hr_Method r, rs_Status rs, map_of (rs_Header rs) ''X-Request-Id'')] | _ \<Rightarrow> [])"

definition logged_answer :: "log_line \<Rightarrow> string \<times> int \<times> string option" where
  "logged_answer l = (ln_method l, ln_status l, Some (ln_request_id l))"

text \<open>
  What the handlers below the logging middleware do with each request of a run: the draws it came with, the request as they leave
  it, and their reply. The log and the replies of the process are functions of it: a line for every reply, whatever its labels, none for
  a handler that panics; and the reply itself, unless the counter refuses the labels of its line.
\<close>

definition below_log :: "'l rate_lib \<Rightarrow> cors \<Rightarrow> 's env \<Rightarrow> ('s, 'l, 'v) app_handler" where
  "below_log R C E X r = requestIDMiddleware (corsMiddleware C (rateLimitMiddleware R (mux_handler E))) X (r\<lparr>hr_Writer := statusWriter\<rparr>)"

fun outcomes :: "'v prom_lib \<Rightarrow> 'l rate_lib \<Rightarrow> cors \<Rightarrow> 's env \<Rightarrow> (app_draws \<times> request) list \<Rightarrow> ('s, 'l, 'v) app
    \<Rightarrow> (app_draws \<times> request \<times> reply) list" where
  "outcomes P R C E [] a = []"
| "outcomes P R C E ((X, r) # reqs) a =
     (X, snd (below_log R C E X r a)) # outcomes P R C E reqs (fst (app_handler P R C E X r a))"

definition lines_of :: "'l rate_lib \<Rightarrow> app_draws \<times> request \<times> reply \<Rightarrow> log_line list" where
  "lines_of R o1 = (case o1 of (X, r1, Reply rs) \<Rightarrow> [request_line R X r1 (rs_Status rs)] | _ \<Rightarrow> [])"

definition sent_for :: "'l rate_lib \<Rightarrow> (string \<Rightarrow> bool) \<Rightarrow> app_draws \<times> request \<times> reply \<Rightarrow> reply" where
  "sent_for R ok o1 = (if \<forall>l \<in> set (lines_of R o1). list_all ok (line_labels l) then snd (snd o1) else Aborts Rejected)"

lemma app_handler_counts:
  fixes a :: "('s, 'l, 'v) app"
  assumes "counter_laws P tally arity ok" and "counted tally arity ok a" and "app_handler P R C E X r a = (a', r', p)"
  defines "o1 \<equiv> (X, snd (below_log R C E X r a))"
  shows "counted tally arity ok a' \<and> app_log a' = app_log a @ lines_of R o1 \<and> p = sent_for R ok o1 \<and>
    answer r p = map logged_answer (filter (\<lambda>l. list_all ok (line_labels l)) (lines_of R o1))"
proof -
  let ?h = "requestIDMiddleware (corsMiddleware C (rateLimitMiddleware R (mux_handler E)))"
  obtain a1 r1 q where h: "?h X (r\<lparr>hr_Writer := statusWriter\<rparr>) a = (a1, r1, q)" using prod_cases3 by blast
  have "quiet (corsMiddleware C (rateLimitMiddleware R (mux_handler E)) :: ('s, 'l, 'v) app_handler)"
    by (intro quiet_cors quiet_rate_limit quiet_mux)
  note inner = request_id [OF this h]
  have o1: "o1 = (X, r1, q)" using h by (simp add: o1_def below_log_def)
  show ?thesis
  proof (cases q)
    case (Reply rs)
    define line where "line = request_line R X r1 (rs_Status rs)"
    have lines: "lines_of R o1 = [line]" by (simp add: lines_of_def o1 Reply line_def)
    have step: "a' = a1\<lparr>app_log := app_log a @ [line], app_metrics := fst (record_request P (line_labels line) (xd_dur X) (app_metrics a))\<rparr>"
      "p = (case snd (record_request P (line_labels line) (xd_dur X) (app_metrics a)) of None \<Rightarrow> Reply rs | Some pn \<Rightarrow> Aborts pn)"
      using assms(3) h inner by (auto simp: app_handler_def logMiddleware_def Reply line_def Let_def split: prod.splits)
    have l: "answer r (Reply rs) = [logged_answer line]" using inner(3,4) Reply
      by (simp add: answer_def logged_answer_def line_def request_line_def)
    have three: "length (line_labels line) = 3" by (simp add: line_labels_def)
    note rr = record_request_effect [OF assms(1) three, of "app_metrics a"]
    show ?thesis
    proof (cases "list_all ok (line_labels line)")
      case True
      with rr(1) assms(2) obtain m where "record_request P (line_labels line) (xd_dur X) (app_metrics a) = (m, None)"
        "arity (mt_HTTPRequests m) = 3" "arity (mt_HTTPDuration m) = 3"
        "tally (mt_HTTPRequests m) = (tally (mt_HTTPRequests (app_metrics a)))(line_labels line := Suc (tally (mt_HTTPRequests (app_metrics a)) (line_labels line)))"
        by (auto simp: counted_def)
      with step l True assms(2) lines show ?thesis by (auto simp: counted_def sent_for_def o1 Reply)
    next
      case False
      with rr(2) [of "xd_dur X"] step assms(2) lines show ?thesis by (auto simp: counted_def answer_def sent_for_def)
    qed
  qed (use assms(2,3) h inner in \<open>auto simp: app_handler_def logMiddleware_def counted_def answer_def o1 lines_of_def sent_for_def\<close>)
qed

lemma serve_all_counts:
  assumes "counter_laws P tally arity ok" and "counted tally arity ok a" and "serve_all (app_handler P R C E) reqs a = (a', replies)"
  shows "counted tally arity ok a' \<and> app_log a' = app_log a @ concat (map (lines_of R) (outcomes P R C E reqs a)) \<and>
    replies = map (sent_for R ok) (outcomes P R C E reqs a) \<and>
    concat (map2 (\<lambda>(X, r) p. answer r p) reqs replies) =
      map logged_answer (filter (\<lambda>l. list_all ok (line_labels l)) (concat (map (lines_of R) (outcomes P R C E reqs a))))"
  using assms(2,3)
proof (induction reqs arbitrary: a replies)
  case Nil
  then show ?case by simp
next
  case (Cons xr reqs)
  obtain X r where xr: "xr = (X, r)" by (cases xr)
  obtain a1 r1 p ps where one: "app_handler P R C E X r a = (a1, r1, p)" "serve_all (app_handler P R C E) reqs a1 = (a', ps)" "replies = p # ps"
    using Cons.prems(2) by (auto simp: xr split: prod.splits)
  note first = app_handler_counts [OF assms(1) Cons.prems(1) one(1)]
  then have f: "counted tally arity ok a1" "app_log a1 = app_log a @ lines_of R (X, snd (below_log R C E X r a))"
    "p = sent_for R ok (X, snd (below_log R C E X r a))"
    "answer r p = map logged_answer (filter (\<lambda>l. list_all ok (line_labels l)) (lines_of R (X, snd (below_log R C E X r a))))" by blast+
  have g: "counted tally arity ok a'" "app_log a' = app_log a1 @ concat (map (lines_of R) (outcomes P R C E reqs a1))"
    "ps = map (sent_for R ok) (outcomes P R C E reqs a1)"
    "concat (map2 (\<lambda>(X, r) p. answer r p) reqs ps) =
      map logged_answer (filter (\<lambda>l. list_all ok (line_labels l)) (concat (map (lines_of R) (outcomes P R C E reqs a1))))"
    using Cons.IH [OF f(1) one(2)] by blast+
  show ?case
  proof (intro conjI)
    show "app_log a' = app_log a @ concat (map (lines_of R) (outcomes P R C E (xr # reqs) a))" by (simp add: xr one(1) f(2) g(2))
    show "replies = map (sent_for R ok) (outcomes P R C E (xr # reqs) a)" by (simp add: xr one(1,3) flip: f(3) g(3))
    show "concat (map2 (\<lambda>(X, r) p. answer r p) (xr # reqs) replies) =
      map logged_answer (filter (\<lambda>l. list_all ok (line_labels l)) (concat (map (lines_of R) (outcomes P R C E (xr # reqs) a))))"
      by (simp add: xr one(1,3) f(4) g(4))
  qed (rule g(1))
qed

section \<open>From the start of the process\<close>

lemma start_counted:
  assumes "counter_laws P tally arity ok"
    and "start_process L R P hmac url_ok memory postgres ParseURL migrate env = Serves ps"
  shows "counted tally arity ok (ps_app ps)" and "app_log (ps_app ps) = []"
proof -
  obtain m where m: "RegisterDefault P (new_metrics P) = Inr m" "app_metrics (ps_app ps) = m" "app_log (ps_app ps) = []"
    using assms(2) by (auto simp: start_process_def Let_def split: sum.splits option.splits prod.splits)
  then show "app_log (ps_app ps) = []" by simp
  show "counted tally arity ok (ps_app ps)"
    using m RegisterDefault_once(2,3) [OF m(1)] counter_laws_new [OF assms(1)] by (simp add: counted_def new_metrics_def)
qed

text \<open>
  C8: The log and the request counters tell what the process answered. From the start of the process, whatever requests
  arrive: every reply of the handlers below the logging middleware has exactly one line in the log, in order, with its status and the
  request as they left it, also when a label value of that line is refused by the counter, and a handler that panics leaves no line.
  The client gets that reply, except that a refused label is a panic of the counter and loses it. So the
  answers given, with method, status and request id, are in their order exactly the lines of the log whose
  label values are valid, and for every method, path and status the counter is the number of such lines.
\<close>

theorem answers_logged_and_counted:
  assumes "counter_laws P tally arity ok"
    and "start_process L R P hmac url_ok memory postgres ParseURL migrate env = Serves ps"
    and "serve_all (app_handler P R (ps_cors ps) E) reqs (ps_app ps) = (a, replies)"
  shows "app_log a = concat (map (lines_of R) (outcomes P R (ps_cors ps) E reqs (ps_app ps))) \<and>
    replies = map (sent_for R ok) (outcomes P R (ps_cors ps) E reqs (ps_app ps)) \<and>
    concat (map2 (\<lambda>(X, r) p. answer r p) reqs replies) =
      map logged_answer (filter (\<lambda>l. list_all ok (line_labels l)) (app_log a)) \<and>
    (\<forall>ls. tally (mt_HTTPRequests (app_metrics a)) ls =
      length (filter (\<lambda>l. list_all ok (line_labels l) \<and> line_labels l = ls) (app_log a)))"
proof -
  have e: "app_log (ps_app ps) = []" by (rule start_counted(2) [OF assms(1,2)])
  show ?thesis
    using serve_all_counts [OF assms(1) start_counted(1) [OF assms(1,2)] assms(3)] unfolding e append_Nil counted_def by metis
qed

lemma demo_prom_laws:
  "counter_laws demo_prom_lib (\<lambda>(n, seen) ls. count_list seen ls) fst (list_all (\<lambda>c. of_char c < (128::nat)))"
  by (auto simp: counter_laws_def demo_prom_lib_def split: prod.splits)


text \<open>A process, and two preflight requests: the path of the second is not ASCII, and the demonstration library takes only that.\<close>

definition demo_process :: "(mem_world, nat, nat \<times> string list list) api_process" where
  "demo_process = \<lparr>ps_Addr = '':8080'', ps_ReadHeaderTimeout = 5 * second, ps_cors = cors_config (\<lambda>_. ''''),
     ps_app = \<lparr>app_server = \<lparr>sv_store = start_world, sv_broker = NewBroker, sv_auth = Some (NewVerifierFromEnv demo_lib (\<lambda>_. ''''))\<rparr>,
       app_limits = newRLStore (lit 20) 40,
       app_metrics = (new_metrics demo_prom_lib)\<lparr>mt_regOnce := True,
         mt_Registry := [HTTPRequests, HTTPDuration, WebhookDeliveries, WebhookLatency, GoCollector, ProcessCollector]\<rparr>,
       app_log = []\<rparr>,
     ps_worker = NewWorker (\<lambda>secret body. secret @ body) (\<lambda>_. True) ''''\<rparr>"

lemma demo_process_starts:
  "start_process demo_lib demo_rate_lib demo_prom_lib (\<lambda>secret body. secret @ body) (\<lambda>_. True) start_world (\<lambda>_ _. Inl ErrNotFound) Inr
     True (\<lambda>_. '''') = Serves demo_process"
proof -
  have "trim_space '''' = ''''" by code_simp
  moreover have "RegisterDefault demo_prom_lib (new_metrics demo_prom_lib) = Inr (app_metrics (ps_app demo_process))"
    by (simp add: RegisterDefault_def MustRegister_def new_metrics_def demo_prom_lib_def demo_process_def)
  ultimately show ?thesis
    by (simp add: start_process_def startup_env_def listen_addr_def NewServer_def rate_config_def demo_process_def Let_def)
qed

definition preflights :: "(app_draws \<times> request) list" where
  "preflights = [(demo_app_draws, demo_request ''OPTIONS'' ''/v1/orders'' []), (demo_app_draws, demo_request ''OPTIONS'' [CHR ''/'', CHR 0xE9] [])]"

lemma preflights_logged:
  "map line_labels (app_log (fst (serve_all (app_handler demo_prom_lib demo_rate_lib (ps_cors demo_process) demo_env) preflights (ps_app demo_process)))) =
    [[''OPTIONS'', ''/v1/orders'', ''204''], [''OPTIONS'', [CHR ''/'', CHR 0xE9], ''204'']]"
proof -
  have t: "int_text 204 = ''204''" by code_simp
  show ?thesis
    by (simp add: preflights_def app_handler_def logMiddleware_def requestIDMiddleware_def corsMiddleware_def add_headers_def demo_request_def
        demo_app_draws_def request_line_def line_labels_def t demo_process_def split_beta Let_def split: option.split)
qed

theorem answers_logged_and_counted_witness:
  "case serve_all (app_handler demo_prom_lib demo_rate_lib (ps_cors demo_process) demo_env) preflights (ps_app demo_process) of (a, replies) \<Rightarrow>
     length (concat (map2 (\<lambda>(X, r) p. answer r p) preflights replies)) = 1 \<and>
     length (concat (map (lines_of demo_rate_lib) (outcomes demo_prom_lib demo_rate_lib (ps_cors demo_process) demo_env preflights (ps_app demo_process)))) = 2 \<and>
     count_list (snd (mt_HTTPRequests (app_metrics a))) [''OPTIONS'', ''/v1/orders'', ''204''] = 1"
proof -
  obtain a replies where run: "serve_all (app_handler demo_prom_lib demo_rate_lib (ps_cors demo_process) demo_env) preflights (ps_app demo_process) = (a, replies)"
    by (cases "serve_all (app_handler demo_prom_lib demo_rate_lib (ps_cors demo_process) demo_env) preflights (ps_app demo_process)")
  note all = answers_logged_and_counted [OF demo_prom_laws demo_process_starts run]
  have labels: "map line_labels (app_log a) = [[''OPTIONS'', ''/v1/orders'', ''204''], [''OPTIONS'', [CHR ''/'', CHR 0xE9], ''204'']]"
    using preflights_logged by (simp add: run)
  then obtain l1 l2 where "app_log a = [l1, l2]" "line_labels l1 = [''OPTIONS'', ''/v1/orders'', ''204'']"
    "line_labels l2 = [''OPTIONS'', [CHR ''/'', CHR 0xE9], ''204'']" by auto
  moreover have "length (app_log a) = length (concat (map (lines_of demo_rate_lib)
      (outcomes demo_prom_lib demo_rate_lib (ps_cors demo_process) demo_env preflights (ps_app demo_process))))"
    by (rule arg_cong [OF conjunct1 [OF all]])
  ultimately show ?thesis using conjunct2 [OF conjunct2 [OF all]] by (simp only: run prod.case) (simp add: split_beta)
qed

end
