(* ===== verification/Ws_Client.thy ===== *)
theory Ws_Client
  imports Http_Properties
begin

text \<open>
  The manual client \<^verbatim>\<open>scripts/ws_client.go\<close>: it asks for a plan, subscribes to the events of its first
  route over a websocket, advances the route and logs what arrives for two seconds. What the network does is a parameter, over a state
  \<open>'w\<close>; so are \<^verbatim>\<open>json.Marshal\<close> and the decoder of the answer. At the end the network is the server of this
  repository.
\<close>

section \<open>The client\<close>

record client_call =
  cl_Method :: string
  cl_URL :: string
  cl_Header :: "(string \<times> string) list"
  cl_Body :: string

record 'w network =
  nw_Do :: "client_call \<Rightarrow> 'w \<Rightarrow> 'w \<times> payload result"
  nw_Dial :: "client_call \<Rightarrow> 'w \<Rightarrow> 'w \<times> go_error option"
  nw_WriteJSON :: "ws_in \<Rightarrow> 'w \<Rightarrow> 'w \<times> go_error option"

text \<open>How the program ends, and how far it came: by \<^verbatim>\<open>log.Fatal\<close>, or at the end of \<^verbatim>\<open>main\<close>.\<close>

datatype client_end = CallFailed go_error | BadAnswer go_error | NoRoutes | DialFailed go_error | WriteFailed go_error | Finished

definition client_port :: "(string \<Rightarrow> string) \<Rightarrow> string" where
  "client_port env = (if env ''PORT'' = '''' then ''8080'' else env ''PORT'')"

definition client_identity :: "(string \<times> string) list" where
  "client_identity = [(''X-Tenant-Id'', ''t_demo''), (''X-Role'', ''admin'')]"

definition client_post :: "string \<Rightarrow> string \<Rightarrow> string \<Rightarrow> client_call" where
  "client_post port path body =
     \<lparr>cl_Method = ''POST'', cl_URL = ''http://localhost:'' @ port @ path,
      cl_Header = (''Content-Type'', ''application/json'') # client_identity, cl_Body = body\<rparr>"

definition optimize_call :: "string \<Rightarrow> client_call" where
  \<open>optimize_call port = client_post port ''/v1/optimize'' ''{"tenantId":"t_demo","planDate":"2024-09-05","algorithm":"greedy"}''\<close>

definition advance_call :: "string \<Rightarrow> string \<Rightarrow> client_call" where
  "advance_call port routeID = client_post port (''/v1/routes/'' @ routeID @ ''/advance'') ''{}''"

definition dial_call :: "string \<Rightarrow> client_call" where
  "dial_call port = \<lparr>cl_Method = ''GET'', cl_URL = ''ws://localhost:'' @ port @ ''/graphql/ws'', cl_Header = client_identity, cl_Body = ''''\<rparr>"

definition init_message :: ws_in where
  "init_message = \<lparr>wi_Type = ''connection_init'', wi_ID = '''', wi_Payload = ''''\<rparr>"

definition subscribe_message :: "(obj \<Rightarrow> string) \<Rightarrow> string \<Rightarrow> ws_in" where
  "subscribe_message marshal routeID = \<lparr>wi_Type = ''subscribe'', wi_ID = ''1'',
     wi_Payload = marshal [''query'' \<mapsto> AStr ''subscription($routeId: ID!) { routeEvents(routeId: $routeId) }'',
       ''variables'' \<mapsto> AObj [''routeId'' \<mapsto> AStr routeID]]\<rparr>"

text \<open>After the two messages the route is advanced, whatever that call gives.\<close>

definition client_subscribe :: "'w network \<Rightarrow> (obj \<Rightarrow> string) \<Rightarrow> string \<Rightarrow> string \<Rightarrow> 'w \<Rightarrow> 'w \<times> client_end" where
  "client_subscribe N marshal port routeID w =
     (case nw_WriteJSON N init_message w of
        (w1, Some e) \<Rightarrow> (w1, WriteFailed e)
      | (w1, None) \<Rightarrow>
          (case nw_WriteJSON N (subscribe_message marshal routeID) w1 of
             (w2, Some e) \<Rightarrow> (w2, WriteFailed e)
           | (w2, None) \<Rightarrow> (fst (nw_Do N (advance_call port routeID) w2), Finished)))"

definition ws_client :: "'w network \<Rightarrow> (obj \<Rightarrow> string) \<Rightarrow> (payload \<Rightarrow> string list result) \<Rightarrow> (string \<Rightarrow> string) \<Rightarrow> 'w \<Rightarrow> 'w \<times> client_end" where
  "ws_client N marshal decode env w =
     (let port = client_port env in
      case nw_Do N (optimize_call port) w of
        (w1, Inl e) \<Rightarrow> (w1, CallFailed e)
      | (w1, Inr body) \<Rightarrow>
          (case decode body of
             Inl e \<Rightarrow> (w1, BadAnswer e)
           | Inr [] \<Rightarrow> (w1, NoRoutes)
           | Inr (routeID # _) \<Rightarrow>
               (case nw_Dial N (dial_call port) w1 of
                  (w2, Some e) \<Rightarrow> (w2, DialFailed e)
                | (w2, None) \<Rightarrow> client_subscribe N marshal port routeID w2)))"

text \<open>The goroutine that reads: a line for each message until reading fails.\<close>

definition read_line :: "ws_in \<Rightarrow> string" where
  "read_line m = ''WS <- '' @ wi_Type m @ '': '' @ wi_Payload m"

fun read_loop :: "ws_in result list \<Rightarrow> string list" where
  "read_loop [] = []"
| "read_loop (Inl e # _) = [''read: '' @ error_text e]"
| "read_loop (Inr m # ms) = read_line m # read_loop ms"

lemma ws_client_dials_first: "(\<And>w. snd (nw_Dial N (dial_call (client_port env)) w) \<noteq> None) \<Longrightarrow> snd (ws_client N marshal decode env w) \<noteq> Finished"
  by (auto simp: ws_client_def Let_def split: prod.split sum.split list.split option.split) (metis option.distinct(1) snd_conv)

section \<open>Against this server\<close>

text \<open>
  The network between the client and the process: a call is handled by the chain of middleware; \<open>read\<close> is the request that
  \<^verbatim>\<open>net/http\<close> makes of it. A dial succeeds when the answer is an upgrade. A message on a websocket is a step of \<open>Api_System\<close>; here
  writing one is a parameter, since it is never reached.
\<close>

definition server_network :: "('s, 'l, 'v) app_handler \<Rightarrow> app_draws \<Rightarrow> (client_call \<Rightarrow> request)
    \<Rightarrow> (ws_in \<Rightarrow> ('s, 'l, 'v) app \<Rightarrow> ('s, 'l, 'v) app \<times> go_error option) \<Rightarrow> ('s, 'l, 'v) app network" where
  "server_network h X parse send =
     \<lparr>nw_Do = (\<lambda>c a. case h X (parse c) a of
                 (a', _, Reply rs) \<Rightarrow> (a', Inr (rs_Body rs))
               | (a', _, _) \<Rightarrow> (a', Inl (ErrText ''EOF''))),
      nw_Dial = (\<lambda>c a. case h X (parse c) a of
                 (a', _, Upgrades) \<Rightarrow> (a', None)
               | (a', _, _) \<Rightarrow> (a', Some (ErrText ''websocket: bad handshake''))),
      nw_WriteJSON = send\<rparr>"

text \<open>The client never gets past its dial: through the logging middleware there is no upgrade.\<close>

lemma ws_client_never_connects:
  assumes "\<And>r. \<not> wr_Hijacker (hr_Writer r) \<Longrightarrow> en_upgrade E r \<noteq> None"
  shows "snd (ws_client (server_network (app_handler P R C E) X parse send) marshal decode env a) \<noteq> Finished"
proof (rule ws_client_dials_first)
  fix a :: "('a, 'b, 'c) app"
  from app_handler_ends [OF assms, of P R C X "parse (dial_call (client_port env))" a]
  show "snd (nw_Dial (server_network (app_handler P R C E) X parse send) (dial_call (client_port env)) a) \<noteq> None"
    by (auto simp: server_network_def split: prod.split reply.split)
qed

end
