(* ===== verification/Integrations.thy ===== *)
theory Integrations
  imports Go_Library
begin

text \<open>
  The adapters for sources of orders: the interface of \<^verbatim>\<open>internal/integrations/adapter.go\<close> as a record of
  methods, and the one adapter there is, \<^verbatim>\<open>csvsftp/adapter.go\<close>.
\<close>

record auth_state =
  as_Method :: string
  as_Token :: string

record ext_order =
  eo_ExternalRef :: string
  eo_Priority :: int

record order_batch =
  ob_Orders :: "ext_order list"
  ob_Cursor :: string

record external_status =
  es_Code :: string

record internal_event =
  ie_Type :: string
  ie_Payload :: obj

record webhook_info =
  wh_Events :: "string list"
  wh_Verify :: "string \<Rightarrow> string \<Rightarrow> bool"

record carrier_adapter =
  ca_Name :: string
  ca_Authenticate :: "obj \<Rightarrow> auth_state result"
  ca_FetchOrders :: "string \<Rightarrow> string \<Rightarrow> order_batch result"
  ca_AckOrders :: "string list \<Rightarrow> unit result"
  ca_MapStatus :: "external_status \<Rightarrow> internal_event"
  ca_Webhooks :: webhook_info

definition csv_MapStatus :: "golib \<Rightarrow> external_status \<Rightarrow> internal_event" where
  "csv_MapStatus L ext =
     (let typ = (if lib_equal_fold L (es_Code ext) ''DELIVERED'' then ''delivered'' else ''created'')
      in \<lparr>ie_Type = typ, ie_Payload = [''code'' \<mapsto> AStr (es_Code ext)]\<rparr>)"

definition CsvSftpAdapter :: "golib \<Rightarrow> carrier_adapter" where
  "CsvSftpAdapter L =
     \<lparr>ca_Name = ''csv-sftp'',
      ca_Authenticate = (\<lambda>cfg. Inr \<lparr>as_Method = ''sftp'', as_Token = ''keyref://example''\<rparr>),
      ca_FetchOrders = (\<lambda>since cursor. Inr \<lparr>ob_Orders = [\<lparr>eo_ExternalRef = ''CSV-1'', eo_Priority = 1\<rparr>], ob_Cursor = ''''\<rparr>),
      ca_AckOrders = (\<lambda>ids. Inr ()),
      ca_MapStatus = csv_MapStatus L,
      ca_Webhooks = \<lparr>wh_Events = [], wh_Verify = (\<lambda>sig body. True)\<rparr>\<rparr>"

end
