(* ===== verification/Sql_Library.thy ===== *)
theory Sql_Library
  imports Go_Library Opt_Eval "HOL-Library.State_Monad"
begin

text \<open>
  What \<^verbatim>\<open>internal/store/postgres.go\<close> uses of package \<^verbatim>\<open>database/sql\<close>. The driver (pgx) and the
  PostgreSQL server behind it are parameters: a record of functions over a database state \<open>'d\<close> that
  take the text of a statement and its arguments. What the standard library does between the driver
  and the program is modelled: the conversions of \<^verbatim>\<open>Rows.Scan\<close>, \<^verbatim>\<open>QueryRow\<close>, and transactions whose
  rollback is deferred. The operations of the store are state-monad computations that return either
  an error or a value, composed by \<open>attempt\<close>, which is \<^verbatim>\<open>if err != nil { return err }\<close>.
\<close>

section \<open>Values\<close>

text \<open>A single quote, and the empty literal of SQL, in the texts of statements.\<close>

definition quote :: string where
  "quote = [CHR 0x27]"

definition empty_literal :: string where
  "empty_literal = quote @ quote"

text \<open>\<^verbatim>\<open>driver.Value\<close>: what a column of a row can hold.\<close>

datatype sql_value =
    VNull
  | VInt int
  | VFloat f64
  | VBool bool
  | VBytes string
  | VText string
  | VTime time

text \<open>
  What the code passes as an argument: the driver encodes maps, slices and the policy struct itself.
  \<open>GMap None\<close> is a nil map; \<open>GAny\<close> is an entry of a \<^verbatim>\<open>map[string]any\<close> (\<open>ANil\<close> for a missing one).
\<close>

datatype sql_arg =
    GNil
  | GInt int
  | GFloat f64
  | GText string
  | GBytes string
  | GTime time
  | GTexts "string list"
  | GMap "obj option"
  | GPolicy auto_advance_policy
  | GAny any

datatype sql_error =
    NoRows
  | NotFound
  | DriverErr string
  | ScanCount nat nat
  | ScanColumn nat string
  | JsonErr
  | FileErr string
  | MigrateErr string string

text \<open>
  The library functions on texts: \<^verbatim>\<open>time.RFC3339Nano\<close>, the shortest text of a float,
  \<^verbatim>\<open>strconv.ParseFloat\<close>, and JSON of string slices, maps and policies. \<open>sl_parse_map\<close> is
  \<^verbatim>\<open>json.Unmarshal\<close> into an empty \<^verbatim>\<open>map[string]any\<close>: \<open>None\<close> is an error, \<open>Some None\<close> the text
  \<^verbatim>\<open>null\<close>, which makes the map nil. \<open>sl_parse_texts\<close> and \<open>sl_parse_policy\<close> give what the zero value
  has become, whether or not there was an error. \<open>sl_sprint\<close> is \<^verbatim>\<open>fmt.Sprint\<close> of numbers, lists and
  maps.
\<close>

record sql_lib =
  sl_time_text :: "time \<Rightarrow> string"
  sl_float_text :: "f64 \<Rightarrow> string"
  sl_parse_float :: "string \<Rightarrow> f64 option"
  sl_marshal_texts :: "string list \<Rightarrow> string"
  sl_parse_texts :: "string \<Rightarrow> string list"
  sl_parse_policy :: "string \<Rightarrow> auto_advance_policy"
  sl_parse_map :: "string \<Rightarrow> obj option option"
  sl_sprint :: "any \<Rightarrow> string"

section \<open>Scan\<close>

text \<open>The destinations the code scans into, by the type of the variable.\<close>

datatype target =
    TText | TInt | TInt64 | TFloat | TBytes | TTime | TAny
  | TNullText | TNullInt | TNullInt32 | TNullFloat | TNullTime | TMap

text \<open>\<^verbatim>\<open>asString\<close>; \<^verbatim>\<open>%v\<close> of a time is no number, so its text is not needed.\<close>

fun as_string :: "sql_lib \<Rightarrow> sql_value \<Rightarrow> string" where
  "as_string L (VText s) = s"
| "as_string L (VBytes s) = s"
| "as_string L (VInt i) = int_text i"
| "as_string L (VFloat f) = sl_float_text L f"
| "as_string L (VBool b) = (if b then ''true'' else ''false'')"
| "as_string L (VTime t) = sl_time_text L t"
| "as_string L VNull = ''''"

definition conv_text :: "sql_lib \<Rightarrow> sql_value \<Rightarrow> string + sql_value" where
  "conv_text L v = (if v = VNull then Inl ''converting NULL to string is unsupported'' else Inr (VText (as_string L v)))"

definition conv_int :: "int \<Rightarrow> int \<Rightarrow> sql_lib \<Rightarrow> sql_value \<Rightarrow> string + sql_value" where
  "conv_int lo hi L v =
     (case v of
        VNull \<Rightarrow> Inl ''converting NULL to int is unsupported''
      | VTime _ \<Rightarrow> Inl ''invalid syntax''
      | _ \<Rightarrow> (case atoi (as_string L v) of
          None \<Rightarrow> Inl ''invalid syntax or value out of range''
        | Some i \<Rightarrow> if lo \<le> i \<and> i \<le> hi then Inr (VInt i) else Inl ''value out of range''))"

definition conv_float :: "sql_lib \<Rightarrow> sql_value \<Rightarrow> string + sql_value" where
  "conv_float L v =
     (case v of
        VNull \<Rightarrow> Inl ''converting NULL to float64 is unsupported''
      | VFloat f \<Rightarrow> Inr (VFloat f)
      | VTime _ \<Rightarrow> Inl ''invalid syntax''
      | _ \<Rightarrow> (case sl_parse_float L (as_string L v) of None \<Rightarrow> Inl ''invalid syntax'' | Some f \<Rightarrow> Inr (VFloat f)))"

definition conv_time :: "sql_value \<Rightarrow> string + sql_value" where
  "conv_time v = (case v of VTime t \<Rightarrow> Inr (VTime t) | _ \<Rightarrow> Inl ''unsupported Scan'')"

definition nullable :: "(sql_value \<Rightarrow> string + sql_value) \<Rightarrow> sql_value \<Rightarrow> string + sql_value" where
  "nullable conv v = (if v = VNull then Inr VNull else conv v)"

text \<open>
  \<^verbatim>\<open>convertAssign\<close>: what the destination holds afterwards. A map is not a destination at all, not
  even for \<^verbatim>\<open>NULL\<close>.
\<close>

definition convert :: "sql_lib \<Rightarrow> target \<Rightarrow> sql_value \<Rightarrow> string + sql_value" where
  "convert L t v =
     (case t of
        TText \<Rightarrow> conv_text L v
      | TInt \<Rightarrow> conv_int min_int max_int L v
      | TInt64 \<Rightarrow> conv_int min_int max_int L v
      | TFloat \<Rightarrow> conv_float L v
      | TBytes \<Rightarrow> (if v = VNull then Inr VNull else Inr (VBytes (as_string L v)))
      | TTime \<Rightarrow> conv_time v
      | TAny \<Rightarrow> Inr v
      | TNullText \<Rightarrow> nullable (conv_text L) v
      | TNullInt \<Rightarrow> nullable (conv_int min_int max_int L) v
      | TNullInt32 \<Rightarrow> nullable (conv_int (- (2 ^ 31)) (2 ^ 31 - 1) L) v
      | TNullFloat \<Rightarrow> nullable (conv_float L) v
      | TNullTime \<Rightarrow> nullable conv_time v
      | TMap \<Rightarrow> Inl ''unsupported Scan'')"

text \<open>
  \<^verbatim>\<open>Rows.Scan\<close> assigns from the left and stops at the first error; the destinations it has not
  reached keep their zero value, written \<open>VNull\<close> (so does the one that failed).
\<close>

fun scan_columns :: "sql_lib \<Rightarrow> nat \<Rightarrow> target list \<Rightarrow> sql_value list \<Rightarrow> sql_value list \<times> sql_error option" where
  "scan_columns L i (t # ts) (v # vs) =
     (case convert L t v of
        Inl e \<Rightarrow> (map (\<lambda>_. VNull) (t # ts), Some (ScanColumn i e))
      | Inr w \<Rightarrow> (case scan_columns L (Suc i) ts vs of (ws, e) \<Rightarrow> (w # ws, e)))"
| "scan_columns L i _ _ = ([], None)"

definition Scan :: "sql_lib \<Rightarrow> target list \<Rightarrow> sql_value list \<Rightarrow> sql_value list \<times> sql_error option" where
  "Scan L ts row =
     (if length ts \<noteq> length row then (map (\<lambda>_. VNull) ts, Some (ScanCount (length row) (length ts)))
      else scan_columns L 0 ts row)"

text \<open>Reading a destination: the zero value of its type where nothing was assigned.\<close>

definition text_of :: "sql_value \<Rightarrow> string" where
  "text_of v = (case v of VText s \<Rightarrow> s | VBytes s \<Rightarrow> s | _ \<Rightarrow> '''')"

definition num_of :: "sql_value \<Rightarrow> int" where
  "num_of v = (case v of VInt i \<Rightarrow> i | _ \<Rightarrow> 0)"

definition float_of :: "sql_value \<Rightarrow> f64" where
  "float_of v = (case v of VFloat f \<Rightarrow> f | _ \<Rightarrow> 0)"

definition time_of :: "sql_value \<Rightarrow> time option" where
  "time_of v = (case v of VTime t \<Rightarrow> Some t | _ \<Rightarrow> None)"

text \<open>What an \<^verbatim>\<open>any\<close> destination holds, as an entry of a response object: bytes stay bytes.\<close>

definition any_of :: "sql_lib \<Rightarrow> sql_value \<Rightarrow> any" where
  "any_of L v =
     (case v of VNull \<Rightarrow> ANil | VInt i \<Rightarrow> AInt i | VFloat f \<Rightarrow> AFloat f | VBool b \<Rightarrow> ABool b | VText s \<Rightarrow> AStr s
      | VBytes s \<Rightarrow> AInts (map of_char s) | VTime t \<Rightarrow> AStr (sl_time_text L t))"

lemma scan_columns_length: "length (fst (scan_columns L i ts vs)) \<le> length ts"
  by (induction L i ts vs rule: scan_columns.induct) (auto split: sum.splits prod.splits)

lemma scan_columns_length_eq: "length ts = length vs \<Longrightarrow> length (fst (scan_columns L i ts vs)) = length ts"
  by (induction L i ts vs rule: scan_columns.induct) (auto split: sum.splits prod.splits)

lemma Scan_length [simp]: "length (fst (Scan L ts row)) = length ts"
  by (simp add: Scan_def scan_columns_length_eq)

text \<open>A scan that succeeds has converted every column.\<close>

lemma scan_columns_ok:
  "scan_columns L i ts vs = (ws, None) \<Longrightarrow> length ts = length vs \<Longrightarrow> j < length ts \<Longrightarrow> convert L (ts ! j) (vs ! j) = Inr (ws ! j)"
proof (induction L i ts vs arbitrary: ws j rule: scan_columns.induct)
  case (1 L i t ts v vs)
  then show ?case by (cases j) (auto split: sum.splits prod.splits)
qed auto

lemma Scan_ok:
  assumes "Scan L ts row = (ws, None)"
  shows "length row = length ts \<and> length ws = length ts \<and> (\<forall>j<length ts. convert L (ts ! j) (row ! j) = Inr (ws ! j))"
  using assms Scan_length [of L ts row] scan_columns_ok [of L 0 ts row ws]
  by (auto simp: Scan_def split: if_splits)

lemma Scan_map_fails: "TMap \<in> set ts \<Longrightarrow> snd (Scan L ts row) \<noteq> None"
proof
  assume "TMap \<in> set ts" and "snd (Scan L ts row) = None"
  then obtain ws where "Scan L ts row = (ws, None)" by (metis prod.collapse)
  then have "\<forall>j<length ts. convert L (ts ! j) (row ! j) = Inr (ws ! j)" using Scan_ok by blast
  moreover obtain j where "j < length ts" "ts ! j = TMap" using \<open>TMap \<in> set ts\<close> by (metis in_set_conv_nth)
  ultimately have "convert L TMap (row ! j) = Inr (ws ! j)" by metis
  then show False by (simp add: convert_def)
qed

end
