(* ===== verification/Pg_State.thy ===== *)
theory Pg_State
  imports Sql_Library Publisher Opt_Heuristics
begin

text \<open>
  The \<^verbatim>\<open>Postgres\<close> store of \<^verbatim>\<open>internal/store/postgres.go\<close>: its handle on the database, and the
  calls of package \<^verbatim>\<open>database/sql\<close> as computations over the state of the database, the clock and
  the source of identifiers. A transaction is open between \<open>begin_tx\<close> and the first of \<open>commit_tx\<close>
  and \<open>rollback_tx\<close>; statements name the connection they run on, the pool or the transaction.
\<close>

section \<open>The driver and the state\<close>

datatype conn = Pool | InTx

text \<open>
  The rows of a query: those delivered, the error that ended them early (\<^verbatim>\<open>Rows.Err\<close>) and the
  error of closing them.
\<close>

record row_set =
  rs_rows :: "sql_value list list"
  rs_err :: "string option"
  rs_close :: "string option"

record 'd driver =
  dr_query :: "conn \<Rightarrow> string \<Rightarrow> sql_arg list \<Rightarrow> 'd \<Rightarrow> (string + row_set) \<times> 'd"
  dr_exec :: "conn \<Rightarrow> string \<Rightarrow> sql_arg list \<Rightarrow> 'd \<Rightarrow> string option \<times> 'd"
  dr_begin :: "'d \<Rightarrow> string option \<times> 'd"
  dr_commit :: "'d \<Rightarrow> string option \<times> 'd"
  dr_rollback :: "'d \<Rightarrow> 'd"
  dr_ping :: "'d \<Rightarrow> string option \<times> 'd"

record 'd pg_env =
  pe_driver :: "'d driver"
  pe_now :: "nat \<Rightarrow> time"
  pe_uuid :: "nat \<Rightarrow> string"
  pe_lib :: golib
  pe_sql :: sql_lib
  pe_math :: gomath

record 'd pg =
  pg_db :: 'd
  pg_ticks :: nat
  pg_uuids :: nat
  pg_tx :: bool
  pg_registry :: registry

type_synonym ('d, 'a) pg_op = "('d pg, 'a) state"
type_synonym ('d, 'a) pg_call = "('d pg, sql_error + 'a) state"

abbreviation ret :: "'a \<Rightarrow> ('d, 'a) pg_call" where
  "ret x \<equiv> State_Monad.return (Inr x)"

abbreviation fail :: "sql_error \<Rightarrow> ('d, 'a) pg_call" where
  "fail e \<equiv> State_Monad.return (Inl e)"

text \<open>\<^verbatim>\<open>x, err := m; if err != nil { return err }\<close>.\<close>

definition attempt :: "('d, 'a) pg_call \<Rightarrow> ('a \<Rightarrow> ('d, 'b) pg_call) \<Rightarrow> ('d, 'b) pg_call" where
  "attempt m f = do { r \<leftarrow> m; case r of Inl e \<Rightarrow> fail e | Inr x \<Rightarrow> f x }"

section \<open>The calls\<close>

definition go_now :: "'d pg_env \<Rightarrow> ('d, time) pg_op" where
  "go_now E = State (\<lambda>s. (pe_now E (pg_ticks s), s\<lparr>pg_ticks := pg_ticks s + 1\<rparr>))"

definition new_uuid :: "'d pg_env \<Rightarrow> ('d, string) pg_op" where
  "new_uuid E = State (\<lambda>s. (pe_uuid E (pg_uuids s), s\<lparr>pg_uuids := pg_uuids s + 1\<rparr>))"

definition exec :: "'d pg_env \<Rightarrow> conn \<Rightarrow> string \<Rightarrow> sql_arg list \<Rightarrow> ('d, unit) pg_call" where
  "exec E c sql args = State (\<lambda>s. case dr_exec (pe_driver E) c sql args (pg_db s) of
     (r, d) \<Rightarrow> (case r of None \<Rightarrow> Inr () | Some e \<Rightarrow> Inl (DriverErr e), s\<lparr>pg_db := d\<rparr>))"

definition run_query :: "'d pg_env \<Rightarrow> conn \<Rightarrow> string \<Rightarrow> sql_arg list \<Rightarrow> ('d, row_set) pg_call" where
  "run_query E c sql args = State (\<lambda>s. case dr_query (pe_driver E) c sql args (pg_db s) of
     (r, d) \<Rightarrow> (case r of Inl e \<Rightarrow> Inl (DriverErr e) | Inr rs \<Rightarrow> Inr rs, s\<lparr>pg_db := d\<rparr>))"

text \<open>
  \<^verbatim>\<open>QueryContext\<close> and the loop over \<^verbatim>\<open>rows.Next()\<close>. The code never asks for \<^verbatim>\<open>rows.Err()\<close>: rows
  that ended early look like rows that ended.
\<close>

definition query :: "'d pg_env \<Rightarrow> conn \<Rightarrow> string \<Rightarrow> sql_arg list \<Rightarrow> ('d, sql_value list list) pg_call" where
  "query E c sql args = attempt (run_query E c sql args) (\<lambda>rs. ret (rs_rows rs))"

fun scan_all :: "sql_lib \<Rightarrow> target list \<Rightarrow> sql_value list list \<Rightarrow> sql_error + sql_value list list" where
  "scan_all L ts [] = Inr []"
| "scan_all L ts (row # rows) =
     (case Scan L ts row of
        (_, Some e) \<Rightarrow> Inl e
      | (vs, None) \<Rightarrow> (case scan_all L ts rows of Inl e \<Rightarrow> Inl e | Inr vss \<Rightarrow> Inr (vs # vss)))"

definition select :: "'d pg_env \<Rightarrow> conn \<Rightarrow> string \<Rightarrow> sql_arg list \<Rightarrow> target list \<Rightarrow> ('d, sql_value list list) pg_call" where
  "select E c sql args ts =
     attempt (query E c sql args) (\<lambda>rows. State_Monad.return (scan_all (pe_sql E) ts rows))"

text \<open>
  \<^verbatim>\<open>QueryRowContext(...).Scan(...)\<close>: the destinations, and the error. Here the error that ended the
  rows early does show when there was no row.
\<close>

definition scan_first :: "sql_lib \<Rightarrow> target list \<Rightarrow> row_set \<Rightarrow> sql_value list \<times> sql_error option" where
  "scan_first L ts rs =
     (case rs_rows rs of
        [] \<Rightarrow> (map (\<lambda>_. VNull) ts, Some (case rs_err rs of None \<Rightarrow> NoRows | Some e \<Rightarrow> DriverErr e))
      | row # _ \<Rightarrow> (case Scan L ts row of
          (vs, Some e) \<Rightarrow> (vs, Some e)
        | (vs, None) \<Rightarrow> (vs, map_option DriverErr (rs_close rs))))"

definition query_row :: "'d pg_env \<Rightarrow> conn \<Rightarrow> string \<Rightarrow> sql_arg list \<Rightarrow> target list \<Rightarrow> ('d, sql_value list \<times> sql_error option) pg_op" where
  "query_row E c sql args ts = do {
     r \<leftarrow> run_query E c sql args;
     State_Monad.return (case r of Inl e \<Rightarrow> (map (\<lambda>_. VNull) ts, Some e) | Inr rs \<Rightarrow> scan_first (pe_sql E) ts rs) }"

definition begin_tx :: "'d pg_env \<Rightarrow> ('d, unit) pg_call" where
  "begin_tx E = State (\<lambda>s. case dr_begin (pe_driver E) (pg_db s) of
     (None, d) \<Rightarrow> (Inr (), s\<lparr>pg_db := d, pg_tx := True\<rparr>)
   | (Some e, d) \<Rightarrow> (Inl (DriverErr e), s\<lparr>pg_db := d\<rparr>))"

definition commit_tx :: "'d pg_env \<Rightarrow> ('d, unit) pg_call" where
  "commit_tx E = State (\<lambda>s. case dr_commit (pe_driver E) (pg_db s) of
     (r, d) \<Rightarrow> (case r of None \<Rightarrow> Inr () | Some e \<Rightarrow> Inl (DriverErr e), s\<lparr>pg_db := d, pg_tx := False\<rparr>))"

text \<open>After a commit \<^verbatim>\<open>Rollback\<close> is \<^verbatim>\<open>ErrTxDone\<close> and does not reach the driver.\<close>

definition rollback_tx :: "'d pg_env \<Rightarrow> ('d, unit) pg_op" where
  "rollback_tx E = State (\<lambda>s. ((), if pg_tx s then s\<lparr>pg_db := dr_rollback (pe_driver E) (pg_db s), pg_tx := False\<rparr> else s))"

text \<open>\<^verbatim>\<open>tx, err := p.db.BeginTx(ctx, nil); if err != nil { return err }; defer func() { _ = tx.Rollback() }()\<close>.\<close>

definition in_tx :: "'d pg_env \<Rightarrow> ('d, 'a) pg_call \<Rightarrow> ('d, 'a) pg_call" where
  "in_tx E body = attempt (begin_tx E) (\<lambda>_. do { r \<leftarrow> body; _ \<leftarrow> rollback_tx E; State_Monad.return r })"

text \<open>\<^verbatim>\<open>opt.RecordMetrics\<close>: the registry of package \<^verbatim>\<open>opt\<close> belongs to the process.\<close>

definition record_metrics :: "string \<Rightarrow> string \<Rightarrow> string \<Rightarrow> Metrics \<Rightarrow> ('d, unit) pg_op" where
  "record_metrics tenant planDate algo m = State (\<lambda>s. ((), s\<lparr>pg_registry := RecordMetrics tenant planDate algo m (pg_registry s)\<rparr>))"

text \<open>A loop whose body may return an error.\<close>

fun for_each :: "('a \<Rightarrow> 'b \<Rightarrow> ('d, 'b) pg_call) \<Rightarrow> 'a list \<Rightarrow> 'b \<Rightarrow> ('d, 'b) pg_call" where
  "for_each f [] acc = ret acc"
| "for_each f (x # xs) acc = attempt (f x acc) (\<lambda>acc'. for_each f xs acc')"

definition Ping :: "'d pg_env \<Rightarrow> ('d, unit) pg_call" where
  "Ping E = State (\<lambda>s. case dr_ping (pe_driver E) (pg_db s) of
     (r, d) \<Rightarrow> (case r of None \<Rightarrow> Inr () | Some e \<Rightarrow> Inl (DriverErr e), s\<lparr>pg_db := d\<rparr>))"

section \<open>Running calls\<close>

lemma run_attempt:
  "run_state (attempt m f) s = (case run_state m s of (Inl e, s') \<Rightarrow> (Inl e, s') | (Inr x, s') \<Rightarrow> run_state (f x) s')"
  by (simp add: attempt_def split: prod.split sum.split)

lemma run_attempt_Inr:
  "run_state (attempt m f) s = (Inr y, s') \<longleftrightarrow> (\<exists>x s1. run_state m s = (Inr x, s1) \<and> run_state (f x) s1 = (Inr y, s'))"
  by (auto simp: run_attempt split: prod.splits sum.splits)

lemma attempt_ret [simp]: "attempt (ret x) f = f x"
  by (simp add: attempt_def)

lemma attempt_fail [simp]: "attempt (fail e) f = fail e"
  by (simp add: attempt_def)

lemma attempt_assoc: "attempt (attempt m f) g = attempt m (\<lambda>x. attempt (f x) g)"
  by (rule state_ext) (simp add: run_attempt split: prod.split sum.split)

lemma for_each_append: "for_each f (xs @ ys) = (\<lambda>acc. attempt (for_each f xs acc) (for_each f ys))"
  by (induction xs) (auto simp: attempt_assoc intro!: ext)

lemma scan_all_Inr:
  "scan_all L ts rows = Inr vss \<Longrightarrow> length vss = length rows \<and> (\<forall>i<length rows. Scan L ts (rows ! i) = (vss ! i, None))"
proof (induction rows arbitrary: vss)
  case (Cons row rows)
  then obtain vs vss' where "Scan L ts row = (vs, None)" "scan_all L ts rows = Inr vss'" "vss = vs # vss'"
    by (auto split: prod.splits option.splits sum.splits)
  with Cons.IH show ?case by (auto simp: nth_Cons split: nat.split)
qed simp

lemma scan_all_map_fails: "TMap \<in> set ts \<Longrightarrow> scan_all L ts rows = Inr vss \<Longrightarrow> rows = []"
proof (cases rows)
  case (Cons row rest)
  assume "TMap \<in> set ts" "scan_all L ts rows = Inr vss"
  moreover obtain vs e where "Scan L ts row = (vs, Some e)"
    using Scan_map_fails [OF \<open>TMap \<in> set ts\<close>] by (metis option.exhaust prod.collapse)
  ultimately show ?thesis by (simp add: Cons)
qed

section \<open>Predicates a call keeps\<close>

text \<open>\<open>preserves P m\<close>: the call leaves a predicate on the state true, whatever it returns.\<close>

definition preserves :: "('d pg \<Rightarrow> bool) \<Rightarrow> ('d, 'a) pg_op \<Rightarrow> bool" where
  "preserves P m \<longleftrightarrow> (\<forall>s. P s \<longrightarrow> P (snd (run_state m s)))"

named_theorems keeps_intros \<open>preservation of a predicate by the calls of the store\<close>

lemma preservesD: "preserves P m \<Longrightarrow> P s \<Longrightarrow> P (snd (run_state m s))"
  by (simp add: preserves_def)

lemma preserves_return [keeps_intros]: "preserves P (State_Monad.return x)"
  by (simp add: preserves_def)

lemma preserves_bind [keeps_intros]:
  "preserves P m \<Longrightarrow> (\<And>x. preserves P (f x)) \<Longrightarrow> preserves P (State_Monad.bind m f)"
  by (simp add: preserves_def split: prod.split) (metis snd_conv)

lemma preserves_attempt [keeps_intros]:
  "preserves P m \<Longrightarrow> (\<And>x. preserves P (f x)) \<Longrightarrow> preserves P (attempt m f)"
  unfolding attempt_def by (rule preserves_bind) (auto split: sum.split intro: preserves_return)

lemma preserves_if [keeps_intros]:
  "(b \<Longrightarrow> preserves P m) \<Longrightarrow> (\<not> b \<Longrightarrow> preserves P n) \<Longrightarrow> preserves P (if b then m else n)"
  by simp

lemma preserves_option [keeps_intros]:
  "(x = None \<Longrightarrow> preserves P m) \<Longrightarrow> (\<And>y. x = Some y \<Longrightarrow> preserves P (f y)) \<Longrightarrow> preserves P (case x of None \<Rightarrow> m | Some y \<Rightarrow> f y)"
  by (cases x) auto

lemma preserves_sum [keeps_intros]:
  "(\<And>y. preserves P (f y)) \<Longrightarrow> (\<And>y. preserves P (g y)) \<Longrightarrow> preserves P (case x of Inl y \<Rightarrow> f y | Inr y \<Rightarrow> g y)"
  by (cases x) auto

lemma preserves_prod [keeps_intros]: "(\<And>y z. preserves P (f y z)) \<Longrightarrow> preserves P (case x of (y, z) \<Rightarrow> f y z)"
  by (cases x) auto

lemma preserves_let [keeps_intros]: "(\<And>y. preserves P (f y)) \<Longrightarrow> preserves P (let y = x in f y)"
  by simp

lemma preserves_for_each [keeps_intros]:
  "(\<And>x a. x \<in> set xs \<Longrightarrow> preserves P (f x a)) \<Longrightarrow> preserves P (for_each f xs acc)"
  by (induction xs arbitrary: acc) (auto intro!: keeps_intros)

lemma preserves_query [keeps_intros]: "preserves P (run_query E c sql args) \<Longrightarrow> preserves P (query E c sql args)"
  unfolding query_def by (intro keeps_intros)

lemma preserves_select [keeps_intros]: "preserves P (run_query E c sql args) \<Longrightarrow> preserves P (select E c sql args ts)"
  unfolding select_def by (intro keeps_intros)

lemma preserves_query_row [keeps_intros]: "preserves P (run_query E c sql args) \<Longrightarrow> preserves P (query_row E c sql args ts)"
  unfolding query_row_def by (intro keeps_intros)


section \<open>Transactions\<close>

text \<open>
  \<^verbatim>\<open>BeginTx\<close>, the deferred rollback, the work, \<^verbatim>\<open>Commit\<close>: the frame of the operations that write more
  than one row.
\<close>

definition transaction :: "'d pg_env \<Rightarrow> ('d, 'a) pg_call \<Rightarrow> ('d, 'a) pg_call" where
  "transaction E work = in_tx E (attempt work (\<lambda>x. attempt (commit_tx E) (\<lambda>_. ret x)))"

text \<open>
  What PostgreSQL promises of a transaction: \<open>view\<close> is what other connections see of the database;
  until the commit it does not change, and rolling back does not change it.
\<close>

definition transactional :: "'d driver \<Rightarrow> ('d \<Rightarrow> 'v) \<Rightarrow> bool" where
  "transactional D view \<longleftrightarrow>
     (\<forall>d. view (snd (dr_begin D d)) = view d) \<and> (\<forall>d. view (dr_rollback D d) = view d) \<and>
     (\<forall>sql args d. view (snd (dr_exec D InTx sql args d)) = view d) \<and>
     (\<forall>sql args d. view (snd (dr_query D InTx sql args d)) = view d)"

text \<open>The committed contents are \<open>v\<close> and the transaction is as open as \<open>b\<close> says.\<close>

definition seen :: "('d \<Rightarrow> 'v) \<Rightarrow> 'v \<Rightarrow> bool \<Rightarrow> 'd pg \<Rightarrow> bool" where
  "seen view v b s \<longleftrightarrow> view (pg_db s) = v \<and> pg_tx s = b"

lemma seen_now [keeps_intros]: "preserves (seen view v b) (go_now E)"
  by (simp add: preserves_def seen_def go_now_def)

lemma seen_uuid [keeps_intros]: "preserves (seen view v b) (new_uuid E)"
  by (simp add: preserves_def seen_def new_uuid_def)

lemma seen_metrics [keeps_intros]: "preserves (seen view v b) (record_metrics t d a m)"
  by (simp add: preserves_def seen_def record_metrics_def)

lemma seen_exec_tx: "transactional (pe_driver E) view \<Longrightarrow> preserves (seen view v b) (exec E InTx sql args)"
  by (auto simp: preserves_def seen_def exec_def transactional_def split_beta)

lemma seen_query_tx: "transactional (pe_driver E) view \<Longrightarrow> preserves (seen view v b) (run_query E InTx sql args)"
  by (auto simp: preserves_def seen_def run_query_def transactional_def split_beta)

lemmas tx_intros = keeps_intros seen_exec_tx seen_query_tx

lemma run_rollback:
  "run_state (rollback_tx E) s = ((), if pg_tx s then s\<lparr>pg_db := dr_rollback (pe_driver E) (pg_db s), pg_tx := False\<rparr> else s)"
  by (simp add: rollback_tx_def)

text \<open>
  Work that only talks to its transaction either commits, or leaves the database as it was; unless it
  was the commit that failed. Either way the transaction is closed.
\<close>

lemma transaction_cases:
  assumes "transactional (pe_driver E) view" and "\<And>v b. preserves (seen view v b) work" and "\<not> pg_tx s"
    and "run_state (transaction E work) s = (r, s')"
  shows "\<not> pg_tx s' \<and>
    (case r of
       Inr x \<Rightarrow> \<exists>s1 s2. run_state work s1 = (Inr x, s2) \<and> seen view (view (pg_db s)) True s1 \<and> dr_commit (pe_driver E) (pg_db s2) = (None, pg_db s')
     | Inl e \<Rightarrow> view (pg_db s') = view (pg_db s) \<or> (\<exists>d m. dr_commit (pe_driver E) d = (Some m, pg_db s') \<and> e = DriverErr m))"
proof -
  obtain b d where b: "dr_begin (pe_driver E) (pg_db s) = (b, d)" by (cases "dr_begin (pe_driver E) (pg_db s)")
  then have vd: "view d = view (pg_db s)" using assms(1) unfolding transactional_def by (metis snd_conv)
  show ?thesis
  proof (cases b)
    case (Some e)
    then show ?thesis using assms(3,4) b vd by (auto simp: transaction_def in_tx_def run_attempt begin_tx_def)
  next
    case None
    define s1 where "s1 = s\<lparr>pg_db := d, pg_tx := True\<rparr>"
    have s1: "seen view (view (pg_db s)) True s1" by (simp add: seen_def s1_def vd)
    obtain w s2 where w: "run_state work s1 = (w, s2)" by (cases "run_state work s1")
    have s2: "seen view (view (pg_db s)) True s2" using preservesD [OF assms(2) s1] w by simp
    obtain c d2 where c: "dr_commit (pe_driver E) (pg_db s2) = (c, d2)" by (cases "dr_commit (pe_driver E) (pg_db s2)")
    have rb: "view (dr_rollback (pe_driver E) (pg_db s2)) = view (pg_db s2)" using assms(1) by (simp add: transactional_def)
    have begun: "run_state (begin_tx E) s = (Inr (), s1)" by (simp add: begin_tx_def b None s1_def)
    show ?thesis using assms(4) s1 s2 rb w c
      by (cases w; cases c)
        (auto simp: transaction_def in_tx_def run_attempt begun run_rollback commit_tx_def seen_def split: if_splits, blast)
  qed
qed

text \<open>
  A driver that keeps a log of the statements it has executed, as an example of the laws above:
  those of an open transaction are pending until the commit. \<open>answer\<close> says what a query returns.
\<close>

record log_db =
  lg_done :: "(string \<times> sql_arg list) list"
  lg_pending :: "(string \<times> sql_arg list) list"

definition log_driver :: "(string \<Rightarrow> sql_arg list \<Rightarrow> sql_value list list) \<Rightarrow> (string \<Rightarrow> bool) \<Rightarrow> log_db driver" where
  "log_driver answer bad =
     \<lparr>dr_query = (\<lambda>c sql args d. (Inr \<lparr>rs_rows = answer sql args, rs_err = None, rs_close = None\<rparr>, d)),
      dr_exec = (\<lambda>c sql args d. if bad sql then (Some ''refused'', d)
        else (None, if c = InTx then d\<lparr>lg_pending := lg_pending d @ [(sql, args)]\<rparr> else d\<lparr>lg_done := lg_done d @ [(sql, args)]\<rparr>)),
      dr_begin = (\<lambda>d. (None, d\<lparr>lg_pending := []\<rparr>)),
      dr_commit = (\<lambda>d. (None, d\<lparr>lg_done := lg_done d @ lg_pending d, lg_pending := []\<rparr>)),
      dr_rollback = (\<lambda>d. d\<lparr>lg_pending := []\<rparr>),
      dr_ping = (\<lambda>d. (None, d))\<rparr>"

lemma log_driver_transactional: "transactional (log_driver answer bad) lg_done"
  by (simp add: transactional_def log_driver_def)

end
