(* ===== verification/Pg_Clusters.thy ===== *)
theory Pg_Clusters
  imports Pg_State
begin

text \<open>
  The pure part of \<^verbatim>\<open>PlanRoutes\<close> in \<^verbatim>\<open>postgres.go\<close>: the stops, how many routes to make of them,
  the seeds (farthest first), the clusters (nearest seed) and the order within a cluster (nearest
  neighbour). A stop is referred to by its index in the list the query returned.
\<close>

record plan_stop =
  sp_ID :: string
  sp_Lat :: f64
  sp_Lng :: f64
  sp_Svc :: int
  sp_Start :: "time option"
  sp_End :: "time option"

record depot =
  dp_ID :: string
  dp_Lat :: f64
  dp_Lng :: f64

section \<open>Distances\<close>

definition store_haversine :: "gomath \<Rightarrow> f64 \<Rightarrow> f64 \<Rightarrow> f64 \<Rightarrow> f64 \<Rightarrow> f64" where
  "store_haversine gm lat1 lon1 lat2 lon2 =
     (let R = lit 6371000;
          dLat = (lat2 - lat1) * f_pi / lit 180;
          dLon = (lon2 - lon1) * f_pi / lit 180;
          a = m_sin gm (dLat / lit 2) * m_sin gm (dLat / lit 2) +
              m_cos gm (lat1 * f_pi / lit 180) * m_cos gm (lat2 * f_pi / lit 180) *
              m_sin gm (dLon / lit 2) * m_sin gm (dLon / lit 2);
          c = lit 2 * m_atan2 gm (m_sqrt gm a) (m_sqrt gm (1 - a))
      in R * c)"

lemma store_haversine_eq: "store_haversine = haversineMeters"
  by (simp add: store_haversine_def haversineMeters_def fun_eq_iff)

definition stop_dist :: "gomath \<Rightarrow> plan_stop list \<Rightarrow> nat \<Rightarrow> nat \<Rightarrow> f64" where
  "stop_dist gm stops i j =
     store_haversine gm (sp_Lat (stops ! i)) (sp_Lng (stops ! i)) (sp_Lat (stops ! j)) (sp_Lng (stops ! j))"

section \<open>The number of routes\<close>

text \<open>\<^verbatim>\<open>math.Ceil\<close> and \<^verbatim>\<open>math.Min\<close>.\<close>

fun f_ceil :: "f64 \<Rightarrow> f64" where
  "f_ceil (Fin r) = Fin (of_int \<lceil>r\<rceil>)"
| "f_ceil x = x"

definition f_min :: "f64 \<Rightarrow> f64 \<Rightarrow> f64" where
  "f_min a b = (if a = NInf \<or> b = NInf then NInf else if a = NaN \<or> b = NaN then NaN else if a < b then a else b)"

definition route_count :: "string list \<Rightarrow> nat \<Rightarrow> nat" where
  "route_count pool n =
     (if pool \<noteq> [] then length pool
      else let k = f_to_int (f_min (lit 3) (f_ceil (f_of_int (int n) / lit 20))) in if k \<le> 0 then 1 else nat k)"

section \<open>Seeds\<close>

text \<open>
  The loops of the planner that look for the best candidate: the first of the best values, some
  candidates skipped, a value taken only when it beats the initial one.
\<close>

definition pick :: "(f64 \<Rightarrow> f64 \<Rightarrow> bool) \<Rightarrow> ('a \<Rightarrow> bool) \<Rightarrow> ('a \<Rightarrow> f64) \<Rightarrow> f64 \<Rightarrow> 'a list \<Rightarrow> 'a option \<times> f64" where
  "pick lt skip f d0 xs =
     foldl (\<lambda>(best, bestd) x. if skip x then (best, bestd) else if lt (f x) bestd then (Some x, f x) else (best, bestd)) (None, d0) xs"

definition seed_distance :: "(nat \<Rightarrow> nat \<Rightarrow> f64) \<Rightarrow> nat list \<Rightarrow> nat \<Rightarrow> f64" where
  "seed_distance dst seeds i = foldl (\<lambda>mind s. if dst i s < mind then dst i s else mind) max_float seeds"

definition farthest :: "(nat \<Rightarrow> nat \<Rightarrow> f64) \<Rightarrow> nat \<Rightarrow> nat list \<Rightarrow> nat option" where
  "farthest dst n seeds = fst (pick (\<lambda>d maxd. maxd < d) (\<lambda>i. i \<in> set seeds) (seed_distance dst seeds) (lit (- 1)) [0..<n])"

function pick_seeds :: "(nat \<Rightarrow> nat \<Rightarrow> f64) \<Rightarrow> nat \<Rightarrow> nat \<Rightarrow> nat list \<Rightarrow> nat list" where
  "pick_seeds dst n k seeds =
     (if length seeds < k \<and> length seeds < n
      then (case farthest dst n seeds of Some i \<Rightarrow> pick_seeds dst n k (seeds @ [i]) | None \<Rightarrow> seeds)
      else seeds)"
  by pat_completeness auto
termination by (relation "measure (\<lambda>(dst, n, k, seeds). n - length seeds)") auto

declare pick_seeds.simps [simp del]

section \<open>Clusters\<close>

text \<open>The position of the nearest seed; the first seed when no distance is below the largest float.\<close>

definition nearest :: "(nat \<Rightarrow> f64) \<Rightarrow> nat \<Rightarrow> nat" where
  "nearest d m = (case fst (pick (<) (\<lambda>_. False) d max_float [0..<m]) of None \<Rightarrow> 0 | Some j \<Rightarrow> j)"

definition assign_cluster :: "(nat \<Rightarrow> nat \<Rightarrow> f64) \<Rightarrow> nat list \<Rightarrow> nat list list \<Rightarrow> nat \<Rightarrow> nat list list" where
  "assign_cluster dst seeds clusters i =
     (let best = nearest (\<lambda>si. dst i (seeds ! si)) (length seeds) in clusters[best := clusters ! best @ [i]])"

definition clusters_of :: "(nat \<Rightarrow> nat \<Rightarrow> f64) \<Rightarrow> nat \<Rightarrow> nat list \<Rightarrow> nat list list" where
  "clusters_of dst n seeds = foldl (assign_cluster dst seeds) (replicate (length seeds) []) [0..<n]"

section \<open>Nearest neighbour\<close>

definition next_stop :: "(nat \<Rightarrow> nat \<Rightarrow> f64) \<Rightarrow> nat list \<Rightarrow> nat list \<Rightarrow> nat option" where
  "next_stop dst idxs ord = fst (pick (<) (\<lambda>j. j \<in> set ord) (dst (last ord)) max_float idxs)"

function visit_all :: "(nat \<Rightarrow> nat \<Rightarrow> f64) \<Rightarrow> nat list \<Rightarrow> nat list \<Rightarrow> nat list" where
  "visit_all dst idxs ord =
     (if length ord < length idxs
      then (case next_stop dst idxs ord of Some j \<Rightarrow> visit_all dst idxs (ord @ [j]) | None \<Rightarrow> ord)
      else ord)"
  by pat_completeness auto
termination by (relation "measure (\<lambda>(dst, idxs, ord). length idxs - length ord)") auto

declare visit_all.simps [simp del]

definition cluster_order :: "gomath \<Rightarrow> plan_stop list \<Rightarrow> nat list \<Rightarrow> nat \<Rightarrow> nat list" where
  "cluster_order gm stops idxs seed =
     ImproveOrder2Opt gm (map (\<lambda>s. \<lparr>sn_Lat = sp_Lat s, sn_Lng = sp_Lng s\<rparr>) stops)
       (visit_all (stop_dist gm stops) idxs [seed]) 2"

section \<open>What the loops find\<close>

lemma pick_snoc:
  "pick lt skip f d0 (xs @ [x]) =
     (if skip x then pick lt skip f d0 xs else if lt (f x) (snd (pick lt skip f d0 xs)) then (Some x, f x) else pick lt skip f d0 xs)"
  by (simp add: pick_def split: prod.split)

definition strict_less :: "(f64 \<Rightarrow> f64 \<Rightarrow> bool) \<Rightarrow> bool" where
  "strict_less lt \<longleftrightarrow> (\<forall>a. \<not> lt a a) \<and> (\<forall>a b c. lt a b \<longrightarrow> lt b c \<longrightarrow> lt a c)"

lemma pick_spec:
  assumes "strict_less lt"
  shows "(case pick lt skip f d0 xs of
      (None, d) \<Rightarrow> d = d0 \<and> (\<forall>x\<in>set xs. skip x \<or> \<not> lt (f x) d0)
    | (Some b, d) \<Rightarrow> b \<in> set xs \<and> \<not> skip b \<and> d = f b \<and> lt (f b) d0 \<and> (\<forall>x\<in>set xs. skip x \<or> \<not> lt (f x) (f b)))"
proof (induction xs rule: rev_induct)
  case Nil
  then show ?case by (simp add: pick_def)
next
  case (snoc x xs)
  have irr: "\<not> lt a a" and tr: "lt a b \<Longrightarrow> lt b c \<Longrightarrow> lt a c" for a b c
    using assms unfolding strict_less_def by blast+
  obtain b d where p: "pick lt skip f d0 xs = (b, d)" by (cases "pick lt skip f d0 xs")
  show ?case using snoc by (cases b) (auto simp: pick_snoc p irr dest: tr)
qed

lemma f_strict: "strict_less (<)" "strict_less (\<lambda>a b. b < a)"
  by (auto simp: strict_less_def dest: f_trans)

lemma farthest_SomeD:
  assumes "farthest dst n seeds = Some i"
  shows "i < n \<and> i \<notin> set seeds \<and> (\<forall>j<n. j \<in> set seeds \<or> \<not> seed_distance dst seeds i < seed_distance dst seeds j)"
  using assms pick_spec [OF f_strict(2), where skip = "\<lambda>i. i \<in> set seeds" and f = "seed_distance dst seeds" and ?d0.0 = "lit (- 1)" and xs = "[0..<n]"]
  by (auto simp: farthest_def split: prod.splits)

lemma pick_seeds_distinct:
  "distinct seeds \<Longrightarrow> set seeds \<subseteq> {..<n} \<Longrightarrow>
   distinct (pick_seeds dst n k seeds) \<and> set (pick_seeds dst n k seeds) \<subseteq> {..<n} \<and> (\<exists>more. pick_seeds dst n k seeds = seeds @ more)"
proof (induction dst n k seeds rule: pick_seeds.induct)
  case (1 dst n k seeds)
  show ?case
  proof (cases "length seeds < k \<and> length seeds < n \<and> farthest dst n seeds \<noteq> None")
    case True
    then obtain i where i: "farthest dst n seeds = Some i" by auto
    with 1 True farthest_SomeD [OF i] show ?thesis by (subst (1 2 3) pick_seeds.simps) auto
  next
    case False
    then have "pick_seeds dst n k seeds = seeds" by (subst pick_seeds.simps) (auto split: option.split)
    with 1 show ?thesis by simp
  qed
qed

lemma nearest_less: "0 < m \<Longrightarrow> nearest d m < m"
  using pick_spec [OF f_strict(1), where skip = "\<lambda>_. False" and f = d and ?d0.0 = max_float and xs = "[0..<m]"]
  by (auto simp: nearest_def split: prod.splits option.splits)

lemma nearest_min:
  assumes "j < m" and "d j < max_float"
  shows "\<not> d j < d (nearest d m)"
  using assms pick_spec [OF f_strict(1), where skip = "\<lambda>_. False" and f = d and ?d0.0 = max_float and xs = "[0..<m]"]
  by (auto simp: nearest_def split: prod.splits option.splits)

lemma clusters_fold:
  assumes "seeds \<noteq> []"
  shows "length (foldl (assign_cluster dst seeds) (replicate (length seeds) []) xs) = length seeds \<and>
    (\<forall>c<length seeds. foldl (assign_cluster dst seeds) (replicate (length seeds) []) xs ! c
       = filter (\<lambda>i. nearest (\<lambda>si. dst i (seeds ! si)) (length seeds) = c) xs)"
proof (induction xs rule: rev_induct)
  case (snoc x xs)
  have "nearest (\<lambda>si. dst x (seeds ! si)) (length seeds) < length seeds" using assms by (intro nearest_less) simp
  with snoc show ?case by (auto simp: assign_cluster_def Let_def nth_list_update)
qed simp

text \<open>A cluster holds the stops whose nearest seed is its own, in the order of the stops.\<close>

lemma clusters_nth:
  "c < length seeds \<Longrightarrow> clusters_of dst n seeds ! c = filter (\<lambda>i. nearest (\<lambda>si. dst i (seeds ! si)) (length seeds) = c) [0..<n]"
  using clusters_fold [of seeds dst "[0..<n]"] unfolding clusters_of_def by (cases "seeds = []") auto

lemma clusters_length: "seeds \<noteq> [] \<Longrightarrow> length (clusters_of dst n seeds) = length seeds"
  using clusters_fold [of seeds dst "[0..<n]"] by (simp add: clusters_of_def)

lemma next_stop_SomeD:
  assumes "next_stop dst idxs ord = Some j"
  shows "j \<in> set idxs \<and> j \<notin> set ord \<and> (\<forall>i\<in>set idxs. i \<in> set ord \<or> \<not> dst (last ord) i < dst (last ord) j)"
  using assms pick_spec [OF f_strict(1), where skip = "\<lambda>j. j \<in> set ord" and f = "dst (last ord)" and ?d0.0 = max_float and xs = idxs]
  by (auto simp: next_stop_def split: prod.splits)

lemma next_stop_NoneD:
  assumes "next_stop dst idxs ord = None" and "i \<in> set idxs" and "i \<notin> set ord"
  shows "\<not> dst (last ord) i < max_float"
  using assms pick_spec [OF f_strict(1), where skip = "\<lambda>j. j \<in> set ord" and f = "dst (last ord)" and ?d0.0 = max_float and xs = idxs]
  by (auto simp: next_stop_def split: prod.splits)

lemma visit_all_inv:
  assumes "distinct ord" and "set ord \<subseteq> set idxs" and "ord \<noteq> []"
  shows "distinct (visit_all dst idxs ord) \<and> set (visit_all dst idxs ord) \<subseteq> set idxs \<and> (\<exists>more. visit_all dst idxs ord = ord @ more)"
  using assms
proof (induction dst idxs ord rule: visit_all.induct)
  case (1 dst idxs ord)
  show ?case
  proof (cases "length ord < length idxs \<and> next_stop dst idxs ord \<noteq> None")
    case True
    then obtain j where j: "next_stop dst idxs ord = Some j" by auto
    with 1 True next_stop_SomeD [OF j] show ?thesis by (subst (1 2 3) visit_all.simps) auto
  next
    case False
    then have "visit_all dst idxs ord = ord" by (subst visit_all.simps) (auto split: option.split)
    with 1 show ?thesis by simp
  qed
qed

text \<open>With distances that are numbers below the largest float every stop of the cluster is visited.\<close>

lemma visit_all_perm:
  assumes "distinct idxs" and "distinct ord" and "set ord \<subseteq> set idxs" and "ord \<noteq> []"
    and "\<forall>i\<in>set idxs. \<forall>j\<in>set idxs. dst i j < max_float"
  shows "mset (visit_all dst idxs ord) = mset idxs"
  using assms
proof (induction dst idxs ord rule: visit_all.induct)
  case (1 dst idxs ord)
  show ?case
  proof (cases "length ord < length idxs")
    case True
    then obtain i where i: "i \<in> set idxs" "i \<notin> set ord"
      using 1(2,3) by (metis card_mono distinct_card finite_set not_less subsetI)
    have "last ord \<in> set idxs" using 1(4,5) by auto
    with i 1(6) have "next_stop dst idxs ord \<noteq> None" using next_stop_NoneD [of dst idxs ord i] by blast
    then obtain j where j: "next_stop dst idxs ord = Some j" by auto
    with 1 True next_stop_SomeD [OF j] show ?thesis by (subst visit_all.simps) auto
  next
    case False
    then have "set ord = set idxs" using 1(2-4) by (metis card_seteq distinct_card finite_set not_less)
    then show ?thesis using False 1(2,3) by (subst visit_all.simps) (simp add: set_eq_iff_mset_eq_distinct)
  qed
qed

end
