(* ===== verification/Pg_Orders.thy ===== *)
theory Pg_Orders
  imports Pg_State
begin

text \<open>
  Orders, driver events and proofs of delivery in the Postgres store: \<^verbatim>\<open>NewPostgres\<close>,
  \<^verbatim>\<open>CreateOrders\<close>, \<^verbatim>\<open>ListOrders\<close>, \<^verbatim>\<open>InsertDriverEvents\<close>, \<^verbatim>\<open>CreatePoD\<close> and the argument
  helpers. An import of orders is one transaction.
\<close>

text \<open>\<open>opened\<close> is the error of \<^verbatim>\<open>sql.Open\<close>, if any.\<close>

definition NewPostgres :: "'d pg_env \<Rightarrow> string option \<Rightarrow> ('d, unit) pg_call" where
  "NewPostgres E opened = (case opened of Some e \<Rightarrow> fail (DriverErr e) | None \<Rightarrow> Ping E)"

section \<open>Arguments\<close>

definition nullIfEmpty :: "string \<Rightarrow> sql_arg" where
  "nullIfEmpty s = (if s = '''' then GNil else GText s)"

definition toJSON :: "obj option \<Rightarrow> sql_arg" where
  "toJSON m = (if m = None then GNil else GMap m)"

definition mediaURL :: "pod_media option \<Rightarrow> sql_arg" where
  "mediaURL m = (case m of None \<Rightarrow> GNil | Some md \<Rightarrow> GText (pm_UploadURL md))"

definition mediaHash :: "pod_media option \<Rightarrow> sql_arg" where
  "mediaHash m = (case m of None \<Rightarrow> GNil | Some md \<Rightarrow> GText (pm_SHA256 md))"

definition pqStringArray :: "string list \<Rightarrow> sql_arg" where
  "pqStringArray v = (if v = [] then GNil else GTexts v)"

section \<open>CreateOrders\<close>

definition sql_find_order :: string where
  \<open>sql_find_order = ''SELECT id::text FROM orders WHERE tenant_id=$1 AND external_ref=$2''\<close>

definition sql_insert_order :: string where
  \<open>sql_insert_order = ''INSERT INTO orders (id, tenant_id, external_ref, priority, status, attrs) VALUES ($1,$2,$3,$4,$5,$6)''\<close>

definition sql_insert_stop :: string where
  \<open>sql_insert_stop = ''INSERT INTO stops (id, tenant_id, order_id, type, address, lat, lng, time_window, service_time_sec, required_skills, status) VALUES ($1,$2,$3,$4,$5,$6,$7,$8,$9,$10,$11)''\<close>

text \<open>The time window as the text of a range; the coordinates, or nothing.\<close>

definition window_arg :: "time_window option \<Rightarrow> sql_arg" where
  "window_arg w = (case w of
      Some tw \<Rightarrow> if tw_Start tw \<noteq> '''' \<and> tw_End tw \<noteq> '''' then GText (''['' @ tw_Start tw @ '','' @ tw_End tw @ '']'') else GNil
    | None \<Rightarrow> GNil)"

definition lat_arg :: "geo_point option \<Rightarrow> sql_arg" where
  "lat_arg p = (case p of None \<Rightarrow> GNil | Some g \<Rightarrow> GFloat (gp_Lat g))"

definition lng_arg :: "geo_point option \<Rightarrow> sql_arg" where
  "lng_arg p = (case p of None \<Rightarrow> GNil | Some g \<Rightarrow> GFloat (gp_Lng g))"

definition insert_stop :: "'d pg_env \<Rightarrow> string \<Rightarrow> string \<Rightarrow> stop_in \<Rightarrow> unit \<Rightarrow> ('d, unit) pg_call" where
  "insert_stop E tenantID oid s _ = do {
     sid \<leftarrow> new_uuid E;
     exec E InTx sql_insert_stop
       [GText sid, GText tenantID, GText oid, GText (si_Type s), nullIfEmpty (si_Address s), lat_arg (si_Location s),
        lng_arg (si_Location s), window_arg (si_TimeWindow s), GInt (si_ServiceTimeSec s),
        pqStringArray (si_RequiredSkills s), GText ''pending''] }"

definition insert_order :: "'d pg_env \<Rightarrow> string \<Rightarrow> string \<Rightarrow> order_in \<Rightarrow> ('d, unit) pg_call" where
  "insert_order E tenantID oid o' =
     attempt (exec E InTx sql_insert_order
       [GText oid, GText tenantID, nullIfEmpty (oi_ExternalRef o'), GInt (oi_Priority o'), GText ''pending'', toJSON (oi_Attributes o')])
     (\<lambda>_. for_each (insert_stop E tenantID oid) (oi_Stops o') ())"

text \<open>
  One order of the import; the pair counts the orders created and skipped. \<open>known\<close> is the error of the
  lookup of the external reference; without a reference nothing is looked up.
\<close>

definition import_unless_known :: "'d pg_env \<Rightarrow> string \<Rightarrow> string \<Rightarrow> order_in \<Rightarrow> int \<times> int \<Rightarrow> sql_error option \<Rightarrow> ('d, int \<times> int) pg_call" where
  "import_unless_known E tenantID oid o' counts known =
     (if known = None then ret (fst counts, snd counts + 1)
      else if known \<noteq> Some NoRows then fail (the known)
      else attempt (insert_order E tenantID oid o') (\<lambda>_. ret (fst counts + 1, snd counts)))"

definition import_order :: "'d pg_env \<Rightarrow> string \<Rightarrow> order_in \<Rightarrow> int \<times> int \<Rightarrow> ('d, int \<times> int) pg_call" where
  "import_order E tenantID o' counts = do {
     oid \<leftarrow> new_uuid E;
     known \<leftarrow> (if oi_ExternalRef o' = '''' then State_Monad.return (Some NoRows)
       else do { (_, err) \<leftarrow> query_row E InTx sql_find_order [GText tenantID, GText (oi_ExternalRef o')] [TText];
                 State_Monad.return err });
     import_unless_known E tenantID oid o' counts known }"

definition pg_CreateOrders :: "'d pg_env \<Rightarrow> string \<Rightarrow> order_in list \<Rightarrow> ('d, string \<times> int \<times> int) pg_call" where
  "pg_CreateOrders E tenantID ords = do {
     now \<leftarrow> go_now E;
     attempt (transaction E (for_each (import_order E tenantID) ords (0, 0)))
       (\<lambda>(created, skipped). ret (''imp_'' @ int_text (unix_nano now), created, skipped)) }"

section \<open>ListOrders\<close>

definition pg_limit :: "int \<Rightarrow> int" where
  "pg_limit limit = (if limit \<le> 0 \<or> 500 < limit then 100 else limit)"

text \<open>The next cursor: the last identifier when the page is full.\<close>

definition page_next :: "('a \<Rightarrow> string) \<Rightarrow> int \<Rightarrow> 'a list \<Rightarrow> string" where
  "page_next key limit out = (if int (length out) = limit then (if out = [] then '''' else key (last out)) else '''')"

definition orders_query :: "string \<Rightarrow> string \<Rightarrow> string \<Rightarrow> int \<Rightarrow> string \<times> sql_arg list" where
  \<open>orders_query tenantID status cursor limit =
     (if status \<noteq> '''' then
        if cursor \<noteq> '''' then (''SELECT id::text, external_ref, priority, status FROM orders WHERE tenant_id=$1 AND status=$2 AND id::text > $3 ORDER BY id LIMIT $4'', [GText tenantID, GText status, GText cursor, GInt limit])
        else (''SELECT id::text, external_ref, priority, status FROM orders WHERE tenant_id=$1 AND status=$2 ORDER BY id LIMIT $3'', [GText tenantID, GText status, GInt limit])
      else
        if cursor \<noteq> '''' then (''SELECT id::text, external_ref, priority, status FROM orders WHERE tenant_id=$1 AND id::text > $2 ORDER BY id LIMIT $3'', [GText tenantID, GText cursor, GInt limit])
        else (''SELECT id::text, external_ref, priority, status FROM orders WHERE tenant_id=$1 ORDER BY id LIMIT $2'', [GText tenantID, GInt limit]))\<close>

definition order_row :: "sql_value list \<Rightarrow> order_out" where
  "order_row vs = zero_order_out\<lparr>oo_ID := text_of (vs ! 0), oo_ExternalRef := text_of (vs ! 1), oo_Priority := num_of (vs ! 2),
     oo_Status := text_of (vs ! 3)\<rparr>"

definition pg_ListOrders :: "'d pg_env \<Rightarrow> string \<Rightarrow> string \<Rightarrow> string \<Rightarrow> int \<Rightarrow> ('d, order_out list \<times> string) pg_call" where
  "pg_ListOrders E tenantID status cursor limit0 =
     (let limit = pg_limit limit0; (sql, args) = orders_query tenantID status cursor limit
      in attempt (select E Pool sql args [TText, TNullText, TInt, TText])
           (\<lambda>rows. let out = map order_row rows in ret (out, page_next oo_ID limit out)))"

section \<open>Driver events and proofs of delivery\<close>

definition sql_insert_event :: string where
  \<open>sql_insert_event = ''INSERT INTO events (id, tenant_id, type, entity_id, ts, payload, source) VALUES ($1,$2,$3,$4,$5,$6,$7)''\<close>

definition event_payload :: "driver_event \<Rightarrow> obj" where
  "event_payload e =
     (let p = de_Payload e;
          p = (if de_RouteID e \<noteq> '''' then p(''routeId'' \<mapsto> AStr (de_RouteID e)) else p);
          p = (if de_StopID e \<noteq> '''' then p(''stopId'' \<mapsto> AStr (de_StopID e)) else p)
      in if de_LegID e \<noteq> '''' then p(''legId'' \<mapsto> AStr (de_LegID e)) else p)"

definition insert_event :: "'d pg_env \<Rightarrow> string \<Rightarrow> driver_event \<Rightarrow> unit \<Rightarrow> ('d, unit) pg_call" where
  "insert_event E tenantID e _ = do {
     k \<leftarrow> new_uuid E;
     exec E InTx sql_insert_event
       [GText k, GText tenantID, GText (de_Type e), nullIfEmpty (de_RouteID e), GText (de_TS e),
        toJSON (Some (event_payload e)), GText ''driver''] }"

definition pg_InsertDriverEvents :: "'d pg_env \<Rightarrow> string \<Rightarrow> driver_event list \<Rightarrow> ('d, int) pg_call" where
  "pg_InsertDriverEvents E tenantID events =
     (if events = [] then ret 0
      else attempt (transaction E (for_each (insert_event E tenantID) events ())) (\<lambda>_. ret (int (length events))))"

definition pg_CreatePoD :: "'d pg_env \<Rightarrow> pod_request \<Rightarrow> ('d, string \<times> string) pg_call" where
  \<open>pg_CreatePoD E req = do {
     k \<leftarrow> new_uuid E;
     attempt (exec E Pool ''INSERT INTO pods (id, tenant_id, order_id, stop_id, type, media_url, hash, metadata) VALUES ($1,$2,$3,$4,$5,$6,$7,$8)''
       [GText k, GText (pr_TenantID req), GText (pr_OrderID req), GText (pr_StopID req), GText (pr_Type req), mediaURL (pr_Media req),
        mediaHash (pr_Media req), toJSON (pr_Metadata req)])
     (\<lambda>_. ret (k, ''processing'')) }\<close>

section \<open>Imports are all or nothing\<close>

lemma insert_stop_seen:
  "transactional (pe_driver E) view \<Longrightarrow> preserves (seen view v b) (insert_stop E t k s u)"
  unfolding insert_stop_def by (intro tx_intros)

lemma import_order_seen:
  "transactional (pe_driver E) view \<Longrightarrow> preserves (seen view v b) (import_order E t o' counts)"
  unfolding import_order_def import_unless_known_def insert_order_def split_def
  by (cases "oi_ExternalRef o' = ''''") (simp_all add: tx_intros insert_stop_seen)

lemma import_order_counts:
  "run_state (import_order E t o' counts) s = (Inr c', s') \<Longrightarrow> fst c' + snd c' = fst counts + snd counts + 1"
  by (auto simp: import_order_def import_unless_known_def run_attempt_Inr split_beta split: if_splits)

lemma import_counts:
  "run_state (for_each (import_order E t) ords counts) s = (Inr c', s') \<Longrightarrow>
   fst c' + snd c' = fst counts + snd counts + int (length ords)"
proof (induction ords arbitrary: counts s)
  case (Cons o' ords)
  then obtain c1 s1 where "run_state (import_order E t o' counts) s = (Inr c1, s1)"
    "run_state (for_each (import_order E t) ords c1) s1 = (Inr c', s')" by (auto simp: run_attempt_Inr)
  with Cons.IH [of c1 s1] import_order_counts [of E t o' counts s c1 s1] show ?case by simp
qed simp

lemma insert_event_seen:
  "transactional (pe_driver E) view \<Longrightarrow> preserves (seen view v b) (insert_event E t e u)"
  unfolding insert_event_def by (intro tx_intros)

end
