(* ===== verification/Pg_Routes.thy ===== *)
theory Pg_Routes
  imports Pg_Orders
begin

text \<open>
  Routes in the Postgres store: \<^verbatim>\<open>GetRoute\<close>, \<^verbatim>\<open>ListRoutes\<close>, \<^verbatim>\<open>AssignRoute\<close>, \<^verbatim>\<open>PatchRoute\<close>,
  \<^verbatim>\<open>FindRoutesByStop\<close>, \<^verbatim>\<open>ListActiveRoutesForDriver\<close> and \<^verbatim>\<open>RouteStats\<close>. \<open>read_route\<close> returns what
  has been read of the route also when it fails, because \<^verbatim>\<open>PlanRoutes\<close> uses it.
\<close>

section \<open>GetRoute\<close>

definition sql_route :: string where
  \<open>sql_route = ''SELECT id::text, version, plan_date, status, driver_id::text, vehicle_id::text, auto_advance FROM routes WHERE tenant_id=$1 AND id=$2''\<close>

definition sql_legs :: string where
  \<open>sql_legs = ''SELECT id::text, seq, kind, break_sec, from_stop_id::text, to_stop_id::text, dist_m, drive_sec, eta_arrival, eta_departure, status FROM route_legs WHERE tenant_id=$1 AND route_id=$2 ORDER BY seq''\<close>

definition route_targets :: "target list" where
  "route_targets = [TText, TInt, TText, TText, TNullText, TNullText, TAny]"

definition leg_targets :: "target list" where
  "leg_targets = [TText, TInt, TNullText, TNullInt, TNullText, TNullText, TInt, TInt, TNullTime, TNullTime, TText]"

text \<open>The \<^verbatim>\<open>auto_advance\<close> column, as bytes or as a text.\<close>

definition policy_of :: "sql_lib \<Rightarrow> sql_value \<Rightarrow> auto_advance_policy option" where
  "policy_of L aa =
     (case aa of
        VBytes b \<Rightarrow> if b \<noteq> '''' then Some (sl_parse_policy L b) else None
      | VText b \<Rightarrow> if b \<noteq> '''' then Some (sl_parse_policy L b) else None
      | _ \<Rightarrow> None)"

definition route_head :: "sql_value list \<Rightarrow> route" where
  "route_head vs = zero_route\<lparr>rt_ID := text_of (vs ! 0), rt_Version := num_of (vs ! 1), rt_PlanDate := text_of (vs ! 2),
     rt_Status := text_of (vs ! 3)\<rparr>"

definition eta_text :: "'d pg_env \<Rightarrow> sql_value \<Rightarrow> string" where
  "eta_text E v = (case time_of v of None \<Rightarrow> '''' | Some t \<Rightarrow> lib_format_local (pe_lib E) t)"

definition leg_row :: "'d pg_env \<Rightarrow> sql_value list \<Rightarrow> leg" where
  "leg_row E vs = \<lparr>leg_ID = text_of (vs ! 0), leg_Seq = num_of (vs ! 1), leg_Kind = text_of (vs ! 2), leg_BreakSec = num_of (vs ! 3),
     leg_FromStopID = text_of (vs ! 4), leg_ToStopID = text_of (vs ! 5), leg_DistM = num_of (vs ! 6), leg_DriveSec = num_of (vs ! 7),
     leg_ETAArrival = eta_text E (vs ! 8), leg_ETADeparture = eta_text E (vs ! 9), leg_Status = text_of (vs ! 10)\<rparr>"

text \<open>The rows scanned before the first that cannot be.\<close>

fun scan_some :: "sql_lib \<Rightarrow> target list \<Rightarrow> sql_value list list \<Rightarrow> sql_value list list \<times> sql_error option" where
  "scan_some L ts [] = ([], None)"
| "scan_some L ts (row # rows) =
     (case Scan L ts row of
        (_, Some e) \<Rightarrow> ([], Some e)
      | (vs, None) \<Rightarrow> (case scan_some L ts rows of (vss, e) \<Rightarrow> (vs # vss, e)))"

definition is_break :: "golib \<Rightarrow> leg \<Rightarrow> bool" where
  "is_break L l \<longleftrightarrow> lib_lower L (leg_Kind l) = ''break''"

definition route_summary :: "golib \<Rightarrow> route \<Rightarrow> route" where
  "route_summary L r =
     (let bs = filter (is_break L) (rt_Legs r)
      in r\<lparr>rt_BreaksCount := int (length bs), rt_TotalBreakSec := foldl (\<lambda>a l. wrap64 (a + leg_BreakSec l)) 0 bs\<rparr>)"

definition read_route :: "'d pg_env \<Rightarrow> string \<Rightarrow> string \<Rightarrow> ('d, route \<times> sql_error option) pg_op" where
  "read_route E tenantID routeID = do {
     (vs, err) \<leftarrow> query_row E Pool sql_route [GText tenantID, GText routeID] route_targets;
     if err = Some NoRows then State_Monad.return (route_head vs, Some NotFound)
     else if err \<noteq> None then State_Monad.return (route_head vs, err)
     else do {
       let r = (route_head vs)\<lparr>rt_DriverID := text_of (vs ! 4), rt_AutoAdvance := policy_of (pe_sql E) (vs ! 6), rt_VehicleID := text_of (vs ! 5)\<rparr>;
       rows \<leftarrow> query E Pool sql_legs [GText tenantID, GText routeID];
       case rows of
         Inl e \<Rightarrow> State_Monad.return (r, Some e)
       | Inr rows \<Rightarrow> (case scan_some (pe_sql E) leg_targets rows of
           (vss, Some e) \<Rightarrow> State_Monad.return (r\<lparr>rt_Legs := map (leg_row E) vss\<rparr>, Some e)
         | (vss, None) \<Rightarrow> State_Monad.return (route_summary (pe_lib E) (r\<lparr>rt_Legs := map (leg_row E) vss\<rparr>), None)) } }"

definition pg_GetRoute :: "'d pg_env \<Rightarrow> string \<Rightarrow> string \<Rightarrow> ('d, route) pg_call" where
  "pg_GetRoute E tenantID routeID = do {
     (r, err) \<leftarrow> read_route E tenantID routeID;
     State_Monad.return (case err of None \<Rightarrow> Inr r | Some e \<Rightarrow> Inl e) }"

section \<open>The other operations\<close>

definition routes_query :: "string \<Rightarrow> string \<Rightarrow> int \<Rightarrow> string \<times> sql_arg list" where
  \<open>routes_query tenantID cursor limit =
     (if cursor \<noteq> '''' then (''SELECT id::text, version, plan_date, status, COALESCE(driver_id::text,'' @ empty_literal @ ''), COALESCE(vehicle_id::text,'' @ empty_literal @ '') FROM routes WHERE tenant_id=$1 AND id::text > $2 ORDER BY id LIMIT $3'', [GText tenantID, GText cursor, GInt limit])
      else (''SELECT id::text, version, plan_date, status, COALESCE(driver_id::text,'' @ empty_literal @ ''), COALESCE(vehicle_id::text,'' @ empty_literal @ '') FROM routes WHERE tenant_id=$1 ORDER BY id LIMIT $2'', [GText tenantID, GInt limit]))\<close>

definition listed_route :: "sql_value list \<Rightarrow> route" where
  "listed_route vs = (route_head vs)\<lparr>rt_DriverID := text_of (vs ! 4), rt_VehicleID := text_of (vs ! 5)\<rparr>"

definition pg_ListRoutes :: "'d pg_env \<Rightarrow> string \<Rightarrow> string \<Rightarrow> int \<Rightarrow> ('d, route list \<times> string) pg_call" where
  "pg_ListRoutes E tenantID cursor limit0 =
     (let limit = pg_limit limit0; (sql, args) = routes_query tenantID cursor limit
      in attempt (select E Pool sql args [TText, TInt, TText, TText, TText, TText])
           (\<lambda>rows. let out = map listed_route rows in ret (out, page_next rt_ID limit out)))"

definition pg_AssignRoute :: "'d pg_env \<Rightarrow> string \<Rightarrow> string \<Rightarrow> string \<Rightarrow> string \<Rightarrow> time \<Rightarrow> ('d, route) pg_call" where
  \<open>pg_AssignRoute E tenantID routeID driverID vehicleID startAt =
     attempt (exec E Pool ''UPDATE routes SET driver_id=$1, vehicle_id=$2 WHERE tenant_id=$3 AND id=$4''
       [GText driverID, GText vehicleID, GText tenantID, GText routeID])
     (\<lambda>_. pg_GetRoute E tenantID routeID)\<close>

definition policy_arg :: "auto_advance_policy option \<Rightarrow> sql_arg" where
  "policy_arg p = (case p of None \<Rightarrow> GNil | Some pol \<Rightarrow> GPolicy pol)"

text \<open>The statement of a patch, if it has one: the fields that are given.\<close>

definition patch_statement :: "string \<Rightarrow> string \<Rightarrow> route_patch \<Rightarrow> (string \<times> sql_arg list) option" where
  \<open>patch_statement tenantID routeID patch =
     (if rp_Status patch = '''' \<and> rp_AutoAdvance patch = None then None
      else if rp_Status patch \<noteq> '''' \<and> rp_AutoAdvance patch \<noteq> None then
        Some (''UPDATE routes SET status=$1, auto_advance=$2 WHERE tenant_id=$3 AND id=$4'',
          [GText (rp_Status patch), policy_arg (rp_AutoAdvance patch), GText tenantID, GText routeID])
      else if rp_Status patch \<noteq> '''' then
        Some (''UPDATE routes SET status=$1 WHERE tenant_id=$2 AND id=$3'', [GText (rp_Status patch), GText tenantID, GText routeID])
      else Some (''UPDATE routes SET auto_advance=$1 WHERE tenant_id=$2 AND id=$3'',
          [policy_arg (rp_AutoAdvance patch), GText tenantID, GText routeID]))\<close>

definition pg_PatchRoute :: "'d pg_env \<Rightarrow> string \<Rightarrow> string \<Rightarrow> route_patch \<Rightarrow> ('d, route) pg_call" where
  "pg_PatchRoute E tenantID routeID patch =
     attempt (case patch_statement tenantID routeID patch of None \<Rightarrow> ret () | Some (sql, args) \<Rightarrow> exec E Pool sql args)
       (\<lambda>_. pg_GetRoute E tenantID routeID)"

definition pg_FindRoutesByStop :: "'d pg_env \<Rightarrow> string \<Rightarrow> string \<Rightarrow> ('d, string list) pg_call" where
  \<open>pg_FindRoutesByStop E tenantID stopID =
     attempt (select E Pool ''SELECT DISTINCT route_id::text FROM route_legs WHERE tenant_id=$1 AND to_stop_id=$2'' [GText tenantID, GText stopID] [TText])
       (\<lambda>rows. ret (map (\<lambda>vs. text_of (vs ! 0)) rows))\<close>

definition pg_ListActiveRoutesForDriver :: "'d pg_env \<Rightarrow> string \<Rightarrow> string \<Rightarrow> ('d, string list) pg_call" where
  \<open>pg_ListActiveRoutesForDriver E tenantID driverID =
     attempt (select E Pool (''SELECT id::text FROM routes WHERE tenant_id=$1 AND driver_id=$2 AND COALESCE(status,'' @ empty_literal @ '') <> 'completed'' @ quote) [GText tenantID, GText driverID] [TText])
       (\<lambda>rows. ret (map (\<lambda>vs. text_of (vs ! 0)) rows))\<close>

definition sql_route_stats :: string where
  \<open>sql_route_stats = ''SELECT COUNT(DISTINCT r.id) AS routes, COUNT(l.id) AS legs,
        COALESCE(SUM(l.dist_m),0) AS dist_m, COALESCE(SUM(l.drive_sec),0) AS drive_sec,
        COALESCE(SUM(CASE WHEN l.kind='break' THEN 1 ELSE 0 END),0) AS breaks,
        COALESCE(SUM(CASE WHEN l.kind='break' THEN l.break_sec ELSE 0 END),0) AS break_sec
        FROM routes r LEFT JOIN route_legs l ON l.route_id = r.id AND l.tenant_id = r.tenant_id
        WHERE r.tenant_id=$1 AND r.plan_date=$2''\<close>

definition pg_RouteStats :: "'d pg_env \<Rightarrow> string \<Rightarrow> string \<Rightarrow> ('d, obj) pg_call" where
  "pg_RouteStats E tenantID planDate = do {
     (vs, err) \<leftarrow> query_row E Pool sql_route_stats [GText tenantID, GText planDate] [TInt, TInt, TInt64, TInt64, TInt64, TInt64];
     case err of Some e \<Rightarrow> fail e
     | None \<Rightarrow>
         let rts = num_of (vs ! 0); lgs = num_of (vs ! 1);
             avg = (if 0 < rts then f_of_int lgs / f_of_int rts else 0)
         in ret [''routes'' \<mapsto> AInt rts, ''legs'' \<mapsto> AInt lgs, ''totalDistM'' \<mapsto> AInt (num_of (vs ! 2)), ''totalDriveSec'' \<mapsto> AInt (num_of (vs ! 3)),
              ''avgLegsPerRoute'' \<mapsto> AFloat avg, ''breaks'' \<mapsto> AInt (num_of (vs ! 4)), ''breakSec'' \<mapsto> AInt (num_of (vs ! 5))] }"

end
