(* ===== verification/Pg_Webhooks.thy ===== *)
theory Pg_Webhooks
  imports Pg_Orders Store_Interface
begin

text \<open>
  Webhooks in the Postgres store: subscriptions, the delivery queue and the dead letter queue, and the
  event the store itself emits. The two queries with optional filters are built piece by piece with
  \<open>add_filter\<close>.
\<close>

section \<open>Subscriptions\<close>

definition sql_insert_subscription :: string where
  \<open>sql_insert_subscription = ''INSERT INTO subscriptions (id, tenant_id, url, events, secret) VALUES ($1,$2,$3,$4,$5)''\<close>

definition pg_CreateSubscription :: "'d pg_env \<Rightarrow> subscription_request \<Rightarrow> ('d, subscription) pg_call" where
  "pg_CreateSubscription E req = do {
     k \<leftarrow> new_uuid E;
     attempt (exec E Pool sql_insert_subscription
       [GText k, GText (sr_TenantID req), GText (sr_URL req), GBytes (sl_marshal_texts (pe_sql E) (sr_Events req)), GText (sr_Secret req)])
     (\<lambda>_. ret \<lparr>sub_ID = k, sub_TenantID = sr_TenantID req, sub_URL = sr_URL req, sub_Events = sr_Events req, sub_Secret = sr_Secret req\<rparr>) }"

definition sql_subscriptions_for :: string where
  \<open>sql_subscriptions_for = ''SELECT id::text, url, secret, events FROM subscriptions WHERE tenant_id=$1 AND events @> $2::jsonb''\<close>

text \<open>A subscription read back; here the events are only decoded when the driver gives bytes.\<close>

definition event_subscription :: "sql_lib \<Rightarrow> string \<Rightarrow> sql_value list \<Rightarrow> subscription" where
  "event_subscription L tenantID vs =
     \<lparr>sub_ID = text_of (vs ! 0), sub_TenantID = tenantID, sub_URL = text_of (vs ! 1),
      sub_Events = (case vs ! 3 of VBytes b \<Rightarrow> sl_parse_texts L b | _ \<Rightarrow> []), sub_Secret = text_of (vs ! 2)\<rparr>"

definition pg_GetSubscriptionsForEvent :: "'d pg_env \<Rightarrow> string \<Rightarrow> string \<Rightarrow> ('d, subscription list) pg_call" where
  \<open>pg_GetSubscriptionsForEvent E tenantID eventType =
     attempt (select E Pool sql_subscriptions_for [GText tenantID, GText (''["'' @ eventType @ ''"]'')] [TText, TText, TText, TAny])
       (\<lambda>rows. ret (map (event_subscription (pe_sql E) tenantID) rows))\<close>

definition subscriptions_query :: "string \<Rightarrow> string \<Rightarrow> int \<Rightarrow> string \<times> sql_arg list" where
  \<open>subscriptions_query tenantID cursor limit =
     (if cursor \<noteq> '''' then (''SELECT id::text, url, secret, events FROM subscriptions WHERE tenant_id=$1 AND id::text > $2 ORDER BY id LIMIT $3'', [GText tenantID, GText cursor, GInt limit])
      else (''SELECT id::text, url, secret, events FROM subscriptions WHERE tenant_id=$1 ORDER BY id LIMIT $2'', [GText tenantID, GInt limit]))\<close>

definition listed_subscription :: "sql_lib \<Rightarrow> string \<Rightarrow> sql_value list \<Rightarrow> subscription" where
  "listed_subscription L tenantID vs =
     \<lparr>sub_ID = text_of (vs ! 0), sub_TenantID = tenantID, sub_URL = text_of (vs ! 1),
      sub_Events = sl_parse_texts L (text_of (vs ! 3)), sub_Secret = text_of (vs ! 2)\<rparr>"

definition pg_ListSubscriptions :: "'d pg_env \<Rightarrow> string \<Rightarrow> string \<Rightarrow> int \<Rightarrow> ('d, subscription list \<times> string) pg_call" where
  "pg_ListSubscriptions E tenantID cursor limit0 =
     (let limit = pg_limit limit0; (sql, args) = subscriptions_query tenantID cursor limit
      in attempt (select E Pool sql args [TText, TText, TText, TBytes])
           (\<lambda>rows. let out = map (listed_subscription (pe_sql E) tenantID) rows in ret (out, page_next sub_ID limit out)))"

definition pg_DeleteSubscription :: "'d pg_env \<Rightarrow> string \<Rightarrow> string \<Rightarrow> ('d, unit) pg_call" where
  \<open>pg_DeleteSubscription E tenantID k =
     exec E Pool ''DELETE FROM subscriptions WHERE tenant_id=$1 AND id=$2'' [GText tenantID, GText k]\<close>

section \<open>Deliveries\<close>

definition computeDedupKey :: "'d pg_env \<Rightarrow> string \<Rightarrow> string" where
  "computeDedupKey E payload =
     (let digest = hex_encode (take 8 (lib_sha256 (pe_lib E) payload))
      in case sl_parse_map (pe_sql E) payload of
           Some (Some m) \<Rightarrow> (case m ''id'' of Some (AStr v) \<Rightarrow> if v \<noteq> '''' then v else digest | _ \<Rightarrow> digest)
         | _ \<Rightarrow> digest)"

definition sql_enqueue :: string where
  \<open>sql_enqueue = ''INSERT INTO webhook_deliveries (id, tenant_id, subscription_id, event_type, url, secret, payload, status, attempts, next_attempt_at, dedup_key)
        VALUES ($1,$2,$3,$4,$5,$6,$7,'pending',0,now(),$8)
        ON CONFLICT (tenant_id, event_type, url, dedup_key) DO NOTHING''\<close>

definition pg_EnqueueWebhook :: "'d pg_env \<Rightarrow> string \<Rightarrow> string \<Rightarrow> string \<Rightarrow> string \<Rightarrow> string \<Rightarrow> string \<Rightarrow> ('d, string) pg_call" where
  "pg_EnqueueWebhook E tenantID subscriptionID eventType url secret payload = do {
     k \<leftarrow> new_uuid E;
     attempt (exec E Pool sql_enqueue
       [GText k, GText tenantID, nullIfEmpty subscriptionID, GText eventType, GText url, nullIfEmpty secret, GBytes payload,
        GText (computeDedupKey E payload)])
     (\<lambda>_. ret k) }"

definition sql_fetch_due :: string where
  \<open>sql_fetch_due = ''SELECT id::text, tenant_id::text, COALESCE(subscription_id::text,'' @ empty_literal @ ''), event_type, url, COALESCE(secret,'' @ empty_literal @ ''), payload, status, attempts 
        FROM webhook_deliveries WHERE status IN ('pending','retry') AND next_attempt_at <= now() ORDER BY next_attempt_at ASC LIMIT $1''\<close>

definition delivery_row :: "sql_value list \<Rightarrow> webhook_delivery" where
  "delivery_row vs =
     \<lparr>wd_ID = text_of (vs ! 0), wd_TenantID = text_of (vs ! 1), wd_SubscriptionID = text_of (vs ! 2), wd_EventType = text_of (vs ! 3),
      wd_URL = text_of (vs ! 4), wd_Secret = text_of (vs ! 5), wd_Payload = text_of (vs ! 6), wd_Status = text_of (vs ! 7),
      wd_Attempts = num_of (vs ! 8)\<rparr>"

definition pg_FetchDueWebhookDeliveries :: "'d pg_env \<Rightarrow> int \<Rightarrow> ('d, webhook_delivery list) pg_call" where
  "pg_FetchDueWebhookDeliveries E limit =
     attempt (select E Pool sql_fetch_due [GInt limit] [TText, TText, TText, TText, TText, TText, TBytes, TText, TInt])
       (\<lambda>rows. ret (map delivery_row rows))"

definition sql_mark_retry :: string where
  \<open>sql_mark_retry = ''UPDATE webhook_deliveries SET attempts=attempts+1, status=$1, last_error=$2, next_attempt_at=$3, updated_at=now(), response_code=$5, latency_ms=$6 WHERE id=$4''\<close>

definition sql_mark_delivered :: string where
  \<open>sql_mark_delivered = ''UPDATE webhook_deliveries SET status='delivered', delivered_at=now(), updated_at=now(), response_code=$2, latency_ms=$3 WHERE id=$1''\<close>

definition pg_MarkWebhookDelivery :: "'d pg_env \<Rightarrow> string \<Rightarrow> bool \<Rightarrow> time option \<Rightarrow> string \<Rightarrow> int \<Rightarrow> int \<Rightarrow> ('d, unit) pg_call" where
  "pg_MarkWebhookDelivery E k success nextAttemptAt lastError responseCode latencyMs =
     (if \<not> success then do {
        next \<leftarrow> (case nextAttemptAt of Some t \<Rightarrow> State_Monad.return t
                 | None \<Rightarrow> do { now \<leftarrow> go_now E; State_Monad.return (now + minute) });
        exec E Pool sql_mark_retry [GText ''retry'', nullIfEmpty lastError, GTime next, GText k, GInt responseCode, GInt latencyMs] }
      else exec E Pool sql_mark_delivered [GText k, GInt responseCode, GInt latencyMs])"

definition sql_mark_failed :: string where
  \<open>sql_mark_failed = ''UPDATE webhook_deliveries SET status='failed', last_error=$2, updated_at=now(), response_code=$3, latency_ms=$4 WHERE id=$1''\<close>

definition sql_to_dlq :: string where
  \<open>sql_to_dlq = ''INSERT INTO webhook_dlq (id, tenant_id, delivery_id, event_type, url, secret, payload, attempts, last_error)
        SELECT gen_random_uuid(), tenant_id, id, event_type, url, secret, payload, attempts+1, $2 FROM webhook_deliveries WHERE id=$1''\<close>

definition pg_FailWebhookDelivery :: "'d pg_env \<Rightarrow> string \<Rightarrow> string \<Rightarrow> int \<Rightarrow> int \<Rightarrow> ('d, unit) pg_call" where
  "pg_FailWebhookDelivery E k lastError responseCode latencyMs =
     attempt (exec E Pool sql_mark_failed [GText k, nullIfEmpty lastError, GInt responseCode, GInt latencyMs])
       (\<lambda>_. exec E Pool sql_to_dlq [GText k, nullIfEmpty lastError])"

definition deliveries_query :: "string \<Rightarrow> string \<Rightarrow> int \<Rightarrow> string \<times> sql_arg list" where
  \<open>deliveries_query tenantID status limit =
     (let q = ''SELECT id::text, event_type, status, attempts, next_attempt_at, last_error, url FROM webhook_deliveries WHERE tenant_id=$1''
      in if status \<noteq> '''' then (q @ '' AND status=$2 ORDER BY id LIMIT $3'', [GText tenantID, GText status, GInt limit])
         else (q @ '' ORDER BY id LIMIT $2'', [GText tenantID, GInt limit]))\<close>

definition time_any :: "'d pg_env \<Rightarrow> time \<Rightarrow> any" where
  "time_any E t = AStr (sl_time_text (pe_sql E) t)"

definition listed_delivery :: "'d pg_env \<Rightarrow> sql_value list \<Rightarrow> obj" where
  "listed_delivery E vs =
     (let m = [''id'' \<mapsto> AStr (text_of (vs ! 0)), ''eventType'' \<mapsto> AStr (text_of (vs ! 1)), ''status'' \<mapsto> AStr (text_of (vs ! 2)),
               ''attempts'' \<mapsto> AInt (num_of (vs ! 3)), ''url'' \<mapsto> AStr (text_of (vs ! 6))];
          m = (case time_of (vs ! 4) of None \<Rightarrow> m | Some t \<Rightarrow> m(''nextAttemptAt'' \<mapsto> time_any E t))
      in if text_of (vs ! 5) \<noteq> '''' then m(''lastError'' \<mapsto> AStr (text_of (vs ! 5))) else m)"

text \<open>The cursor is the last identifier; the query does not use the one it was given.\<close>

definition pg_ListWebhookDeliveries :: "'d pg_env \<Rightarrow> string \<Rightarrow> string \<Rightarrow> string \<Rightarrow> int \<Rightarrow> ('d, obj list \<times> string) pg_call" where
  "pg_ListWebhookDeliveries E tenantID status cursor limit0 =
     (let limit = pg_limit limit0; (sql, args) = deliveries_query tenantID status limit
      in attempt (select E Pool sql args [TText, TText, TText, TInt, TNullTime, TText, TText])
           (\<lambda>rows. ret (map (listed_delivery E) rows, page_next (\<lambda>vs. text_of (vs ! 0)) limit rows)))"

definition pg_RetryWebhookDelivery :: "'d pg_env \<Rightarrow> string \<Rightarrow> string \<Rightarrow> ('d, unit) pg_call" where
  \<open>pg_RetryWebhookDelivery E tenantID k =
     exec E Pool ''UPDATE webhook_deliveries SET status='pending', next_attempt_at=now() WHERE tenant_id=$1 AND id=$2'' [GText tenantID, GText k]\<close>

section \<open>Queries with optional filters\<close>

text \<open>
  \<^verbatim>\<open>if cond { q += text + fmt.Sprint(idx); args = append(args, arg); idx++ }\<close>; the text ends with the
  dollar sign of the placeholder.
\<close>

type_synonym filtered = "string \<times> sql_arg list \<times> nat"

definition add_filter :: "bool \<Rightarrow> string \<Rightarrow> sql_arg \<Rightarrow> filtered \<Rightarrow> filtered" where
  "add_filter cond txt' arg = (\<lambda>(q, args, idx). if cond then (q @ txt' @ ''$'' @ nat_text idx, args @ [arg], idx + 1) else (q, args, idx))"

definition metrics_buckets :: "int list \<Rightarrow> string" where
  \<open>metrics_buckets buckets = concat (map (\<lambda>i.
      if i = 0 then '', SUM(CASE WHEN COALESCE(latency_ms,0) < '' @ int_text (buckets ! i) @ '' THEN 1 ELSE 0 END) AS b'' @ nat_text i
      else '', SUM(CASE WHEN COALESCE(latency_ms,0) >= '' @ int_text (buckets ! (i - 1)) @ '' AND COALESCE(latency_ms,0) < '' @
        int_text (buckets ! i) @ '' THEN 1 ELSE 0 END) AS b'' @ nat_text i) [0..<length buckets])\<close>

definition sql_code_classes :: string where
  \<open>sql_code_classes = '', SUM(CASE WHEN COALESCE(response_code,0) BETWEEN 200 AND 299 THEN 1 ELSE 0 END) AS c2xx, SUM(CASE WHEN COALESCE(response_code,0) BETWEEN 300 AND 399 THEN 1 ELSE 0 END) AS c3xx, SUM(CASE WHEN COALESCE(response_code,0) BETWEEN 400 AND 499 THEN 1 ELSE 0 END) AS c4xx, SUM(CASE WHEN COALESCE(response_code,0) BETWEEN 500 AND 599 THEN 1 ELSE 0 END) AS c5xx''\<close>

definition metrics_select :: "int list \<Rightarrow> string" where
  \<open>metrics_select buckets =
     ''SELECT event_type, status, COUNT(*) AS cnt, COALESCE(AVG(latency_ms),0) AS avg_latency_ms'' @ metrics_buckets buckets @
     '', SUM(CASE WHEN COALESCE(latency_ms,0) >= '' @ int_text (last buckets) @ '' THEN 1 ELSE 0 END) AS b'' @ nat_text (length buckets) @
     sql_code_classes @ '' FROM webhook_deliveries WHERE tenant_id=$1 AND updated_at >= $2''\<close>

definition metrics_filters :: "metrics_query \<Rightarrow> filtered \<Rightarrow> filtered" where
  \<open>metrics_filters mq f =
     add_filter (0 < mq_codeMax mq) '' AND COALESCE(response_code,0) <= '' (GInt (mq_codeMax mq))
      (add_filter (0 < mq_codeMin mq) '' AND COALESCE(response_code,0) >= '' (GInt (mq_codeMin mq))
        (add_filter (mq_status mq \<noteq> '''') '' AND status='' (GText (mq_status mq))
          (add_filter (mq_eventType mq \<noteq> '''') '' AND event_type='' (GText (mq_eventType mq)) f)))\<close>

definition metrics_statement :: "metrics_query \<Rightarrow> int list \<Rightarrow> string \<times> sql_arg list" where
  \<open>metrics_statement mq buckets =
     (case metrics_filters mq (metrics_select buckets, [GText (mq_tenant mq), GTime (mq_since mq)], 3) of
        (q, args, _) \<Rightarrow> (q @ '' GROUP BY event_type, status'', args))\<close>

definition metrics_targets :: "int list \<Rightarrow> target list" where
  "metrics_targets buckets = [TText, TText, TInt64, TInt64] @ replicate (length buckets + 1) TInt64 @ [TInt64, TInt64, TInt64, TInt64]"

text \<open>The counts by their old labels: at most the first three edges and the overflow.\<close>

definition legacy_buckets :: "int list \<Rightarrow> int list \<Rightarrow> obj" where
  "legacy_buckets buckets vals =
     (let m = [''lt'' @ int_text (buckets ! 0) \<mapsto> AInt (vals ! 0)];
          m = (if 2 \<le> length buckets then m(''p'' @ int_text (buckets ! 0) @ ''_'' @ int_text (buckets ! 1) \<mapsto> AInt (vals ! 1)) else m);
          m = (if 3 \<le> length buckets then m(''p'' @ int_text (buckets ! 1) @ ''_'' @ int_text (buckets ! 2) \<mapsto> AInt (vals ! 2)) else m)
      in m(''gte'' @ int_text (last buckets) \<mapsto> AInt (last vals)))"

definition pg_metrics_row :: "int list \<Rightarrow> sql_value list \<Rightarrow> obj" where
  "pg_metrics_row buckets vs =
     (let vals = map num_of (take (length buckets + 1) (drop 4 vs)); base = 4 + length vals
      in [''eventType'' \<mapsto> AStr (text_of (vs ! 0)), ''status'' \<mapsto> AStr (text_of (vs ! 1)), ''count'' \<mapsto> AInt (num_of (vs ! 2)),
          ''avgLatencyMs'' \<mapsto> AInt (num_of (vs ! 3)), ''latencyBuckets'' \<mapsto> AObj (legacy_buckets buckets vals),
          ''latencyBucketEdges'' \<mapsto> AInts buckets, ''latencyBucketCounts'' \<mapsto> AInts vals,
          ''codeClasses'' \<mapsto> AObj [''c2xx'' \<mapsto> AInt (num_of (vs ! base)), ''c3xx'' \<mapsto> AInt (num_of (vs ! (base + 1))),
             ''c4xx'' \<mapsto> AInt (num_of (vs ! (base + 2))), ''c5xx'' \<mapsto> AInt (num_of (vs ! (base + 3)))]])"

definition pg_WebhookMetrics :: "'d pg_env \<Rightarrow> metrics_query \<Rightarrow> int list \<Rightarrow> ('d, obj list) pg_call" where
  "pg_WebhookMetrics E mq buckets0 =
     (let buckets = (if buckets0 = [] then [100, 500, 1000] else buckets0); (sql, args) = metrics_statement mq buckets
      in attempt (select E Pool sql args (metrics_targets buckets)) (\<lambda>rows. ret (map (pg_metrics_row buckets) rows)))"


section \<open>The dead letter queue\<close>

definition sql_dlq_base :: string where
  \<open>sql_dlq_base = ''SELECT id::text, delivery_id::text, event_type, url, last_error, attempts, created_at, COALESCE(response_code,0), COALESCE(latency_ms,0) FROM webhook_dlq WHERE tenant_id=$1''\<close>

definition dlq_filters :: "dlq_query \<Rightarrow> filtered \<Rightarrow> filtered" where
  \<open>dlq_filters dq f =
     add_filter (dq_errorQuery dq \<noteq> '''') '' AND last_error ILIKE '' (GText (''%'' @ dq_errorQuery dq @ ''%''))
      (add_filter (0 < dq_codeMax dq) '' AND COALESCE(response_code,0) <= '' (GInt (dq_codeMax dq))
        (add_filter (0 < dq_codeMin dq) '' AND COALESCE(response_code,0) >= '' (GInt (dq_codeMin dq))
          (add_filter (dq_olderThan dq \<noteq> 0) '' AND created_at < '' (GTime (dq_olderThan dq))
            (add_filter (dq_eventType dq \<noteq> '''') '' AND event_type='' (GText (dq_eventType dq)) f))))\<close>

definition dlq_statement :: "string \<Rightarrow> dlq_query \<Rightarrow> string \<Rightarrow> int \<Rightarrow> string \<times> sql_arg list" where
  \<open>dlq_statement tenantID dq cursor limit =
     (case dlq_filters dq (sql_dlq_base, [GText tenantID], 2) of
        (base, args, idx) \<Rightarrow>
          if cursor \<noteq> '''' then (base @ '' AND id::text > $'' @ nat_text idx @ '' ORDER BY id'' @ '' LIMIT $'' @ nat_text (idx + 1), args @ [GText cursor, GInt limit])
          else (base @ '' ORDER BY id'' @ '' LIMIT $'' @ nat_text idx, args @ [GInt limit]))\<close>

definition dlq_targets :: "target list" where
  "dlq_targets = [TText, TText, TText, TText, TText, TInt, TTime, TInt, TInt]"

definition dlq_row :: "'d pg_env \<Rightarrow> sql_value list \<Rightarrow> obj" where
  "dlq_row E vs =
     [''id'' \<mapsto> AStr (text_of (vs ! 0)), ''deliveryId'' \<mapsto> AStr (text_of (vs ! 1)), ''eventType'' \<mapsto> AStr (text_of (vs ! 2)),
      ''url'' \<mapsto> AStr (text_of (vs ! 3)), ''lastError'' \<mapsto> AStr (text_of (vs ! 4)), ''attempts'' \<mapsto> AInt (num_of (vs ! 5)),
      ''createdAt'' \<mapsto> time_any E (case time_of (vs ! 6) of None \<Rightarrow> 0 | Some t \<Rightarrow> t), ''responseCode'' \<mapsto> AInt (num_of (vs ! 7)),
      ''latencyMs'' \<mapsto> AInt (num_of (vs ! 8))]"

definition pg_ListWebhookDLQ :: "'d pg_env \<Rightarrow> string \<Rightarrow> dlq_query \<Rightarrow> string \<Rightarrow> int \<Rightarrow> ('d, obj list \<times> string) pg_call" where
  "pg_ListWebhookDLQ E tenantID dq cursor limit0 =
     (let limit = pg_limit limit0; (sql, args) = dlq_statement tenantID dq cursor limit
      in attempt (select E Pool sql args dlq_targets)
           (\<lambda>rows. ret (map (dlq_row E) rows, page_next (\<lambda>vs. text_of (vs ! 0)) limit rows)))"

definition sql_dlq_entry :: string where
  \<open>sql_dlq_entry = ''SELECT COALESCE(delivery_id::text,'' @ empty_literal @ ''), event_type, url, COALESCE(secret,'' @ empty_literal @ ''), payload FROM webhook_dlq WHERE tenant_id=$1 AND id=$2''\<close>

definition sql_dlq_delete :: string where
  \<open>sql_dlq_delete = ''DELETE FROM webhook_dlq WHERE tenant_id=$1 AND id=$2''\<close>

text \<open>
  Both requeue an entry the same way, the bulk operation reading and deleting within its transaction \<open>c\<close>
  but enqueueing through the pool. The subscription of the new delivery is the old delivery's identifier.
\<close>

definition requeue_entry :: "'d pg_env \<Rightarrow> conn \<Rightarrow> string \<Rightarrow> string \<Rightarrow> ('d, unit) pg_call" where
  "requeue_entry E c tenantID k = do {
     (vs, err) \<leftarrow> query_row E c sql_dlq_entry [GText tenantID, GText k] [TText, TText, TText, TText, TBytes];
     case err of Some e \<Rightarrow> fail e
     | None \<Rightarrow>
         attempt (pg_EnqueueWebhook E tenantID (text_of (vs ! 0)) (text_of (vs ! 1)) (text_of (vs ! 2)) (text_of (vs ! 3)) (text_of (vs ! 4)))
           (\<lambda>_. exec E c sql_dlq_delete [GText tenantID, GText k]) }"

definition pg_RequeueWebhookDLQ :: "'d pg_env \<Rightarrow> string \<Rightarrow> string \<Rightarrow> ('d, unit) pg_call" where
  "pg_RequeueWebhookDLQ E tenantID k = requeue_entry E Pool tenantID k"

definition pg_RequeueWebhookDLQBulk :: "'d pg_env \<Rightarrow> string \<Rightarrow> string list \<Rightarrow> ('d, unit) pg_call" where
  "pg_RequeueWebhookDLQBulk E tenantID ids = transaction E (for_each (\<lambda>k _. requeue_entry E InTx tenantID k) ids ())"

definition pg_DeleteWebhookDLQBulk :: "'d pg_env \<Rightarrow> string \<Rightarrow> string list \<Rightarrow> time \<Rightarrow> ('d, unit) pg_call" where
  \<open>pg_DeleteWebhookDLQBulk E tenantID ids olderThan =
     (if ids \<noteq> [] then for_each (\<lambda>k _. exec E Pool sql_dlq_delete [GText tenantID, GText k]) ids ()
      else if olderThan \<noteq> 0 then exec E Pool ''DELETE FROM webhook_dlq WHERE tenant_id=$1 AND created_at < $2'' [GText tenantID, GTime olderThan]
      else ret ())\<close>

section \<open>Events of the store\<close>

definition sql_emit_event :: string where
  \<open>sql_emit_event = ''INSERT INTO events (id, tenant_id, type, ts, payload, source) VALUES ($1,$2,$3,now(),$4,$5)''\<close>

definition event_body :: "'d pg_env \<Rightarrow> string \<Rightarrow> string \<Rightarrow> string \<Rightarrow> time \<Rightarrow> obj \<Rightarrow> string" where
  "event_body E k eventType tenantID now data =
     lib_marshal (pe_lib E) [''id'' \<mapsto> AStr k, ''type'' \<mapsto> AStr eventType, ''tenantId'' \<mapsto> AStr tenantID, ''ts'' \<mapsto> AStr (lib_format (pe_lib E) now), ''data'' \<mapsto> AObj data]"

fun enqueue_all :: "'d pg_env \<Rightarrow> string \<Rightarrow> string \<Rightarrow> string \<Rightarrow> subscription list \<Rightarrow> ('d, unit) pg_op" where
  "enqueue_all E tenantID eventType body [] = State_Monad.return ()"
| "enqueue_all E tenantID eventType body (sub # rest) = do {
     _ \<leftarrow> pg_EnqueueWebhook E tenantID (sub_ID sub) eventType (sub_URL sub) (sub_Secret sub) body;
     enqueue_all E tenantID eventType body rest }"

definition emitEvent :: "'d pg_env \<Rightarrow> string \<Rightarrow> string \<Rightarrow> obj \<Rightarrow> ('d, unit) pg_call" where
  "emitEvent E tenantID eventType data = do {
     k \<leftarrow> new_uuid E;
     _ \<leftarrow> exec E Pool sql_emit_event [GText k, GText tenantID, GText eventType, GMap (Some data), GText ''policy''];
     attempt (pg_GetSubscriptionsForEvent E tenantID eventType) (\<lambda>ss.
       if ss = [] then ret ()
       else do {
         now \<leftarrow> go_now E;
         _ \<leftarrow> enqueue_all E tenantID eventType (event_body E k eventType tenantID now data) ss;
         ret () }) }"

section \<open>Placeholders\<close>

text \<open>The numbers of the placeholders of a statement, in the order of its text.\<close>

definition digits :: "string \<Rightarrow> string" where
  "digits s = takeWhile (\<lambda>c. digit_value c \<noteq> None) s"

definition placeholders :: "string \<Rightarrow> nat option list" where
  "placeholders q = map (\<lambda>part. digits_value 0 (digits part)) (tl (split_on CHR ''$'' q))"

text \<open>A statement whose placeholders are \<open>$1 \<dots> $n\<close>, once each, for \<open>n\<close> arguments.\<close>

definition numbered :: "string \<Rightarrow> nat \<Rightarrow> bool" where
  "numbered q n \<longleftrightarrow> placeholders q = map Some [1..<n + 1]"

lemma digits_append: "tail = [] \<or> digit_value (hd tail) = None \<Longrightarrow> digits (p @ tail) = digits p"
  unfolding digits_def by (induction p) (cases tail, auto)+

lemma split_on_tail:
  "CHR ''$'' \<notin> set tail \<Longrightarrow> split_on CHR ''$'' (q @ tail) = butlast (split_on CHR ''$'' q) @ [last (split_on CHR ''$'' q) @ tail]"
proof (induction q)
  case Nil
  then show ?case by (simp add: split_on_plain)
next
  case (Cons c q)
  then show ?case by (auto split: list.splits)
qed

lemma split_on_last:
  assumes "sep \<notin> set n" shows "split_on sep (q @ sep # n) = split_on sep q @ [n]"
proof (induction q)
  case Nil
  then show ?case using assms by (simp add: split_on_plain)
next
  case (Cons c q)
  then show ?case by (auto split: list.splits)
qed

lemma placeholders_tail:
  assumes "CHR ''$'' \<notin> set tail" and "tail = [] \<or> digit_value (hd tail) = None"
  shows "placeholders (q @ tail) = placeholders q"
proof -
  obtain ps p where sp: "split_on CHR ''$'' q = ps @ [p]" by (metis split_on_not_Nil append_butlast_last_id)
  then have "split_on CHR ''$'' (q @ tail) = ps @ [p @ tail]" using split_on_tail [OF assms(1), of q] by simp
  with sp show ?thesis using digits_append [OF assms(2)] by (cases ps) (simp_all add: placeholders_def)
qed

lemma dollar_nat_text: "CHR ''$'' \<notin> set (nat_text n)"
  using nat_text_digits [of n] by (auto simp: digit_value_def)

lemma placeholders_next: "placeholders (q @ ''$'' @ nat_text n) = placeholders q @ [Some n]"
proof -
  have "digits (nat_text n) = nat_text n" unfolding digits_def by (rule takeWhile_all [OF nat_text_digits])
  moreover have "tl (split_on CHR ''$'' q @ [nat_text n]) = tl (split_on CHR ''$'' q) @ [nat_text n]"
    by (cases "split_on CHR ''$'' q") auto
  ultimately show ?thesis
    using split_on_last [OF dollar_nat_text, of q n] by (simp add: placeholders_def)
qed

lemma numbered_tail:
  "numbered q n \<Longrightarrow> CHR ''$'' \<notin> set tail \<Longrightarrow> tail = [] \<or> digit_value (hd tail) = None \<Longrightarrow> numbered (q @ tail) n"
  by (simp add: numbered_def placeholders_tail)

lemma numbered_next:
  assumes "numbered q n"
  shows "numbered (q @ ''$'' @ nat_text (n + 1)) (n + 1)"
proof -
  have "[1..<n + 1 + 1] = [1..<n + 1] @ [n + 1]" by simp
  with assms show ?thesis unfolding numbered_def placeholders_next by (metis list.simps(8,9) map_append)
qed

end
