(* ===== verification/Pg_Legs.thy ===== *)
theory Pg_Legs
  imports Pg_Clusters Pg_Routes Pg_Webhooks
begin

text \<open>
  The legs of a planned route in \<^verbatim>\<open>PlanRoutes\<close>: from the depot to the first stop, between the stops
  with a break before a leg that would exceed the driving limit, and back to the depot. What a leg is to
  be is computed by pure steps over the state of the trip; \<open>insert_leg\<close> writes it. Both planners of the
  source have a copy of this code.
\<close>

section \<open>Times and distances\<close>

text \<open>A time with its zone: UTC, or the server's (times read from the database).\<close>

type_synonym zoned = "time \<times> bool"

definition zoned_text :: "golib \<Rightarrow> zoned \<Rightarrow> string" where
  "zoned_text L z = (if snd z then lib_format_local L (fst z) else lib_format L (fst z))"

definition after_secs :: "zoned \<Rightarrow> int \<Rightarrow> zoned" where
  "after_secs z secs = (fst z + wrap64 (secs * second), snd z)"

text \<open>\<^verbatim>\<open>math.Round\<close>: half away from zero. The speed is the constant 50000 / 3600.\<close>

fun f_round :: "f64 \<Rightarrow> f64" where
  "f_round (Fin r) = Fin (of_int (if 0 \<le> r then \<lfloor>r + 1 / 2\<rfloor> else \<lceil>r - 1 / 2\<rceil>))"
| "f_round x = x"

definition drive_between :: "gomath \<Rightarrow> f64 \<Rightarrow> f64 \<Rightarrow> f64 \<Rightarrow> f64 \<Rightarrow> int \<times> int" where
  "drive_between gm lat1 lng1 lat2 lng2 =
     (let d = f_to_int (f_round (store_haversine gm lat1 lng1 lat2 lng2))
      in (d, f_to_int (f_round (f_of_int d / lit (125 / 9)))))"

section \<open>The steps\<close>

datatype leg_kind = FromDepot | Between | Break | ToDepot

record planned =
  pn_kind :: leg_kind
  pn_seq :: int
  pn_from :: string
  pn_to :: string
  pn_dist :: int
  pn_drive :: int
  pn_break :: int
  pn_arrive :: zoned
  pn_depart :: zoned
  pn_status :: string

text \<open>The variables of the loop: \<^verbatim>\<open>curr\<close>, \<^verbatim>\<open>seq\<close> and \<^verbatim>\<open>driveCum\<close>.\<close>

record trip =
  tp_curr :: zoned
  tp_seq :: int
  tp_cum :: int

definition arrive :: "plan_stop \<Rightarrow> zoned \<Rightarrow> zoned" where
  "arrive b etaA = (case sp_Start b of Some t \<Rightarrow> if fst etaA < t then (t, True) else etaA | None \<Rightarrow> etaA)"

definition depot_step :: "gomath \<Rightarrow> depot \<Rightarrow> plan_stop \<Rightarrow> trip \<Rightarrow> planned \<times> trip" where
  "depot_step gm d b w =
     (let (dst, drive) = drive_between gm (dp_Lat d) (dp_Lng d) (sp_Lat b) (sp_Lng b);
          etaA = arrive b (after_secs (tp_curr w) drive);
          etaD = after_secs etaA (sp_Svc b)
      in (\<lparr>pn_kind = FromDepot, pn_seq = tp_seq w, pn_from = '''', pn_to = sp_ID b, pn_dist = dst, pn_drive = drive, pn_break = 0,
           pn_arrive = etaA, pn_depart = etaD, pn_status = ''in_progress''\<rparr>,
          w\<lparr>tp_curr := etaD, tp_cum := wrap64 (tp_cum w + drive), tp_seq := tp_seq w + 1\<rparr>))"

definition needs_break :: "int \<Rightarrow> int \<Rightarrow> trip \<Rightarrow> bool" where
  "needs_break hosMax drive w \<longleftrightarrow> 0 < hosMax \<and> hosMax < wrap64 (tp_cum w + drive) \<and> 1 < tp_seq w"

definition break_step :: "int \<Rightarrow> trip \<Rightarrow> planned \<times> trip" where
  "break_step breakSec w =
     (let etaD = after_secs (tp_curr w) breakSec
      in (\<lparr>pn_kind = Break, pn_seq = tp_seq w, pn_from = '''', pn_to = '''', pn_dist = 0, pn_drive = 0, pn_break = breakSec,
           pn_arrive = tp_curr w, pn_depart = etaD, pn_status = ''pending''\<rparr>,
          w\<lparr>tp_curr := etaD, tp_cum := 0, tp_seq := tp_seq w + 1\<rparr>))"

definition stop_step :: "gomath \<Rightarrow> bool \<Rightarrow> plan_stop \<Rightarrow> plan_stop \<Rightarrow> trip \<Rightarrow> planned \<times> trip" where
  "stop_step gm fromDepot a b w =
     (let (dst, drive) = drive_between gm (sp_Lat a) (sp_Lng a) (sp_Lat b) (sp_Lng b);
          etaA = arrive b (after_secs (tp_curr w) drive);
          etaD = after_secs etaA (sp_Svc b)
      in (\<lparr>pn_kind = Between, pn_seq = tp_seq w, pn_from = sp_ID a, pn_to = sp_ID b, pn_dist = dst, pn_drive = drive, pn_break = 0,
           pn_arrive = etaA, pn_depart = etaD, pn_status = (if tp_seq w = 1 \<and> \<not> fromDepot then ''in_progress'' else ''pending'')\<rparr>,
          w\<lparr>tp_curr := etaD, tp_cum := wrap64 (tp_cum w + drive), tp_seq := tp_seq w + 1\<rparr>))"

definition return_step :: "gomath \<Rightarrow> plan_stop \<Rightarrow> depot \<Rightarrow> trip \<Rightarrow> planned" where
  "return_step gm a d w =
     (let (dst, drive) = drive_between gm (sp_Lat a) (sp_Lng a) (dp_Lat d) (dp_Lng d);
          etaA = after_secs (tp_curr w) drive
      in \<lparr>pn_kind = ToDepot, pn_seq = tp_seq w, pn_from = sp_ID a, pn_to = '''', pn_dist = dst, pn_drive = drive, pn_break = 0,
          pn_arrive = etaA, pn_depart = etaA, pn_status = ''pending''\<rparr>)"

section \<open>Writing them\<close>

definition sql_depot_leg :: string where
  \<open>sql_depot_leg = ''INSERT INTO route_legs (id, tenant_id, route_id, seq, kind, break_sec, from_stop_id, to_stop_id, dist_m, drive_sec, eta_arrival, eta_departure, status) VALUES ($1,$2,$3,$4,'drive',NULL,$5,$6,$7,$8,$9,$10,'in_progress')''\<close>

definition sql_break_leg :: string where
  \<open>sql_break_leg = ''INSERT INTO route_legs (id, tenant_id, route_id, seq, kind, break_sec, from_stop_id, to_stop_id, dist_m, drive_sec, eta_arrival, eta_departure, status) VALUES ($1,$2,$3,$4,'break',$5,NULL,NULL,0,0,$6,$7,'pending')''\<close>

definition sql_stop_leg :: string where
  \<open>sql_stop_leg = ''INSERT INTO route_legs (id, tenant_id, route_id, seq, kind, break_sec, from_stop_id, to_stop_id, dist_m, drive_sec, eta_arrival, eta_departure, status) VALUES ($1,$2,$3,$4,'drive',NULL,$5,$6,$7,$8,$9,$10,$11)''\<close>

definition sql_return_leg :: string where
  \<open>sql_return_leg = ''INSERT INTO route_legs (id, tenant_id, route_id, seq, kind, break_sec, from_stop_id, to_stop_id, dist_m, drive_sec, eta_arrival, eta_departure, status) VALUES ($1,$2,$3,$4,'drive',NULL,$5,$6,$7,$8,$9,$10,'pending')''\<close>

definition leg_statement :: "string \<Rightarrow> string \<Rightarrow> string \<Rightarrow> planned \<Rightarrow> string \<times> sql_arg list" where
  "leg_statement k tenantID rid l =
     (let key = [GText k, GText tenantID, GText rid, GInt (pn_seq l)];
          eta = [GTime (fst (pn_arrive l)), GTime (fst (pn_depart l))]
      in case pn_kind l of
        FromDepot \<Rightarrow> (sql_depot_leg, key @ [GNil, GText (pn_to l), GInt (pn_dist l), GInt (pn_drive l)] @ eta)
      | Break \<Rightarrow> (sql_break_leg, key @ [GInt (pn_break l)] @ eta)
      | Between \<Rightarrow> (sql_stop_leg, key @ [GText (pn_from l), GText (pn_to l), GInt (pn_dist l), GInt (pn_drive l)] @ eta @ [GText (pn_status l)])
      | ToDepot \<Rightarrow> (sql_return_leg, key @ [GText (pn_from l), GNil, GInt (pn_dist l), GInt (pn_drive l)] @ eta))"

definition insert_leg :: "'d pg_env \<Rightarrow> string \<Rightarrow> string \<Rightarrow> planned \<Rightarrow> ('d, unit) pg_call" where
  "insert_leg E tenantID rid l = do {
     k \<leftarrow> new_uuid E;
     case leg_statement k tenantID rid l of (sql, args) \<Rightarrow> exec E Pool sql args }"

text \<open>A planned break is also announced; whether that works does not matter.\<close>

definition announce_break :: "'d pg_env \<Rightarrow> string \<Rightarrow> string \<Rightarrow> planned \<Rightarrow> ('d, unit) pg_op" where
  "announce_break E tenantID rid l = do {
     _ \<leftarrow> emitEvent E tenantID ''hos.break.planned''
       [''routeId'' \<mapsto> AStr rid, ''breakSec'' \<mapsto> AInt (pn_break l), ''start'' \<mapsto> AStr (zoned_text (pe_lib E) (pn_arrive l)),
        ''end'' \<mapsto> AStr (zoned_text (pe_lib E) (pn_depart l))];
     State_Monad.return () }"

definition take_break :: "'d pg_env \<Rightarrow> string \<Rightarrow> string \<Rightarrow> int \<Rightarrow> trip \<Rightarrow> ('d, trip) pg_call" where
  "take_break E tenantID rid breakSec w =
     (case break_step breakSec w of
        (l, w') \<Rightarrow> attempt (insert_leg E tenantID rid l) (\<lambda>_. do { _ \<leftarrow> announce_break E tenantID rid l; ret w' }))"

definition drive_on :: "'d pg_env \<Rightarrow> string \<Rightarrow> string \<Rightarrow> int \<Rightarrow> int \<Rightarrow> bool \<Rightarrow> plan_stop \<times> plan_stop \<Rightarrow> trip \<Rightarrow> ('d, trip) pg_call" where
  "drive_on E tenantID rid hosMax breakSec fromDepot ab w =
     (case ab of (a, b) \<Rightarrow>
        let drive = snd (drive_between (pe_math E) (sp_Lat a) (sp_Lng a) (sp_Lat b) (sp_Lng b))
        in attempt (if needs_break hosMax drive w then take_break E tenantID rid breakSec w else ret w) (\<lambda>w.
             case stop_step (pe_math E) fromDepot a b w of
               (l, w') \<Rightarrow> attempt (insert_leg E tenantID rid l) (\<lambda>_. ret w')))"

text \<open>The consecutive pairs of stops of an order.\<close>

definition stop_pairs :: "plan_stop list \<Rightarrow> nat list \<Rightarrow> (plan_stop \<times> plan_stop) list" where
  "stop_pairs stops order = map (\<lambda>i. (stops ! (order ! i), stops ! (order ! (i + 1)))) [0..<length order - 1]"

definition write_legs :: "'d pg_env \<Rightarrow> string \<Rightarrow> string \<Rightarrow> int \<Rightarrow> int \<Rightarrow> depot option \<Rightarrow> bool \<Rightarrow> plan_stop list \<Rightarrow> nat list \<Rightarrow> ('d, unit) pg_call" where
  "write_legs E tenantID rid hosMax breakSec dep fromDepot stops order = do {
     now \<leftarrow> go_now E;
     let w0 = \<lparr>tp_curr = (now, False), tp_seq = 1, tp_cum = 0\<rparr>;
     attempt (case dep of None \<Rightarrow> ret w0
        | Some d \<Rightarrow> (case depot_step (pe_math E) d (stops ! hd order) w0 of
            (l, w') \<Rightarrow> attempt (insert_leg E tenantID rid l) (\<lambda>_. ret w')))
       (\<lambda>w. attempt (for_each (drive_on E tenantID rid hosMax breakSec fromDepot) (stop_pairs stops order) w)
         (\<lambda>w. case dep of None \<Rightarrow> ret ()
            | Some d \<Rightarrow> insert_leg E tenantID rid (return_step (pe_math E) (stops ! last order) d w))) }"

text \<open>The greedy planner starts at the depot nearest to the first stop, the other at the first depot.\<close>

definition greedy_legs :: "'d pg_env \<Rightarrow> string \<Rightarrow> string \<Rightarrow> int \<Rightarrow> int \<Rightarrow> depot list \<Rightarrow> plan_stop list \<Rightarrow> nat list \<Rightarrow> ('d, unit) pg_call" where
  "greedy_legs E tenantID rid hosMax breakSec depots stops order =
     (let b = stops ! hd order;
          near = nearest (\<lambda>i. store_haversine (pe_math E) (sp_Lat b) (sp_Lng b) (dp_Lat (depots ! i)) (dp_Lng (depots ! i))) (length depots);
          dep = (if depots = [] then None else Some (depots ! near));
          startStopID = (case dep of None \<Rightarrow> '''' | Some d \<Rightarrow> dp_ID d)
      in write_legs E tenantID rid hosMax breakSec dep (startStopID \<noteq> '''') stops order)"

definition alns_legs :: "'d pg_env \<Rightarrow> string \<Rightarrow> string \<Rightarrow> int \<Rightarrow> int \<Rightarrow> depot list \<Rightarrow> plan_stop list \<Rightarrow> nat list \<Rightarrow> ('d, unit) pg_call" where
  "alns_legs E tenantID rid hosMax breakSec depots stops order =
     write_legs E tenantID rid hosMax breakSec (if depots = [] then None else Some (hd depots)) (depots \<noteq> []) stops order"


section \<open>The plan the steps make\<close>

fun between_legs :: "gomath \<Rightarrow> int \<Rightarrow> int \<Rightarrow> bool \<Rightarrow> (plan_stop \<times> plan_stop) list \<Rightarrow> trip \<Rightarrow> planned list \<times> trip" where
  "between_legs gm hosMax breakSec fromDepot [] w = ([], w)"
| "between_legs gm hosMax breakSec fromDepot ((a, b) # ps) w =
     (let (brk, w1) = (if needs_break hosMax (snd (drive_between gm (sp_Lat a) (sp_Lng a) (sp_Lat b) (sp_Lng b))) w
                       then (case break_step breakSec w of (l, w') \<Rightarrow> ([l], w')) else ([], w));
          (l, w2) = stop_step gm fromDepot a b w1;
          (ls, w3) = between_legs gm hosMax breakSec fromDepot ps w2
      in (brk @ l # ls, w3))"

definition planned_legs :: "gomath \<Rightarrow> int \<Rightarrow> int \<Rightarrow> depot option \<Rightarrow> bool \<Rightarrow> plan_stop list \<Rightarrow> nat list \<Rightarrow> time \<Rightarrow> planned list" where
  "planned_legs gm hosMax breakSec dep fromDepot stops order now =
     (let w0 = \<lparr>tp_curr = (now, False), tp_seq = 1, tp_cum = 0\<rparr>
      in case dep of
           None \<Rightarrow> fst (between_legs gm hosMax breakSec fromDepot (stop_pairs stops order) w0)
         | Some d \<Rightarrow>
             (let (l, w) = depot_step gm d (stops ! hd order) w0;
                  (ls, w') = between_legs gm hosMax breakSec fromDepot (stop_pairs stops order) w
              in l # ls @ [return_step gm (stops ! last order) d w']))"

text \<open>The leg inserts among the statements a log holds, without their fresh identifiers.\<close>

definition leg_sqls :: "string list" where
  "leg_sqls = [sql_depot_leg, sql_break_leg, sql_stop_leg, sql_return_leg]"

definition leg_log :: "log_db \<Rightarrow> (string \<times> sql_arg list) list" where
  "leg_log d = map (\<lambda>(sql, args). (sql, tl args)) (filter (\<lambda>(sql, args). sql \<in> set leg_sqls) (lg_done d))"

definition leg_entry :: "string \<Rightarrow> string \<Rightarrow> planned \<Rightarrow> string \<times> sql_arg list" where
  "leg_entry tenantID rid l = (case leg_statement '''' tenantID rid l of (sql, args) \<Rightarrow> (sql, tl args))"

definition logged :: "log_db pg_env \<Rightarrow> bool" where
  "logged E \<longleftrightarrow> (\<exists>answer. pe_driver E = log_driver answer (\<lambda>_. False))"

definition legs_are :: "(string \<times> sql_arg list) list \<Rightarrow> log_db pg \<Rightarrow> bool" where
  "legs_are v s \<longleftrightarrow> leg_log (pg_db s) = v"

lemma other_sqls: "sql_emit_event \<notin> set leg_sqls" "sql_enqueue \<notin> set leg_sqls"
  by (simp_all add: leg_sqls_def sql_emit_event_def sql_enqueue_def sql_depot_leg_def sql_break_leg_def sql_stop_leg_def sql_return_leg_def)

lemma legs_uuid [keeps_intros]: "preserves (legs_are v) (new_uuid E)"
  by (simp add: preserves_def legs_are_def new_uuid_def)

lemma legs_now [keeps_intros]: "preserves (legs_are v) (go_now E)"
  by (simp add: preserves_def legs_are_def go_now_def)

lemma legs_query [keeps_intros]: "logged E \<Longrightarrow> preserves (legs_are v) (run_query E c sql args)"
  by (auto simp: preserves_def legs_are_def run_query_def logged_def log_driver_def)

lemma legs_exec: "logged E \<Longrightarrow> sql \<notin> set leg_sqls \<Longrightarrow> preserves (legs_are v) (exec E Pool sql args)"
  by (auto simp: preserves_def legs_are_def exec_def logged_def log_driver_def leg_log_def)

lemma legs_enqueue: "logged E \<Longrightarrow> preserves (legs_are v) (pg_EnqueueWebhook E t sid ev url sec body)"
  unfolding pg_EnqueueWebhook_def by (intro keeps_intros legs_exec other_sqls)

lemma legs_enqueue_all: "logged E \<Longrightarrow> preserves (legs_are v) (enqueue_all E t ev body ss)"
  by (induction ss) (auto intro!: keeps_intros legs_enqueue)

lemma legs_announce: "logged E \<Longrightarrow> preserves (legs_are v) (announce_break E t rid l)"
  unfolding announce_break_def emitEvent_def pg_GetSubscriptionsForEvent_def
  by (auto intro!: keeps_intros legs_exec other_sqls legs_enqueue_all split: if_splits)

lemma run_insert_leg:
  assumes "logged E" and "legs_are v s"
  shows "\<exists>s'. run_state (insert_leg E t rid l) s = (Inr (), s') \<and> legs_are (v @ [leg_entry t rid l]) s'"
proof -
  obtain answer where d: "pe_driver E = log_driver answer (\<lambda>_. False)" using assms(1) by (auto simp: logged_def)
  obtain sql args where st: "leg_statement (pe_uuid E (pg_uuids s)) t rid l = (sql, args)" by fastforce
  have "sql \<in> set leg_sqls" using st by (auto simp: leg_statement_def Let_def leg_sqls_def split: leg_kind.splits)
  moreover have "leg_entry t rid l = (sql, tl args)"
    using st by (auto simp: leg_entry_def leg_statement_def Let_def split: leg_kind.splits)
  ultimately show ?thesis using assms(2) st
    by (simp add: insert_leg_def new_uuid_def exec_def d log_driver_def legs_are_def leg_log_def)
qed

lemma run_drive_on:
  assumes "logged E" and "legs_are v s"
  shows "\<exists>s'. run_state (drive_on E t rid hosMax breakSec fromDepot ab w) s = (Inr (snd (between_legs (pe_math E) hosMax breakSec fromDepot [ab] w)), s') \<and>
    legs_are (v @ map (leg_entry t rid) (fst (between_legs (pe_math E) hosMax breakSec fromDepot [ab] w))) s'"
proof -
  obtain a b where ab: "ab = (a, b)" by fastforce
  let ?need = "needs_break hosMax (snd (drive_between (pe_math E) (sp_Lat a) (sp_Lng a) (sp_Lat b) (sp_Lng b))) w"
  obtain lb wb where br: "break_step breakSec w = (lb, wb)" by fastforce
  define brk where "brk = (if ?need then [lb] else [])"
  define w1 where "w1 = (if ?need then wb else w)"
  obtain l w2 where st: "stop_step (pe_math E) fromDepot a b w1 = (l, w2)" by fastforce
  have "\<exists>s1. run_state (if ?need then take_break E t rid breakSec w else ret w) s = (Inr w1, s1) \<and> legs_are (v @ map (leg_entry t rid) brk) s1"
  proof (cases ?need)
    case True
    obtain s0 where s0: "run_state (insert_leg E t rid lb) s = (Inr (), s0)" "legs_are (v @ [leg_entry t rid lb]) s0"
      using run_insert_leg [OF assms] by blast
    with preservesD [OF legs_announce [OF assms(1)] s0(2), of t rid lb] True show ?thesis
      by (simp add: take_break_def br run_attempt brk_def w1_def split_beta)
  qed (use assms(2) in \<open>simp add: brk_def w1_def\<close>)
  then obtain s1 where s1: "run_state (if ?need then take_break E t rid breakSec w else ret w) s = (Inr w1, s1)"
    "legs_are (v @ map (leg_entry t rid) brk) s1" by blast
  obtain s2 where s2: "run_state (insert_leg E t rid l) s1 = (Inr (), s2)" "legs_are ((v @ map (leg_entry t rid) brk) @ [leg_entry t rid l]) s2"
    using run_insert_leg [OF assms(1) s1(2)] by blast
  have "between_legs (pe_math E) hosMax breakSec fromDepot [ab] w = (brk @ [l], w2)"
    using st br by (cases ?need) (simp_all add: ab brk_def w1_def)
  then show ?thesis using s1 s2 st by (simp add: drive_on_def ab run_attempt)
qed

lemma between_legs_Cons:
  "between_legs gm hosMax breakSec fromDepot (ab # ps) w =
     (case between_legs gm hosMax breakSec fromDepot [ab] w of
        (ls, w') \<Rightarrow> (case between_legs gm hosMax breakSec fromDepot ps w' of (ls', w'') \<Rightarrow> (ls @ ls', w'')))"
  by (cases ab) (simp split: prod.split)

lemma run_drive_all:
  assumes "logged E"
  shows "legs_are v s \<Longrightarrow> \<exists>s'. run_state (for_each (drive_on E t rid hosMax breakSec fromDepot) ps w) s
      = (Inr (snd (between_legs (pe_math E) hosMax breakSec fromDepot ps w)), s') \<and>
    legs_are (v @ map (leg_entry t rid) (fst (between_legs (pe_math E) hosMax breakSec fromDepot ps w))) s'"
proof (induction ps arbitrary: v s w)
  case (Cons ab ps)
  obtain ls w1 where b: "between_legs (pe_math E) hosMax breakSec fromDepot [ab] w = (ls, w1)" by fastforce
  obtain s1 where s1: "run_state (drive_on E t rid hosMax breakSec fromDepot ab w) s = (Inr w1, s1)"
    "legs_are (v @ map (leg_entry t rid) ls) s1" using run_drive_on [OF assms Cons.prems, of t rid hosMax breakSec fromDepot ab w] b by auto
  obtain ls' w2 where b': "between_legs (pe_math E) hosMax breakSec fromDepot ps w1 = (ls', w2)" by fastforce
  have "between_legs (pe_math E) hosMax breakSec fromDepot (ab # ps) w = (ls @ ls', w2)"
    by (subst between_legs_Cons) (simp add: b b')
  with Cons.IH [OF s1(2), of w1] b' s1(1) show ?case by (simp add: run_attempt)
qed simp

text \<open>What is written is the plan, whatever the queries of the announcements answer.\<close>

lemma run_write_legs:
  assumes "logged E" and "legs_are v s"
  shows "\<exists>s'. run_state (write_legs E t rid hosMax breakSec dep fromDepot stops order) s = (Inr (), s') \<and>
    legs_are (v @ map (leg_entry t rid) (planned_legs (pe_math E) hosMax breakSec dep fromDepot stops order (pe_now E (pg_ticks s)))) s'"
proof -
  define s0 where "s0 = s\<lparr>pg_ticks := pg_ticks s + 1\<rparr>"
  have s0: "legs_are v s0" using assms(2) by (simp add: s0_def legs_are_def)
  let ?w0 = "\<lparr>tp_curr = (pe_now E (pg_ticks s), False), tp_seq = 1, tp_cum = 0\<rparr>"
  have start: "run_state (go_now E) s = (pe_now E (pg_ticks s), s0)" by (simp add: go_now_def s0_def)
  show ?thesis
  proof (cases dep)
    case None
    with run_drive_all [OF assms(1) s0, of t rid hosMax breakSec fromDepot "stop_pairs stops order" ?w0] show ?thesis
      by (auto simp: write_legs_def start run_attempt planned_legs_def)
  next
    case (Some d)
    obtain l w where dp: "depot_step (pe_math E) d (stops ! hd order) ?w0 = (l, w)" by fastforce
    obtain s1 where s1: "run_state (insert_leg E t rid l) s0 = (Inr (), s1)" "legs_are (v @ [leg_entry t rid l]) s1"
      using run_insert_leg [OF assms(1) s0] by blast
    obtain ls w' where b: "between_legs (pe_math E) hosMax breakSec fromDepot (stop_pairs stops order) w = (ls, w')" by fastforce
    obtain s2 where s2: "run_state (for_each (drive_on E t rid hosMax breakSec fromDepot) (stop_pairs stops order) w) s1 = (Inr w', s2)"
      "legs_are ((v @ [leg_entry t rid l]) @ map (leg_entry t rid) ls) s2"
      using run_drive_all [OF assms(1) s1(2), of t rid hosMax breakSec fromDepot "stop_pairs stops order" w] b by auto
    with run_insert_leg [OF assms(1) s2(2), of t rid "return_step (pe_math E) (stops ! last order) d w'"] dp b s1 Some show ?thesis
      by (auto simp: write_legs_def start run_attempt planned_legs_def)
  qed
qed


section \<open>What a plan is like\<close>

text \<open>The driving since the last break, as \<^verbatim>\<open>driveCum\<close> counts it.\<close>

definition driven_from :: "int \<Rightarrow> planned list \<Rightarrow> int" where
  "driven_from c ls = foldl (\<lambda>c l. if pn_kind l = Break then 0 else wrap64 (c + pn_drive l)) c ls"

text \<open>A leg between stops may start when it stays within the limit, comes right after a break, or is the first.\<close>

definition rested :: "int \<Rightarrow> planned list \<Rightarrow> planned \<Rightarrow> bool" where
  "rested hosMax before l \<longleftrightarrow> pn_kind l = Between \<longrightarrow>
     wrap64 (driven_from 0 before + pn_drive l) \<le> hosMax \<or> before = [] \<or> pn_kind (last before) = Break"

text \<open>The state of the trip after some legs.\<close>

definition trip_inv :: "int \<Rightarrow> planned list \<Rightarrow> trip \<Rightarrow> bool" where
  "trip_inv hosMax ls w \<longleftrightarrow> tp_seq w = 1 + int (length ls) \<and> map pn_seq ls = map (\<lambda>i. 1 + int i) [0..<length ls] \<and>
     tp_cum w = driven_from 0 ls \<and> (\<forall>p l q. ls = p @ l # q \<longrightarrow> rested hosMax p l)"

lemma driven_from_snoc: "driven_from c (ls @ [l]) = (if pn_kind l = Break then 0 else wrap64 (driven_from c ls + pn_drive l))"
  by (simp add: driven_from_def)

lemma trip_inv_snoc:
  assumes "trip_inv hosMax ls w" and "pn_seq l = tp_seq w" and "tp_seq w' = tp_seq w + 1" and "rested hosMax ls l"
    and "tp_cum w' = driven_from 0 (ls @ [l])"
  shows "trip_inv hosMax (ls @ [l]) w'"
proof -
  have "rested hosMax p m" if "ls @ [l] = p @ m # q" for p m q
  proof (cases q rule: rev_cases)
    case Nil
    with that assms(4) show ?thesis by simp
  next
    case (snoc q' x)
    with that have "ls = p @ m # q'" by simp
    with assms(1) show ?thesis by (auto simp: trip_inv_def)
  qed
  with assms show ?thesis by (simp add: trip_inv_def)
qed

lemma break_step_inv:
  assumes "trip_inv hosMax ls w" and "break_step breakSec w = (l, w')"
  shows "trip_inv hosMax (ls @ [l]) w'"
  by (rule trip_inv_snoc [OF assms(1)])
    (use assms(2) in \<open>auto simp: break_step_def Let_def rested_def driven_from_snoc\<close>)

lemma stop_step_inv:
  assumes "trip_inv hosMax ls w" and "stop_step gm fromDepot a b w = (l, w')" and "0 < hosMax"
    and "needs_break hosMax (snd (drive_between gm (sp_Lat a) (sp_Lng a) (sp_Lat b) (sp_Lng b))) w \<Longrightarrow> ls \<noteq> [] \<and> pn_kind (last ls) = Break"
  shows "trip_inv hosMax (ls @ [l]) w'"
proof (rule trip_inv_snoc [OF assms(1)])
  let ?drive = "snd (drive_between gm (sp_Lat a) (sp_Lng a) (sp_Lat b) (sp_Lng b))"
  have l: "pn_drive l = ?drive" using assms(2) by (auto simp: stop_step_def Let_def split: prod.splits)
  have w: "tp_cum w = driven_from 0 ls" "tp_seq w = 1 + int (length ls)" using assms(1) by (simp_all add: trip_inv_def)
  show "rested hosMax ls l"
  proof (cases "needs_break hosMax ?drive w")
    case True
    with assms(4) show ?thesis by (simp add: rested_def)
  next
    case False
    with assms(3) w l show ?thesis by (auto simp: rested_def needs_break_def)
  qed
qed (use assms(1,2) in \<open>auto simp: stop_step_def Let_def trip_inv_def driven_from_snoc split: prod.splits\<close>)

lemma between_legs_inv:
  assumes "0 < hosMax"
  shows "trip_inv hosMax ls w \<Longrightarrow> between_legs gm hosMax breakSec fromDepot ps w = (ls', w') \<Longrightarrow> trip_inv hosMax (ls @ ls') w'"
proof (induction ps arbitrary: ls w ls' w')
  case (Cons ab ps)
  obtain a b where ab: "ab = (a, b)" by fastforce
  let ?need = "needs_break hosMax (snd (drive_between gm (sp_Lat a) (sp_Lng a) (sp_Lat b) (sp_Lng b))) w"
  obtain lb wb where br: "break_step breakSec w = (lb, wb)" by fastforce
  define brk where "brk = (if ?need then [lb] else [])"
  define w1 where "w1 = (if ?need then wb else w)"
  obtain l w2 where st: "stop_step gm fromDepot a b w1 = (l, w2)" by fastforce
  obtain ls2 w3 where rest: "between_legs gm hosMax breakSec fromDepot ps w2 = (ls2, w3)" by fastforce
  have res: "ls' = brk @ l # ls2" "w' = w3" using Cons.prems(2) st br rest by (auto simp: ab brk_def w1_def split: if_splits)
  have 1: "trip_inv hosMax (ls @ brk) w1" using Cons.prems(1) break_step_inv [OF Cons.prems(1) br] by (simp add: brk_def w1_def)
  have kb: "pn_kind lb = Break" using br by (auto simp: break_step_def Let_def)
  have 2: "trip_inv hosMax ((ls @ brk) @ [l]) w2"
    by (rule stop_step_inv [OF 1 st assms]) (simp add: brk_def w1_def kb split: if_splits)
  from Cons.IH [OF 2 rest] show ?case by (simp add: res)
qed simp

lemma planned_legs_inv:
  assumes "0 < hosMax"
  shows "\<exists>w. trip_inv hosMax (planned_legs gm hosMax breakSec dep fromDepot stops order now) w"
proof -
  let ?w0 = "\<lparr>tp_curr = (now, False), tp_seq = 1, tp_cum = 0\<rparr>"
  have 0: "trip_inv hosMax [] ?w0" by (simp add: trip_inv_def driven_from_def)
  show ?thesis
  proof (cases dep)
    case None
    obtain ls w where "between_legs gm hosMax breakSec fromDepot (stop_pairs stops order) ?w0 = (ls, w)" by fastforce
    with between_legs_inv [OF assms 0 this] None show ?thesis by (auto simp: planned_legs_def)
  next
    case (Some d)
    obtain l w where dp: "depot_step gm d (stops ! hd order) ?w0 = (l, w)" by fastforce
    have 1: "trip_inv hosMax ([] @ [l]) w"
      by (rule trip_inv_snoc [OF 0]) (use dp in \<open>auto simp: depot_step_def Let_def rested_def driven_from_def split: prod.splits\<close>)
    obtain ls w' where b: "between_legs gm hosMax breakSec fromDepot (stop_pairs stops order) w = (ls, w')" by fastforce
    have 2: "trip_inv hosMax (([] @ [l]) @ ls) w'" by (rule between_legs_inv [OF assms 1 b])
    let ?r = "return_step gm (stops ! last order) d w'"
    have "trip_inv hosMax ((([] @ [l]) @ ls) @ [?r]) (w'\<lparr>tp_seq := tp_seq w' + 1, tp_cum := wrap64 (tp_cum w' + pn_drive ?r)\<rparr>)"
      by (rule trip_inv_snoc [OF 2])
        (use 2 in \<open>auto simp: return_step_def Let_def rested_def driven_from_def trip_inv_def split: prod.splits\<close>)
    then show ?thesis using Some dp b by (auto simp: planned_legs_def)
  qed
qed

end
