(* ===== verification/Pg_Settings.thy ===== *)
theory Pg_Settings
  imports Pg_Orders "HOL-Library.List_Lexorder" "HOL-Library.Char_ord"
begin

text \<open>
  The smaller parts of the Postgres store: hours of service, geofences, planner metrics, the optimizer
  configuration and the migrations. A driver's state is read, changed in Go and written back.
\<close>

section \<open>Hours of service\<close>

definition sql_hos_state :: string where
  \<open>sql_hos_state = ''SELECT hos_state FROM drivers WHERE tenant_id=$1 AND id=$2''\<close>

definition sql_set_hos :: string where
  \<open>sql_set_hos = ''UPDATE drivers SET hos_state=$1 WHERE tenant_id=$2 AND id=$3''\<close>

definition Sprint :: "sql_lib \<Rightarrow> any option \<Rightarrow> string" where
  "Sprint L v = (case v of
      None \<Rightarrow> ''<nil>'' | Some ANil \<Rightarrow> ''<nil>'' | Some (AStr s) \<Rightarrow> s
    | Some (ABool b) \<Rightarrow> (if b then ''true'' else ''false'') | Some w \<Rightarrow> sl_sprint L w)"

text \<open>The map after reading the column: empty, or what it holds; the text \<^verbatim>\<open>null\<close> makes it nil.\<close>

definition hos_map :: "sql_lib \<Rightarrow> string \<Rightarrow> obj option" where
  "hos_map L js = (if js = '''' then Some Map.empty else case sl_parse_map L js of None \<Rightarrow> Some Map.empty | Some m \<Rightarrow> m)"

definition hos_change :: "sql_lib \<Rightarrow> hos_update \<Rightarrow> obj \<Rightarrow> string \<times> obj" where
  "hos_change L upd st =
     (let status0 = Sprint L (st ''status'');
          (status, st) =
            (if hu_Action upd = ''shift_start'' then (''on'', st(''shiftStart'' \<mapsto> AStr (hu_TS upd)))
             else if hu_Action upd = ''shift_end'' then (''off'', st(''shiftEnd'' \<mapsto> AStr (hu_TS upd)))
             else if hu_Action upd = ''break_start'' then
               (status0, st(''break'' \<mapsto> ABool True, ''breakType'' \<mapsto> AStr (hu_Type upd), ''breakStart'' \<mapsto> AStr (hu_TS upd)))
             else if hu_Action upd = ''break_end'' then (status0, st(''break'' \<mapsto> ABool False, ''breakEnd'' \<mapsto> AStr (hu_TS upd)))
             else (status0, st));
          st = st(''status'' \<mapsto> AStr status)
      in (status, if hu_Note upd \<noteq> '''' then st(''note'' \<mapsto> AStr (hu_Note upd)) else st))"

definition pg_UpdateHOS :: "'d pg_env \<Rightarrow> string \<Rightarrow> string \<Rightarrow> hos_update \<Rightarrow> ('d, go_panic + sql_error + string \<times> obj) pg_op" where
  "pg_UpdateHOS E tenantID driverID upd = do {
     (vs, err) \<leftarrow> query_row E Pool sql_hos_state [GText tenantID, GText driverID] [TBytes];
     if err \<noteq> None \<and> err \<noteq> Some NoRows then State_Monad.return (Inr (Inl (the err)))
     else case hos_map (pe_sql E) (text_of (vs ! 0)) of
       None \<Rightarrow> State_Monad.return (Inl NilMap)
     | Some st0 \<Rightarrow> do {
         let (status, st) = hos_change (pe_sql E) upd st0;
         r \<leftarrow> exec E Pool sql_set_hos [GMap (Some st), GText tenantID, GText driverID];
         State_Monad.return (Inr (case r of Inl e \<Rightarrow> Inl e | Inr _ \<Rightarrow> Inr (status, st))) } }"

section \<open>Geofences\<close>

definition sql_insert_geofence :: string where
  \<open>sql_insert_geofence = ''INSERT INTO geofences (id, tenant_id, name, radius_m, type, rules, lat, lng) VALUES ($1,$2,$3,$4,$5,$6,$7,$8)''\<close>

definition sql_geofence :: string where
  \<open>sql_geofence = ''SELECT id::text, name, radius_m, type, rules, lat, lng FROM geofences WHERE tenant_id=$1 AND id=$2''\<close>

text \<open>The rules are scanned into the field of the struct, a map.\<close>

definition geofence_targets :: "target list" where
  "geofence_targets = [TText, TText, TInt, TText, TMap, TNullFloat, TNullFloat]"

definition geofence_row :: "string \<Rightarrow> sql_value list \<Rightarrow> geofence" where
  "geofence_row tenantID vs =
     \<lparr>gf_ID = text_of (vs ! 0), gf_TenantID = tenantID, gf_Name = text_of (vs ! 1), gf_Type = text_of (vs ! 3),
      gf_RadiusM = num_of (vs ! 2),
      gf_Center = (if vs ! 5 \<noteq> VNull \<and> vs ! 6 \<noteq> VNull then Some \<lparr>gp_Lat = float_of (vs ! 5), gp_Lng = float_of (vs ! 6)\<rparr> else None),
      gf_Rules = None\<rparr>"

definition pg_GetGeofence :: "'d pg_env \<Rightarrow> string \<Rightarrow> string \<Rightarrow> ('d, geofence) pg_call" where
  "pg_GetGeofence E tenantID k = do {
     (vs, err) \<leftarrow> query_row E Pool sql_geofence [GText tenantID, GText k] geofence_targets;
     State_Monad.return (case err of None \<Rightarrow> Inr (geofence_row tenantID vs) | Some e \<Rightarrow> Inl (if e = NoRows then NotFound else e)) }"

definition pg_CreateGeofence :: "'d pg_env \<Rightarrow> string \<Rightarrow> geofence_input \<Rightarrow> ('d, geofence) pg_call" where
  "pg_CreateGeofence E tenantID inp = do {
     k \<leftarrow> new_uuid E;
     attempt (exec E Pool sql_insert_geofence
       [GText k, GText tenantID, GText (gi_Name inp), GInt (gi_RadiusM inp), GText (gi_Type inp), GMap (gi_Rules inp),
        lat_arg (gi_Center inp), lng_arg (gi_Center inp)])
     (\<lambda>_. pg_GetGeofence E tenantID k) }"

definition geofences_query :: "string \<Rightarrow> string \<Rightarrow> int \<Rightarrow> string \<times> sql_arg list" where
  \<open>geofences_query tenantID cursor limit =
     (if cursor \<noteq> '''' then (''SELECT id::text, name, radius_m, type, rules, lat, lng FROM geofences WHERE tenant_id=$1 AND id::text > $2 ORDER BY id LIMIT $3'', [GText tenantID, GText cursor, GInt limit])
      else (''SELECT id::text, name, radius_m, type, rules, lat, lng FROM geofences WHERE tenant_id=$1 ORDER BY id LIMIT $2'', [GText tenantID, GInt limit]))\<close>

definition pg_ListGeofences :: "'d pg_env \<Rightarrow> string \<Rightarrow> string \<Rightarrow> int \<Rightarrow> ('d, geofence list \<times> string) pg_call" where
  "pg_ListGeofences E tenantID cursor limit0 =
     (let limit = pg_limit limit0; (sql, args) = geofences_query tenantID cursor limit
      in attempt (select E Pool sql args geofence_targets)
           (\<lambda>rows. let out = map (geofence_row tenantID) rows in ret (out, page_next gf_ID limit out)))"

definition patched_geofence :: "geofence \<Rightarrow> geofence_input \<Rightarrow> geofence" where
  "patched_geofence gf inp =
     (let gf = (if gi_Name inp \<noteq> '''' then gf\<lparr>gf_Name := gi_Name inp\<rparr> else gf);
          gf = (if gi_Type inp \<noteq> '''' then gf\<lparr>gf_Type := gi_Type inp\<rparr> else gf);
          gf = (if gi_RadiusM inp \<noteq> 0 then gf\<lparr>gf_RadiusM := gi_RadiusM inp\<rparr> else gf)
      in if gi_Rules inp \<noteq> None then gf\<lparr>gf_Rules := gi_Rules inp\<rparr> else gf)"

definition sql_update_geofence :: string where
  \<open>sql_update_geofence = ''UPDATE geofences SET name=$1, radius_m=$2, type=$3, rules=$4, lat=$5, lng=$6 WHERE tenant_id=$7 AND id=$8''\<close>

definition pg_PatchGeofence :: "'d pg_env \<Rightarrow> string \<Rightarrow> string \<Rightarrow> geofence_input \<Rightarrow> ('d, geofence) pg_call" where
  "pg_PatchGeofence E tenantID k inp =
     attempt (pg_GetGeofence E tenantID k) (\<lambda>gf0.
       let gf = patched_geofence gf0 inp; center = (if gi_Center inp \<noteq> None then gi_Center inp else gf_Center gf)
       in attempt (exec E Pool sql_update_geofence
            [GText (gf_Name gf), GInt (gf_RadiusM gf), GText (gf_Type gf), GMap (gf_Rules gf), lat_arg center, lng_arg center,
             GText tenantID, GText k])
          (\<lambda>_. pg_GetGeofence E tenantID k))"

definition pg_DeleteGeofence :: "'d pg_env \<Rightarrow> string \<Rightarrow> string \<Rightarrow> ('d, unit) pg_call" where
  \<open>pg_DeleteGeofence E tenantID k = exec E Pool ''DELETE FROM geofences WHERE tenant_id=$1 AND id=$2'' [GText tenantID, GText k]\<close>

section \<open>Planner metrics and the optimizer configuration\<close>

definition sql_save_metrics :: string where
  \<open>sql_save_metrics = ''INSERT INTO plan_metrics (id, tenant_id, plan_date, algo, iterations, improvements, accepted_worse, best_cost, final_cost, removal_selects, insert_selects, init_temp, cooling, init_removal_weights, init_insertion_weights, objectives, final_removal_weights, final_insertion_weights)
        VALUES ($1,$2,$3,$4,COALESCE($5,0),COALESCE($6,0),COALESCE($7,0),$8,$9,$10,$11,$12,$13,$14,$15,$16,$17,$18)
        ON CONFLICT (tenant_id, plan_date, algo) DO UPDATE SET
          iterations=COALESCE($5,0), improvements=COALESCE($6,0), accepted_worse=COALESCE($7,0), best_cost=$8, final_cost=$9, removal_selects=$10, insert_selects=$11, init_temp=$12, cooling=$13, init_removal_weights=$14, init_insertion_weights=$15, objectives=$16, final_removal_weights=$17, final_insertion_weights=$18, created_at=now()''\<close>

definition field :: "obj \<Rightarrow> string \<Rightarrow> sql_arg" where
  "field m k = GAny (case m k of None \<Rightarrow> ANil | Some v \<Rightarrow> v)"

definition pg_SavePlanMetrics :: "'d pg_env \<Rightarrow> string \<Rightarrow> string \<Rightarrow> string \<Rightarrow> obj \<Rightarrow> ('d, unit) pg_call" where
  "pg_SavePlanMetrics E tenantID planDate algo metrics = do {
     k \<leftarrow> new_uuid E;
     exec E Pool sql_save_metrics
       ([GText k, GText tenantID, GText planDate, GText algo] @
        map (field metrics) [''iterations'', ''improvements'', ''acceptedWorse'', ''bestCost'', ''finalCost'', ''removalSelects'', ''insertSelects'',
          ''initTemp'', ''cooling'', ''initRemovalWeights'', ''initInsertionWeights'', ''objectives'', ''finalRemovalWeights'', ''finalInsertionWeights'']) }"

definition plan_metrics_query :: "string \<Rightarrow> string \<Rightarrow> string \<Rightarrow> string \<times> sql_arg list" where
  \<open>plan_metrics_query tenantID planDate algo =
     (let base = ''SELECT algo, iterations, improvements, accepted_worse, best_cost, final_cost, removal_selects, insert_selects, init_temp, cooling, init_removal_weights, init_insertion_weights, objectives, final_removal_weights, final_insertion_weights FROM plan_metrics WHERE tenant_id=$1 AND plan_date=$2'';
          args = [GText tenantID, GText planDate]
      in if algo \<noteq> '''' then (base @ '' AND algo=$3'', args @ [GText algo]) else (base, args))\<close>

definition plan_metrics_row :: "sql_lib \<Rightarrow> sql_value list \<Rightarrow> obj" where
  "plan_metrics_row L vs =
     [''algo'' \<mapsto> AStr (text_of (vs ! 0)), ''iterations'' \<mapsto> AInt (num_of (vs ! 1)), ''improvements'' \<mapsto> AInt (num_of (vs ! 2)),
      ''acceptedWorse'' \<mapsto> AInt (num_of (vs ! 3)), ''bestCost'' \<mapsto> AFloat (float_of (vs ! 4)), ''finalCost'' \<mapsto> AFloat (float_of (vs ! 5)),
      ''removalSelects'' \<mapsto> any_of L (vs ! 6), ''insertSelects'' \<mapsto> any_of L (vs ! 7), ''initTemp'' \<mapsto> AFloat (float_of (vs ! 8)),
      ''cooling'' \<mapsto> AFloat (float_of (vs ! 9)), ''initRemovalWeights'' \<mapsto> any_of L (vs ! 10), ''initInsertionWeights'' \<mapsto> any_of L (vs ! 11),
      ''objectives'' \<mapsto> any_of L (vs ! 12), ''finalRemovalWeights'' \<mapsto> any_of L (vs ! 13), ''finalInsertionWeights'' \<mapsto> any_of L (vs ! 14)]"

definition pg_ListPlanMetrics :: "'d pg_env \<Rightarrow> string \<Rightarrow> string \<Rightarrow> string \<Rightarrow> ('d, obj list) pg_call" where
  "pg_ListPlanMetrics E tenantID planDate algo =
     (let (sql, args) = plan_metrics_query tenantID planDate algo
      in attempt (select E Pool sql args [TText, TInt, TInt, TInt, TNullFloat, TNullFloat, TAny, TAny, TNullFloat, TNullFloat, TAny, TAny, TAny, TAny, TAny])
           (\<lambda>rows. ret (map (plan_metrics_row (pe_sql E)) rows)))"

definition sql_insert_weights :: string where
  \<open>sql_insert_weights = ''INSERT INTO plan_metrics_weights (id, tenant_id, plan_date, algo, iteration, removal_weights, insertion_weights)
            VALUES ($1,$2,$3,$4,$5,$6,$7)''\<close>

definition insert_weights :: "'d pg_env \<Rightarrow> string \<Rightarrow> string \<Rightarrow> string \<Rightarrow> obj \<Rightarrow> unit \<Rightarrow> ('d, unit) pg_call" where
  "insert_weights E tenantID planDate algo snap _ = do {
     k \<leftarrow> new_uuid E;
     exec E InTx sql_insert_weights
       ([GText k, GText tenantID, GText planDate, GText algo] @ map (field snap) [''iteration'', ''removal'', ''insertion'']) }"

definition pg_SavePlanMetricsWeights :: "'d pg_env \<Rightarrow> string \<Rightarrow> string \<Rightarrow> string \<Rightarrow> obj list \<Rightarrow> ('d, unit) pg_call" where
  "pg_SavePlanMetricsWeights E tenantID planDate algo snaps =
     transaction E (for_each (insert_weights E tenantID planDate algo) snaps ())"

definition pg_ListPlanMetricsWeights :: "'d pg_env \<Rightarrow> string \<Rightarrow> string \<Rightarrow> string \<Rightarrow> ('d, obj list) pg_call" where
  \<open>pg_ListPlanMetricsWeights E tenantID planDate algo =
     attempt (select E Pool ''SELECT iteration, removal_weights, insertion_weights FROM plan_metrics_weights WHERE tenant_id=$1 AND plan_date=$2 AND algo=$3 ORDER BY iteration''
         [GText tenantID, GText planDate, GText algo] [TInt, TAny, TAny])
       (\<lambda>rows. ret (map (\<lambda>vs. [''iteration'' \<mapsto> AInt (num_of (vs ! 0)), ''removal'' \<mapsto> any_of (pe_sql E) (vs ! 1), ''insertion'' \<mapsto> any_of (pe_sql E) (vs ! 2)]) rows))\<close>

definition pg_GetOptimizerConfig :: "'d pg_env \<Rightarrow> string \<Rightarrow> ('d, obj option) pg_call" where
  \<open>pg_GetOptimizerConfig E tenantID = do {
     (vs, err) \<leftarrow> query_row E Pool ''SELECT config FROM optimizer_config WHERE tenant_id=$1'' [GText tenantID] [TBytes];
     State_Monad.return (case err of
         Some e \<Rightarrow> if e = NoRows then Inr None else Inl e
       | None \<Rightarrow> (case sl_parse_map (pe_sql E) (text_of (vs ! 0)) of None \<Rightarrow> Inl JsonErr | Some cfg \<Rightarrow> Inr cfg)) }\<close>

definition pg_SaveOptimizerConfig :: "'d pg_env \<Rightarrow> string \<Rightarrow> obj option \<Rightarrow> ('d, unit) pg_call" where
  \<open>pg_SaveOptimizerConfig E tenantID cfg =
     exec E Pool ''INSERT INTO optimizer_config (tenant_id, config, updated_at) VALUES ($1, $2, now())
        ON CONFLICT (tenant_id) DO UPDATE SET config=$2, updated_at=now()'' [GText tenantID, GMap cfg]\<close>

section \<open>Migrations\<close>

text \<open>
  The directory: \<^verbatim>\<open>filepath.WalkDir\<close> gives the paths with their names and whether they are
  directories, or the error of the walk; \<^verbatim>\<open>os.ReadFile\<close> reads one file.
\<close>

record dir_entry =
  en_path :: string
  en_name :: string
  en_dir :: bool

record file_system =
  fs_walk :: "string \<Rightarrow> string + dir_entry list"
  fs_read :: "string \<Rightarrow> string + string"

definition migration_files :: "golib \<Rightarrow> dir_entry list \<Rightarrow> string list" where
  "migration_files L es = sort (map en_path (filter (\<lambda>e. \<not> en_dir e \<and> has_suffix ''.sql'' (lib_lower L (en_name e))) es))"

definition base_name :: "string \<Rightarrow> string" where
  "base_name f = last (split_on CHR ''/'' f)"

definition apply_migration :: "'d pg_env \<Rightarrow> file_system \<Rightarrow> string \<Rightarrow> unit \<Rightarrow> ('d, unit) pg_call" where
  "apply_migration E F f _ =
     (case fs_read F f of
        Inl e \<Rightarrow> fail (FileErr e)
      | Inr b \<Rightarrow>
          if trim_space b = '''' then ret ()
          else do {
            r \<leftarrow> exec E Pool b [];
            State_Monad.return (case r of Inl (DriverErr e) \<Rightarrow> Inl (MigrateErr (base_name f) e) | _ \<Rightarrow> r) })"

definition MigrateDir :: "'d pg_env \<Rightarrow> file_system \<Rightarrow> string \<Rightarrow> ('d, unit) pg_call" where
  "MigrateDir E F dir =
     (case fs_walk F dir of
        Inl e \<Rightarrow> fail (FileErr e)
      | Inr es \<Rightarrow> for_each (apply_migration E F) (migration_files (pe_lib E) es) ())"

end
