(* ===== verification/Pg_Planner.thy ===== *)
theory Pg_Planner
  imports Pg_Legs Pg_Settings Opt_Solve
begin

text \<open>
  \<^verbatim>\<open>PlanRoutes\<close> of the Postgres store: the stops and depots are read, then either the optimizer or the
  greedy planner makes the routes and writes them, each with its legs. \<^verbatim>\<open>opt.Solve\<close> is the parameter
  \<open>solver\<close>; \<open>pg_PlanRoutes\<close> gives it the model of \<^verbatim>\<open>opt.Solve\<close>. The outer option is \<open>None\<close> when the
  solver does not return.
\<close>

section \<open>Reading and writing\<close>

definition sql_plan_stops :: string where
  \<open>sql_plan_stops = ''SELECT id::text, lat, lng, service_time_sec, lower(time_window) AS tw_start, upper(time_window) AS tw_end FROM stops WHERE tenant_id=$1 AND status='pending' AND lat IS NOT NULL AND lng IS NOT NULL ORDER BY id LIMIT 500''\<close>

definition plan_stop_row :: "sql_value list \<Rightarrow> plan_stop" where
  "plan_stop_row vs =
     \<lparr>sp_ID = text_of (vs ! 0), sp_Lat = float_of (vs ! 1), sp_Lng = float_of (vs ! 2), sp_Svc = num_of (vs ! 3),
      sp_Start = time_of (vs ! 4), sp_End = time_of (vs ! 5)\<rparr>"

definition read_stops :: "'d pg_env \<Rightarrow> string \<Rightarrow> ('d, plan_stop list) pg_call" where
  "read_stops E tenantID =
     attempt (select E Pool sql_plan_stops [GText tenantID] [TText, TFloat, TFloat, TInt, TNullTime, TNullTime])
       (\<lambda>rows. ret (map plan_stop_row rows))"

definition sql_depots :: string where
  \<open>sql_depots = ''SELECT id::text, lat, lng FROM geofences WHERE tenant_id=$1 AND type='hub' AND lat IS NOT NULL AND lng IS NOT NULL''\<close>

definition read_depots :: "'d pg_env \<Rightarrow> string \<Rightarrow> ('d, depot list) pg_call" where
  "read_depots E tenantID =
     attempt (select E Pool sql_depots [GText tenantID] [TText, TFloat, TFloat])
       (\<lambda>rows. ret (map (\<lambda>vs. \<lparr>dp_ID = text_of (vs ! 0), dp_Lat = float_of (vs ! 1), dp_Lng = float_of (vs ! 2)\<rparr>) rows))"

definition sql_insert_route :: string where
  \<open>sql_insert_route = ''INSERT INTO routes (id, tenant_id, version, plan_date, status) VALUES ($1,$2,$3,$4,$5)''\<close>

definition create_route :: "'d pg_env \<Rightarrow> optimize_request \<Rightarrow> ('d, string) pg_call" where
  "create_route E req = do {
     rid \<leftarrow> new_uuid E;
     attempt (exec E Pool sql_insert_route [GText rid, GText (or_TenantID req), GInt 1, GText (or_PlanDate req), GText ''planned''])
       (\<lambda>_. ret rid) }"

text \<open>A route made is read back; if that fails, what was read of it is appended all the same.\<close>

definition append_route :: "'d pg_env \<Rightarrow> optimize_request \<Rightarrow> string \<Rightarrow> route list \<Rightarrow> ('d, route list) pg_call" where
  "append_route E req rid results = do {
     (r, _) \<leftarrow> read_route E (or_TenantID req) rid;
     ret (results @ [r]) }"

definition named_plan :: "'d pg_env \<Rightarrow> route list \<Rightarrow> ('d, route list \<times> string) pg_call" where
  "named_plan E results = do { now \<leftarrow> go_now E; ret (results, ''opt_'' @ int_text (unix_nano now)) }"

text \<open>Fewer than two stops: one route without legs.\<close>

definition empty_plan :: "'d pg_env \<Rightarrow> optimize_request \<Rightarrow> ('d, route list \<times> string) pg_call" where
  "empty_plan E req =
     attempt (create_route E req) (\<lambda>rid. attempt (pg_GetRoute E (or_TenantID req) rid) (\<lambda>r. named_plan E [r]))"

text \<open>A number of the constraints: JSON numbers are floats.\<close>

definition constraint_int :: "obj option \<Rightarrow> string \<Rightarrow> int \<Rightarrow> int" where
  "constraint_int cs key dflt =
     (case cs of None \<Rightarrow> dflt
      | Some m \<Rightarrow> (case m key of Some (AFloat x) \<Rightarrow> f_to_int x | Some (AInt x) \<Rightarrow> x | _ \<Rightarrow> dflt))"

section \<open>The greedy planner\<close>

definition greedy_route :: "'d pg_env \<Rightarrow> optimize_request \<Rightarrow> int \<Rightarrow> int \<Rightarrow> depot list \<Rightarrow> plan_stop list \<Rightarrow> nat \<times> nat list \<Rightarrow> route list
    \<Rightarrow> ('d, route list) pg_call" where
  "greedy_route E req hosMax breakSec depots stops = (\<lambda>(seed, idxs) results.
     if length idxs < 2 then attempt (create_route E req) (\<lambda>rid. append_route E req rid results)
     else
       let order = cluster_order (pe_math E) stops idxs seed
       in attempt (create_route E req) (\<lambda>rid.
            attempt (greedy_legs E (or_TenantID req) rid hosMax breakSec depots stops order)
              (\<lambda>_. append_route E req rid results)))"

definition greedy_plan :: "'d pg_env \<Rightarrow> optimize_request \<Rightarrow> depot list \<Rightarrow> plan_stop list \<Rightarrow> nat list \<Rightarrow> nat list list \<Rightarrow> ('d, route list \<times> string) pg_call" where
  "greedy_plan E req depots stops seeds clusters =
     (let hosMax = constraint_int (or_Constraints req) ''hosMaxDriveSec'' 0; breakSec = constraint_int (or_Constraints req) ''breakSec'' 1800
      in attempt (for_each (greedy_route E req hosMax breakSec depots stops) (zip seeds clusters) []) (named_plan E))"

section \<open>The planner with the optimizer\<close>

definition default_objectives :: "string \<rightharpoonup> f64" where
  "default_objectives = [''driveTime'' \<mapsto> lit 1, ''lateness'' \<mapsto> lit 4, ''failed'' \<mapsto> lit 50, ''distance'' \<mapsto> lit (1 / 10)]"

definition objectives_of :: "optimize_request \<Rightarrow> string \<rightharpoonup> f64" where
  "objectives_of req = (case or_Objectives req of None \<Rightarrow> default_objectives | Some objs \<Rightarrow> default_objectives ++ objs)"

definition skills_of :: "sql_value \<Rightarrow> string list" where
  "skills_of v = (if text_of v \<noteq> '''' then split_on CHR '','' (text_of v) else [])"

definition sql_vehicle :: string where
  \<open>sql_vehicle = ''SELECT (capacity->>'weight')::double precision, (capacity->>'volume')::double precision, array_to_string(skills, ',') FROM vehicles WHERE tenant_id=$1 AND id=$2''\<close>

definition sql_stop_skills :: string where
  \<open>sql_stop_skills = ''SELECT array_to_string(required_skills, ',') FROM stops WHERE tenant_id=$1 AND id=$2''\<close>

definition pool_vehicle :: "'d pg_env \<Rightarrow> string \<Rightarrow> string \<Rightarrow> ('d, Vehicle) pg_op" where
  "pool_vehicle E tenantID vid = do {
     (vs, _) \<leftarrow> query_row E Pool sql_vehicle [GText tenantID, GText vid] [TNullFloat, TNullFloat, TNullText];
     State_Monad.return \<lparr>v_ID = vid, v_CapWeight = float_of (vs ! 0), v_CapVolume = float_of (vs ! 1), v_Skills = skills_of (vs ! 2),
       v_Start = None, v_End = None\<rparr> }"

definition plain_vehicle :: "'d pg_env \<Rightarrow> ('d, Vehicle) pg_op" where
  "plain_vehicle E = do {
     k \<leftarrow> new_uuid E;
     State_Monad.return \<lparr>v_ID = k, v_CapWeight = 0, v_CapVolume = 0, v_Skills = [], v_Start = None, v_End = None\<rparr> }"

definition read_vehicles :: "'d pg_env \<Rightarrow> optimize_request \<Rightarrow> nat \<Rightarrow> depot list \<Rightarrow> ('d, Vehicle list) pg_op" where
  "read_vehicles E req n depots = do {
     vehicles \<leftarrow> (if or_VehiclePool req \<noteq> [] then State_Monad.traverse_list (pool_vehicle E (or_TenantID req)) (or_VehiclePool req)
                  else State_Monad.traverse_list (\<lambda>_. plain_vehicle E) [0..<route_count [] n]);
     State_Monad.return (case depots of [] \<Rightarrow> vehicles
       | d # _ \<Rightarrow> map (\<lambda>v. v\<lparr>v_Start := Some (dp_Lat d, dp_Lng d), v_End := Some (dp_Lat d, dp_Lng d)\<rparr>) vehicles) }"

definition stop_tw :: "plan_stop \<Rightarrow> TW option" where
  "stop_tw s =
     (if sp_Start s \<noteq> None \<or> sp_End s \<noteq> None
      then Some \<lparr>tw_start = (case sp_Start s of None \<Rightarrow> 0 | Some t \<Rightarrow> unix_epoch + time_sub t unix_epoch),
                 tw_end = (case sp_End s of None \<Rightarrow> 0 | Some t \<Rightarrow> unix_epoch + time_sub t unix_epoch)\<rparr>
      else None)"

definition stop_node :: "'d pg_env \<Rightarrow> string \<Rightarrow> plan_stop \<Rightarrow> ('d, Node) pg_op" where
  "stop_node E tenantID s = do {
     (vs, _) \<leftarrow> query_row E Pool sql_stop_skills [GText tenantID, GText (sp_ID s)] [TNullText];
     State_Monad.return \<lparr>n_ID = sp_ID s, n_Lat = sp_Lat s, n_Lng = sp_Lng s, n_ServiceSec = sp_Svc s, n_TW = stop_tw s, n_Weight = 0, n_Volume = 0,
       n_Skills = skills_of (vs ! 0)\<rparr> }"

definition plan_problem :: "optimize_request \<Rightarrow> int \<Rightarrow> int \<Rightarrow> Vehicle list \<Rightarrow> Node list \<Rightarrow> Problem" where
  "plan_problem req hosMax breakSec vehicles nodes =
     \<lparr>p_Nodes = nodes, p_Vehicles = vehicles, p_SpeedKph = lit 50, p_Objectives = objectives_of req, p_HosMaxDriveSec = hosMax,
      p_BreakSec = breakSec, p_IterationsLimit = (if 0 < or_MaxIterations req then or_MaxIterations req else 0),
      p_InitialTemp = or_InitTemp req, p_Cooling = or_Cooling req, p_InitialRemovalWeights = or_RemovalWeights req,
      p_InitialInsertionWeights = or_InsertionWeights req\<rparr>"

definition time_budget :: "optimize_request \<Rightarrow> duration" where
  "time_budget req = (if 0 < or_TimeBudgetMs req then wrap64 (or_TimeBudgetMs req * 1000000) else 300 * 1000000)"

definition metrics_entry :: "Problem \<Rightarrow> Metrics \<Rightarrow> obj" where
  "metrics_entry p pm =
     [''iterations'' \<mapsto> AInt (mx_Iterations pm), ''improvements'' \<mapsto> AInt (mx_Improvements pm), ''acceptedWorse'' \<mapsto> AInt (mx_AcceptedWorse pm),
      ''bestCost'' \<mapsto> AFloat (mx_BestCost pm), ''finalCost'' \<mapsto> AFloat (mx_FinalCost pm),
      ''removalSelects'' \<mapsto> AInts [mx_RemovalSelects pm ! 0, mx_RemovalSelects pm ! 1], ''insertSelects'' \<mapsto> AInts [mx_InsertSelects pm ! 0, mx_InsertSelects pm ! 1],
      ''initTemp'' \<mapsto> AFloat (p_InitialTemp p), ''cooling'' \<mapsto> AFloat (p_Cooling p),
      ''initRemovalWeights'' \<mapsto> AFloats (p_InitialRemovalWeights p), ''initInsertionWeights'' \<mapsto> AFloats (p_InitialInsertionWeights p),
      ''finalRemovalWeights'' \<mapsto> AFloats [mx_FinalRemovalWeights pm ! 0, mx_FinalRemovalWeights pm ! 1],
      ''finalInsertionWeights'' \<mapsto> AFloats [mx_FinalInsertionWeights pm ! 0, mx_FinalInsertionWeights pm ! 1],
      ''objectives'' \<mapsto> AObj (map_option AFloat \<circ> p_Objectives p)]"

definition snapshot_entry :: "WeightSnapshot \<Rightarrow> obj" where
  "snapshot_entry ws = [''iteration'' \<mapsto> AInt (ws_Iteration ws), ''removal'' \<mapsto> AFloats [ws_Removal ws ! 0, ws_Removal ws ! 1],
     ''insertion'' \<mapsto> AFloats [ws_Insertion ws ! 0, ws_Insertion ws ! 1]]"

text \<open>What is kept of a run of the optimizer: in the database, where failing does not matter, and in the registry.\<close>

definition keep_metrics :: "'d pg_env \<Rightarrow> optimize_request \<Rightarrow> Problem \<Rightarrow> Metrics \<Rightarrow> ('d, unit) pg_op" where
  "keep_metrics E req p pm = do {
     _ \<leftarrow> pg_SavePlanMetrics E (or_TenantID req) (or_PlanDate req) ''alns'' (metrics_entry p pm);
     _ \<leftarrow> record_metrics (or_TenantID req) (or_PlanDate req) ''alns'' pm;
     _ \<leftarrow> (if mx_Snapshots pm \<noteq> []
           then pg_SavePlanMetricsWeights E (or_TenantID req) (or_PlanDate req) ''alns'' (map snapshot_entry (mx_Snapshots pm))
           else ret ());
     State_Monad.return () }"

definition alns_route :: "'d pg_env \<Rightarrow> optimize_request \<Rightarrow> int \<Rightarrow> int \<Rightarrow> depot list \<Rightarrow> plan_stop list \<Rightarrow> RoutePlan \<Rightarrow> route list
    \<Rightarrow> ('d, route list) pg_call" where
  "alns_route E req hosMax breakSec depots stops pl results =
     (if pl_Order pl = [] then ret results
      else attempt (create_route E req) (\<lambda>rid.
             attempt (alns_legs E (or_TenantID req) rid hosMax breakSec depots stops (pl_Order pl))
               (\<lambda>_. append_route E req rid results)))"

type_synonym solver = "Problem \<Rightarrow> int \<Rightarrow> duration \<Rightarrow> (Solution \<times> Metrics) option"

definition alns_plan :: "'d pg_env \<Rightarrow> solver \<Rightarrow> optimize_request \<Rightarrow> depot list \<Rightarrow> plan_stop list \<Rightarrow> ('d, (sql_error + route list \<times> string) option) pg_op" where
  "alns_plan E solver req depots stops = do {
     let hosMax = constraint_int (or_Constraints req) ''hosMaxDriveSec'' 0;
     let breakSec = constraint_int (or_Constraints req) ''breakSec'' 1800;
     vehicles \<leftarrow> read_vehicles E req (length stops) depots;
     nodes \<leftarrow> State_Monad.traverse_list (stop_node E (or_TenantID req)) stops;
     let p = plan_problem req hosMax breakSec vehicles nodes;
     case solver p 0 (time_budget req) of
       None \<Rightarrow> State_Monad.return None
     | Some (sol, pm) \<Rightarrow> do {
         _ \<leftarrow> keep_metrics E req p pm;
         r \<leftarrow> attempt (for_each (alns_route E req hosMax breakSec depots stops) (s_Plans sol) []) (named_plan E);
         State_Monad.return (Some r) } }"

section \<open>PlanRoutes\<close>

definition plan_routes :: "'d pg_env \<Rightarrow> solver \<Rightarrow> optimize_request \<Rightarrow> ('d, (sql_error + route list \<times> string) option) pg_op" where
  "plan_routes E solver req = do {
     r \<leftarrow> read_stops E (or_TenantID req);
     case r of
       Inl e \<Rightarrow> State_Monad.return (Some (Inl e))
     | Inr stops \<Rightarrow>
         let n = length stops in
         if n < 2 then do { r \<leftarrow> empty_plan E req; State_Monad.return (Some r) }
         else
           let dst = stop_dist (pe_math E) stops;
               seeds = pick_seeds dst n (route_count (or_VehiclePool req) n) [0];
               clusters = clusters_of dst n seeds
           in do {
             ds \<leftarrow> read_depots E (or_TenantID req);
             case ds of
               Inl e \<Rightarrow> State_Monad.return (Some (Inl e))
             | Inr depots \<Rightarrow>
                 if lib_lower (pe_lib E) (or_Algorithm req) = ''alns'' then alns_plan E solver req depots stops
                 else do { r \<leftarrow> greedy_plan E req depots stops seeds clusters; State_Monad.return (Some r) } } }"

definition pg_PlanRoutes :: "'d pg_env \<Rightarrow> 'r rng \<Rightarrow> (int \<Rightarrow> 'r) \<Rightarrow> (nat list \<Rightarrow> nat list) \<Rightarrow> (nat \<Rightarrow> time) \<Rightarrow> optimize_request
    \<Rightarrow> ('d, (sql_error + route list \<times> string) option) pg_op" where
  "pg_PlanRoutes E R mk iter clock req = plan_routes E (Solve (pe_math E) R mk iter clock) req"

end
