(* ===== verification/Pg_Advance.thy ===== *)
theory Pg_Advance
  imports Pg_Routes Pg_Webhooks
begin

text \<open>
  \<^verbatim>\<open>AdvanceRoute\<close> of the Postgres store: the current leg, the checks of the route's policy in their
  order, and the transaction that moves the route to its next leg. Failing to read what a check needs
  counts as passing it.
\<close>

section \<open>Answers that change nothing\<close>

definition unchanged :: "'d pg_env \<Rightarrow> string \<Rightarrow> route \<Rightarrow> policy_alert list \<Rightarrow> ('d, advance_response) pg_call" where
  "unchanged E routeID r alerts = do {
     now \<leftarrow> go_now E;
     ret \<lparr>resp_Result = \<lparr>ad_RouteID = routeID, ad_FromLegID = '''', ad_FromStopID = '''', ad_ToLegID = '''', ad_ToStopID = '''',
            ad_TS = lib_format (pe_lib E) now, ad_Changed = False\<rparr>, resp_Route = r, resp_Alerts = alerts\<rparr> }"

definition blocked :: "'d pg_env \<Rightarrow> string \<Rightarrow> route \<Rightarrow> string \<Rightarrow> ('d, advance_response) pg_call" where
  "blocked E routeID r reason = do {
     now \<leftarrow> go_now E;
     unchanged E routeID r [\<lparr>pa_Reason = reason, pa_TS = lib_format (pe_lib E) now\<rparr>] }"

section \<open>The policy\<close>

text \<open>
  What the policy says: go on, do nothing (a disabled policy), an alert, or an alert that is also
  emitted as an event.
\<close>

datatype verdict = Pass | Disabled | Alert string | HosAlert string

definition sql_last_arrive :: string where
  \<open>sql_last_arrive = ''SELECT ts FROM events WHERE tenant_id=$1 AND entity_id=$2 AND type='arrive' AND payload->>'stopId' = $3 ORDER BY ts DESC LIMIT 1''\<close>

definition sql_last_event :: string where
  \<open>sql_last_event = ''SELECT ts FROM events WHERE tenant_id=$1 AND entity_id=$2 AND type=$3 AND payload->>'stopId' = $4 ORDER BY ts DESC LIMIT 1''\<close>

definition sql_last_speed :: string where
  \<open>sql_last_speed = ''SELECT (payload->>'speedKph')::double precision FROM events WHERE tenant_id=$1 AND entity_id=$2 AND type='location' ORDER BY ts DESC LIMIT 1''\<close>

definition sql_driven :: string where
  \<open>sql_driven = ''SELECT COALESCE(SUM(drive_sec),0) FROM route_legs WHERE tenant_id=$1 AND route_id=$2 AND status='visited'' @ quote\<close>

definition sql_route_driver :: string where
  \<open>sql_route_driver = ''SELECT driver_id::text FROM routes WHERE tenant_id=$1 AND id=$2''\<close>

definition sql_driver_hos :: string where
  \<open>sql_driver_hos = ''SELECT hos_state FROM drivers WHERE tenant_id=$1 AND id=$2''\<close>

text \<open>Whether the event a query finds is less than so many seconds ago.\<close>

definition too_recent :: "'d pg_env \<Rightarrow> int \<Rightarrow> string \<Rightarrow> sql_arg list \<Rightarrow> ('d, bool) pg_op" where
  "too_recent E secs sql args = do {
     (vs, err) \<leftarrow> query_row E Pool sql args [TTime];
     case (err, time_of (vs ! 0)) of
       (None, Some ts) \<Rightarrow> do { now \<leftarrow> go_now E; State_Monad.return (time_sub now ts < wrap64 (secs * second)) }
     | _ \<Rightarrow> State_Monad.return False }"

definition policy_reason :: "string \<Rightarrow> string" where
  "policy_reason reason = (let r = (if reason = ''arrive'' then ''geofence_arrive'' else reason) in if r = ''pod'' then ''pod_ack'' else r)"

definition reason_event :: "string \<Rightarrow> string" where
  "reason_event reason = (let e = (if reason = ''pod_ack'' then ''pod'' else reason) in if e = ''geofence_arrive'' then ''arrive'' else e)"

text \<open>The checks of the driver's state, for a route with a driver.\<close>

definition hos_verdict :: "obj \<Rightarrow> verdict" where
  "hos_verdict m = (if m ''break'' = Some (ABool True) then HosAlert ''hos.break.in.progress''
     else if m ''status'' = Some (AStr ''off'') then HosAlert ''hos.shift.off'' else Pass)"

definition check_driver :: "'d pg_env \<Rightarrow> string \<Rightarrow> string \<Rightarrow> ('d, verdict) pg_op" where
  "check_driver E tenantID routeID = do {
     (vs, _) \<leftarrow> query_row E Pool sql_route_driver [GText tenantID, GText routeID] [TNullText];
     if vs ! 0 = VNull then State_Monad.return Pass
     else do {
       (hs, _) \<leftarrow> query_row E Pool sql_driver_hos [GText tenantID, GText (text_of (vs ! 0))] [TBytes];
       State_Monad.return (if text_of (hs ! 0) = '''' then Pass
         else case sl_parse_map (pe_sql E) (text_of (hs ! 0)) of Some (Some m) \<Rightarrow> hos_verdict m | _ \<Rightarrow> Pass) } }"

definition check_driving :: "'d pg_env \<Rightarrow> string \<Rightarrow> string \<Rightarrow> auto_advance_policy \<Rightarrow> ('d, bool) pg_op" where
  "check_driving E tenantID routeID pol =
     (if 0 < aa_HosMaxDriveSec pol then do {
        (vs, _) \<leftarrow> query_row E Pool sql_driven [GText tenantID, GText routeID] [TNullInt];
        State_Monad.return (vs ! 0 \<noteq> VNull \<and> aa_HosMaxDriveSec pol \<le> num_of (vs ! 0)) }
      else State_Monad.return False)"

definition check_moving :: "'d pg_env \<Rightarrow> string \<Rightarrow> string \<Rightarrow> auto_advance_policy \<Rightarrow> ('d, bool) pg_op" where
  "check_moving E tenantID routeID pol =
     (if aa_MovingLock pol then do {
        (vs, _) \<leftarrow> query_row E Pool sql_last_speed [GText tenantID, GText routeID] [TNullFloat];
        State_Monad.return (vs ! 0 \<noteq> VNull \<and> lit 3 < float_of (vs ! 0)) }
      else State_Monad.return False)"

definition check_grace :: "'d pg_env \<Rightarrow> string \<Rightarrow> string \<Rightarrow> auto_advance_policy \<Rightarrow> string \<Rightarrow> string \<Rightarrow> ('d, bool) pg_op" where
  "check_grace E tenantID routeID pol reason stop =
     (if 0 < aa_GracePeriodSec pol \<and> reason \<noteq> ''''
      then too_recent E (aa_GracePeriodSec pol) sql_last_event [GText tenantID, GText routeID, GText (reason_event reason), GText stop]
      else State_Monad.return False)"

definition check_dwell :: "'d pg_env \<Rightarrow> string \<Rightarrow> string \<Rightarrow> auto_advance_policy \<Rightarrow> string \<Rightarrow> ('d, bool) pg_op" where
  "check_dwell E tenantID routeID pol stop =
     (if 0 < aa_MinDwellSec pol
      then too_recent E (aa_MinDwellSec pol) sql_last_arrive [GText tenantID, GText routeID, GText stop]
      else State_Monad.return False)"

definition policy_checks :: "'d pg_env \<Rightarrow> string \<Rightarrow> string \<Rightarrow> auto_advance_policy \<Rightarrow> string \<Rightarrow> string \<Rightarrow> ('d, verdict) pg_op" where
  "policy_checks E tenantID routeID pol reason0 stop =
     (let reason = policy_reason reason0 in
      if \<not> aa_Enabled pol then State_Monad.return Disabled
      else if aa_RequirePoD pol \<and> reason \<noteq> ''pod_ack'' then State_Monad.return (Alert ''require_pod'')
      else if aa_Trigger pol \<noteq> '''' \<and> reason \<noteq> '''' \<and> aa_Trigger pol \<noteq> reason then State_Monad.return (Alert ''trigger_mismatch'')
      else do {
        dwell \<leftarrow> check_dwell E tenantID routeID pol stop;
        if dwell then State_Monad.return (Alert ''min_dwell'')
        else do {
          grace \<leftarrow> check_grace E tenantID routeID pol reason stop;
          if grace then State_Monad.return (Alert ''grace_period'')
          else do {
            moving \<leftarrow> check_moving E tenantID routeID pol;
            if moving then State_Monad.return (Alert ''moving_lock'')
            else do {
              driving \<leftarrow> check_driving E tenantID routeID pol;
              if driving then State_Monad.return (HosAlert ''hos.break.required'')
              else check_driver E tenantID routeID } } } })"

section \<open>Moving on\<close>

definition sql_current_leg :: string where
  \<open>sql_current_leg = ''SELECT id::text, to_stop_id::text, seq FROM route_legs 
        WHERE tenant_id=$1 AND route_id=$2 AND COALESCE(status,'' @ empty_literal @ '') <> 'visited' ORDER BY seq LIMIT 1''\<close>

definition sql_from_stop :: string where
  \<open>sql_from_stop = ''SELECT from_stop_id::text FROM route_legs WHERE tenant_id=$1 AND route_id=$2 AND id=$3''\<close>

definition sql_visit_leg :: string where
  \<open>sql_visit_leg = ''UPDATE route_legs SET status='visited' WHERE tenant_id=$1 AND route_id=$2 AND id=$3''\<close>

definition sql_next_leg :: string where
  \<open>sql_next_leg = ''UPDATE route_legs SET status='in_progress' WHERE tenant_id=$1 AND route_id=$2 AND seq = (SELECT seq+1 FROM route_legs WHERE tenant_id=$1 AND route_id=$2 AND id=$3)''\<close>

definition advance_leg :: "'d pg_env \<Rightarrow> string \<Rightarrow> string \<Rightarrow> string \<Rightarrow> ('d, unit) pg_call" where
  "advance_leg E tenantID routeID legID = do {
     (vs, err) \<leftarrow> query_row E InTx sql_from_stop [GText tenantID, GText routeID, GText legID] [TNullText];
     if err \<noteq> None \<and> err \<noteq> Some NoRows then fail (the err)
     else attempt (exec E InTx sql_visit_leg [GText tenantID, GText routeID, GText legID])
            (\<lambda>_. exec E InTx sql_next_leg [GText tenantID, GText routeID, GText legID]) }"

text \<open>The leg after the current one in the route as it is now.\<close>

definition leg_after :: "leg list \<Rightarrow> string \<Rightarrow> leg option" where
  "leg_after legs legID =
     (case find_index (\<lambda>l. leg_ID l = legID) legs of
        None \<Rightarrow> None | Some i \<Rightarrow> if i + 1 < length legs then Some (legs ! (i + 1)) else None)"

definition moved_to :: "'d pg_env \<Rightarrow> string \<Rightarrow> string \<Rightarrow> string \<Rightarrow> route \<Rightarrow> ('d, advance_response) pg_call" where
  "moved_to E routeID legID toStopID r = do {
     now \<leftarrow> go_now E;
     let res = \<lparr>ad_RouteID = routeID, ad_FromLegID = legID, ad_FromStopID = toStopID, ad_ToLegID = '''', ad_ToStopID = '''',
                ad_TS = lib_format (pe_lib E) now, ad_Changed = True\<rparr>;
     let res = (case leg_after (rt_Legs r) legID of None \<Rightarrow> res
                | Some l \<Rightarrow> res\<lparr>ad_ToLegID := leg_ID l, ad_ToStopID := leg_ToStopID l\<rparr>);
     ret \<lparr>resp_Result = res, resp_Route = r, resp_Alerts = []\<rparr> }"

definition move_on :: "'d pg_env \<Rightarrow> string \<Rightarrow> string \<Rightarrow> string \<Rightarrow> string \<Rightarrow> ('d, advance_response) pg_call" where
  "move_on E tenantID routeID legID toStopID =
     attempt (transaction E (advance_leg E tenantID routeID legID))
       (\<lambda>_. attempt (pg_GetRoute E tenantID routeID) (\<lambda>r. moved_to E routeID legID toStopID r))"

definition judged :: "'d pg_env \<Rightarrow> string \<Rightarrow> string \<Rightarrow> string \<Rightarrow> string \<Rightarrow> route \<Rightarrow> verdict \<Rightarrow> ('d, advance_response) pg_call" where
  "judged E tenantID routeID legID toStopID r v =
     (case v of
        Disabled \<Rightarrow> unchanged E routeID r []
      | Alert reason \<Rightarrow> blocked E routeID r reason
      | HosAlert reason \<Rightarrow> do {
          now \<leftarrow> go_now E;
          _ \<leftarrow> emitEvent E tenantID ''policy.alert'' [''routeId'' \<mapsto> AStr routeID, ''reason'' \<mapsto> AStr reason, ''ts'' \<mapsto> AStr (lib_format (pe_lib E) now)];
          blocked E routeID r reason }
      | Pass \<Rightarrow> move_on E tenantID routeID legID toStopID)"

definition pg_AdvanceRoute :: "'d pg_env \<Rightarrow> string \<Rightarrow> string \<Rightarrow> advance_request \<Rightarrow> ('d, advance_response) pg_call" where
  "pg_AdvanceRoute E tenantID routeID req =
     attempt (pg_GetRoute E tenantID routeID) (\<lambda>rcur. do {
       (cur, err) \<leftarrow> query_row E Pool sql_current_leg [GText tenantID, GText routeID] [TNullText, TNullText, TNullInt32];
       if err = Some NoRows then unchanged E routeID rcur []
       else if err \<noteq> None then fail (the err)
       else do {
         v \<leftarrow> (case rt_AutoAdvance rcur of
                 Some pol \<Rightarrow> if av_Force req then State_Monad.return Pass
                   else policy_checks E tenantID routeID pol (av_Reason req) (text_of (cur ! 1))
               | None \<Rightarrow> State_Monad.return Pass);
         judged E tenantID routeID (text_of (cur ! 0)) (text_of (cur ! 1)) rcur v } })"

end
