(* ===== verification/Store_Postgres.thy ===== *)
theory Store_Postgres
  imports Pg_Planner Pg_Advance Api_System
begin

text \<open>
  The Postgres store behind the interface: \<open>postgres_store\<close> fills the record of methods with the operations
  of the \<open>Pg_*\<close> theories. What a server relies on holds of it with \<open>idle\<close>: between two calls no
  transaction is open, whatever the database answers.
\<close>

section \<open>The methods\<close>

text \<open>\<open>txt\<close> is the text of an error (\<^verbatim>\<open>err.Error()\<close>); only \<^verbatim>\<open>ErrNotFound\<close> is told apart by the callers.\<close>

definition go_error_of :: "(sql_error \<Rightarrow> string) \<Rightarrow> sql_error \<Rightarrow> go_error" where
  "go_error_of txt' e = (if e = NotFound then ErrNotFound else ErrText (txt' e))"

definition result_outcome :: "(sql_error \<Rightarrow> string) \<Rightarrow> sql_error + 'a \<Rightarrow> 'a outcome" where
  "result_outcome txt' r = (case r of Inl e \<Rightarrow> Err (go_error_of txt' e) | Inr x \<Rightarrow> Ret x)"

definition pg_method :: "('r \<Rightarrow> 'a outcome) \<Rightarrow> ('d, 'r) pg_op \<Rightarrow> ('d pg, 'a) call" where
  "pg_method out m s = (case run_state m s of (r, s') \<Rightarrow> (s', out r))"

definition hos_outcome :: "(sql_error \<Rightarrow> string) \<Rightarrow> go_panic + sql_error + 'a \<Rightarrow> 'a outcome" where
  "hos_outcome txt' r = (case r of Inl p \<Rightarrow> Panic p | Inr r \<Rightarrow> result_outcome txt' r)"

definition plan_outcome :: "(sql_error \<Rightarrow> string) \<Rightarrow> (sql_error + 'a) option \<Rightarrow> 'a outcome" where
  "plan_outcome txt' r = (case r of None \<Rightarrow> Panic Diverges | Some r \<Rightarrow> result_outcome txt' r)"

text \<open>\<open>solve n\<close> is \<^verbatim>\<open>opt.Solve\<close> as it runs when the clock has been read \<open>n\<close> times.\<close>

definition postgres_store :: "(sql_error \<Rightarrow> string) \<Rightarrow> 'd pg_env \<Rightarrow> (nat \<Rightarrow> solver) \<Rightarrow> 'd pg store" where
  "postgres_store txt' E solve =
     \<lparr>st_CreateOrders = (\<lambda>t ords. pg_method (result_outcome txt') (pg_CreateOrders E t ords)),
      st_ListOrders = (\<lambda>t status cursor limit. pg_method (result_outcome txt') (pg_ListOrders E t status cursor limit)),
      st_GetRoute = (\<lambda>t k. pg_method (result_outcome txt') (pg_GetRoute E t k)),
      st_ListRoutes = (\<lambda>t cursor limit. pg_method (result_outcome txt') (pg_ListRoutes E t cursor limit)),
      st_AssignRoute = (\<lambda>t k d v startAt. pg_method (result_outcome txt') (pg_AssignRoute E t k d v startAt)),
      st_PatchRoute = (\<lambda>t k p. pg_method (result_outcome txt') (pg_PatchRoute E t k p)),
      st_PlanRoutes = (\<lambda>req s. pg_method (plan_outcome txt') (plan_routes E (solve (pg_ticks s)) req) s),
      st_InsertDriverEvents = (\<lambda>t evs. pg_method (result_outcome txt') (pg_InsertDriverEvents E t evs)),
      st_CreatePoD = (\<lambda>req. pg_method (result_outcome txt') (pg_CreatePoD E req)),
      st_CreateSubscription = (\<lambda>req. pg_method (result_outcome txt') (pg_CreateSubscription E req)),
      st_GetSubscriptionsForEvent = (\<lambda>t ev. pg_method (result_outcome txt') (pg_GetSubscriptionsForEvent E t ev)),
      st_ListSubscriptions = (\<lambda>t cursor limit. pg_method (result_outcome txt') (pg_ListSubscriptions E t cursor limit)),
      st_DeleteSubscription = (\<lambda>t k. pg_method (result_outcome txt') (pg_DeleteSubscription E t k)),
      st_AdvanceRoute = (\<lambda>t k req. pg_method (result_outcome txt') (pg_AdvanceRoute E t k req)),
      st_UpdateHOS = (\<lambda>t d upd. pg_method (hos_outcome txt') (pg_UpdateHOS E t d upd)),
      st_CreateGeofence = (\<lambda>t inp. pg_method (result_outcome txt') (pg_CreateGeofence E t inp)),
      st_ListGeofences = (\<lambda>t cursor limit. pg_method (result_outcome txt') (pg_ListGeofences E t cursor limit)),
      st_GetGeofence = (\<lambda>t k. pg_method (result_outcome txt') (pg_GetGeofence E t k)),
      st_PatchGeofence = (\<lambda>t k inp. pg_method (result_outcome txt') (pg_PatchGeofence E t k inp)),
      st_DeleteGeofence = (\<lambda>t k. pg_method (result_outcome txt') (pg_DeleteGeofence E t k)),
      st_EnqueueWebhook = (\<lambda>t sid ev url sec pl. pg_method (result_outcome txt') (pg_EnqueueWebhook E t sid ev url sec pl)),
      st_FetchDueWebhookDeliveries = (\<lambda>limit. pg_method (result_outcome txt') (pg_FetchDueWebhookDeliveries E limit)),
      st_MarkWebhookDelivery = (\<lambda>k ok nxt err code lat. pg_method (result_outcome txt') (pg_MarkWebhookDelivery E k ok nxt err code lat)),
      st_FailWebhookDelivery = (\<lambda>k err code lat. pg_method (result_outcome txt') (pg_FailWebhookDelivery E k err code lat)),
      st_ListWebhookDeliveries = (\<lambda>t status cursor limit. pg_method (result_outcome txt') (pg_ListWebhookDeliveries E t status cursor limit)),
      st_RetryWebhookDelivery = (\<lambda>t k. pg_method (result_outcome txt') (pg_RetryWebhookDelivery E t k)),
      st_RouteStats = (\<lambda>t planDate. pg_method (result_outcome txt') (pg_RouteStats E t planDate)),
      st_WebhookMetrics = (\<lambda>q buckets. pg_method (result_outcome txt') (pg_WebhookMetrics E q buckets)),
      st_SavePlanMetrics = (\<lambda>t planDate algo mx. pg_method (result_outcome txt') (pg_SavePlanMetrics E t planDate algo mx)),
      st_ListPlanMetrics = (\<lambda>t planDate algo. pg_method (result_outcome txt') (pg_ListPlanMetrics E t planDate algo)),
      st_SavePlanMetricsWeights = (\<lambda>t planDate algo snaps. pg_method (result_outcome txt') (pg_SavePlanMetricsWeights E t planDate algo snaps)),
      st_ListPlanMetricsWeights = (\<lambda>t planDate algo. pg_method (result_outcome txt') (pg_ListPlanMetricsWeights E t planDate algo)),
      st_GetOptimizerConfig = (\<lambda>t. pg_method (result_outcome txt') (pg_GetOptimizerConfig E t)),
      st_SaveOptimizerConfig = (\<lambda>t cfg. pg_method (result_outcome txt') (pg_SaveOptimizerConfig E t (Some cfg))),
      st_FindRoutesByStop = (\<lambda>t stop. pg_method (result_outcome txt') (pg_FindRoutesByStop E t stop)),
      st_ListActiveRoutesForDriver = (\<lambda>t d. pg_method (result_outcome txt') (pg_ListActiveRoutesForDriver E t d)),
      st_ListWebhookDLQ = (\<lambda>t dq cursor limit. pg_method (result_outcome txt') (pg_ListWebhookDLQ E t dq cursor limit)),
      st_RequeueWebhookDLQ = (\<lambda>t k. pg_method (result_outcome txt') (pg_RequeueWebhookDLQ E t k)),
      st_RequeueWebhookDLQBulk = (\<lambda>t ids. pg_method (result_outcome txt') (pg_RequeueWebhookDLQBulk E t ids)),
      st_DeleteWebhookDLQBulk = (\<lambda>t ids older. pg_method (result_outcome txt') (pg_DeleteWebhookDLQBulk E t ids older))\<rparr>"

section \<open>No transaction stays open\<close>

definition idle :: "'d pg \<Rightarrow> bool" where
  "idle s \<longleftrightarrow> \<not> pg_tx s"

lemma idle_steps:
  "preserves idle (go_now E)" "preserves idle (new_uuid E)" "preserves idle (run_query E c sql args)"
  "preserves idle (exec E c sql args)" "preserves idle (record_metrics t d a mx)"
  by (auto simp: preserves_def idle_def go_now_def new_uuid_def run_query_def exec_def record_metrics_def split: prod.split sum.split option.split)

text \<open>Whatever is done inside, a transaction is closed in the end.\<close>

lemma idle_transaction: "preserves idle (transaction E work)"
  by (auto simp: preserves_def idle_def transaction_def in_tx_def run_attempt run_rollback begin_tx_def split: prod.splits sum.splits option.splits)

lemmas idle_intros = keeps_intros idle_steps idle_transaction

lemma preserves_traverse: "(\<And>x. preserves P (f x)) \<Longrightarrow> preserves P (State_Monad.traverse_list f xs)"
  by (induction xs) (auto intro!: keeps_intros)


lemma idle_orders:
  "preserves idle (pg_CreateOrders E t ords)"
  "preserves idle (pg_ListOrders E t status cursor limit)"
  "preserves idle (pg_InsertDriverEvents E t evs)"
  "preserves idle (pg_CreatePoD E req)"
  unfolding pg_CreateOrders_def pg_ListOrders_def pg_InsertDriverEvents_def pg_CreatePoD_def
  by (intro idle_intros)+

lemma idle_GetRoute: "preserves idle (pg_GetRoute E t k)"
  unfolding pg_GetRoute_def read_route_def by (intro idle_intros)

lemma idle_routes:
  "preserves idle (pg_ListRoutes E t cursor limit)"
  "preserves idle (pg_AssignRoute E t k d v startAt)"
  "preserves idle (pg_PatchRoute E t k p)"
  "preserves idle (pg_RouteStats E t planDate)"
  "preserves idle (pg_FindRoutesByStop E t stop)"
  "preserves idle (pg_ListActiveRoutesForDriver E t d)"
  unfolding pg_ListRoutes_def pg_AssignRoute_def pg_PatchRoute_def pg_RouteStats_def pg_FindRoutesByStop_def pg_ListActiveRoutesForDriver_def
  by (intro idle_intros idle_GetRoute)+

lemma idle_subscriptions:
  "preserves idle (pg_CreateSubscription E req)"
  "preserves idle (pg_GetSubscriptionsForEvent E t ev)"
  "preserves idle (pg_ListSubscriptions E t cursor limit)"
  "preserves idle (pg_DeleteSubscription E t k)"
  unfolding pg_CreateSubscription_def pg_GetSubscriptionsForEvent_def pg_ListSubscriptions_def pg_DeleteSubscription_def
  by (intro idle_intros)+

lemma idle_queue:
  "preserves idle (pg_EnqueueWebhook E t sid ev url sec pl)"
  "preserves idle (pg_ListWebhookDeliveries E t status cursor limit)"
  "preserves idle (pg_RetryWebhookDelivery E t k)"
  "preserves idle (pg_WebhookMetrics E q buckets)"
  unfolding pg_EnqueueWebhook_def pg_ListWebhookDeliveries_def pg_RetryWebhookDelivery_def pg_WebhookMetrics_def
  by (intro idle_intros)+

lemma idle_dead_letters:
  "preserves idle (pg_ListWebhookDLQ E t dq cursor limit)"
  "preserves idle (pg_RequeueWebhookDLQ E t k)"
  "preserves idle (pg_RequeueWebhookDLQBulk E t ids)"
  "preserves idle (pg_DeleteWebhookDLQBulk E t ids older)"
  unfolding pg_ListWebhookDLQ_def pg_RequeueWebhookDLQ_def pg_RequeueWebhookDLQBulk_def pg_DeleteWebhookDLQBulk_def requeue_entry_def
  by (intro idle_intros idle_queue(1))+

lemma idle_metrics:
  "preserves idle (pg_SavePlanMetrics E t planDate algo mx)"
  "preserves idle (pg_ListPlanMetrics E t planDate algo)"
  "preserves idle (pg_SavePlanMetricsWeights E t planDate algo snaps)"
  "preserves idle (pg_ListPlanMetricsWeights E t planDate algo)"
  "preserves idle (pg_GetOptimizerConfig E t)"
  "preserves idle (pg_SaveOptimizerConfig E t cfg)"
  unfolding pg_SavePlanMetrics_def pg_ListPlanMetrics_def pg_SavePlanMetricsWeights_def pg_ListPlanMetricsWeights_def pg_GetOptimizerConfig_def pg_SaveOptimizerConfig_def
  by (intro idle_intros)+

lemma idle_GetGeofence: "preserves idle (pg_GetGeofence E t k)"
  unfolding pg_GetGeofence_def by (intro idle_intros)

lemma idle_settings:
  "preserves idle (pg_UpdateHOS E t d upd)"
  "preserves idle (pg_CreateGeofence E t inp)"
  "preserves idle (pg_ListGeofences E t cursor limit)"
  "preserves idle (pg_PatchGeofence E t k inp)"
  "preserves idle (pg_DeleteGeofence E t k)"
  unfolding pg_UpdateHOS_def pg_CreateGeofence_def pg_ListGeofences_def pg_PatchGeofence_def pg_DeleteGeofence_def
  by (intro idle_intros idle_GetGeofence)+

lemma idle_emitEvent: "preserves idle (emitEvent E t ev data)"
proof -
  have "preserves idle (enqueue_all E t ev body ss)" for body ss
    by (induction ss) (auto intro!: idle_intros idle_queue(1))
  then show ?thesis unfolding emitEvent_def by (intro idle_intros idle_subscriptions)
qed

lemma idle_policy: "preserves idle (policy_checks E t k pol reason stop)"
  unfolding policy_checks_def check_dwell_def check_grace_def check_moving_def check_driving_def check_driver_def too_recent_def
  by (intro idle_intros)

lemma idle_judged: "preserves idle (judged E t k legID stop r v)"
  unfolding judged_def blocked_def unchanged_def move_on_def moved_to_def
  by (cases v) (simp_all, (intro idle_intros idle_emitEvent idle_GetRoute)+)

lemma idle_AdvanceRoute: "preserves idle (pg_AdvanceRoute E t k req)"
  unfolding pg_AdvanceRoute_def unchanged_def by (intro idle_intros idle_GetRoute idle_policy idle_judged)

lemma idle_write_legs: "preserves idle (write_legs E t rid hosMax breakSec dep fromDepot stops order)"
  unfolding write_legs_def insert_leg_def drive_on_def take_break_def announce_break_def
  by (intro idle_intros idle_emitEvent)

lemma idle_create_route: "preserves idle (create_route E req)" "preserves idle (append_route E req rid results)" "preserves idle (named_plan E results)"
  unfolding create_route_def append_route_def read_route_def named_plan_def by (intro idle_intros)+

lemma idle_greedy_route: "preserves idle (greedy_route E req hosMax breakSec depots stops ci results)"
  unfolding greedy_route_def greedy_legs_def split_beta by (intro idle_intros idle_create_route idle_write_legs)

lemma idle_PlanRoutes: "preserves idle (plan_routes E solve req)"
  unfolding plan_routes_def read_stops_def read_depots_def empty_plan_def greedy_plan_def alns_plan_def
    alns_route_def alns_legs_def read_vehicles_def pool_vehicle_def plain_vehicle_def stop_node_def keep_metrics_def
  by (intro idle_intros idle_create_route idle_greedy_route idle_write_legs idle_GetRoute idle_metrics preserves_traverse)


section \<open>The contract\<close>

lemma keeps_method:
  assumes "preserves idle m" and "\<And>r. out r \<noteq> Panic CloseClosed \<and> out r \<noteq> Panic SendClosed"
  shows "keeps idle (pg_method out m)"
  using assms by (auto simp: keeps_def pg_method_def preserves_def split_beta)

lemma result_outcome_ok: "result_outcome txt' r \<noteq> Panic p"
  by (simp add: result_outcome_def split: sum.split)

lemma plan_outcome_ok: "p \<noteq> Diverges \<Longrightarrow> plan_outcome txt' r \<noteq> Panic p"
  by (auto simp: plan_outcome_def result_outcome_ok split: option.split)

lemma keeps_result: "preserves idle m \<Longrightarrow> keeps idle (pg_method (result_outcome txt') m)"
  by (rule keeps_method) (simp_all add: result_outcome_ok)

lemma UpdateHOS_panics:
  assumes "run_state (pg_UpdateHOS E t d upd) s = (Inl p, s')"
  shows "p = NilMap"
  using assms by (auto simp: pg_UpdateHOS_def split_beta Let_def split: if_splits option.splits)

lemma keeps_UpdateHOS: "keeps idle (pg_method (hos_outcome txt') (pg_UpdateHOS E t d upd))"
proof -
  have "hos_outcome txt' r \<noteq> Panic CloseClosed \<and> hos_outcome txt' r \<noteq> Panic SendClosed"
    if "run_state (pg_UpdateHOS E t d upd) s = (r, s')" for r s s'
    using that UpdateHOS_panics [of E t d upd s] by (auto simp: hos_outcome_def result_outcome_ok split: sum.split)
  then show ?thesis using idle_settings(1) [of E t d upd] unfolding keeps_def pg_method_def preserves_def
    by (auto simp: split_beta) (metis prod.collapse)+
qed

lemma keeps_PlanRoutes: "keeps idle (\<lambda>s. pg_method (plan_outcome txt') (plan_routes E (solve (pg_ticks s)) req) s)"
proof -
  have "keeps idle (pg_method (plan_outcome txt') (plan_routes E (solve n) req))" for n
    by (rule keeps_method [OF idle_PlanRoutes]) (simp add: plan_outcome_ok)
  then show ?thesis by (simp add: keeps_def)
qed

lemma keeps_call: "keeps idle f \<Longrightarrow> idle s \<Longrightarrow> idle (fst (f s)) \<and> snd (f s) \<noteq> Panic CloseClosed \<and> snd (f s) \<noteq> Panic SendClosed"
  by (simp add: keeps_def)

interpretation pgc: store_contract "postgres_store txt' E solve" idle "\<lambda>_ _. True" for txt' and E :: "'d pg_env" and solve
  by unfold_locales
    (simp_all only: postgres_store_def store.simps keeps_PlanRoutes keeps_UpdateHOS keeps_result idle_orders idle_GetRoute idle_routes
      idle_subscriptions idle_queue idle_dead_letters idle_metrics idle_GetGeofence idle_settings idle_AdvanceRoute
      keeps_call [OF keeps_result [OF idle_routes(2)]] keeps_call [OF keeps_result [OF idle_routes(3)]] simp_thms)

section \<open>Opening it\<close>

text \<open>
  What \<^verbatim>\<open>NewServer\<close> does when the environment names a database: \<open>opened\<close> is the error of \<^verbatim>\<open>sql.Open\<close>; the
  error of the migrations is dropped.
\<close>

definition open_postgres :: "(sql_error \<Rightarrow> string) \<Rightarrow> 'd pg_env \<Rightarrow> file_system \<Rightarrow> (string \<Rightarrow> string option) \<Rightarrow> 'd pg \<Rightarrow> string \<Rightarrow> bool
    \<Rightarrow> 'd pg result" where
  "open_postgres txt' E F opened s dsn migrate =
     (case run_state (NewPostgres E (opened dsn)) s of
        (Inl e, _) \<Rightarrow> Inl (go_error_of txt' e)
      | (Inr _, s1) \<Rightarrow> Inr (if migrate then snd (run_state (MigrateDir E F ''db/migrations'') s1) else s1))"

lemma idle_open:
  assumes "idle s" and "open_postgres txt' E F opened s dsn migrate = Inr s'"
  shows "idle s'"
proof -
  have new: "preserves idle (NewPostgres E (opened dsn))"
    by (auto simp: NewPostgres_def Ping_def preserves_def idle_def split_beta split: option.split)
  have "preserves idle (MigrateDir E F dir)" for dir
    unfolding MigrateDir_def apply_migration_def by (intro idle_intros)
  with preservesD [OF new assms(1)] assms(2) show ?thesis
    by (auto simp: open_postgres_def split_beta preserves_def split: sum.splits if_splits)
qed

end
