(* ===== verification/Pg_Properties.thy ===== *)
theory Pg_Properties
  imports Pg_Advance Pg_Settings Memory_Hos Memory_Routes
begin

text \<open>
  Properties of the Postgres store. Where a statement needs something of the database, it is a named
  hypothesis on the driver (\<open>transactional\<close>, \<open>legs_apart\<close>, \<open>subscription_key\<close>); the log driver, or one
  that enforces the key, shows that it can hold.
\<close>

section \<open>A store to evaluate\<close>

definition demo_sql :: sql_lib where
  "demo_sql = \<lparr>sl_time_text = (\<lambda>t. ''t'' @ int_text t), sl_float_text = (\<lambda>_. ''1.5''), sl_parse_float = (\<lambda>_. None),
     sl_marshal_texts = concat, sl_parse_texts = (\<lambda>s. [s]),
     sl_parse_policy = (\<lambda>_. \<lparr>aa_Enabled = True, aa_Trigger = '''', aa_MinDwellSec = 0, aa_RequirePoD = True, aa_GracePeriodSec = 0,
        aa_MovingLock = False, aa_HosMaxDriveSec = 0\<rparr>),
     sl_parse_map = (\<lambda>s. Some (Some [''status'' \<mapsto> AStr s])), sl_sprint = (\<lambda>_. ''?'')\<rparr>"

definition demo_go :: golib where
  "demo_go = \<lparr>lib_lower = map ascii_lower, lib_equal_fold = (=), lib_format = int_text, lib_format_local = int_text,
     lib_parse_time = (\<lambda>_. None), lib_marshal = (\<lambda>_. ''{}''), lib_parse_obj = (\<lambda>_. None), lib_hmac = (\<lambda>k s. k @ s),
     lib_sha256 = (\<lambda>s. s), lib_rsa_verify = (\<lambda>n e h s. False)\<rparr>"

text \<open>A flat world: the cosine and the root are 1, and the distance is the one of the \<open>atan2\<close> given.\<close>

definition flat_math :: gomath where
  "flat_math = \<lparr>m_sin = (\<lambda>x. x), m_cos = (\<lambda>_. 1), m_sqrt = (\<lambda>x. x), m_atan2 = (\<lambda>y x. y), m_exp = (\<lambda>x. x)\<rparr>"

definition demo_pg_env :: "'d driver \<Rightarrow> 'd pg_env" where
  "demo_pg_env D = \<lparr>pe_driver = D, pe_now = (\<lambda>_. 5 * minute), pe_uuid = (\<lambda>n. ''u'' @ nat_text n), pe_lib = demo_go, pe_sql = demo_sql,
     pe_math = flat_math\<rparr>"

definition demo_pg :: "log_db pg" where
  "demo_pg = \<lparr>pg_db = \<lparr>lg_done = [], lg_pending = []\<rparr>, pg_ticks = 0, pg_uuids = 0, pg_tx = False, pg_registry = []\<rparr>"

lemma demo_pg_env_simps [simp]:
  "pe_driver (demo_pg_env D) = D" "pe_now (demo_pg_env D) n = 5 * minute" "pe_uuid (demo_pg_env D) k = ''u'' @ nat_text k"
  "pe_lib (demo_pg_env D) = demo_go" "pe_sql (demo_pg_env D) = demo_sql" "pe_math (demo_pg_env D) = flat_math"
  by (simp_all add: demo_pg_env_def)

section \<open>Orders\<close>

lemma import_spec:
  assumes "run_state (pg_CreateOrders E t ords) s = (r, s')"
  shows "\<exists>r'. run_state (transaction E (for_each (import_order E t) ords (0, 0))) (s\<lparr>pg_ticks := pg_ticks s + 1\<rparr>) = (r', s') \<and>
    (case r of Inl e \<Rightarrow> r' = Inl e | Inr (k, created, skipped) \<Rightarrow> r' = Inr (created, skipped))"
  using assms by (auto simp: pg_CreateOrders_def go_now_def run_attempt split: prod.splits sum.splits)

text \<open>
  C9: An import of orders is all or nothing. If \<open>CreateOrders\<close> returns an error, other connections see
  the database as it was, unless it was the commit that failed; if it returns, the transaction was
  committed and the orders created and skipped add up to the orders given. No transaction stays open.
\<close>

theorem create_orders_all_or_nothing:
  assumes "transactional (pe_driver E) view" and "\<not> pg_tx s"
    and "run_state (pg_CreateOrders E t ords) s = (r, s')"
  shows "\<not> pg_tx s' \<and>
    (case r of
       Inl e \<Rightarrow> view (pg_db s') = view (pg_db s) \<or> (\<exists>d m. dr_commit (pe_driver E) d = (Some m, pg_db s') \<and> e = DriverErr m)
     | Inr (k, created, skipped) \<Rightarrow> created + skipped = int (length ords) \<and>
         (\<exists>d. view d = view (pg_db s) \<and> dr_commit (pe_driver E) d = (None, pg_db s')))"
proof -
  let ?s = "s\<lparr>pg_ticks := pg_ticks s + 1\<rparr>"
  have work: "\<And>v b. preserves (seen view v b) (for_each (import_order E t) ords (0, 0))"
    by (intro preserves_for_each import_order_seen assms(1))
  obtain r' where r': "run_state (transaction E (for_each (import_order E t) ords (0, 0))) ?s = (r', s')"
    "case r of Inl e \<Rightarrow> r' = Inl e | Inr (k, created, skipped) \<Rightarrow> r' = Inr (created, skipped)" using import_spec [OF assms(3)] by blast
  note tx = transaction_cases [OF assms(1) work _ r'(1)]
  show ?thesis
  proof (cases r)
    case (Inl e)
    with tx r'(2) assms(2) show ?thesis by simp
  next
    case (Inr x)
    obtain k created skipped where x: "x = (k, created, skipped)" by (cases x)
    with tx r'(2) assms(2) Inr obtain s1 s2 where
      w: "run_state (for_each (import_order E t) ords (0, 0)) s1 = (Inr (created, skipped), s2)" "seen view (view (pg_db s)) True s1"
        "dr_commit (pe_driver E) (pg_db s2) = (None, pg_db s')" and open': "\<not> pg_tx s'" by auto
    have "view (pg_db s2) = view (pg_db s)" using preservesD [OF work w(2)] w(1) by (simp add: seen_def)
    with import_counts [OF w(1)] w(3) open' show ?thesis by (auto simp: Inr x)
  qed
qed

text \<open>Two orders of the same reference, the first of them known: one is created, one skipped, one commit.\<close>

definition demo_import_order :: "string \<Rightarrow> order_in" where
  "demo_import_order ref = \<lparr>oi_ExternalRef = ref, oi_Priority = 1, oi_Attributes = None, oi_Stops = []\<rparr>"

definition demo_known :: "string \<Rightarrow> sql_arg list \<Rightarrow> sql_value list list" where
  "demo_known sql args = (if args = [GText ''t1'', GText ''a''] then [[VText ''o1'']] else [])"

lemma demo_import:
  "run_state (pg_CreateOrders (demo_pg_env (log_driver demo_known (\<lambda>_. False))) ''t1'' [demo_import_order ''a'', demo_import_order ''b'']) demo_pg =
     (Inr (''imp_'' @ int_text (unix_nano (5 * minute)), 1, 1),
      demo_pg\<lparr>pg_ticks := 1, pg_uuids := 2, pg_db := \<lparr>lg_done = [(sql_insert_order,
        [GText (''u'' @ nat_text 1), GText ''t1'', GText ''b'', GInt 1, GText ''pending'', GNil])], lg_pending = []\<rparr>\<rparr>)"
  by (simp add: pg_CreateOrders_def go_now_def transaction_def in_tx_def begin_tx_def run_attempt import_order_def new_uuid_def
    query_row_def run_query_def import_unless_known_def insert_order_def exec_def log_driver_def demo_known_def demo_import_order_def demo_pg_def
    scan_first_def Scan_def convert_def conv_text_def nullIfEmpty_def toJSON_def commit_tx_def rollback_tx_def)

theorem create_orders_all_or_nothing_witness:
  "\<exists>s'. run_state (pg_CreateOrders (demo_pg_env (log_driver demo_known (\<lambda>_. False))) ''t1'' [demo_import_order ''a'', demo_import_order ''b'']) demo_pg =
      (Inr (''imp_'' @ int_text (unix_nano (5 * minute)), 1, 1), s') \<and> \<not> pg_tx s' \<and>
    (\<exists>d. lg_done d = [] \<and> dr_commit (log_driver demo_known (\<lambda>_. False)) d = (None, pg_db s'))"
  using create_orders_all_or_nothing [of "demo_pg_env (log_driver demo_known (\<lambda>_. False))" lg_done, OF _ _ demo_import]
  by (simp add: demo_import log_driver_transactional) (simp add: demo_pg_def)


section \<open>Advancing a route\<close>

text \<open>The call leaves \<open>view\<close> of the database at \<open>v\<close>.\<close>

definition sees :: "('d \<Rightarrow> 'v) \<Rightarrow> 'v \<Rightarrow> 'd pg \<Rightarrow> bool" where
  "sees view v s \<longleftrightarrow> view (pg_db s) = v"

text \<open>
  What is assumed of what the database holds of the legs, \<open>view\<close>: the queries that \<open>AdvanceRoute\<close> sends do not
  change it (they are \<^verbatim>\<open>SELECT\<close>s), and neither do its two inserts into other tables, those of events and deliveries. The
  migrations define no triggers.
\<close>

definition advance_reads :: "string set" where
  "advance_reads = {sql_route, sql_legs, sql_current_leg, sql_last_arrive, sql_last_event, sql_last_speed, sql_driven, sql_route_driver,
     sql_driver_hos, sql_subscriptions_for}"

definition legs_apart :: "'d driver \<Rightarrow> ('d \<Rightarrow> 'v) \<Rightarrow> bool" where
  "legs_apart D view \<longleftrightarrow>
     (\<forall>c sql args d. sql \<in> advance_reads \<longrightarrow> view (snd (dr_query D c sql args d)) = view d) \<and>
     (\<forall>c sql args d. sql \<in> {sql_emit_event, sql_enqueue} \<longrightarrow> view (snd (dr_exec D c sql args d)) = view d)"

lemma sees_now [keeps_intros]: "preserves (sees view v) (go_now E)"
  by (simp add: preserves_def sees_def go_now_def)

lemma sees_uuid [keeps_intros]: "preserves (sees view v) (new_uuid E)"
  by (simp add: preserves_def sees_def new_uuid_def)

lemma sees_query: "legs_apart (pe_driver E) view \<Longrightarrow> sql \<in> advance_reads \<Longrightarrow> preserves (sees view v) (run_query E c sql args)"
  by (auto simp: preserves_def sees_def run_query_def legs_apart_def split_beta)

lemma sees_exec:
  "legs_apart (pe_driver E) view \<Longrightarrow> sql \<in> {sql_emit_event, sql_enqueue} \<Longrightarrow> preserves (sees view v) (exec E c sql args)"
  by (simp only: legs_apart_def) (auto simp: preserves_def sees_def exec_def split_beta)

lemma advance_reads [simp]:
  "sql_route \<in> advance_reads" "sql_legs \<in> advance_reads" "sql_current_leg \<in> advance_reads" "sql_last_arrive \<in> advance_reads"
  "sql_last_event \<in> advance_reads" "sql_last_speed \<in> advance_reads" "sql_driven \<in> advance_reads" "sql_route_driver \<in> advance_reads"
  "sql_driver_hos \<in> advance_reads" "sql_subscriptions_for \<in> advance_reads"
  by (simp_all add: advance_reads_def)

lemma get_route_sees:
  assumes "legs_apart (pe_driver E) view"
  shows "preserves (sees view v) (pg_GetRoute E t k)"
  unfolding pg_GetRoute_def read_route_def by (intro keeps_intros sees_query [OF assms]) simp_all

lemma policy_checks_sees:
  assumes "legs_apart (pe_driver E) view"
  shows "preserves (sees view v) (policy_checks E t k pol reason stop)"
  unfolding policy_checks_def check_dwell_def check_grace_def check_moving_def check_driving_def check_driver_def too_recent_def
  by (intro keeps_intros sees_query [OF assms]) simp_all

lemma emitEvent_sees:
  assumes "legs_apart (pe_driver E) view"
  shows "preserves (sees view v) (emitEvent E t ev data)"
proof -
  have x: "preserves (sees view v) (exec E c sql_emit_event args)" "preserves (sees view v) (exec E c sql_enqueue args)" for c args
    by (rule sees_exec [OF assms], simp)+
  have "preserves (sees view v) (enqueue_all E t ev body ss)" for body ss
    by (induction ss) (auto simp: pg_EnqueueWebhook_def intro!: keeps_intros x)
  then show ?thesis unfolding emitEvent_def pg_GetSubscriptionsForEvent_def by (intro keeps_intros x sees_query [OF assms]) simp_all
qed

lemma judged_sees:
  assumes "legs_apart (pe_driver E) view" and "v' \<noteq> Pass"
  shows "preserves (sees view v) (judged E t k leg stop r v')"
  using assms(2) emitEvent_sees [OF assms(1)]
  by (cases v') (auto simp: judged_def unchanged_def blocked_def intro!: keeps_intros)

text \<open>What the answers say, by the verdict.\<close>

definition policy_reasons :: "string set" where
  "policy_reasons = {''require_pod'', ''trigger_mismatch'', ''min_dwell'', ''grace_period'', ''moving_lock'',
     ''hos.break.required'', ''hos.break.in.progress'', ''hos.shift.off''}"

definition verdict_reasons :: "verdict \<Rightarrow> string list" where
  "verdict_reasons v = (case v of Alert r \<Rightarrow> [r] | HosAlert r \<Rightarrow> [r] | _ \<Rightarrow> [])"

lemma verdict_reasons_length: "length (verdict_reasons v) \<le> 1"
  by (simp add: verdict_reasons_def split: verdict.split)

lemma judged_result:
  assumes "run_state (judged E t k leg stop r v) s = (Inr resp, s')"
  shows "(ad_Changed (resp_Result resp) \<longleftrightarrow> v = Pass) \<and> map pa_Reason (resp_Alerts resp) = verdict_reasons v"
  using assms
  by (cases v) (auto simp: judged_def unchanged_def blocked_def move_on_def moved_to_def verdict_reasons_def run_attempt Let_def
    split: prod.splits sum.splits option.splits)

lemma policy_checks_reasons: "set (verdict_reasons (fst (run_state (policy_checks E t k pol reason stop) s))) \<subseteq> policy_reasons"
proof -
  have "set (verdict_reasons (fst (run_state (check_driver E t k) s))) \<subseteq> policy_reasons" for s
    by (auto simp: check_driver_def hos_verdict_def verdict_reasons_def policy_reasons_def split: prod.splits option.splits)
  then show ?thesis
    by (simp add: policy_checks_def Let_def verdict_reasons_def policy_reasons_def split: prod.split)
qed


text \<open>
  An advance that returns has read the route and asked for its current leg; then either there is none, or the policy has
  given its verdict.
\<close>

abbreviation ask_current_leg :: "'d pg_env \<Rightarrow> string \<Rightarrow> string \<Rightarrow> ('d, sql_value list \<times> sql_error option) pg_op" where
  "ask_current_leg E t k \<equiv> query_row E Pool sql_current_leg [GText t, GText k] [TNullText, TNullText, TNullInt32]"

definition policy_verdict :: "'d pg_env \<Rightarrow> string \<Rightarrow> string \<Rightarrow> advance_request \<Rightarrow> auto_advance_policy option \<Rightarrow> string \<Rightarrow> ('d, verdict) pg_op" where
  "policy_verdict E t k req aa stop = (case aa of
      Some pol \<Rightarrow> if av_Force req then State_Monad.return Pass else policy_checks E t k pol (av_Reason req) stop
    | None \<Rightarrow> State_Monad.return Pass)"

text \<open>The route is there and the query for its current leg finds none.\<close>

definition no_leg_left :: "'d pg_env \<Rightarrow> string \<Rightarrow> string \<Rightarrow> 'd pg \<Rightarrow> bool" where
  "no_leg_left E t k s \<longleftrightarrow> (\<exists>rcur s1. run_state (pg_GetRoute E t k) s = (Inr rcur, s1) \<and>
     snd (fst (run_state (ask_current_leg E t k) s1)) = Some NoRows)"

lemma advance_stages:
  assumes "run_state (pg_AdvanceRoute E t k req) s = (Inr resp, s')"
  obtains (no_leg) rcur s1 cur s2 where "run_state (pg_GetRoute E t k) s = (Inr rcur, s1)"
      "run_state (ask_current_leg E t k) s1 = ((cur, Some NoRows), s2)" "run_state (unchanged E k rcur []) s2 = (Inr resp, s')"
  | (verdict) rcur s1 cur s2 v s3 where "run_state (pg_GetRoute E t k) s = (Inr rcur, s1)"
      "run_state (ask_current_leg E t k) s1 = ((cur, None), s2)"
      "run_state (policy_verdict E t k req (rt_AutoAdvance rcur) (text_of (cur ! 1))) s2 = (v, s3)"
      "run_state (judged E t k (text_of (cur ! 0)) (text_of (cur ! 1)) rcur v) s3 = (Inr resp, s')"
proof -
  obtain rcur s1 where r: "run_state (pg_GetRoute E t k) s = (Inr rcur, s1)"
    using assms by (auto simp: pg_AdvanceRoute_def run_attempt_Inr)
  obtain cur err s2 where q: "run_state (ask_current_leg E t k) s1 = ((cur, err), s2)"
    by (metis prod.collapse)
  obtain v s3 where v: "run_state (policy_verdict E t k req (rt_AutoAdvance rcur) (text_of (cur ! 1))) s2 = (v, s3)" by (metis prod.collapse)
  have "(err = Some NoRows \<and> run_state (unchanged E k rcur []) s2 = (Inr resp, s')) \<or>
      (err = None \<and> run_state (judged E t k (text_of (cur ! 0)) (text_of (cur ! 1)) rcur v) s3 = (Inr resp, s'))"
    using assms r q v by (auto simp: pg_AdvanceRoute_def run_attempt policy_verdict_def [symmetric] split: if_splits)
  then show ?thesis using no_leg [OF r] verdict [OF r] q v by blast
qed

lemma no_leg_leftI:
  "run_state (pg_GetRoute E t k) s = (Inr rcur, s1) \<Longrightarrow> run_state (ask_current_leg E t k) s1 = ((cur, Some NoRows), s2) \<Longrightarrow> no_leg_left E t k s"
  by (auto simp: no_leg_left_def)

lemma unchanged_result:
  "run_state (unchanged E k r alerts) s = (Inr resp, s') \<Longrightarrow> \<not> ad_Changed (resp_Result resp) \<and> resp_Alerts resp = alerts \<and> pg_db s' = pg_db s"
  by (auto simp: unchanged_def go_now_def)

lemma policy_verdict_reasons:
  assumes "run_state (policy_verdict E t k req aa stop) s = (v, s')"
  shows "set (verdict_reasons v) \<subseteq> policy_reasons" and "av_Force req \<Longrightarrow> v = Pass"
proof -
  have "set (verdict_reasons Pass) \<subseteq> policy_reasons" by (simp add: verdict_reasons_def)
  then show "set (verdict_reasons v) \<subseteq> policy_reasons"
    using assms policy_checks_reasons [of E t k _ "av_Reason req" stop s]
    by (auto simp: policy_verdict_def split: option.splits if_splits) (metis fst_conv subsetD)
  show "av_Force req \<Longrightarrow> v = Pass" using assms by (auto simp: policy_verdict_def split: option.splits)
qed

text \<open>The steps before the verdict leave the legs alone.\<close>

lemma until_verdict_sees:
  assumes "legs_apart (pe_driver E) view" and "run_state (pg_GetRoute E t k) s = (Inr rcur, s1)"
    and "run_state (ask_current_leg E t k) s1 = ((cur, err), s2)"
  shows "sees view (view (pg_db s)) s2"
    and "run_state (policy_verdict E t k req aa stop) s2 = (v, s3) \<Longrightarrow> sees view (view (pg_db s)) s3"
proof -
  have "sees view (view (pg_db s)) s1"
    using preservesD [OF get_route_sees [OF assms(1), of "view (pg_db s)" t k], of s] assms(2) by (simp add: sees_def)
  moreover have "preserves (sees view (view (pg_db s))) (ask_current_leg E t k)"
    by (intro keeps_intros sees_query [OF assms(1)]) simp
  ultimately show s2: "sees view (view (pg_db s)) s2" using preservesD assms(3) by (metis snd_conv)
  have "preserves (sees view (view (pg_db s))) (policy_verdict E t k req aa stop)"
    unfolding policy_verdict_def by (intro keeps_intros policy_checks_sees [OF assms(1)])
  from preservesD [OF this s2] show "sees view (view (pg_db s)) s3" if "run_state (policy_verdict E t k req aa stop) s2 = (v, s3)"
    using that by simp
qed

text \<open>
  C11: An advance that is not made leaves the legs as they were. Let \<open>view\<close> be what the database holds of
  the legs; the \<^verbatim>\<open>SELECT\<close>s of \<open>AdvanceRoute\<close> and its inserts of events and deliveries leave it alone. If \<open>AdvanceRoute\<close>
  answers that the route has not changed, the legs have not, and there is at most one alert, with one of the eight
  reasons of the policy; if it answers that the route has changed there is no alert. The policy never stops a forced advance:
  if it returns, it has moved the route on, unless the query for the current leg found none.
\<close>

theorem blocked_advance_keeps_legs:
  assumes "legs_apart (pe_driver E) view"
    and "run_state (pg_AdvanceRoute E t k req) s = (Inr resp, s')"
  shows "(ad_Changed (resp_Result resp) \<longrightarrow> resp_Alerts resp = []) \<and>
    (\<not> ad_Changed (resp_Result resp) \<longrightarrow> view (pg_db s') = view (pg_db s) \<and>
      (resp_Alerts resp = [] \<or> (\<exists>a. resp_Alerts resp = [a] \<and> pa_Reason a \<in> policy_reasons))) \<and>
    (av_Force req \<longrightarrow> resp_Alerts resp = [] \<and> (ad_Changed (resp_Result resp) \<or> no_leg_left E t k s))"
  using assms(2)
proof (cases rule: advance_stages)
  case (no_leg rcur s1 cur s2)
  with until_verdict_sees(1) [OF assms(1) no_leg(1,2)] show ?thesis
    by (simp add: unchanged_result [OF no_leg(3)] sees_def no_leg_leftI)
next
  case (verdict rcur s1 cur s2 v s3)
  note res = judged_result [OF verdict(4)] and pv = policy_verdict_reasons [OF verdict(3)]
  note s3 = until_verdict_sees(2) [OF assms(1) verdict(1-3)]
  have "v \<noteq> Pass \<Longrightarrow> view (pg_db s') = view (pg_db s)"
    using preservesD [OF judged_sees [OF assms(1)] s3] verdict(4) by (metis sees_def snd_conv)
  moreover have "length (resp_Alerts resp) \<le> 1"
    using res verdict_reasons_length [of v] by (metis length_map)
  moreover have "pa_Reason ` set (resp_Alerts resp) \<subseteq> policy_reasons" using res pv(1) by (metis set_map)
  moreover have "v = Pass \<Longrightarrow> resp_Alerts resp = []" using res by (simp add: verdict_reasons_def)
  ultimately show ?thesis using res pv(2) by (cases "resp_Alerts resp") auto
qed


text \<open>A route with a policy that wants a proof of delivery, advanced for another reason.\<close>

definition demo_route_answer :: "string \<Rightarrow> sql_arg list \<Rightarrow> sql_value list list" where
  "demo_route_answer sql args =
     (if sql = sql_route then [[VText ''r1'', VInt 1, VText ''d'', VText ''planned'', VNull, VNull, VText ''policy'']]
      else if sql = sql_current_leg then [[VText ''l1'', VText ''s1'', VInt 1]] else [])"

lemma demo_route_answers [simp]:
  "demo_route_answer sql_route args = [[VText ''r1'', VInt 1, VText ''d'', VText ''planned'', VNull, VNull, VText ''policy'']]"
  "demo_route_answer sql_current_leg args = [[VText ''l1'', VText ''s1'', VInt 1]]"
  "demo_route_answer sql_legs args = []"
  by (simp_all add: demo_route_answer_def sql_route_def sql_legs_def sql_current_leg_def)

abbreviation demo_route_env :: "log_db pg_env" where
  "demo_route_env \<equiv> demo_pg_env (log_driver demo_route_answer (\<lambda>_. False))"

lemma run_log_query:
  "run_state (run_query (demo_pg_env (log_driver answer bad)) c sql args) s =
     (Inr \<lparr>rs_rows = answer sql args, rs_err = None, rs_close = None\<rparr>, s)"
  by (simp add: run_query_def log_driver_def)

lemma run_log_query_row:
  "run_state (query_row (demo_pg_env (log_driver answer bad)) c sql args ts) s =
     (scan_first demo_sql ts \<lparr>rs_rows = answer sql args, rs_err = None, rs_close = None\<rparr>, s)"
  by (simp add: query_row_def run_log_query)

lemma run_log_exec:
  "run_state (exec (demo_pg_env (log_driver answer (\<lambda>_. False))) Pool sql args) s =
     (Inr (), s\<lparr>pg_db := (pg_db s)\<lparr>lg_done := lg_done (pg_db s) @ [(sql, args)]\<rparr>\<rparr>)"
  by (simp add: exec_def log_driver_def)

lemma demo_get_route:
  "\<exists>r. run_state (pg_GetRoute demo_route_env ''t1'' ''r1'') s = (Inr r, s) \<and>
     rt_AutoAdvance r = Some (sl_parse_policy demo_sql ''policy'')"
  by (simp add: pg_GetRoute_def read_route_def run_log_query_row query_def run_attempt run_log_query scan_first_def Scan_def route_targets_def
    convert_def conv_text_def conv_int_def nullable_def atoi_int_text min_int_def max_int_def policy_of_def route_summary_def Let_def)

lemma demo_blocked:
  "\<exists>resp s'. run_state (pg_AdvanceRoute demo_route_env ''t1'' ''r1'' \<lparr>av_Reason = ''manual'', av_Force = False\<rparr>) demo_pg = (Inr resp, s') \<and>
     \<not> ad_Changed (resp_Result resp) \<and> map pa_Reason (resp_Alerts resp) = [''require_pod'']"
proof -
  obtain r where r: "run_state (pg_GetRoute demo_route_env ''t1'' ''r1'') demo_pg = (Inr r, demo_pg)"
    "rt_AutoAdvance r = Some (sl_parse_policy demo_sql ''policy'')" using demo_get_route by blast
  show ?thesis
    by (simp add: pg_AdvanceRoute_def run_attempt r run_log_query_row scan_first_def Scan_def convert_def conv_text_def conv_int_def nullable_def
      atoi_int_text min_int_def max_int_def policy_checks_def policy_reason_def demo_sql_def Let_def judged_def blocked_def unchanged_def go_now_def)
qed

theorem blocked_advance_keeps_legs_witness:
  "\<exists>resp s'. run_state (pg_AdvanceRoute demo_route_env ''t1'' ''r1'' \<lparr>av_Reason = ''manual'', av_Force = False\<rparr>) demo_pg = (Inr resp, s') \<and>
     map pa_Reason (resp_Alerts resp) = [''require_pod''] \<and>
     filter (\<lambda>(sql, _). sql \<in> {sql_visit_leg, sql_next_leg}) (lg_done (pg_db s') @ lg_pending (pg_db s')) = []"
proof -
  obtain resp s' where r: "run_state (pg_AdvanceRoute demo_route_env ''t1'' ''r1'' \<lparr>av_Reason = ''manual'', av_Force = False\<rparr>) demo_pg = (Inr resp, s')"
    "\<not> ad_Changed (resp_Result resp)" "map pa_Reason (resp_Alerts resp) = [''require_pod'']" using demo_blocked by (elim exE conjE)
  have "sql_emit_event \<notin> {sql_visit_leg, sql_next_leg}" "sql_enqueue \<notin> {sql_visit_leg, sql_next_leg}"
    by (simp_all add: sql_emit_event_def sql_enqueue_def sql_visit_leg_def sql_next_leg_def)
  then have "legs_apart (pe_driver demo_route_env) (\<lambda>d. filter (\<lambda>(sql, _). sql \<in> {sql_visit_leg, sql_next_leg}) (lg_done d @ lg_pending d))"
    by (auto simp: legs_apart_def log_driver_def)
  from blocked_advance_keeps_legs [OF this r(1)] r
  have "filter (\<lambda>(sql, _). sql \<in> {sql_visit_leg, sql_next_leg}) (lg_done (pg_db s') @ lg_pending (pg_db s')) = []" by (simp add: demo_pg_def)
  then show ?thesis using r by (intro exI conjI)
qed


section \<open>The same policy in both stores\<close>

text \<open>
  The reasons for which both stores refuse, as the alerts of the Postgres store (a disabled policy raises none), and those
  that only the Postgres store checks for, by the settings of the policy.
\<close>

definition refusal :: "auto_advance_policy \<Rightarrow> advance_request \<Rightarrow> string list" where
  "refusal pol req = (if \<not> aa_Enabled pol then []
     else if aa_RequirePoD pol \<and> advance_reason (av_Reason req) \<noteq> ''pod_ack'' then [''require_pod''] else [''trigger_mismatch''])"

definition extra_reasons :: "auto_advance_policy \<Rightarrow> string list" where
  "extra_reasons pol =
     (if 0 < aa_MinDwellSec pol then [''min_dwell''] else []) @ (if 0 < aa_GracePeriodSec pol then [''grace_period''] else []) @
     (if aa_MovingLock pol then [''moving_lock''] else []) @ (if 0 < aa_HosMaxDriveSec pol then [''hos.break.required''] else []) @
     [''hos.break.in.progress'', ''hos.shift.off'']"

lemma policy_reason_eq: "policy_reason = advance_reason"
  by (rule ext) (simp add: policy_reason_def advance_reason_def Let_def)

text \<open>The database is not even asked when the in-memory store refuses.\<close>

lemma policy_verdict_blocked:
  assumes "advance_blocked req aa"
  obtains pol v where "aa = Some pol" "run_state (policy_verdict E t k req aa stop) s = (v, s)" "v \<noteq> Pass" "verdict_reasons v = refusal pol req"
  using assms
  by (cases aa) (auto simp: advance_blocked_def policy_verdict_def policy_checks_def policy_reason_eq verdict_reasons_def refusal_def Let_def
      split: if_splits)

lemma check_driver_verdict:
  assumes "run_state (check_driver E t k) s = (v, s')"
  shows "v = Pass \<or> v = HosAlert ''hos.break.in.progress'' \<or> v = HosAlert ''hos.shift.off''"
  using assms by (auto simp: check_driver_def hos_verdict_def split: prod.splits option.splits if_splits)

lemma checks_off:
  "\<not> 0 < aa_MinDwellSec pol \<Longrightarrow> check_dwell E t k pol stop = State_Monad.return False"
  "\<not> 0 < aa_GracePeriodSec pol \<Longrightarrow> check_grace E t k pol reason stop = State_Monad.return False"
  "\<not> aa_MovingLock pol \<Longrightarrow> check_moving E t k pol = State_Monad.return False"
  "\<not> 0 < aa_HosMaxDriveSec pol \<Longrightarrow> check_driving E t k pol = State_Monad.return False"
  by (simp_all add: check_dwell_def check_grace_def check_moving_def check_driving_def)

lemma policy_verdict_open:
  assumes "\<not> advance_blocked req aa" and "run_state (policy_verdict E t k req aa stop) s = (v, s')"
  shows "v = Pass \<or> (\<exists>pol r. aa = Some pol \<and> \<not> av_Force req \<and> verdict_reasons v = [r] \<and> r \<in> set (extra_reasons pol))"
proof (cases "\<exists>pol. aa = Some pol \<and> \<not> av_Force req")
  case True
  then obtain pol where pol: "aa = Some pol" "\<not> av_Force req" by blast
  define b1 b2 b3 b4 where "b1 = check_dwell E t k pol stop"
    and "b2 = check_grace E t k pol (policy_reason (av_Reason req)) stop" and "b3 = check_moving E t k pol" and "b4 = check_driving E t k pol"
  have "run_state (policy_checks E t k pol (av_Reason req) stop) s = (v, s')"
    using assms(2) pol by (simp add: policy_verdict_def)
  then have "v = Pass \<or> (\<exists>r. verdict_reasons v = [r] \<and> r \<in> set (extra_reasons pol))"
    using assms(1) pol checks_off [of pol E t k]
    by (auto simp: advance_blocked_def policy_checks_def policy_reason_eq Let_def extra_reasons_def verdict_reasons_def
        split: if_splits prod.splits dest!: check_driver_verdict)
  then show ?thesis using pol by blast
qed (use assms(2) in \<open>auto simp: policy_verdict_def split: option.splits\<close>)

text \<open>
  C10: The two stores enforce the same policy. Let both hold the same policy for a route, let the in-memory store have a leg
  of it left, and let both answer the same request to advance it. If the in-memory store refuses, the Postgres store does not change the route
  either; unless its query for the current leg found none, it raises the alert of the check that failed: none for a policy
  that is not enabled, then \<open>require_pod\<close> before \<open>trigger_mismatch\<close>. If the in-memory store advances, the Postgres store does so too,
  unless it has no current leg or raises one alert, for a reason of a check that the in-memory store lacks and that the policy switches
  on (the two about the driver's shift and break are always on). A forced advance is never refused by either.
\<close>

theorem stores_agree_on_policy:
  assumes "routes m k = Some r0" and "\<exists>l \<in> set (rt_Legs r0). leg_Status l \<noteq> ''visited''"
    and "mem_AdvanceRoute fmt now m t k req = (m', Inr mresp)"
    and "run_state (pg_GetRoute E t k) s = (Inr rcur, s1)" and "rt_AutoAdvance rcur = rt_AutoAdvance r0"
    and "run_state (pg_AdvanceRoute E t k req) s = (Inr resp, s')"
  shows "(\<not> ad_Changed (resp_Result mresp) \<longrightarrow> \<not> ad_Changed (resp_Result resp) \<and> \<not> av_Force req \<and>
      (\<exists>pol. rt_AutoAdvance r0 = Some pol \<and>
        (if no_leg_left E t k s then resp_Alerts resp = [] else map pa_Reason (resp_Alerts resp) = refusal pol req))) \<and>
    (ad_Changed (resp_Result mresp) \<longrightarrow> ad_Changed (resp_Result resp) \<or> no_leg_left E t k s \<or>
      (\<exists>pol r. rt_AutoAdvance r0 = Some pol \<and> \<not> av_Force req \<and> map pa_Reason (resp_Alerts resp) = [r] \<and> r \<in> set (extra_reasons pol)))"
proof -
  have mem: "ad_Changed (resp_Result mresp) \<longleftrightarrow> \<not> advance_blocked req (rt_AutoAdvance r0)"
    using assms(1-3) by (auto simp: mem_AdvanceRoute_def no_advance_def Let_def find_index_None split: if_splits option.splits)
  have force: "advance_blocked req aa \<Longrightarrow> \<not> av_Force req" for aa by (auto simp: advance_blocked_def split: option.splits)
  have pol: "advance_blocked req aa \<Longrightarrow> \<exists>pol. aa = Some pol" for aa by (auto simp: advance_blocked_def split: option.splits)
  from assms(6) show ?thesis
  proof (cases rule: advance_stages)
    case (no_leg rcur1 s11 cur s2)
    with force pol show ?thesis by (auto simp: mem unchanged_result [OF no_leg(3)] no_leg_leftI)
  next
    case (verdict rcur1 s11 cur s2 v s3)
    have left: "\<not> no_leg_left E t k s" using verdict(1,2) by (simp add: no_leg_left_def)
    have v: "run_state (policy_verdict E t k req (rt_AutoAdvance r0) (text_of (cur ! 1))) s2 = (v, s3)"
      using verdict(1,3) assms(4,5) by simp
    note res = judged_result [OF verdict(4)]
    show ?thesis
    proof (cases "advance_blocked req (rt_AutoAdvance r0)")
      case True
      then obtain pol where "rt_AutoAdvance r0 = Some pol" "v \<noteq> Pass" "verdict_reasons v = refusal pol req"
        by (rule policy_verdict_blocked [of _ _ E t k "text_of (cur ! 1)" s2]) (use v in simp)
      with True res left force show ?thesis by (auto simp: mem)
    next
      case False
      from policy_verdict_open [OF this v] False res left show ?thesis by (auto simp: mem)
    qed
  qed
qed

definition demo_held_route :: route where
  "demo_held_route = zero_route\<lparr>rt_AutoAdvance := Some (sl_parse_policy demo_sql ''policy''), rt_Legs := [zero_leg]\<rparr>"

theorem stores_agree_on_policy_witness:
  "\<exists>resp s'. run_state (pg_AdvanceRoute demo_route_env ''t1'' ''r1'' \<lparr>av_Reason = ''manual'', av_Force = False\<rparr>) demo_pg = (Inr resp, s') \<and>
     (if no_leg_left demo_route_env ''t1'' ''r1'' demo_pg then resp_Alerts resp = [] else map pa_Reason (resp_Alerts resp) = [''require_pod''])"
proof -
  let ?m = "NewMemory\<lparr>routes := [''r1'' \<mapsto> demo_held_route]\<rparr>" and ?req = "\<lparr>av_Reason = ''manual'', av_Force = False\<rparr>"
  obtain resp s' where r: "run_state (pg_AdvanceRoute demo_route_env ''t1'' ''r1'' ?req) demo_pg = (Inr resp, s')"
    using demo_blocked by (elim exE conjE)
  obtain rcur where g: "run_state (pg_GetRoute demo_route_env ''t1'' ''r1'') demo_pg = (Inr rcur, demo_pg)"
    "rt_AutoAdvance rcur = rt_AutoAdvance demo_held_route"
    using demo_get_route by (auto simp: demo_held_route_def)
  have m: "routes ?m ''r1'' = Some demo_held_route" "\<exists>l \<in> set (rt_Legs demo_held_route). leg_Status l \<noteq> ''visited''"
    by (simp_all add: demo_held_route_def zero_leg_def)
  have b: "mem_AdvanceRoute int_text 0 ?m ''t1'' ''r1'' ?req =
      (?m, Inr \<lparr>resp_Result = no_advance ''r1'' 0 int_text, resp_Route = demo_held_route, resp_Alerts = []\<rparr>)"
    by (simp add: mem_AdvanceRoute_def advance_blocked_def advance_reason_def demo_held_route_def demo_sql_def)
  from stores_agree_on_policy [OF m b g r] show ?thesis
    using r by (auto simp: no_advance_def demo_held_route_def refusal_def demo_sql_def advance_reason_def)
qed

section \<open>Geofences\<close>

lemma geofence_scan_fails: "snd (scan_first L geofence_targets rs) \<noteq> None"
proof -
  have "TMap \<in> set geofence_targets" by (simp add: geofence_targets_def)
  note fails = Scan_map_fails [OF this]
  show ?thesis
  proof (cases "rs_rows rs")
    case (Cons row rows)
    obtain vs e where "Scan L geofence_targets row = (vs, Some e)" using fails [of L row] by (metis option.exhaust prod.collapse)
    then show ?thesis by (simp add: scan_first_def Cons)
  qed (simp add: scan_first_def)
qed

lemma GetGeofence_fails: "fst (run_state (pg_GetGeofence E t k) s) \<noteq> Inr gf"
proof -
  have "snd (fst (run_state (query_row E Pool sql_geofence args geofence_targets) s)) \<noteq> None" for args
    using geofence_scan_fails by (auto simp: query_row_def split: prod.split sum.split)
  from this [of "[GText t, GText k]"] show ?thesis by (auto simp: pg_GetGeofence_def split_beta)
qed

text \<open>The insert that \<open>CreateGeofence\<close> sends.\<close>

abbreviation insert_geofence :: "'d pg_env \<Rightarrow> string \<Rightarrow> geofence_input \<Rightarrow> string \<Rightarrow> ('d, unit) pg_call" where
  "insert_geofence E t inp k \<equiv> exec E Pool sql_insert_geofence
     [GText k, GText t, GText (gi_Name inp), GInt (gi_RadiusM inp), GText (gi_Type inp), GMap (gi_Rules inp),
      lat_arg (gi_Center inp), lng_arg (gi_Center inp)]"

text \<open>
  C25: The Postgres store cannot read a geofence, whatever the database holds: the column \<^verbatim>\<open>rules\<close> is
  scanned into a map, which \<^verbatim>\<open>database/sql\<close> does not support. \<open>GetGeofence\<close>, \<open>CreateGeofence\<close> and
  \<open>PatchGeofence\<close> always return an error, and \<open>ListGeofences\<close>
  returns an error or an empty page. \<open>CreateGeofence\<close> first sends its insert; when the database accepts it, the error that
  comes back is the one of \<open>GetGeofence\<close> on the new row, and the database is as the query for that row leaves it, the insert
  not undone.
\<close>

theorem geofences_cannot_be_read:
  "fst (run_state (pg_GetGeofence E t k) s) \<noteq> Inr gf \<and>
   fst (run_state (pg_CreateGeofence E t inp) s) \<noteq> Inr gf \<and>
   (case run_state (insert_geofence E t inp (pe_uuid E (pg_uuids s))) (s\<lparr>pg_uuids := pg_uuids s + 1\<rparr>) of
      (Inl e, s1) \<Rightarrow> run_state (pg_CreateGeofence E t inp) s = (Inl e, s1)
    | (Inr _, s1) \<Rightarrow> \<exists>e. run_state (pg_GetGeofence E t (pe_uuid E (pg_uuids s))) s1 =
          (Inl e, snd (run_state (query_row E Pool sql_geofence [GText t, GText (pe_uuid E (pg_uuids s))] geofence_targets) s1)) \<and>
        run_state (pg_CreateGeofence E t inp) s = run_state (pg_GetGeofence E t (pe_uuid E (pg_uuids s))) s1) \<and>
   fst (run_state (pg_PatchGeofence E t k inp) s) \<noteq> Inr gf \<and>
   fst (run_state (pg_ListGeofences E t cursor limit) s) \<in> insert (Inr ([], '''')) (range Inl)"
proof (intro conjI)
  have get: "\<exists>e s'. run_state (pg_GetGeofence E t k) s = (Inl e, s')" for k s
    using GetGeofence_fails [of E t k s] by (metis old.sum.exhaust prod.collapse)
  show "fst (run_state (pg_GetGeofence E t k) s) \<noteq> Inr gf" by (rule GetGeofence_fails)
  show "fst (run_state (pg_CreateGeofence E t inp) s) \<noteq> Inr gf"
    by (simp add: pg_CreateGeofence_def run_attempt GetGeofence_fails split: prod.split sum.split)
  show "fst (run_state (pg_PatchGeofence E t k inp) s) \<noteq> Inr gf"
    using get [of k s] by (auto simp: pg_PatchGeofence_def run_attempt)
  have read: "snd (run_state (pg_GetGeofence E t k) s) = snd (run_state (query_row E Pool sql_geofence [GText t, GText k] geofence_targets) s)"
    for k s by (simp add: pg_GetGeofence_def split: prod.split)
  show "case run_state (insert_geofence E t inp (pe_uuid E (pg_uuids s))) (s\<lparr>pg_uuids := pg_uuids s + 1\<rparr>) of
      (Inl e, s1) \<Rightarrow> run_state (pg_CreateGeofence E t inp) s = (Inl e, s1)
    | (Inr _, s1) \<Rightarrow> \<exists>e. run_state (pg_GetGeofence E t (pe_uuid E (pg_uuids s))) s1 =
          (Inl e, snd (run_state (query_row E Pool sql_geofence [GText t, GText (pe_uuid E (pg_uuids s))] geofence_targets) s1)) \<and>
        run_state (pg_CreateGeofence E t inp) s = run_state (pg_GetGeofence E t (pe_uuid E (pg_uuids s))) s1"
  proof (cases "run_state (insert_geofence E t inp (pe_uuid E (pg_uuids s))) (s\<lparr>pg_uuids := pg_uuids s + 1\<rparr>)")
    case (Pair x s1)
    obtain e s2 where g: "run_state (pg_GetGeofence E t (pe_uuid E (pg_uuids s))) s1 = (Inl e, s2)" using get by blast
    have s2: "s2 = snd (run_state (query_row E Pool sql_geofence [GText t, GText (pe_uuid E (pg_uuids s))] geofence_targets) s1)"
      using read [of "pe_uuid E (pg_uuids s)" s1] unfolding g snd_conv .
    have c: "run_state (pg_CreateGeofence E t inp) s =
        (case x of Inl e \<Rightarrow> (Inl e, s1) | Inr _ \<Rightarrow> run_state (pg_GetGeofence E t (pe_uuid E (pg_uuids s))) s1)"
      using Pair by (simp add: pg_CreateGeofence_def new_uuid_def run_attempt split: sum.split)
    show ?thesis
    proof (cases x)
      case (Inl e)
      show ?thesis unfolding c Pair Inl by simp
    next
      case (Inr u)
      show ?thesis using g unfolding c Pair Inr s2 by simp
    qed
  qed
  have "TMap \<in> set geofence_targets" by (simp add: geofence_targets_def)
  from scan_all_map_fails [OF this] have empty: "scan_all L geofence_targets rows = Inr vss \<Longrightarrow> vss = []" for L rows vss by fastforce
  obtain sql args where q: "geofences_query t cursor (pg_limit limit) = (sql, args)" by fastforce
  have "0 < pg_limit limit" by (simp add: pg_limit_def)
  then show "fst (run_state (pg_ListGeofences E t cursor limit) s) \<in> insert (Inr ([], '''')) (range Inl)"
    by (auto simp: pg_ListGeofences_def q select_def run_attempt page_next_def Let_def split: prod.split sum.split dest!: empty)
qed


section \<open>The dead letter queue\<close>

text \<open>
  What is assumed of the database: \<open>view\<close> is what it holds of the deliveries, \<open>known\<close> are the identifiers of its
  subscriptions. Migration 005 makes \<^verbatim>\<open>subscription_id\<close> of a delivery a foreign key into the subscriptions, so an insert of a delivery
  with any other subscription stores nothing: it fails, or is skipped by its \<^verbatim>\<open>ON CONFLICT\<close> clause. Reading a dead
  letter changes neither table, deleting one does not change the deliveries.
\<close>

definition subscription_key :: "'d driver \<Rightarrow> ('d \<Rightarrow> 'v) \<Rightarrow> ('d \<Rightarrow> string set) \<Rightarrow> bool" where
  "subscription_key D view known \<longleftrightarrow>
     (\<forall>c x y sub rest d. sub \<notin> known d \<longrightarrow> view (snd (dr_exec D c sql_enqueue (x # y # GText sub # rest) d)) = view d) \<and>
     (\<forall>c args d. view (snd (dr_query D c sql_dlq_entry args d)) = view d \<and> known (snd (dr_query D c sql_dlq_entry args d)) = known d) \<and>
     (\<forall>c args d. view (snd (dr_exec D c sql_dlq_delete args d)) = view d)"

abbreviation ask_dlq_entry :: "'d pg_env \<Rightarrow> conn \<Rightarrow> string \<Rightarrow> string \<Rightarrow> ('d, sql_value list \<times> sql_error option) pg_op" where
  "ask_dlq_entry E c t k \<equiv> query_row E c sql_dlq_entry [GText t, GText k] [TText, TText, TText, TText, TBytes]"

lemma requeue_entry_view:
  assumes "subscription_key (pe_driver E) view known" and "run_state (ask_dlq_entry E c t k) s = ((vs, err), s1)"
    and "text_of (vs ! 0) \<noteq> ''''" and "text_of (vs ! 0) \<notin> known (pg_db s)"
    and "run_state (requeue_entry E c t k) s = (r, s')"
  shows "view (pg_db s') = view (pg_db s)"
    and "r = Inr () \<Longrightarrow> \<exists>s2. run_state (exec E c sql_dlq_delete [GText t, GText k]) s2 = (Inr (), s')"
proof -
  let ?V = "sees view (view (pg_db s))"
  have s1: "?V s1" "known (pg_db s1) = known (pg_db s)"
  proof -
    have "s1 = s\<lparr>pg_db := snd (dr_query (pe_driver E) c sql_dlq_entry [GText t, GText k] (pg_db s))\<rparr>"
      using assms(2) by (auto simp: query_row_def run_query_def split_beta)
    then show "?V s1" "known (pg_db s1) = known (pg_db s)" using assms(1) by (simp_all add: sees_def subscription_key_def)
  qed
  obtain x s2 where e: "run_state (pg_EnqueueWebhook E t (text_of (vs ! 0)) (text_of (vs ! 1)) (text_of (vs ! 2)) (text_of (vs ! 3))
      (text_of (vs ! 4))) s1 = (x, s2)" by (metis prod.collapse)
  have s2: "?V s2"
  proof -
    have "view (snd (dr_exec (pe_driver E) Pool sql_enqueue (x # y # GText (text_of (vs ! 0)) # rest) (pg_db s1))) = view (pg_db s)" for x y rest
      using assms(1,4) s1 unfolding subscription_key_def sees_def by metis
    then show ?thesis using e assms(3)
      by (auto simp: sees_def pg_EnqueueWebhook_def new_uuid_def nullIfEmpty_def exec_def run_attempt split: prod.splits option.splits sum.splits)
        (metis snd_conv)+
  qed
  have del: "preserves ?V (exec E c sql_dlq_delete args)" for args
    using assms(1) by (auto simp: preserves_def sees_def exec_def subscription_key_def split_beta)
  have run: "(r, s') = (case err of Some e \<Rightarrow> (Inl e, s1) | None \<Rightarrow>
      (case x of Inl e \<Rightarrow> (Inl e, s2) | Inr _ \<Rightarrow> run_state (exec E c sql_dlq_delete [GText t, GText k]) s2))"
    using assms(2,5) e by (simp add: requeue_entry_def run_attempt split: option.splits sum.splits)
  show "view (pg_db s') = view (pg_db s)"
    using run s1 s2 preservesD [OF del s2, of "[GText t, GText k]"]
    by (auto simp: sees_def split: option.splits sum.splits) (metis snd_conv)
  show "\<exists>s2. run_state (exec E c sql_dlq_delete [GText t, GText k]) s2 = (Inr (), s')" if "r = Inr ()"
    using run that by (auto split: option.splits sum.splits)
qed

text \<open>
  C24: Requeueing a dead letter never queues it. The identifier of the old delivery is passed as the subscription of the new one,
  and the database, which enforces the foreign key of migration 005, stores no delivery for a subscription that does not
  exist. So whenever the entry names a delivery, and no subscription has the identifier of that delivery, the deliveries
  are afterwards what they were, whether \<open>RequeueWebhookDLQ\<close> succeeds or fails; and if it
  succeeds (the insert was skipped because of a conflict) its deletion of the entry has been executed: the dead letter is gone and
  nothing was queued for it.
\<close>

theorem requeue_never_queues:
  assumes "subscription_key (pe_driver E) view known"
    and "run_state (ask_dlq_entry E Pool t k) s = ((vs, err), s1)"
    and "text_of (vs ! 0) \<noteq> ''''" and "text_of (vs ! 0) \<notin> known (pg_db s)"
    and "run_state (pg_RequeueWebhookDLQ E t k) s = (r, s')"
  shows "view (pg_db s') = view (pg_db s) \<and>
    (r = Inr () \<longrightarrow> (\<exists>s2. run_state (exec E Pool sql_dlq_delete [GText t, GText k]) s2 = (Inr (), s')))"
  using requeue_entry_view [OF assms(1-4)] assms(5) by (simp add: pg_RequeueWebhookDLQ_def)

text \<open>
  A driver with the key and without any subscription. Its database is the log of statements that were accepted; deliveries whose
  text conflicts with one that is there are skipped, others violate the key.
\<close>

definition demo_dlq :: "string \<Rightarrow> sql_arg list \<Rightarrow> sql_value list list" where
  "demo_dlq sql args = [[VText ''d1'', VText ''ev'', VText ''http://u'', VText '''', VBytes ''{}'']]"

definition keyed_driver :: "bool \<Rightarrow> log_db driver" where
  "keyed_driver conflict = (log_driver demo_dlq (\<lambda>_. False))\<lparr>dr_exec := (\<lambda>c sql args d.
     if sql = sql_enqueue \<and> args ! 2 \<noteq> GNil then (if conflict then None else Some ''foreign key'', d)
     else dr_exec (log_driver demo_dlq (\<lambda>_. False)) c sql args d)\<rparr>"

definition demo_deliveries :: "log_db \<Rightarrow> (string \<times> sql_arg list) list" where
  "demo_deliveries d = filter (\<lambda>(sql, _). sql = sql_enqueue) (lg_done d @ lg_pending d)"

lemma keyed_driver_key: "subscription_key (keyed_driver conflict) demo_deliveries (\<lambda>_. {})"
  by (simp add: subscription_key_def keyed_driver_def log_driver_def demo_deliveries_def sql_dlq_delete_def sql_enqueue_def)

theorem requeue_never_queues_witness:
  "\<exists>s'. run_state (pg_RequeueWebhookDLQ (demo_pg_env (keyed_driver True)) ''t1'' ''k1'') demo_pg = (Inr (), s') \<and>
    demo_deliveries (pg_db s') = demo_deliveries (pg_db demo_pg)"
proof -
  let ?E = "demo_pg_env (keyed_driver True)"
  have q: "run_state (ask_dlq_entry ?E Pool ''t1'' ''k1'') demo_pg =
      (([VText ''d1'', VText ''ev'', VText ''http://u'', VText '''', VBytes ''{}''], None), demo_pg)"
    by (simp add: query_row_def run_query_def keyed_driver_def log_driver_def demo_dlq_def scan_first_def Scan_def convert_def conv_text_def demo_pg_def)
  have "sql_dlq_delete \<noteq> sql_enqueue" by (simp add: sql_dlq_delete_def sql_enqueue_def)
  then have del: "\<exists>s'. run_state (exec ?E Pool sql_dlq_delete args) s = (Inr (), s')" for args s
    by (simp add: exec_def keyed_driver_def log_driver_def)
  have enq: "run_state (exec ?E Pool sql_enqueue (a # b # GText ''d1'' # rest)) s = (Inr (), s)" for a b rest s
    by (simp add: exec_def keyed_driver_def)
  obtain s' where r: "run_state (pg_RequeueWebhookDLQ ?E ''t1'' ''k1'') demo_pg = (Inr (), s')"
    using del [of "[GText ''t1'', GText ''k1'']" "demo_pg\<lparr>pg_uuids := pg_uuids demo_pg + 1\<rparr>"]
    by (auto simp: pg_RequeueWebhookDLQ_def requeue_entry_def q text_of_def pg_EnqueueWebhook_def new_uuid_def run_attempt nullIfEmpty_def enq)
  have "subscription_key (pe_driver ?E) demo_deliveries (\<lambda>_. {})" by (simp add: keyed_driver_key)
  from requeue_never_queues [OF this q _ _ r] r show ?thesis by (simp add: text_of_def)
qed

section \<open>Statements and their arguments\<close>

text \<open>The filters keep the placeholders numbered with the arguments.\<close>

definition well_numbered :: "filtered \<Rightarrow> bool" where
  "well_numbered f = (case f of (q, args, idx) \<Rightarrow> 0 < idx \<and> idx = length args + 1 \<and> numbered q (length args))"

lemma well_numbered_add:
  assumes "well_numbered f" and "CHR ''$'' \<notin> set tail" and "tail = [] \<or> digit_value (hd tail) = None"
  shows "well_numbered (add_filter cond tail arg f)"
proof -
  obtain q args idx where f: "f = (q, args, idx)" by (cases f)
  with assms(1) have i: "idx = length args + 1" "numbered q (length args)" by (simp_all add: well_numbered_def)
  have "numbered ((q @ tail) @ ''$'' @ nat_text (length args + 1)) (length args + 1)"
    by (rule numbered_next) (rule numbered_tail [OF i(2) assms(2,3)])
  then show ?thesis using i by (auto simp: f well_numbered_def add_filter_def)
qed

lemma placeholders_front: "CHR ''$'' \<notin> set p \<Longrightarrow> placeholders (p @ q) = placeholders q"
proof -
  assume p: "CHR ''$'' \<notin> set p"
  have "tl (split_on CHR ''$'' (p @ q)) = tl (split_on CHR ''$'' q)"
    using p by (induction p) (auto split: list.splits)
  then show ?thesis by (simp add: placeholders_def)
qed

lemma dollar_int_text: "CHR ''$'' \<notin> set (int_text i)"
  by (simp add: int_text_def dollar_nat_text)

lemma metrics_select_numbered: "well_numbered (metrics_select buckets, [GText t, GTime since], 3)"
proof -
  define front where "front = ''SELECT event_type, status, COUNT(*) AS cnt, COALESCE(AVG(latency_ms),0) AS avg_latency_ms'' @ metrics_buckets buckets @
     '', SUM(CASE WHEN COALESCE(latency_ms,0) >= '' @ int_text (last buckets) @ '' THEN 1 ELSE 0 END) AS b'' @ nat_text (length buckets) @
     sql_code_classes"
  have b: "CHR ''$'' \<notin> set (metrics_buckets buckets)"
    by (auto simp: metrics_buckets_def dollar_int_text dollar_nat_text)
  have "CHR ''$'' \<notin> set sql_code_classes" by (simp add: sql_code_classes_def)
  with b have f: "CHR ''$'' \<notin> set front" by (simp add: front_def dollar_int_text dollar_nat_text)
  have "metrics_select buckets = front @ '' FROM webhook_deliveries WHERE tenant_id=$1 AND updated_at >= $2''"
    by (simp add: metrics_select_def front_def)
  moreover have "placeholders '' FROM webhook_deliveries WHERE tenant_id=$1 AND updated_at >= $2'' = map Some [1, 2]" by code_simp
  ultimately show ?thesis using placeholders_front [OF f] by (simp add: well_numbered_def numbered_def)
qed

lemma dlq_base_numbered: "well_numbered (sql_dlq_base, [GText t], 2)"
proof -
  have "placeholders sql_dlq_base = [Some 1]" by code_simp
  then show ?thesis by (simp add: well_numbered_def numbered_def)
qed

lemma metrics_filters_numbered: "well_numbered f \<Longrightarrow> well_numbered (metrics_filters mq f)"
  unfolding metrics_filters_def by (intro well_numbered_add) (simp_all add: digit_value_def)

lemma dlq_filters_numbered: "well_numbered f \<Longrightarrow> well_numbered (dlq_filters dq f)"
  unfolding dlq_filters_def by (intro well_numbered_add) (simp_all add: digit_value_def)

text \<open>The text of a statement depends on the conditions, not on the arguments.\<close>

definition same_text :: "filtered \<Rightarrow> filtered \<Rightarrow> bool" where
  "same_text f g \<longleftrightarrow> fst f = fst g \<and> snd (snd f) = snd (snd g)"

lemma same_text_add: "same_text f g \<Longrightarrow> cond = cond' \<Longrightarrow> same_text (add_filter cond tail arg f) (add_filter cond' tail arg' g)"
  by (simp add: same_text_def add_filter_def split_beta)

lemma dlq_same_text:
  assumes "(dq_eventType dq = '''') = (dq_eventType dq' = '''')" "(dq_olderThan dq = 0) = (dq_olderThan dq' = 0)"
    "(0 < dq_codeMin dq) = (0 < dq_codeMin dq')" "(0 < dq_codeMax dq) = (0 < dq_codeMax dq')" "(dq_errorQuery dq = '''') = (dq_errorQuery dq' = '''')"
    "(cursor = '''') = (cursor' = '''')"
  shows "fst (dlq_statement t dq cursor limit) = fst (dlq_statement t' dq' cursor' limit')"
proof -
  have "same_text (dlq_filters dq (sql_dlq_base, [GText t], 2)) (dlq_filters dq' (sql_dlq_base, [GText t'], 2))"
    unfolding dlq_filters_def using assms by (intro same_text_add) (simp_all add: same_text_def)
  then show ?thesis using assms(6) by (simp add: dlq_statement_def split_beta same_text_def)
qed

lemma metrics_same_text:
  assumes "(mq_eventType mq = '''') = (mq_eventType mq' = '''')" "(mq_status mq = '''') = (mq_status mq' = '''')"
    "(0 < mq_codeMin mq) = (0 < mq_codeMin mq')" "(0 < mq_codeMax mq) = (0 < mq_codeMax mq')"
  shows "fst (metrics_statement mq buckets) = fst (metrics_statement mq' buckets)"
proof -
  have "same_text (metrics_filters mq (metrics_select buckets, [GText (mq_tenant mq), GTime (mq_since mq)], 3))
      (metrics_filters mq' (metrics_select buckets, [GText (mq_tenant mq'), GTime (mq_since mq')], 3))"
    unfolding metrics_filters_def using assms by (intro same_text_add) (simp_all add: same_text_def)
  then show ?thesis by (simp add: metrics_statement_def split_beta same_text_def)
qed

text \<open>
  C23: The statements built from optional filters are well-formed: whatever filters are given and whatever
  the filters are, the placeholders of the text are \<^verbatim>\<open>$1\<close> to \<^verbatim>\<open>$n\<close>, once each and in order, for \<open>n\<close>
  arguments. The text depends on which filters are there, not on their contents, so that nothing a caller
  sends becomes part of a statement (of the metrics, only the edges, which are numbers).
\<close>

theorem statements_numbered:
  "(case dlq_statement t dq cursor limit of (q, args) \<Rightarrow> numbered q (length args)) \<and>
   (case metrics_statement mq buckets of (q, args) \<Rightarrow> numbered q (length args)) \<and>
   fst (dlq_statement t dq cursor limit) =
     fst (dlq_statement '''' \<lparr>dq_eventType = (if dq_eventType dq = '''' then '''' else ''x''), dq_olderThan = (if dq_olderThan dq = 0 then 0 else 1),
        dq_codeMin = (if 0 < dq_codeMin dq then 1 else 0), dq_codeMax = (if 0 < dq_codeMax dq then 1 else 0),
        dq_errorQuery = (if dq_errorQuery dq = '''' then '''' else ''x'')\<rparr> (if cursor = '''' then '''' else ''x'') 0) \<and>
   fst (metrics_statement mq buckets) =
     fst (metrics_statement \<lparr>mq_tenant = '''', mq_since = 0, mq_eventType = (if mq_eventType mq = '''' then '''' else ''x''),
        mq_status = (if mq_status mq = '''' then '''' else ''x''), mq_codeMin = (if 0 < mq_codeMin mq then 1 else 0),
        mq_codeMax = (if 0 < mq_codeMax mq then 1 else 0)\<rparr> buckets)"
proof (intro conjI)
  obtain q args idx where f: "dlq_filters dq (sql_dlq_base, [GText t], 2) = (q, args, idx)" by (metis prod_cases3)
  have w: "numbered q (length args)" "idx = length args + 1"
    using dlq_filters_numbered [OF dlq_base_numbered, of dq t] f by (simp_all add: well_numbered_def)
  have n: "numbered (((q @ '' AND id::text > '') @ ''$'' @ nat_text (length args + 1)) @ '' ORDER BY id LIMIT '') (length args + 1)"
    by (intro numbered_tail numbered_next w(1)) (simp_all add: digit_value_def)
  have "numbered ((q @ '' ORDER BY id LIMIT '') @ ''$'' @ nat_text (length args + 1)) (length args + 1)"
    by (intro numbered_tail numbered_next w(1)) (simp_all add: digit_value_def)
  with numbered_next [OF n] w(2) show "case dlq_statement t dq cursor limit of (q, args) \<Rightarrow> numbered q (length args)"
    by (auto simp: dlq_statement_def f)
  obtain q' args' idx' where g: "metrics_filters mq (metrics_select buckets, [GText (mq_tenant mq), GTime (mq_since mq)], 3) = (q', args', idx')"
    by (metis prod_cases3)
  have "numbered q' (length args')"
    using metrics_filters_numbered [OF metrics_select_numbered, of mq buckets "mq_tenant mq" "mq_since mq"] g by (simp add: well_numbered_def)
  then have "numbered (q' @ '' GROUP BY event_type, status'') (length args')" by (rule numbered_tail) (simp_all add: digit_value_def)
  then show "case metrics_statement mq buckets of (q, args) \<Rightarrow> numbered q (length args)" by (simp add: metrics_statement_def g)
qed (rule dlq_same_text metrics_same_text; simp)+


section \<open>Hours of service\<close>

lemma run_UpdateHOS:
  assumes "fst (run_state (query_row E Pool sql_hos_state [GText t, GText d] [TBytes]) s) = ([VBytes js], err)"
    and "err = None \<or> err = Some NoRows" and "hos_map (pe_sql E) js = Some st"
    and "run_state (pg_UpdateHOS E t d upd) s = (r, s')"
  shows "\<exists>s1. (case r of
      Inr (Inr (status, obj)) \<Rightarrow> (status, obj) = hos_change (pe_sql E) upd st \<and>
        run_state (exec E Pool sql_set_hos [GMap (Some obj), GText t, GText d]) s1 = (Inr (), s')
    | Inr (Inl e) \<Rightarrow> fst (run_state (exec E Pool sql_set_hos [GMap (Some (snd (hos_change (pe_sql E) upd st))), GText t, GText d]) s1) = Inl e
    | Inl _ \<Rightarrow> False)"
proof -
  obtain s1 where q: "run_state (query_row E Pool sql_hos_state [GText t, GText d] [TBytes]) s = (([VBytes js], err), s1)"
    using assms(1) by (metis prod.collapse)
  obtain status obj where h: "hos_change (pe_sql E) upd st = (status, obj)" by fastforce
  obtain x s2 where x: "run_state (exec E Pool sql_set_hos [GMap (Some obj), GText t, GText d]) s1 = (x, s2)" by (metis prod.collapse)
  have "text_of (VBytes js) = js" by (simp add: text_of_def)
  with assms(2-4) q h x show ?thesis
    by (intro exI [of _ s1]) (auto simp: pg_UpdateHOS_def split: sum.splits)
qed

text \<open>
  C22: The two stores change a driver's hours of service the same way. When both hold the same state of a
  driver, with a status, and the Postgres store returns, then the in-memory store returns the same status
  and the same new state; the Postgres store has written that state, and where the state is one of the
  machine of shifts and breaks it is the next state of the machine.
\<close>

theorem hos_stores_agree:
  assumes "hos m d = Some st" and "st ''status'' = Some (AStr w)"
    and "fst (run_state (query_row E Pool sql_hos_state [GText t, GText d] [TBytes]) s) = ([VBytes js], None)"
    and "js \<noteq> ''''" and "sl_parse_map (pe_sql E) js = Some (Some st)"
    and "run_state (pg_UpdateHOS E t d upd) s = (Inr (Inr (status, st')), s')"
  shows "(\<exists>m'. mem_UpdateHOS m t d upd = Inr (m', status, st')) \<and>
    (\<exists>s1. run_state (exec E Pool sql_set_hos [GMap (Some st'), GText t, GText d]) s1 = (Inr (), s')) \<and>
    (\<forall>h. hos_repr st h \<longrightarrow> hos_repr st' (hos_step (hu_Action upd) h))"
proof -
  have h: "hos_map (pe_sql E) js = Some st" using assms(4,5) by (simp add: hos_map_def)
  from run_UpdateHOS [OF assms(3) _ h assms(6)] obtain s1 where
    c: "hos_change (pe_sql E) upd st = (status, st')" and x: "run_state (exec E Pool sql_set_hos [GMap (Some st'), GText t, GText d]) s1 = (Inr (), s')"
    by auto
  have "\<exists>m'. mem_UpdateHOS m t d upd = Inr (m', hos_change (pe_sql E) upd st)"
    using assms(1,2) by (simp add: mem_UpdateHOS_def hos_change_def Sprint_def Let_def)
  moreover have "hos_repr (snd (hos_change (pe_sql E) upd st)) (hos_step (hu_Action upd) h)" if "hos_repr st h" for h
    using that by (simp add: hos_repr_def hos_change_def hos_step_def Sprint_def Let_def shift_text_def)
  ultimately show ?thesis using c x by (simp del: mem_UpdateHOS_def) metis
qed

definition demo_hos :: "string \<Rightarrow> sql_arg list \<Rightarrow> sql_value list list" where
  "demo_hos sql args = [[VBytes ''on'']]"

definition demo_break :: hos_update where
  "demo_break = \<lparr>hu_Action = ''break_start'', hu_TS = ''t'', hu_Type = ''meal'', hu_Note = ''''\<rparr>"

lemma demo_hos_query:
  "run_state (query_row (demo_pg_env (log_driver demo_hos (\<lambda>_. False))) Pool sql args [TBytes]) s = (([VBytes ''on''], None), s)"
  by (simp add: query_row_def run_query_def log_driver_def demo_hos_def scan_first_def Scan_def convert_def)

lemma demo_hos_run:
  "\<exists>st' s'. run_state (pg_UpdateHOS (demo_pg_env (log_driver demo_hos (\<lambda>_. False))) ''t1'' ''d1'' demo_break) demo_pg = (Inr (Inr (''on'', st')), s')"
  by (simp add: pg_UpdateHOS_def demo_hos_query text_of_def hos_map_def hos_change_def demo_break_def demo_sql_def Sprint_def run_log_exec Let_def)

theorem hos_stores_agree_witness:
  "\<exists>m' st'. mem_UpdateHOS (NewMemory\<lparr>hos := [''d1'' \<mapsto> [''status'' \<mapsto> AStr ''on'']]\<rparr>) ''t1'' ''d1'' demo_break = Inr (m', ''on'', st')"
proof -
  obtain st' s' where r: "run_state (pg_UpdateHOS (demo_pg_env (log_driver demo_hos (\<lambda>_. False))) ''t1'' ''d1'' demo_break) demo_pg = (Inr (Inr (''on'', st')), s')"
    using demo_hos_run by (elim exE)
  have m: "hos (NewMemory\<lparr>hos := [''d1'' \<mapsto> [''status'' \<mapsto> AStr ''on'']]\<rparr>) ''d1'' = Some [''status'' \<mapsto> AStr ''on'']"
    "[''status'' \<mapsto> AStr ''on''] ''status'' = Some (AStr ''on'')" by simp_all
  have q: "fst (run_state (query_row (demo_pg_env (log_driver demo_hos (\<lambda>_. False))) Pool sql_hos_state [GText ''t1'', GText ''d1''] [TBytes]) demo_pg) = ([VBytes ''on''], None)"
    by (simp add: demo_hos_query)
  have "sl_parse_map (pe_sql (demo_pg_env (log_driver demo_hos (\<lambda>_. False)))) ''on'' = Some (Some [''status'' \<mapsto> AStr ''on''])"
    by (simp add: demo_sql_def)
  from hos_stores_agree [OF m q list.distinct(2) this r] obtain m' where
    "mem_UpdateHOS (NewMemory\<lparr>hos := [''d1'' \<mapsto> [''status'' \<mapsto> AStr ''on'']]\<rparr>) ''t1'' ''d1'' demo_break = Inr (m', ''on'', st')"
    by (elim conjE exE)
  then show ?thesis by (intro exI [of _ m'] exI [of _ st'])
qed

end
