(* ===== verification/Pg_Plan_Properties.thy ===== *)
theory Pg_Plan_Properties
  imports Pg_Planner Pg_Properties Planner_Properties
begin

text \<open>
  Properties of the planner of the Postgres store: seeds and clusters, the order within a cluster, the
  legs that are written, the driving time between breaks, the times of arrival, and that the planner
  returns.
\<close>

section \<open>Seeds and clusters\<close>

lemma pick_seeds_farthest:
  assumes "\<forall>j. length base \<le> j \<and> j < length seeds \<longrightarrow> farthest dst n (take j seeds) = Some (seeds ! j)" and "length base \<le> length seeds"
  shows "\<forall>j. length base \<le> j \<and> j < length (pick_seeds dst n k seeds) \<longrightarrow>
    farthest dst n (take j (pick_seeds dst n k seeds)) = Some (pick_seeds dst n k seeds ! j)"
  using assms
proof (induction dst n k seeds rule: pick_seeds.induct)
  case (1 dst n k seeds)
  show ?case
  proof (cases "length seeds < k \<and> length seeds < n \<and> farthest dst n seeds \<noteq> None")
    case True
    then obtain i where i: "farthest dst n seeds = Some i" by auto
    have "\<forall>j. length base \<le> j \<and> j < length (seeds @ [i]) \<longrightarrow> farthest dst n (take j (seeds @ [i])) = Some ((seeds @ [i]) ! j)"
      using "1.prems" i by (auto simp: nth_append less_Suc_eq)
    moreover have "pick_seeds dst n k seeds = pick_seeds dst n k (seeds @ [i])" using True i by (subst pick_seeds.simps) simp
    ultimately show ?thesis using "1.IH" [of i] True i "1.prems"(2) by simp
  next
    case False
    then have "pick_seeds dst n k seeds = seeds" by (subst pick_seeds.simps) (auto split: option.split)
    with "1.prems" show ?thesis by simp
  qed
qed

lemma mset_buckets:
  "(\<forall>x\<in>set xs. f x < m) \<Longrightarrow> mset (concat (map (\<lambda>c. filter (\<lambda>x. f x = c) xs) [0..<m])) = mset xs"
proof (induction xs)
  case (Cons x xs)
  let ?b = "\<lambda>xs c. mset (filter (\<lambda>x. f x = c) xs)"
  have e: "mset (concat (map (\<lambda>c. filter (\<lambda>x. f x = c) ys) [0..<m])) = (\<Sum>c<m. ?b ys c)" for ys
    by (simp add: mset_concat comp_def interv_sum_list_conv_sum_set_nat atLeast0LessThan)
  have "(\<Sum>c<m. ?b (x # xs) c) = (\<Sum>c<m. (if f x = c then {#x#} else {#}) + ?b xs c)"
    by (rule sum.cong) auto
  also have "\<dots> = {#x#} + (\<Sum>c<m. ?b xs c)" using Cons.prems by (simp add: sum.distrib)
  finally show ?case using Cons e by (metis add_mset_add_single list.set_intros(2) mset.simps(2) union_commute)
qed (simp add: mset_concat comp_def)

text \<open>
  C20: The planner splits the stops into clusters. The seeds are different stops, the first one being stop
  0, each of the others a stop that is farthest from the seeds before it. Every stop is in exactly one
  cluster, and no seed at a distance below the largest float is nearer to it than the seed of its cluster.
\<close>

theorem clusters_partition_stops:
  assumes "0 < n"
  shows "distinct (pick_seeds dst n k [0]) \<and> hd (pick_seeds dst n k [0]) = 0 \<and> set (pick_seeds dst n k [0]) \<subseteq> {..<n} \<and>
    (\<forall>j i. 0 < j \<and> j < length (pick_seeds dst n k [0]) \<and> i < n \<longrightarrow> i \<in> set (take j (pick_seeds dst n k [0])) \<or>
       \<not> seed_distance dst (take j (pick_seeds dst n k [0])) (pick_seeds dst n k [0] ! j) < seed_distance dst (take j (pick_seeds dst n k [0])) i) \<and>
    length (clusters_of dst n (pick_seeds dst n k [0])) = length (pick_seeds dst n k [0]) \<and>
    mset (concat (clusters_of dst n (pick_seeds dst n k [0]))) = mset [0..<n] \<and>
    (\<forall>c i j. c < length (pick_seeds dst n k [0]) \<and> i \<in> set (clusters_of dst n (pick_seeds dst n k [0]) ! c) \<and> j < length (pick_seeds dst n k [0]) \<and>
       dst i (pick_seeds dst n k [0] ! j) < max_float \<longrightarrow> \<not> dst i (pick_seeds dst n k [0] ! j) < dst i (pick_seeds dst n k [0] ! c))"
proof -
  define seeds where "seeds = pick_seeds dst n k [0]"
  have s: "distinct seeds" "set seeds \<subseteq> {..<n}" "\<exists>more. seeds = [0] @ more"
    using pick_seeds_distinct [of "[0]" n dst k] assms by (auto simp: seeds_def)
  then have ne: "seeds \<noteq> []" "0 < length seeds" and hd: "hd seeds = 0" by auto
  have far: "\<forall>j. 1 \<le> j \<and> j < length seeds \<longrightarrow> farthest dst n (take j seeds) = Some (seeds ! j)"
    unfolding seeds_def using pick_seeds_farthest [of "[0 :: nat]" "[0]" dst n k] by simp
  have far': "i \<in> set (take j seeds) \<or> \<not> seed_distance dst (take j seeds) (seeds ! j) < seed_distance dst (take j seeds) i"
    if "0 < j" "j < length seeds" "i < n" for i j
    using far that farthest_SomeD [of dst n "take j seeds" "seeds ! j"] by auto
  let ?near = "\<lambda>i. nearest (\<lambda>si. dst i (seeds ! si)) (length seeds)"
  have len: "length (clusters_of dst n seeds) = length seeds" by (rule clusters_length [OF ne(1)])
  have nth: "clusters_of dst n seeds ! c = filter (\<lambda>i. ?near i = c) [0..<n]" if "c < length seeds" for c
    by (rule clusters_nth [OF that])
  have "clusters_of dst n seeds = map (\<lambda>c. filter (\<lambda>i. ?near i = c) [0..<n]) [0..<length seeds]"
    by (rule nth_equalityI) (use len nth in auto)
  moreover have "\<forall>i\<in>set [0..<n]. ?near i < length seeds" using nearest_less [OF ne(2)] by blast
  ultimately have ms: "mset (concat (clusters_of dst n seeds)) = mset [0..<n]" using mset_buckets by metis
  have near: "\<not> dst i (seeds ! j) < dst i (seeds ! c)"
    if "c < length seeds" "i \<in> set (clusters_of dst n seeds ! c)" "j < length seeds" "dst i (seeds ! j) < max_float" for c i j
    using that nearest_min [of j "length seeds" "\<lambda>si. dst i (seeds ! si)"] by (auto simp: nth)
  show ?thesis unfolding seeds_def [symmetric] using s hd far' len ms near by blast
qed

theorem clusters_partition_stops_witness:
  "mset (concat (clusters_of (\<lambda>i j. f_of_int (int i - int j)) 3 (pick_seeds (\<lambda>i j. f_of_int (int i - int j)) 3 2 [0]))) = mset [0..<3]"
  using clusters_partition_stops [of 3 "\<lambda>i j. f_of_int (int i - int j)" 2] by simp

section \<open>The order of a cluster\<close>

text \<open>
  C21: The greedy planner visits every stop of a cluster once, starting at its seed: for a cluster that holds
  its seed and distances below the largest float the order is a permutation of the cluster with the seed
  first. It is the nearest-neighbour order or, after 2-opt, a shorter one with the same ends.
\<close>

theorem greedy_order_visits_once:
  assumes "distinct idxs" and "seed \<in> set idxs" and "\<forall>i\<in>set idxs. \<forall>j\<in>set idxs. stop_dist gm stops i j < max_float"
  shows "mset (cluster_order gm stops idxs seed) = mset idxs \<and> hd (cluster_order gm stops idxs seed) = seed \<and>
    last (cluster_order gm stops idxs seed) = last (visit_all (stop_dist gm stops) idxs [seed]) \<and>
    (let nodes = map (\<lambda>s. \<lparr>sn_Lat = sp_Lat s, sn_Lng = sp_Lng s\<rparr>) stops; nn = visit_all (stop_dist gm stops) idxs [seed]
     in cluster_order gm stops idxs seed = nn \<or> pathDistance gm nodes (cluster_order gm stops idxs seed) < pathDistance gm nodes nn)"
proof -
  let ?nn = "visit_all (stop_dist gm stops) idxs [seed]"
  have m: "mset ?nn = mset idxs" by (rule visit_all_perm) (use assms in auto)
  obtain more where nn: "?nn = [seed] @ more" using visit_all_inv [of "[seed]" idxs "stop_dist gm stops"] assms(2) by auto
  from ImproveOrder2Opt_spec [of gm "map (\<lambda>s. \<lparr>sn_Lat = sp_Lat s, sn_Lng = sp_Lng s\<rparr>) stops" ?nn 2] m nn show ?thesis
    by (simp add: cluster_order_def reordered_def Let_def)
qed

text \<open>Two stops in the flat world, at latitudes 0 and 0.\<close>

definition demo_stop :: "string \<Rightarrow> plan_stop" where
  "demo_stop k = \<lparr>sp_ID = k, sp_Lat = 0, sp_Lng = 0, sp_Svc = 60, sp_Start = None, sp_End = None\<rparr>"

lemma demo_dist: "stop_dist (flat_math\<lparr>m_atan2 := (\<lambda>_ _. 0)\<rparr>) stops i j = 0"
proof -
  have "lit 2 * (0 :: f64) = 0" "lit 6371000 * (0 :: f64) = 0" by (simp_all add: lit_def times_f64_def zero_f64_def rnd_def)
  then show ?thesis by (simp add: stop_dist_def store_haversine_def Let_def)
qed

theorem greedy_order_visits_once_witness:
  "mset (cluster_order (flat_math\<lparr>m_atan2 := (\<lambda>_ _. 0)\<rparr>) [demo_stop ''a'', demo_stop ''b''] [0, 1] 0) = mset [0, 1] \<and>
   hd (cluster_order (flat_math\<lparr>m_atan2 := (\<lambda>_ _. 0)\<rparr>) [demo_stop ''a'', demo_stop ''b''] [0, 1] 0) = 0"
  using greedy_order_visits_once [of "[0, 1]" 0 "flat_math\<lparr>m_atan2 := (\<lambda>_ _. 0)\<rparr>" "[demo_stop ''a'', demo_stop ''b'']"]
  by (simp add: demo_dist zero_less_max_float)

section \<open>The legs of the greedy planner\<close>

text \<open>
  C14: The greedy planner writes the plan of its pure steps, leg by leg. If the inserts work, then whatever
  the queries answer, the statements it adds are the legs of the plan, in their order: from a depot that
  is nearest to the first stop (there is none exactly if the tenant has no depot), along the order of the
  stops with the breaks, and back.
\<close>

theorem greedy_writes_its_plan:
  assumes "pe_driver E = log_driver answer (\<lambda>_. False)"
  shows "\<exists>dep s'. run_state (greedy_legs E t rid hosMax breakSec depots stops order) s = (Inr (), s') \<and>
    leg_log (pg_db s') = leg_log (pg_db s) @ map (leg_entry t rid) (planned_legs (pe_math E) hosMax breakSec dep
      (case dep of None \<Rightarrow> False | Some d \<Rightarrow> dp_ID d \<noteq> '''') stops order (pe_now E (pg_ticks s))) \<and>
    (dep = None \<longleftrightarrow> depots = []) \<and>
    (\<forall>d e. dep = Some d \<and> e \<in> set depots \<longrightarrow> d \<in> set depots \<and>
       (let far = (\<lambda>d. store_haversine (pe_math E) (sp_Lat (stops ! hd order)) (sp_Lng (stops ! hd order)) (dp_Lat d) (dp_Lng d))
        in far e < max_float \<longrightarrow> \<not> far e < far d))"
proof -
  let ?far = "\<lambda>d. store_haversine (pe_math E) (sp_Lat (stops ! hd order)) (sp_Lng (stops ! hd order)) (dp_Lat d) (dp_Lng d)"
  define near where "near = nearest (\<lambda>i. ?far (depots ! i)) (length depots)"
  define dep where "dep = (if depots = [] then None else Some (depots ! near))"
  have log: "logged E" using assms by (auto simp: logged_def)
  have legs: "greedy_legs E t rid hosMax breakSec depots stops order =
    write_legs E t rid hosMax breakSec dep (case dep of None \<Rightarrow> False | Some d \<Rightarrow> dp_ID d \<noteq> '''') stops order"
    by (simp add: greedy_legs_def Let_def dep_def near_def)
  obtain s' where s': "run_state (greedy_legs E t rid hosMax breakSec depots stops order) s = (Inr (), s')"
    "leg_log (pg_db s') = leg_log (pg_db s) @ map (leg_entry t rid) (planned_legs (pe_math E) hosMax breakSec dep
      (case dep of None \<Rightarrow> False | Some d \<Rightarrow> dp_ID d \<noteq> '''') stops order (pe_now E (pg_ticks s)))"
    unfolding legs using run_write_legs [OF log, of "leg_log (pg_db s)" s t rid hosMax breakSec dep _ stops order] by (auto simp: legs_are_def)
  have near: "depots ! near \<in> set depots \<and> (?far e < max_float \<longrightarrow> \<not> ?far e < ?far (depots ! near))" if "e \<in> set depots" for e
  proof -
    obtain i where i: "i < length depots" "depots ! i = e" using \<open>e \<in> set depots\<close> by (auto simp: in_set_conv_nth)
    then have "0 < length depots" by (cases depots) auto
    then have "near < length depots" unfolding near_def by (rule nearest_less)
    then show ?thesis using nearest_min [of i "length depots" "\<lambda>i. ?far (depots ! i)"] i by (simp add: near_def)
  qed
  show ?thesis by (rule exI [of _ dep], rule exI [of _ s']) (use s' near in \<open>simp add: dep_def\<close>)
qed

text \<open>The first of two stops is at the depot: a leg from the depot, one between the stops and one back.\<close>

definition demo_depot :: depot where
  "demo_depot = \<lparr>dp_ID = ''d'', dp_Lat = 0, dp_Lng = 0\<rparr>"

abbreviation demo_flat :: "log_db pg_env" where
  "demo_flat \<equiv> demo_pg_env (log_driver (\<lambda>_ _. []) (\<lambda>_. False))\<lparr>pe_math := flat_math\<lparr>m_atan2 := (\<lambda>_ _. 0)\<rparr>\<rparr>"

theorem greedy_writes_its_plan_witness:
  "\<exists>s' ls. run_state (greedy_legs demo_flat ''t1'' ''r'' 0 1800 [demo_depot] [demo_stop ''a'', demo_stop ''b''] [0, 1]) demo_pg = (Inr (), s') \<and>
    leg_log (pg_db s') = map (leg_entry ''t1'' ''r'') ls \<and> map pn_kind ls = [FromDepot, Between, ToDepot]"
proof -
  have "run_state (greedy_legs demo_flat ''t1'' ''r'' 0 1800 [demo_depot] [demo_stop ''a'', demo_stop ''b''] [0, 1]) demo_pg = (Inr (), s') \<Longrightarrow>
     leg_log (pg_db s') = leg_log (pg_db demo_pg) @ map (leg_entry ''t1'' ''r'') (planned_legs gm 0 1800 (Some d) fd [demo_stop ''a'', demo_stop ''b''] [0, 1] now) \<Longrightarrow>
     ?thesis" for s' d fd now gm
    by (intro exI [of _ s'] exI [of _ "planned_legs gm 0 1800 (Some d) fd [demo_stop ''a'', demo_stop ''b''] [0, 1] now"])
      (simp add: planned_legs_def depot_step_def return_step_def stop_step_def stop_pairs_def needs_break_def Let_def split_beta
        demo_pg_def leg_log_def)
  note legs = this
  have "pe_driver demo_flat = log_driver (\<lambda>_ _. []) (\<lambda>_. False)" by simp
  from greedy_writes_its_plan [OF this, of "''t1''" "''r''" 0 1800 "[demo_depot]" "[demo_stop ''a'', demo_stop ''b'']" "[0, 1]" demo_pg]
  show ?thesis
  proof (elim exE conjE)
    fix dep s'
    assume a: "run_state (greedy_legs demo_flat ''t1'' ''r'' 0 1800 [demo_depot] [demo_stop ''a'', demo_stop ''b''] [0, 1]) demo_pg = (Inr (), s')"
      and b: "leg_log (pg_db s') = leg_log (pg_db demo_pg) @ map (leg_entry ''t1'' ''r'') (planned_legs (pe_math demo_flat) 0 1800 dep
        (case dep of None \<Rightarrow> False | Some d \<Rightarrow> dp_ID d \<noteq> '''') [demo_stop ''a'', demo_stop ''b''] [0, 1] (pe_now demo_flat (pg_ticks demo_pg)))"
      and c: "(dep = None) = ([demo_depot] = [])"
    from c obtain d where d: "dep = Some d" by auto
    from b show ?thesis unfolding d by (rule legs [OF a])
  qed
qed

section \<open>Driving and breaks\<close>

text \<open>A break is followed by a leg that would have exceeded the limit.\<close>

definition needed :: "int \<Rightarrow> planned list \<Rightarrow> planned \<Rightarrow> planned list \<Rightarrow> bool" where
  "needed hosMax before l after \<longleftrightarrow> pn_kind l = Break \<longrightarrow>
     after \<noteq> [] \<and> pn_kind (hd after) = Between \<and> hosMax < wrap64 (driven_from 0 before + pn_drive (hd after))"

lemma between_legs_needed:
  assumes "0 < hosMax"
  shows "trip_inv hosMax pre w \<Longrightarrow> between_legs gm hosMax breakSec fromDepot ps w = (ls, w') \<Longrightarrow> ls = p @ l # q \<Longrightarrow> needed hosMax (pre @ p) l (q @ behind)"
proof (induction ps arbitrary: pre w ls w' p)
  case (Cons ab ps)
  obtain a b where ab: "ab = (a, b)" by fastforce
  let ?drive = "snd (drive_between gm (sp_Lat a) (sp_Lng a) (sp_Lat b) (sp_Lng b))"
  let ?need = "needs_break hosMax ?drive w"
  obtain lb wb where br: "break_step breakSec w = (lb, wb)" by fastforce
  define brk where "brk = (if ?need then [lb] else [])"
  define w1 where "w1 = (if ?need then wb else w)"
  obtain m w2 where st: "stop_step gm fromDepot a b w1 = (m, w2)" by fastforce
  obtain ls2 w3 where rest: "between_legs gm hosMax breakSec fromDepot ps w2 = (ls2, w3)" by fastforce
  have res: "ls = brk @ m # ls2" using Cons.prems(2) st br rest by (auto simp: ab brk_def w1_def split: if_splits)
  have "between_legs gm hosMax breakSec fromDepot [ab] w = (brk @ [m], w2)" using st br by (cases ?need) (simp_all add: ab brk_def w1_def)
  from between_legs_inv [OF assms Cons.prems(1) this] have inv: "trip_inv hosMax (pre @ brk @ [m]) w2" .
  have m: "pn_kind m = Between" "pn_drive m = ?drive" using st by (auto simp: stop_step_def Let_def split: prod.splits)
  have kb: "pn_kind lb = Break" using br by (auto simp: break_step_def Let_def)
  have cum: "tp_cum w = driven_from 0 pre" using Cons.prems(1) by (simp add: trip_inv_def)
  consider "?need" "p = []" "l = lb" "q = m # ls2" | "p = brk" "l = m" "q = ls2" | p' where "p = brk @ m # p'" "ls2 = p' @ l # q"
    using Cons.prems(3) res by (cases ?need) (auto simp: brk_def Cons_eq_append_conv)
  then show ?case
  proof cases
    case 1
    then show ?thesis using m cum by (simp add: needed_def needs_break_def)
  next
    case 2
    then show ?thesis using m by (simp add: needed_def)
  next
    case 3
    from Cons.IH [OF inv rest 3(2)] show ?thesis by (simp add: 3(1))
  qed
qed simp

lemma planned_legs_needed:
  assumes "0 < hosMax" and "planned_legs gm hosMax breakSec dep fromDepot stops order now = p @ l # q"
  shows "needed hosMax p l q"
proof -
  let ?w0 = "\<lparr>tp_curr = (now, False), tp_seq = 1, tp_cum = 0\<rparr>"
  have 0: "trip_inv hosMax [] ?w0" by (simp add: trip_inv_def driven_from_def)
  show ?thesis
  proof (cases dep)
    case None
    obtain ls w where b: "between_legs gm hosMax breakSec fromDepot (stop_pairs stops order) ?w0 = (ls, w)" by fastforce
    with assms(2) None have "ls = p @ l # q" by (simp add: planned_legs_def)
    from between_legs_needed [OF assms(1) 0 b this, of "[]"] show ?thesis by simp
  next
    case (Some d)
    obtain m w where dp: "depot_step gm d (stops ! hd order) ?w0 = (m, w)" by fastforce
    obtain ls w' where b: "between_legs gm hosMax breakSec fromDepot (stop_pairs stops order) w = (ls, w')" by fastforce
    define r where "r = return_step gm (stops ! last order) d w'"
    have k: "pn_kind m = FromDepot" "pn_kind r = ToDepot"
      using dp by (auto simp: depot_step_def return_step_def r_def Let_def split: prod.splits)
    have 1: "trip_inv hosMax ([] @ [m]) w"
      by (rule trip_inv_snoc [OF 0]) (use dp in \<open>auto simp: depot_step_def Let_def rested_def driven_from_def split: prod.splits\<close>)
    have all: "p @ l # q = m # ls @ [r]" using assms(2) Some dp b by (simp add: planned_legs_def r_def)
    consider "l = m" | "l = r" | p' q' where "p = m # p'" "ls = p' @ l # q'" "q = q' @ [r]"
    proof (cases q rule: rev_cases)
      case Nil
      with all have "l = r" by (cases p) auto
      then show ?thesis by (rule that)
    next
      case (snoc q' x)
      with all that show ?thesis by (cases p) auto
    qed
    then show ?thesis
    proof cases
      case 3
      from between_legs_needed [OF assms(1) 1 b 3(2), of "[r]"] show ?thesis by (simp add: 3)
    qed (use k in \<open>simp_all add: needed_def\<close>)
  qed
qed

text \<open>
  C12: With a driving limit the planner rests the driver. The legs are numbered from 1. Every leg between
  stops starts right after a break, is the first leg, or keeps the driving since the last break within the
  limit; and a break is only planned where the leg after it would have exceeded the limit.
\<close>

theorem planned_driving_is_rested:
  assumes "0 < hosMax"
  shows "map pn_seq (planned_legs gm hosMax breakSec dep fromDepot stops order now)
      = map (\<lambda>i. 1 + int i) [0..<length (planned_legs gm hosMax breakSec dep fromDepot stops order now)] \<and>
    (\<forall>p l q. planned_legs gm hosMax breakSec dep fromDepot stops order now = p @ l # q \<longrightarrow>
       (pn_kind l = Between \<longrightarrow> wrap64 (driven_from 0 p + pn_drive l) \<le> hosMax \<or> p = [] \<or> pn_kind (last p) = Break) \<and>
       (pn_kind l = Break \<longrightarrow> q \<noteq> [] \<and> pn_kind (hd q) = Between \<and> hosMax < wrap64 (driven_from 0 p + pn_drive (hd q))))"
proof -
  obtain w where "trip_inv hosMax (planned_legs gm hosMax breakSec dep fromDepot stops order now) w" using planned_legs_inv [OF assms] by blast
  with planned_legs_needed [OF assms] show ?thesis by (simp add: trip_inv_def rested_def needed_def)
qed

text \<open>In a world where all places are 12742 km apart, a limit of a million seconds allows one drive.\<close>

definition demo_far :: gomath where
  "demo_far = flat_math\<lparr>m_atan2 := (\<lambda>_ _. 1)\<rparr>"

lemma demo_far_drive: "\<exists>d. (\<forall>a b c e. drive_between demo_far a b c e = (12742000, d)) \<and> 910000 \<le> d \<and> d \<le> 981000"
proof -
  have r: "rnd_val 6371000 = 6371000" "rnd_val 2 = 2" "rnd_val 12742000 = 12742000"
    using rnd_val_of_int [of 6371000] rnd_val_of_int [of 2] rnd_val_of_int [of 12742000] by simp_all
  have h: "store_haversine demo_far a b c e = Fin 12742000" for a b c e
    by (simp add: store_haversine_def demo_far_def demo_math_def lit_def times_f64_def one_f64_def rnd_def r Let_def)
  define v :: rat where "v = rnd_val (125 / 9)"
  have v: "13 \<le> v" "v \<le> 14"
    using rnd_val_mono [of 13 "125 / 9"] rnd_val_mono [of "125 / 9" 14] rnd_val_of_int [of 13] rnd_val_of_int [of 14] by (simp_all add: v_def)
  define q where "q = rnd_val (12742000 / v)"
  have "910142 \<le> 12742000 / v" "12742000 / v \<le> 980154" using v by (simp_all add: field_simps)
  then have q: "910142 \<le> q" "q \<le> 980154"
    using rnd_val_mono [of 910142 "12742000 / v"] rnd_val_mono [of "12742000 / v" 980154] rnd_val_of_int [of 910142] rnd_val_of_int [of 980154]
    by (simp_all add: q_def)
  have "lit (125 / 9) = Fin v" using v by (simp add: lit_def rnd_def v_def [symmetric])
  moreover have "rnd (12742000 / v) = Fin q" using q by (simp add: rnd_def q_def [symmetric])
  ultimately have d: "f_of_int 12742000 / lit (125 / 9) = Fin q" using v by (simp add: divide_f64_def f_of_int_def rnd_def r)
  have half: "\<lfloor>25484001 / 2 :: rat\<rfloor> = 12742000" by (simp add: floor_eq_iff)
  have "drive_between demo_far a b c e = (12742000, \<lfloor>q + 1 / 2\<rfloor>)" for a b c e
    using q d by (simp add: drive_between_def h half f_to_int_def Let_def min_int_def max_int_def)
  moreover have "910000 \<le> \<lfloor>q + 1 / 2\<rfloor>" "\<lfloor>q + 1 / 2\<rfloor> \<le> 981000" using q by linarith+
  ultimately show ?thesis by blast
qed


theorem planned_driving_is_rested_witness:
  "\<exists>ls. ls = planned_legs demo_far 1000000 1800 None False [demo_stop ''a'', demo_stop ''b'', demo_stop ''c''] [0, 1, 2] 0 \<and>
    map pn_kind ls = [Between, Break, Between] \<and> map pn_seq ls = [1, 2, 3] \<and>
    1000000 < wrap64 (driven_from 0 [ls ! 0] + pn_drive (ls ! 2))"
proof -
  obtain d where d: "\<And>a b c e. drive_between demo_far a b c e = (12742000, d)" "910000 \<le> d" "d \<le> 981000"
    using demo_far_drive by blast
  define ls where "ls = planned_legs demo_far 1000000 1800 None False [demo_stop ''a'', demo_stop ''b'', demo_stop ''c''] [0, 1, 2] 0"
  have w: "wrap64 d = d" "wrap64 (2 * d) = 2 * d" using d(2,3) by (auto intro!: wrap64_id simp: min_int_def max_int_def)
  have k: "map pn_kind ls = [Between, Break, Between]"
    using d(2,3) by (simp add: ls_def planned_legs_def stop_pairs_def stop_step_def break_step_def needs_break_def Let_def d(1) w upt_rec)
  then obtain l1 l2 l3 where ls: "ls = [l1, l2, l3]" and k2: "pn_kind l2 = Break" by (auto simp: map_eq_Cons_conv)
  have "map pn_seq ls = map (\<lambda>i. 1 + int i) [0..<length ls] \<and> (ls = [l1] @ l2 # [l3] \<longrightarrow> 1000000 < wrap64 (driven_from 0 [l1] + pn_drive (hd [l3])))"
    using planned_driving_is_rested [of 1000000 demo_far 1800 None False "[demo_stop ''a'', demo_stop ''b'', demo_stop ''c'']" "[0, 1, 2]" 0,
      folded ls_def, OF zero_less_numeral] k2 by blast
  with k ls show ?thesis by (intro exI [of _ ls]) (simp add: ls_def upt_rec)
qed

section \<open>Times of arrival\<close>

text \<open>The times of the legs never go back, from \<open>a\<close> to \<open>b\<close>.\<close>

fun timeline :: "time \<Rightarrow> planned list \<Rightarrow> time \<Rightarrow> bool" where
  "timeline a [] b \<longleftrightarrow> a = b"
| "timeline a (l # ls) b \<longleftrightarrow> a \<le> fst (pn_arrive l) \<and> fst (pn_arrive l) \<le> fst (pn_depart l) \<and> timeline (fst (pn_depart l)) ls b"

lemma timeline_append: "timeline a (ls @ ls') c \<longleftrightarrow> (\<exists>b. timeline a ls b \<and> timeline b ls' c)"
  by (induction ls arbitrary: a) auto

text \<open>Seconds that are not negative and do not overflow as a \<^verbatim>\<open>time.Duration\<close>, about 292 years.\<close>

definition calm :: "int \<Rightarrow> bool" where
  "calm secs \<longleftrightarrow> 0 \<le> secs \<and> secs \<le> 9223372036"

lemma after_calm: "calm secs \<Longrightarrow> fst z \<le> fst (after_secs z secs)"
  by (simp add: after_secs_def calm_def wrap64_id min_int_def max_int_def)

lemma arrive_after: "fst z \<le> fst (arrive b z)"
  by (auto simp: arrive_def split: option.split)

text \<open>The stop a leg goes to is reached inside its window.\<close>

definition waits :: "plan_stop \<Rightarrow> planned \<Rightarrow> bool" where
  "waits b l \<longleftrightarrow> pn_to l = sp_ID b \<and> (\<forall>t. sp_Start b = Some t \<longrightarrow> t \<le> fst (pn_arrive l)) \<and> pn_depart l = after_secs (pn_arrive l) (sp_Svc b)"

lemma arrive_waits: "sp_Start b = Some t \<Longrightarrow> t \<le> fst (arrive b z)"
  by (simp add: arrive_def)

lemma between_legs_timeline:
  assumes "calm breakSec" and "\<forall>(a, b)\<in>set ps. calm (sp_Svc b)"
  shows "between_legs gm hosMax breakSec fromDepot ps w = (ls, w') \<Longrightarrow> \<forall>l\<in>set ls. calm (pn_drive l) \<Longrightarrow>
    timeline (fst (tp_curr w)) ls (fst (tp_curr w'))"
  using assms(2)
proof (induction ps arbitrary: w ls w')
  case (Cons ab ps)
  obtain a b where ab: "ab = (a, b)" by fastforce
  let ?need = "needs_break hosMax (snd (drive_between gm (sp_Lat a) (sp_Lng a) (sp_Lat b) (sp_Lng b))) w"
  obtain lb wb where br: "break_step breakSec w = (lb, wb)" by fastforce
  define brk where "brk = (if ?need then [lb] else [])"
  define w1 where "w1 = (if ?need then wb else w)"
  obtain m w2 where st: "stop_step gm fromDepot a b w1 = (m, w2)" by fastforce
  obtain ls2 w3 where rest: "between_legs gm hosMax breakSec fromDepot ps w2 = (ls2, w3)" by fastforce
  have res: "ls = brk @ m # ls2" "w' = w3" using Cons.prems(1) st br rest by (auto simp: ab brk_def w1_def split: if_splits)
  have 1: "timeline (fst (tp_curr w)) brk (fst (tp_curr w1))"
    using br after_calm [OF assms(1), of "tp_curr w"] by (auto simp: brk_def w1_def break_step_def Let_def)
  have "calm (pn_drive m)" "calm (sp_Svc b)" using Cons.prems(2,3) res by (auto simp: ab)
  with st have 2: "timeline (fst (tp_curr w1)) [m] (fst (tp_curr w2))"
    using after_calm [of "pn_drive m" "tp_curr w1"] arrive_after [of "after_secs (tp_curr w1) (pn_drive m)" b]
    by (auto simp: stop_step_def Let_def split: prod.splits intro!: after_calm)
  have 3: "timeline (fst (tp_curr w2)) ls2 (fst (tp_curr w3))" by (rule Cons.IH [OF rest]) (use Cons.prems(2,3) res in auto)
  from 1 2 3 show ?case by (auto simp: res timeline_append)
qed simp

lemma between_legs_visits:
  "between_legs gm hosMax breakSec fromDepot ps w = (ls, w') \<Longrightarrow>
   list_all2 (\<lambda>(a, b) l. pn_from l = sp_ID a \<and> waits b l) ps (filter (\<lambda>l. pn_kind l = Between) ls) \<and> set (map pn_kind ls) \<subseteq> {Between, Break}"
proof (induction ps arbitrary: w ls w')
  case (Cons ab ps)
  obtain a b where ab: "ab = (a, b)" by fastforce
  let ?need = "needs_break hosMax (snd (drive_between gm (sp_Lat a) (sp_Lng a) (sp_Lat b) (sp_Lng b))) w"
  obtain lb wb where br: "break_step breakSec w = (lb, wb)" by fastforce
  define brk where "brk = (if ?need then [lb] else [])"
  define w1 where "w1 = (if ?need then wb else w)"
  obtain m w2 where st: "stop_step gm fromDepot a b w1 = (m, w2)" by fastforce
  obtain ls2 w3 where rest: "between_legs gm hosMax breakSec fromDepot ps w2 = (ls2, w3)" by fastforce
  have res: "ls = brk @ m # ls2" using Cons.prems st br rest by (auto simp: ab brk_def w1_def split: if_splits)
  have "\<forall>l\<in>set brk. pn_kind l = Break" using br by (auto simp: brk_def break_step_def Let_def)
  moreover have "pn_kind m = Between \<and> pn_from m = sp_ID a \<and> waits b m"
    using st by (auto simp: waits_def stop_step_def Let_def split: prod.splits intro!: arrive_waits)
  ultimately show ?case using Cons.IH [OF rest] by (auto simp: res ab filter_empty_conv)
qed simp


lemma between_legs_pending:
  "1 < tp_seq w \<Longrightarrow> between_legs gm hosMax breakSec fromDepot ps w = (ls, w') \<Longrightarrow> \<forall>l\<in>set ls. pn_status l = ''pending''"
proof (induction ps arbitrary: w ls w')
  case (Cons ab ps)
  obtain a b where ab: "ab = (a, b)" by fastforce
  let ?need = "needs_break hosMax (snd (drive_between gm (sp_Lat a) (sp_Lng a) (sp_Lat b) (sp_Lng b))) w"
  obtain lb wb where br: "break_step breakSec w = (lb, wb)" by fastforce
  define w1 where "w1 = (if ?need then wb else w)"
  obtain m w2 where st: "stop_step gm fromDepot a b w1 = (m, w2)" by fastforce
  obtain ls2 w3 where rest: "between_legs gm hosMax breakSec fromDepot ps w2 = (ls2, w3)" by fastforce
  have res: "ls = (if ?need then [lb] else []) @ m # ls2" using Cons.prems(2) st br rest by (auto simp: ab w1_def split: if_splits)
  have lb: "pn_status lb = ''pending''" and w1: "1 < tp_seq w1" using br Cons.prems(1) by (auto simp: w1_def break_step_def Let_def)
  with st have m: "pn_status m = ''pending''" and w2: "1 < tp_seq w2" by (auto simp: stop_step_def Let_def split: prod.splits)
  show ?case using Cons.IH [OF w2 rest] lb m by (auto simp: res)
qed simp

text \<open>The first leg, and only it, is in progress.\<close>

definition started :: "planned list \<Rightarrow> bool" where
  "started ls \<longleftrightarrow> (case ls of [] \<Rightarrow> True | l # ls \<Rightarrow> pn_status l = ''in_progress'' \<and> (\<forall>m\<in>set ls. pn_status m = ''pending''))"

lemma between_legs_started:
  assumes "tp_seq w = 1" and "between_legs gm hosMax breakSec False ps w = (ls, w')"
  shows "started ls"
proof (cases ps)
  case (Cons ab qs)
  obtain a b where ab: "ab = (a, b)" by fastforce
  obtain m w2 where st: "stop_step gm False a b w = (m, w2)" by fastforce
  obtain ls2 w3 where rest: "between_legs gm hosMax breakSec False qs w2 = (ls2, w3)" by fastforce
  have "ls = m # ls2" using assms Cons st rest by (simp add: ab needs_break_def)
  moreover have "pn_status m = ''in_progress''" "1 < tp_seq w2" using st assms(1) by (auto simp: stop_step_def Let_def split: prod.splits)
  ultimately show ?thesis using between_legs_pending [OF _ rest] by (simp add: started_def)
qed (use assms(2) in \<open>simp add: started_def\<close>)

lemma stop_pairs_in: "order \<noteq> [] \<Longrightarrow> \<forall>i\<in>set order. P (stops ! i) \<Longrightarrow> \<forall>(a, b)\<in>set (stop_pairs stops order). P b"
  by (auto simp: stop_pairs_def)

text \<open>
  C13: The legs follow the order of the stops and the clock. There is one leg for each pair of consecutive
  stops, in their order, that waits for the window of its stop and stays for its service time. The
  first leg, and only it, is in progress. If the length of a break, the service times and the driving times are not negative and
  none of them overflows a \<^verbatim>\<open>time.Duration\<close>, no leg starts before the one before it is over. (The order is not empty, as
  that of a cluster, and without a depot the trip does not start at one, as the planner has it.)
\<close>

theorem planned_legs_timeline:
  assumes "order \<noteq> []" and "dep = None \<longrightarrow> \<not> fromDepot"
  shows "list_all2 (\<lambda>(a, b) l. pn_from l = sp_ID a \<and> waits b l) (stop_pairs stops order)
      (filter (\<lambda>l. pn_kind l = Between) (planned_legs gm hosMax breakSec dep fromDepot stops order now)) \<and>
    started (planned_legs gm hosMax breakSec dep fromDepot stops order now) \<and>
    (calm breakSec \<and> (\<forall>i\<in>set order. calm (sp_Svc (stops ! i))) \<and>
      (\<forall>l\<in>set (planned_legs gm hosMax breakSec dep fromDepot stops order now). calm (pn_drive l)) \<longrightarrow>
      (\<exists>t. timeline now (planned_legs gm hosMax breakSec dep fromDepot stops order now) t))"
proof -
  let ?w0 = "\<lparr>tp_curr = (now, False), tp_seq = 1, tp_cum = 0\<rparr>"
  let ?legs = "planned_legs gm hosMax breakSec dep fromDepot stops order now"
  let ?calm = "calm breakSec \<and> (\<forall>i\<in>set order. calm (sp_Svc (stops ! i))) \<and> (\<forall>l\<in>set ?legs. calm (pn_drive l))"
  have svc: "\<forall>(a, b)\<in>set (stop_pairs stops order). calm (sp_Svc b)" if ?calm by (rule stop_pairs_in [OF assms(1)]) (use that in blast)
  show ?thesis
  proof (cases dep)
    case None
    obtain ls w where b: "between_legs gm hosMax breakSec fromDepot (stop_pairs stops order) ?w0 = (ls, w)" by fastforce
    with None have legs: "?legs = ls" by (simp add: planned_legs_def)
    have "timeline (fst (tp_curr ?w0)) ls (fst (tp_curr w))" if c: ?calm
      by (rule between_legs_timeline [OF conjunct1 [OF c] svc [OF c] b]) (use c legs in simp)
    moreover have "started ls" by (rule between_legs_started [of ?w0]) (use b assms(2) None in auto)
    ultimately show ?thesis using between_legs_visits [OF b] unfolding legs by auto
  next
    case (Some d)
    obtain m w where dp: "depot_step gm d (stops ! hd order) ?w0 = (m, w)" by fastforce
    obtain ls w' where b: "between_legs gm hosMax breakSec fromDepot (stop_pairs stops order) w = (ls, w')" by fastforce
    define r where "r = return_step gm (stops ! last order) d w'"
    have legs: "?legs = m # ls @ [r]" using Some dp b by (simp add: planned_legs_def r_def)
    have ks: "pn_kind m = FromDepot" "pn_kind r = ToDepot" "pn_status m = ''in_progress''" "pn_status r = ''pending''" "1 < tp_seq w"
      using dp by (auto simp: depot_step_def return_step_def r_def Let_def split: prod.splits)
    have "timeline now ?legs (fst (pn_depart r))" if calm: ?calm
    proof -
      have c: "calm (pn_drive m)" "calm (pn_drive r)" "\<forall>l\<in>set ls. calm (pn_drive l)" "calm (sp_Svc (stops ! hd order))"
        using assms(1) calm unfolding legs by auto
      have 1: "timeline now [m] (fst (tp_curr w))"
        using dp c(1,4) after_calm [of "pn_drive m" "(now, False)"] arrive_after [of "after_secs (now, False) (pn_drive m)" "stops ! hd order"]
        by (auto simp: depot_step_def Let_def split: prod.splits intro!: after_calm)
      have 2: "timeline (fst (tp_curr w)) ls (fst (tp_curr w'))" by (rule between_legs_timeline [OF conjunct1 [OF calm] svc [OF calm] b c(3)])
      have 3: "timeline (fst (tp_curr w')) [r] (fst (pn_depart r))"
        using c(2) by (auto simp: r_def return_step_def Let_def split: prod.splits intro!: after_calm)
      show ?thesis using 1 2 3 by (auto simp: legs timeline_append)
    qed
    moreover have "started ?legs" using between_legs_pending [OF ks(5) b] ks by (simp add: started_def legs)
    ultimately show ?thesis using between_legs_visits [OF b] ks by (auto simp: legs)
  qed
qed

theorem planned_legs_timeline_witness:
  "\<exists>ls t. ls = planned_legs demo_far 1000000 1800 None False [demo_stop ''a'', demo_stop ''b''] [0, 1] 0 \<and> timeline 0 ls t \<and> started ls \<and>
    map pn_to ls = [''b'']"
proof -
  obtain d where d: "\<And>a b c e. drive_between demo_far a b c e = (12742000, d)" "910000 \<le> d" "d \<le> 981000"
    using demo_far_drive by blast
  define ls where "ls = planned_legs demo_far 1000000 1800 None False [demo_stop ''a'', demo_stop ''b''] [0, 1] 0"
  have ls: "map pn_drive ls = [d]" "map pn_to ls = [''b'']"
    by (simp_all add: ls_def planned_legs_def stop_pairs_def stop_step_def needs_break_def Let_def d(1) demo_stop_def)
  then have calm: "\<forall>l\<in>set ls. calm (pn_drive l)" using d(2,3) by (auto simp: calm_def)
  then obtain t where "timeline 0 ls t" "started ls"
    using planned_legs_timeline [of "[0, 1]" None False "[demo_stop ''a'', demo_stop ''b'']" demo_far 1000000 1800 0, folded ls_def] calm
    by (auto simp: calm_def demo_stop_def)
  then show ?thesis unfolding ls_def [symmetric] by (intro exI [of _ ls] exI [of _ t]) (simp add: ls(2))
qed

section \<open>The planner returns\<close>

text \<open>
  C19: \<^verbatim>\<open>PlanRoutes\<close> returns. With the greedy planner it always does; with the optimizer it does for
  a request that has a limit of iterations and switches regret insertion off, if the random numbers are
  in their ranges.
\<close>

theorem plan_returns:
  fixes R :: "'r rng"
  assumes "lib_lower (pe_lib E) (or_Algorithm req) \<noteq> ''alns'' \<or>
    rng_ok R \<and> map_order_ok iter \<and> (\<forall>r. unit_float (fst (rg_Float64 R r))) \<and>
    (\<exists>w. or_InsertionWeights req = [w, 0] \<and> f_finite w) \<and> 0 < or_MaxIterations req"
  shows "\<exists>r. fst (run_state (pg_PlanRoutes E R mk iter clock req) s) = Some r"
proof -
  have solver: "\<exists>best m. Solve (pe_math E) R mk iter clock (plan_problem req hosMax breakSec vehicles nodes) 0 budget = Some (best, m)"
    if "lib_lower (pe_lib E) (or_Algorithm req) = ''alns''" for hosMax breakSec vehicles nodes budget
  proof -
    from assms that obtain w where a: "rng_ok R" "map_order_ok iter" "\<forall>r. unit_float (fst (rg_Float64 R r))"
      "or_InsertionWeights req = [w, 0]" "f_finite w" "0 < or_MaxIterations req" by blast
    show ?thesis using Solve_greedy_returns [OF a(1-3) _ a(5), of "plan_problem req hosMax breakSec vehicles nodes"] a(4,6)
      by (fastforce simp: plan_problem_def)
  qed
  have "\<exists>r. fst (run_state (alns_plan E (Solve (pe_math E) R mk iter clock) req depots stops) s) = Some r"
    if "lib_lower (pe_lib E) (or_Algorithm req) = ''alns''" for depots stops s
    using solver [OF that] by (auto simp: alns_plan_def Let_def split_beta split: option.split)
  then show ?thesis by (auto simp: pg_PlanRoutes_def plan_routes_def Let_def split_beta split: sum.split)
qed


text \<open>A request for three iterations of the optimizer, without regret insertion.\<close>

definition demo_optimize :: optimize_request where
  "demo_optimize = \<lparr>or_TenantID = ''t1'', or_PlanDate = ''day'', or_Algorithm = ''ALNS'', or_TimeBudgetMs = 0,
     or_MaxIterations = 3, or_InitTemp = 0, or_Cooling = 0, or_RemovalWeights = [], or_InsertionWeights = [1, 0],
     or_VehiclePool = [], or_Depots = [], or_IncludeOrders = [], or_Constraints = None, or_Objectives = None, or_Reoptimize = False, or_Freeze = None\<rparr>"

theorem plan_returns_witness:
  "lib_lower demo_go (or_Algorithm demo_optimize) = ''alns'' \<and>
   (\<exists>r. fst (run_state (pg_PlanRoutes demo_flat demo_rng (\<lambda>_. ()) id (\<lambda>n. 0) demo_optimize) demo_pg) = Some r)"
proof -
  have lower: "map ascii_lower ''ALNS'' = ''alns''" by code_simp
  show ?thesis
  using lower plan_returns [of demo_flat demo_optimize demo_rng id "\<lambda>_. ()" "\<lambda>n. 0" demo_pg] demo_rng_ok demo_order_ok demo_rng_unit finite_one(1)
    by (simp add: demo_optimize_def demo_go_def)
qed

end
