(* ===== verification/Pg_Server.thy ===== *)
theory Pg_Server
  imports Api_Properties Store_Postgres Pg_Plan_Properties
begin

text \<open>
  The server over the Postgres store: started as \<^verbatim>\<open>NewServer\<close> does it with a database in the
  environment, then serving requests, streams and websockets. What \<open>Api_System\<close> proves from the contract of a store
  holds here too, by the interpretation of \<open>Store_Postgres\<close>.
\<close>

section \<open>The running server\<close>

lemma NewServer_postgres:
  assumes "NewServer L env memory open' ParseURL = Inr (Some sv)" and "trim_space (env ''DATABASE_URL'') \<noteq> ''''"
  shows "open' (env ''DATABASE_URL'') (env ''DB_MIGRATE'' \<noteq> ''false'') = Inr (sv_store sv) \<and> sv_broker sv = NewBroker"
  using assms by (auto simp: NewServer_def Let_def split: sum.splits if_splits)

text \<open>
  C2: The server is safe over the Postgres store too, whatever the database answers to any statement. It is
  started with a database in the environment. Then whatever requests, streams, websockets and
  disconnections it sees, in whatever interleaving: between two steps no transaction is open, the broker is
  well-formed, every open stream and every subscription of a websocket has a channel that is registered under its route, no two
  streams share one, and no channel was ever closed twice or written to after it was closed.
\<close>

theorem postgres_server_safe:
  assumes "NewServer L env memory (open_postgres txt' Q F opened s) ParseURL = Inr (Some sv0)" and "trim_space (env ''DATABASE_URL'') \<noteq> ''''"
    and "\<not> pg_tx s" and "en_M E = postgres_store txt' Q solve" and "env_typed E"
    and "sys_reachable E (\<lambda>_ _. True) (sv_store sv0) sy"
  shows "\<not> pg_tx (sv_store (sy_server sy)) \<and> broker_inv (sv_broker (sy_server sy)) \<and>
    distinct (map (\<lambda>sm. (sm_route sm, sm_chan sm)) (sy_streams sy)) \<and>
    (\<forall>sm\<in>set (sy_streams sy). subscribed (sv_broker (sy_server sy)) (sm_route sm) (sm_chan sm)) \<and>
    (\<forall>c\<in>set (sy_sockets sy). \<forall>k rid ch. wc_subs c k = Some (rid, ch) \<longrightarrow> subscribed (sv_broker (sy_server sy)) rid ch) \<and>
    sy_panics sy = []"
proof -
  have "idle s" using assms(3) by (simp add: idle_def)
  with NewServer_postgres [OF assms(1,2)] have "idle (sv_store sv0)" using idle_open by blast
  then have i: "sys_inv idle sy" by (rule pgc.sys_inv_reachable [OF assms(4,5) _ assms(6)])
  then have "\<not> pg_tx (sv_store (sy_server sy))" by (simp add: sys_inv_def idle_def)
  with sys_inv_connected [OF i] show ?thesis by (simp add: connected_def)
qed

section \<open>A server to evaluate\<close>

definition empty_driver :: "log_db driver" where
  "empty_driver = log_driver (\<lambda>_ _. []) (\<lambda>_. False)"

definition pg_demo_env :: "log_db pg env" where
  "pg_demo_env = \<lparr>en_M = postgres_store (\<lambda>_. ''failed'') (demo_pg_env empty_driver) (\<lambda>_ _ _ _. None), en_L = demo_lib, en_J = demo_codec, en_ping = None,
     en_registry = pg_registry, en_upgrade = (\<lambda>_. None), en_ReadFile = (\<lambda>_. Inr ''''),
     en_metrics = (\<lambda>_. \<lparr>rs_Status = 200, rs_Header = [], rs_Body = NoBody\<rparr>)\<rparr>"

lemma pg_demo_typed: "env_typed pg_demo_env"
  by (simp add: env_typed_def pg_demo_env_def typed_response_def)

definition demo_variables :: "string \<Rightarrow> string" where
  "demo_variables k = (if k = ''DATABASE_URL'' then ''db'' else if k = ''DB_MIGRATE'' then ''false'' else '''')"

definition pg_demo_server :: "log_db pg server" where
  "pg_demo_server = \<lparr>sv_store = demo_pg, sv_broker = NewBroker, sv_auth = Some (NewVerifierFromEnv demo_lib demo_variables)\<rparr>"

lemma trim_db: "trim_space ''db'' = ''db''"
  by code_simp

lemma pg_demo_start:
  "NewServer demo_lib demo_variables memory (open_postgres (\<lambda>_. ''failed'') (demo_pg_env empty_driver) F (\<lambda>_. None) demo_pg) ParseURL = Inr (Some pg_demo_server)"
  by (simp add: trim_db NewServer_def demo_variables_def open_postgres_def NewPostgres_def Ping_def empty_driver_def log_driver_def pg_demo_server_def Let_def)

text \<open>After a request for a route that the database does not have: 404, and no transaction is open.\<close>

lemma pg_demo_missing:
  "serve pg_demo_env demo_draws missing_route pg_demo_server = (pg_demo_server, writeProblem 404 ''Route not found'' ''not found'' (hr_Path missing_route))"
proof -
  have p: "hr_Path missing_route = route_path ''r0'' ''''" "hr_Method missing_route = ''GET''"
    by (simp_all add: missing_route_def demo_request_def)
  have "run_state (pg_GetRoute (demo_pg_env empty_driver) t k) s = (Inl NotFound, s)" for t k s
    by (simp add: pg_GetRoute_def read_route_def query_row_def run_query_def scan_first_def empty_driver_def log_driver_def)
  then have "get_route pg_demo_env missing_route ''r0'' pg_demo_server =
      (pg_demo_server, writeProblem 404 ''Route not found'' ''not found'' (hr_Path missing_route))"
    by (simp add: get_route_def on_result_def on_store_def pg_demo_env_def postgres_store_def pg_method_def result_outcome_def go_error_of_def
        error_text_def pg_demo_server_def)
  moreover have "serve pg_demo_env demo_draws missing_route pg_demo_server = RouteByIDHandler pg_demo_env demo_draws missing_route pg_demo_server"
    by (rule serve_route [of "''r0''"]) (simp_all add: p route_path_def clean_path_def)
  moreover have "\<dots> = get_route pg_demo_env missing_route ''r0'' pg_demo_server"
    using RouteByID_branches(4) [of "''r0''" missing_route pg_demo_env demo_draws pg_demo_server] p by simp
  ultimately show ?thesis by simp
qed

lemma pg_demo_reachable: "sys_reachable pg_demo_env (\<lambda>_ _. True) (sv_store pg_demo_server) (sys_start pg_demo_server)"
proof -
  have s: "sys_reachable pg_demo_env (\<lambda>_ _. True) (sv_store pg_demo_server) (sys_start pg_demo_server)"
    by (rule sys_reachable.start) (simp_all add: pg_demo_server_def)
  obtain rs where rs: "writeProblem 404 ''Route not found'' ''not found'' (hr_Path missing_route) = Reply rs"
    by (simp add: writeProblem_def writeJSON_def)
  have "sys_step pg_demo_env (\<lambda>_ _. True) (sys_start pg_demo_server) (sys_start pg_demo_server\<lparr>sy_server := pg_demo_server\<rparr>)"
    by (rule sys_step.replied [of _ demo_draws missing_route _ _ rs]) (simp_all add: sys_start_def pg_demo_missing rs)
  with s have "sys_reachable pg_demo_env (\<lambda>_ _. True) (sv_store pg_demo_server) (sys_start pg_demo_server\<lparr>sy_server := pg_demo_server\<rparr>)"
    by (rule sys_reachable.step)
  then show ?thesis by (simp add: sys_start_def)
qed

theorem postgres_server_safe_witness:
  "\<not> pg_tx (sv_store (sy_server (sys_start pg_demo_server))) \<and> broker_inv (sv_broker (sy_server (sys_start pg_demo_server)))"
  using postgres_server_safe [OF pg_demo_start _ _ _ pg_demo_typed pg_demo_reachable, of "\<lambda>_ _ _ _. None"]
  by (simp add: pg_demo_env_def demo_pg_def demo_variables_def trim_db)

end
