(* ===== verification/Spec2Isabelle.thy ===== *)
theory Spec2Isabelle
  imports Store_Properties Planner_Properties Http_Properties Ws_Client Integrations Pg_Server
begin

text \<open>
  A model in Isabelle/HOL of gpsnav, a Go service that plans delivery routes, tracks their execution,
  streams events to its clients and notifies subscribers by signed webhooks. This header describes the
  model; the theories carry the details.

  \<^bold>\<open>The program and its parts.\<close> \<^verbatim>\<open>cmd/api/main.go\<close> puts a mux behind a chain of middleware. Its
  handlers (\<^verbatim>\<open>internal/api\<close>) find out who asks (\<^verbatim>\<open>internal/auth\<close>), call a store
  (\<^verbatim>\<open>internal/store\<close>: an in-memory implementation \<^verbatim>\<open>memory.go\<close> and a Postgres one behind one
  interface), publish events to a broker that feeds event streams and websockets, and emit webhooks
  (\<^verbatim>\<open>internal/webhooks\<close>: a publisher that enqueues one delivery per subscription, and a worker that
  sends due deliveries and schedules retries, both through the store). The optimizer
  (\<^verbatim>\<open>internal/opt\<close>) plans routes and keeps a registry of metrics.

  \<^bold>\<open>Prelude.\<close> \<open>Go_Prelude\<close>: errors, run-time panics, 64-bit integers, time, decimal text.
  \<open>Go_Float\<close>: binary64 numbers with round-to-nearest-even, and the order lemmas the searches
  need. \<open>Model_Types\<close>: the structs of \<^verbatim>\<open>model/types.go\<close> and \<^verbatim>\<open>store/delivery.go\<close> as records.

  \<^bold>\<open>In-memory store\<close> (\<^verbatim>\<open>internal/store/memory.go\<close>). \<open>Memory_State\<close> is the struct
  \<^verbatim>\<open>Memory\<close>: a record whose maps are HOL maps; the mutex makes every method one step, so methods
  are functions on the record. One theory for each group of methods: \<open>Memory_Orders\<close>,
  \<open>Memory_Subscriptions\<close>, \<open>Memory_Geofences\<close>, \<open>Memory_Routes\<close>, \<open>Memory_Hos\<close>, \<open>Memory_Plans\<close>,
  \<open>Memory_Deliveries\<close>. A definition \<open>mem_X\<close> is the method \<^verbatim>\<open>X\<close>; loops are functions of their own.
  Shared by the groups: \<open>Tenant_Index\<close> (a table and each tenant's list of ids agree; used for
  orders, geofences, routes and deliveries) and \<open>Paging\<close> (the cursor loops of the listings, with the theorem
  that a client following the cursors sees exactly the matching entries). \<open>Memory_Store\<close> has all
  methods that write as one step relation (\<open>mem_step\<close>), the reachable states, and the invariant.
  Locales state what clients rely on: \<open>geofence_store\<close> (each tenant's geofences are a map of its own),
  \<open>delivery_queue\<close> (what the worker needs of the queue).

  \<^bold>\<open>Webhooks\<close> (\<^verbatim>\<open>internal/webhooks\<close>). \<open>Webhooks\<close>: \<^verbatim>\<open>SignHMAC\<close> and \<^verbatim>\<open>VerifyHMAC\<close>
  (\<^verbatim>\<open>signature.go\<close>), \<^verbatim>\<open>nextBackoff\<close>, \<^verbatim>\<open>processOnce\<close> and runs of its ticks (\<^verbatim>\<open>worker.go\<close>)
  over any \<open>delivery_queue\<close>, interpreted for the in-memory store. \<open>Publisher\<close>: \<^verbatim>\<open>Emit\<close>
  (\<^verbatim>\<open>publisher.go\<close>).

  \<^bold>\<open>Optimizer\<close> (\<^verbatim>\<open>internal/opt\<close>). \<open>Opt_Types\<close>, \<open>Opt_Eval\<close> (distances, schedules,
  capacities, costs), \<open>Opt_Seed\<close> (\<^verbatim>\<open>greedySeed\<close>), \<open>Opt_Repair\<close> (removal and insertion operators,
  the roulette wheel), \<open>Opt_Descent\<close> (the loop of every local search, with the locale \<open>improvement\<close>
  that makes it end), \<open>Opt_Two_Opt\<close>, \<open>Opt_Exchange\<close> (cross exchange and 2-opt*, one locale
  \<open>exchange_operator\<close> with two interpretations), \<open>Opt_Or_Opt\<close>, \<open>Opt_Solve\<close> (\<^verbatim>\<open>Solve\<close>),
  \<open>Opt_Heuristics\<close> (\<^verbatim>\<open>heuristics.go\<close>, \<^verbatim>\<open>alns.go\<close>, \<^verbatim>\<open>metrics_store.go\<close>).

  \<^bold>\<open>Interface of the store.\<close> \<open>Store_Interface\<close>: \<^verbatim>\<open>store.go\<close> as a record of methods and the locale
  \<open>store_contract\<close> (every method keeps a predicate on the state, no method panics on a channel). \<open>Store_Memory\<close> fills
  the record with the operations above and interprets the locale.

  \<^bold>\<open>Postgres store\<close> (\<^verbatim>\<open>internal/store/postgres.go\<close>). \<open>Sql_Library\<close>: values, arguments, errors and
  \<^verbatim>\<open>Scan\<close> of \<^verbatim>\<open>database/sql\<close> with the conversions the program meets. \<open>Pg_State\<close>: a call is a state
  transformer over the driver's database, the clock and the identifiers drawn so far, in HOL's state monad; statements run in the pool or in
  the open transaction; \<open>preserves\<close> and its introduction rules say what a call leaves alone. One theory for each group of
  methods, where \<open>pg_X\<close> is the method \<^verbatim>\<open>X\<close> and \<open>sql_x\<close> the text of a statement: \<open>Pg_Orders\<close> (with events and proofs of
  delivery), \<open>Pg_Routes\<close>, \<open>Pg_Webhooks\<close> (subscriptions, queue, metrics, dead letters), \<open>Pg_Settings\<close> (hours of service,
  geofences, plan metrics, configuration, migrations), \<open>Pg_Advance\<close> (\<^verbatim>\<open>AdvanceRoute\<close>: the policy checks and the
  transaction), and \<^verbatim>\<open>PlanRoutes\<close> in three: \<open>Pg_Clusters\<close> (seeds, clusters, nearest neighbour), \<open>Pg_Legs\<close> (the legs as
  pure steps over the state of a trip, and the calls that write them; both planners of the source have a copy of this code) and
  \<open>Pg_Planner\<close> (the two planners and what they read). PostgreSQL and its driver are one parameter, \<open>driver\<close>: a database state with a
  query, a statement, and begin, commit and rollback. Hypotheses on it are named: \<open>transactional\<close> (what is done in a transaction is
  seen by others only after the commit), \<open>legs_apart\<close> (a query, or an insert of an event or a delivery, does not change the legs),
  \<open>subscription_key\<close> (no delivery is stored for a subscription that does not exist, as migration 005 declares), \<open>log_driver\<close> (a driver that
  logs the statements it was given). \<open>Store_Postgres\<close> fills the
  record of the interface with these operations and interprets \<open>store_contract\<close> again; \<open>Pg_Server\<close> is the server over it, started as
  \<^verbatim>\<open>NewServer\<close> starts it.

  \<^bold>\<open>HTTP side\<close> (\<^verbatim>\<open>internal/api\<close>, \<^verbatim>\<open>internal/auth\<close>, \<^verbatim>\<open>cmd/api\<close>). \<open>Go_Library\<close>: the
  functions of the standard library on byte strings (prefixes, splitting, \<^verbatim>\<open>Sscanf\<close>, base64), and the record of
  those that stay parameters. \<open>Broker\<close> (\<^verbatim>\<open>broker.go\<close>, with the locale \<open>event_broker\<close>) and \<open>Redis_Broker\<close>
  (\<^verbatim>\<open>broker_redis.go\<close>). \<open>Auth\<close> (\<^verbatim>\<open>verifier.go\<close>). \<open>Api_Types\<close>: requests, replies, the server's state, its
  environment; a handler is a function from request and state to new state and reply. \<open>Api_Access\<close>
  (\<^verbatim>\<open>auth.go\<close>, \<^verbatim>\<open>validate.go\<close>), \<open>Api_Handlers\<close>, \<open>Api_Routes\<close>, \<open>Api_Admin\<close> (\<^verbatim>\<open>handlers.go\<close>,
  \<^verbatim>\<open>docs.go\<close>), \<open>Api_Graphql\<close> (\<^verbatim>\<open>graphql_http.go\<close>, \<^verbatim>\<open>graphql_ws.go\<close>), \<open>Http_Metrics\<close>
  (\<^verbatim>\<open>internal/metrics\<close>: the collectors, their registration, what is recorded), \<open>Http_Server\<close> (\<^verbatim>\<open>main.go\<close>:
  mux, middleware, start of the process; \<^verbatim>\<open>NewServer\<close>). On top of them: \<open>Api_Safety\<close> (what every handler guarantees over a store that keeps its
  contract), \<open>Api_Streams\<close> (who gets a stream), \<open>Api_Policy\<close> (who is refused), \<open>Api_System\<close> (the running server as a step
  relation: requests, turns of streams and websockets, disconnections, in any interleaving), \<open>Http_Properties\<close>
  (log and counters agree with the answers, from the start of the process on). \<open>Ws_Client\<close>: the test client
  \<^verbatim>\<open>scripts/ws_client.go\<close>, over any network and over this server. \<open>Integrations\<close>: the adapters of
  \<^verbatim>\<open>internal/integrations\<close>.

  \<^bold>\<open>Properties.\<close> \<open>Api_Properties\<close> and \<open>Http_Properties\<close> (the HTTP side, with the concrete parameters of \<open>Api_Demo\<close>), \<open>Store_Properties\<close>
  (in-memory store and webhooks), \<open>Pg_Properties\<close>, \<open>Pg_Plan_Properties\<close> and \<open>Pg_Server\<close> (Postgres store), this theory (across publisher, queue and worker), \<open>Planner_Properties\<close> (optimizer). Each is marked with
  its claim number. A property with a hypothesis is followed by a witness: the property applied to a
  concrete input that meets the hypotheses.

  \<^bold>\<open>Loops, bounds and termination.\<close> Loops over slices are structural recursion or folds. The outer
  loop of \<^verbatim>\<open>greedySeed\<close> and the insertion loops are functions with a measure (unassigned nodes, nodes
  left to insert). Loops that may not end are \<open>partial_function (option)\<close>, and \<open>None\<close> means that
  they do not return: the local searches (shown to return, because every accepted change lowers a
  rounded sum of distances and there are finitely many plans), \<^verbatim>\<open>orOptLocalImprove\<close> (shown not to
  return when a plan has two nodes), and \<^verbatim>\<open>Solve\<close> (both cases). The loops of the Postgres planner that pick seeds and the
  next stop have measures (candidates left); its \<^verbatim>\<open>PlanRoutes\<close> returns \<open>None\<close> exactly when \<^verbatim>\<open>Solve\<close> does not return. The client that follows page
  cursors has fuel, the number of calls it may make; the listing properties give the number that is enough (the
  length of the list plus one). Integers of the store are 64-bit where a sum may overflow.

  \<^bold>\<open>Parameters.\<close> What is not in the repository is an argument: HMAC-SHA256, SHA-256 and RSA verification,
  the HTTP transport and the URL parser, PostgreSQL and its driver, the tree of migration files, the text of JSON and of times, Unicode case mapping, the clock, drawn UUIDs, the random
  source, Go's order of ranging over a map, the websocket, Redis, rate-limit and Prometheus libraries, and sine, cosine, square root, arc
  tangent and exponential. Hypotheses on them are what their documentation says: drawn ids are fresh, \<^verbatim>\<open>Intn\<close> is below its
  bound, \<^verbatim>\<open>Float64\<close> is in the unit interval, a map is ranged over in some order, a websocket is not established on a writer
  that cannot be taken over, a counter counts each combination of label values (\<open>counter_laws\<close>).

  \<^bold>\<open>Platform.\<close> 64-bit \<^verbatim>\<open>int\<close>, no fused multiply-add (amd64), one zero.

  \<^bold>\<open>Not modelled.\<close> What an SQL statement does (the store sends its text and arguments to the driver and reads the rows that come back), the closing of
  row sets, contexts and time-outs, the text of log lines, the exposition of the metrics, the listening socket, the Redis client, read limits and deadlines of
  websockets; the server that runs in \<open>Api_System\<close> uses the in-process broker, the one over Redis is a component of its own. Goroutines of the modelled parts appear as sequences of atomic steps; a handler other than a stream or a websocket
  is one step: what other requests do between two calls of the store in one handler is not modelled (each call alone keeps the
  invariants, by the contract of the store).
\<close>

section \<open>From publisher to receiver\<close>

text \<open>
  C32: end to end, an emitted event arrives signed: the request the worker builds for a delivery
  that \<^verbatim>\<open>Emit\<close> enqueued for a subscription with a secret goes to the subscription's URL, carries
  the event's type and body, and its signature passes \<^verbatim>\<open>VerifyHMAC\<close> with that secret.
\<close>

theorem emitted_requests_verify:
  assumes "mem_reachable m" and "fresh_draws m draws 0 (length (filter (subscribes ev) (subs m t)))"
    and "s \<in> set (subs m t)" and "ev \<in> set (sub_Events s)" and "sub_Secret s \<noteq> ''''"
  shows "\<exists>k wd sig. delivery_view (Emit memory_publish_store marshal fmt now draws m t ev data) k = Some wd \<and>
    live_status (wd_Status wd) \<and> wd_Attempts wd = 0 \<and>
    build_request w wd = \<lparr>rq_URL = sub_URL s, rq_Body = marshal (emit_payload fmt now t ev data),
      rq_ContentType = ''application/json'', rq_Signature = Some sig, rq_EventType = Some ev\<rparr> \<and>
    VerifyHMAC (w_hmac w) (sub_Secret s) (marshal (emit_payload fmt now t ev data)) sig"
proof -
  define ss where "ss = filter (subscribes ev) (subs m t)"
  have inv: "deliveries_inv m" using mem_reachable_inv [OF assms(1)] by (simp add: store_inv_def)
  have "s \<in> set ss" using assms(3,4) by (simp add: ss_def subscribes_iff)
  then obtain j where j: "j < length ss" "ss ! j = s" by (meson in_set_conv_nth)
  then have "Emit memory_publish_store marshal fmt now draws m t ev data =
      emit_loop memory_publish_store t ev (marshal (emit_payload fmt now t ev data)) draws 0 ss m"
    by (auto simp: Emit_def memory_publish_store_def mem_GetSubscriptionsForEvent_def ss_def)
  with emit_loop_memory [OF inv assms(2)] j
  have "delivery_view (Emit memory_publish_store marshal fmt now draws m t ev data) (snd (draws j)) =
      Some (pending_delivery (snd (draws j)) t ev (marshal (emit_payload fmt now t ev data)) s)"
    by (auto simp: Let_def ss_def)
  moreover have "build_request w (pending_delivery u t ev body s) = \<lparr>rq_URL = sub_URL s, rq_Body = body,
      rq_ContentType = ''application/json'', rq_Signature = Some (SignHMAC (w_hmac w) (sub_Secret s) body),
      rq_EventType = Some ev\<rparr>" for u body
    using assms(5) by (simp add: build_request_def pending_delivery_def)
  ultimately show ?thesis by (force simp: VerifyHMAC_def SignHMAC_def pending_delivery_def live_status_def)
qed

theorem emitted_requests_verify_witness:
  "\<exists>k wd sig. delivery_view (Emit memory_publish_store (\<lambda>_. ''{}'') (\<lambda>_. ''ts'') 7 (\<lambda>_. (7, ''d2'')) demo_store ''t1'' ''stop.advanced'' ANil) k = Some wd \<and>
    live_status (wd_Status wd) \<and> wd_Attempts wd = 0 \<and>
    build_request demo_worker wd = \<lparr>rq_URL = ''http://u'', rq_Body = ''{}'', rq_ContentType = ''application/json'',
      rq_Signature = Some sig, rq_EventType = Some ''stop.advanced''\<rparr> \<and>
    VerifyHMAC (w_hmac demo_worker) ''k'' ''{}'' sig"
  using emitted_requests_verify [OF demo_reachable, of "\<lambda>_. (7, ''d2'')" "''stop.advanced''" "''t1''"
      "hd (subs demo_store ''t1'')" "\<lambda>_. ''{}''" "\<lambda>_. ''ts''" 7 ANil demo_worker]
  by (simp add: demo_fields fresh_draws_def subscribes_def)

end
